(* ===== verification/Prelude.thy ===== *)
theory Prelude
  imports Complex_Main "HOL-Library.AList" "HOL-Library.Sublist"
    "HOL-Library.List_Lexorder" "HOL-Library.Char_ord"
    "HOL-Library.Code_Target_Numeral"
begin

text \<open>
  The shared vocabulary of the development: Go strings (byte strings, compared byte by byte),
  the parts of the packages \<open>strings\<close> and \<open>strconv\<close> that the program uses, results of
  fallible calls, and association lists for Go maps.

  A Go string is a sequence of bytes, so it is the HOL type \<open>string\<close>. The order on
  strings is Go's: lexicographic on bytes, from \<open>List_Lexorder\<close> and \<open>Char_ord\<close>.
  A fallible call returns \<open>string + 'a\<close>, with \<open>Inl\<close> carrying the error's message.
  A Go map is an association list: the list order stands for the unspecified iteration order.
\<close>

named_theorems go_str \<open>equations of the Go string functions\<close>
named_theorems inv_rules \<open>preservation rules of the invariants\<close>

type_synonym 'a result = "string + 'a"

section \<open>Results\<close>

definition rbind :: "'e + 'a \<Rightarrow> ('a \<Rightarrow> 'e + 'b) \<Rightarrow> 'e + 'b" where
  "rbind r f = (case r of Inl e \<Rightarrow> Inl e | Inr x \<Rightarrow> f x)"

lemma rbind_simps [simp]:
  "rbind (Inl e) f = Inl e"
  "rbind (Inr x) f = f x"
  by (simp_all add: rbind_def)

lemma rbind_Inr_iff: "rbind r f = Inr y \<longleftrightarrow> (\<exists>x. r = Inr x \<and> f x = Inr y)"
  by (cases r) auto

lemma rbind_Inl_iff:
  "rbind r f = Inl e \<longleftrightarrow> r = Inl e \<or> (\<exists>x. r = Inr x \<and> f x = Inl e)"
  by (cases r) auto

lemma rbind_cong [fundef_cong]:
  "r = r' \<Longrightarrow> (\<And>x. r' = Inr x \<Longrightarrow> f x = g x) \<Longrightarrow> rbind r f = rbind r' g"
  by (cases r') auto

text \<open>A guard that returns an error, and a lookup that may fail.\<close>

definition require :: "bool \<Rightarrow> string \<Rightarrow> unit result" where
  "require b e = (if b then Inr () else Inl e)"

definition from_option :: "string \<Rightarrow> 'a option \<Rightarrow> 'a result" where
  "from_option e o' = (case o' of None \<Rightarrow> Inl e | Some x \<Rightarrow> Inr x)"

lemma require_Inr [simp]: "require b e = Inr u \<longleftrightarrow> b"
  by (simp add: require_def)

lemma from_option_Inr [simp]: "from_option e o' = Inr x \<longleftrightarrow> o' = Some x"
  by (auto simp: from_option_def split: option.splits)

text \<open>A Go loop over a slice whose body may return an error: the first error wins.\<close>

fun rfold :: "('b \<Rightarrow> 'a \<Rightarrow> 'e + 'b) \<Rightarrow> 'b \<Rightarrow> 'a list \<Rightarrow> 'e + 'b" where
  "rfold f acc [] = Inr acc"
| "rfold f acc (x # xs) = rbind (f acc x) (\<lambda>acc'. rfold f acc' xs)"

lemma rfold_append:
  "rfold f acc (xs @ ys) = rbind (rfold f acc xs) (\<lambda>acc'. rfold f acc' ys)"
proof (induction xs arbitrary: acc)
  case Nil
  show ?case by simp
next
  case (Cons x xs)
  then show ?case by (cases "f acc x") auto
qed

text \<open>An invariant of the accumulator that every successful step keeps.\<close>

lemma rfold_invariant:
  assumes "rfold f acc xs = Inr r" and "P acc"
    and "\<And>a x a'. x \<in> set xs \<Longrightarrow> P a \<Longrightarrow> f a x = Inr a' \<Longrightarrow> P a'"
  shows "P r"
  using assms
proof (induction xs arbitrary: acc)
  case Nil
  then show ?case by simp
next
  case (Cons x xs)
  from Cons.prems(1) obtain a' where a': "f acc x = Inr a'" "rfold f a' xs = Inr r"
    by (auto simp: rbind_Inr_iff)
  moreover have "P a'" using Cons.prems(2,3) a'(1) by auto
  ultimately show ?case using Cons.IH Cons.prems(3) by (metis list.set_intros(2))
qed

text \<open>What no step of a loop changes, the loop does not change.\<close>

lemma foldl_keeps: "(\<And>a x. g (f a x) = g a) \<Longrightarrow> g (foldl f a xs) = g a"
  by (induction xs arbitrary: a) simp_all

section \<open>Bytes and digits\<close>

abbreviation (input) byte :: "nat \<Rightarrow> char" where
  "byte n \<equiv> char_of n"

definition is_digit :: "char \<Rightarrow> bool" where
  "is_digit c \<longleftrightarrow> 48 \<le> (of_char c :: nat) \<and> (of_char c :: nat) \<le> 57"

definition digit_value :: "char \<Rightarrow> nat" where
  "digit_value c = of_char c - 48"

definition digit_char :: "nat \<Rightarrow> char" where
  "digit_char d = char_of (48 + d)"

lemma digit_char_value [simp]: "d < 10 \<Longrightarrow> digit_value (digit_char d) = d"
  by (simp add: digit_value_def digit_char_def)

lemma is_digit_digit_char [simp]: "d < 10 \<Longrightarrow> is_digit (digit_char d)"
  by (simp add: is_digit_def digit_char_def)

lemma digit_value_less: "is_digit c \<Longrightarrow> digit_value c < 10"
  unfolding is_digit_def digit_value_def by linarith

lemma digit_char_of_value [simp]: "is_digit c \<Longrightarrow> digit_char (digit_value c) = c"
  unfolding is_digit_def digit_value_def digit_char_def by simp

lemma digit_char_0 [simp]: "digit_char 0 = CHR ''0''"
  by code_simp

lemma digit_value_0_iff: "is_digit c \<Longrightarrow> digit_value c = 0 \<longleftrightarrow> c = CHR ''0''"
  by (metis digit_char_0 digit_char_of_value digit_char_value zero_less_numeral)

lemma digit_char_inj: "a < 10 \<Longrightarrow> b < 10 \<Longrightarrow> digit_char a = digit_char b \<longleftrightarrow> a = b"
  by (metis digit_char_value)

lemma digit_value_inj: "is_digit a \<Longrightarrow> is_digit b \<Longrightarrow> digit_value a = digit_value b \<longleftrightarrow> a = b"
  by (metis digit_char_of_value)

lemma digit_less_iff:
  "is_digit a \<Longrightarrow> is_digit b \<Longrightarrow> a < b \<longleftrightarrow> digit_value a < digit_value b"
  unfolding is_digit_def digit_value_def less_char_def by linarith

text \<open>The number a string of decimal digits denotes.\<close>

definition digits_value :: "string \<Rightarrow> nat" where
  "digits_value s = foldl (\<lambda>acc c. 10 * acc + digit_value c) 0 s"

abbreviation all_digits :: "string \<Rightarrow> bool" where
  "all_digits \<equiv> list_all is_digit"

lemma digits_value_foldl:
  "foldl (\<lambda>acc c. 10 * acc + digit_value c) a s = a * 10 ^ length s + digits_value s"
proof (induction s arbitrary: a)
  case Nil
  show ?case by (simp add: digits_value_def)
next
  case (Cons c s)
  have "foldl (\<lambda>acc c. 10 * acc + digit_value c) a (c # s) =
      (10 * a + digit_value c) * 10 ^ length s + digits_value s"
    using Cons.IH [of "10 * a + digit_value c"] by simp
  moreover have "digits_value (c # s) = digit_value c * 10 ^ length s + digits_value s"
    using Cons.IH [of "digit_value c"] by (simp add: digits_value_def)
  ultimately show ?case by (simp add: algebra_simps)
qed

lemma digits_value_Nil [simp]: "digits_value [] = 0"
  by (simp add: digits_value_def)

lemma digits_value_Cons:
  "digits_value (c # s) = digit_value c * 10 ^ length s + digits_value s"
  using digits_value_foldl [of "digit_value c" s] by (simp add: digits_value_def)

lemma digits_value_append:
  "digits_value (s @ t) = digits_value s * 10 ^ length t + digits_value t"
  using digits_value_foldl [of "digits_value s" t] by (simp add: digits_value_def)

lemma digits_value_bound: "all_digits s \<Longrightarrow> digits_value s < 10 ^ length s"
proof (induction s)
  case Nil
  then show ?case by simp
next
  case (Cons c s)
  then have "digit_value c < 10" and "digits_value s < 10 ^ length s"
    by (auto intro: digit_value_less)
  then have "digit_value c * 10 ^ length s + digits_value s < (digit_value c + 1) * 10 ^ length s"
    by simp
  also have "\<dots> \<le> 10 * 10 ^ length s"
    using \<open>digit_value c < 10\<close> by (intro mult_right_mono) auto
  finally show ?case by (simp add: digits_value_Cons)
qed

text \<open>Equal-length digit strings are ordered as the numbers they denote.\<close>

lemma digits_value_inj:
  assumes "length s = length t" "all_digits s" "all_digits t"
  shows "digits_value s = digits_value t \<longleftrightarrow> s = t"
  using assms
proof (induction s t rule: list_induct2)
  case Nil
  show ?case by simp
next
  case (Cons x xs y ys)
  let ?k = "10 ^ length xs :: nat"
  have b: "digits_value xs < ?k" "digits_value ys < ?k"
    using Cons.prems Cons.hyps digits_value_bound [of xs] digits_value_bound [of ys] by auto
  have "digit_value x = digit_value y \<and> digits_value xs = digits_value ys"
    if e: "digit_value x * ?k + digits_value xs = digit_value y * ?k + digits_value ys"
  proof -
    have "(digits_value xs + digit_value x * ?k) div ?k = digit_value x"
      "(digits_value ys + digit_value y * ?k) div ?k = digit_value y"
      using b by (auto simp: div_mult_self1)
    with e show ?thesis by (simp add: add.commute)
  qed
  with Cons show ?case by (auto simp: digits_value_Cons digit_value_inj)
qed

lemma digits_less_iff:
  assumes "length s = length t" "all_digits s" "all_digits t"
  shows "s < t \<longleftrightarrow> digits_value s < digits_value t"
  using assms
proof (induction s t rule: list_induct2)
  case Nil
  show ?case by simp
next
  case (Cons x xs y ys)
  let ?k = "10 ^ length xs :: nat"
  have b: "digits_value xs < ?k" "digits_value ys < ?k"
    using Cons.prems Cons.hyps digits_value_bound [of xs] digits_value_bound [of ys] by auto
  have lt: "digit_value u * ?k + a < digit_value v * ?k + b"
    if "digit_value u < digit_value v" "a < ?k" for u v a b
  proof -
    have "digit_value u * ?k + a < (digit_value u + 1) * ?k" using that by simp
    also have "\<dots> \<le> digit_value v * ?k" using that by (intro mult_right_mono) auto
    finally show ?thesis by simp
  qed
  consider "x = y" | "digit_value x < digit_value y" | "digit_value y < digit_value x"
    using Cons.prems digit_value_inj [of x y] by fastforce
  then show ?case
  proof cases
    case 1
    with Cons show ?thesis by (simp add: digits_value_Cons)
  next
    case 2
    with Cons lt [OF 2 b(1), of "digits_value ys"] show ?thesis
      by (simp add: digits_value_Cons digit_less_iff)
  next
    case 3
    with Cons lt [OF 3 b(2), of "digits_value xs"] show ?thesis
      by (auto simp: digits_value_Cons digit_less_iff)
  qed
qed

section \<open>Printing numbers: strconv\<close>

fun nat_str :: "nat \<Rightarrow> string" where
  "nat_str n = (if n < 10 then [digit_char n] else nat_str (n div 10) @ [digit_char (n mod 10)])"

declare nat_str.simps [simp del]

definition int_str :: "int \<Rightarrow> string" where
  "int_str z = (if z < 0 then CHR ''-'' # nat_str (nat (- z)) else nat_str (nat z))"

lemma nat_str_digits [simp]: "all_digits (nat_str n)"
proof (induction n rule: nat_str.induct)
  case (1 n)
  then show ?case by (subst nat_str.simps) auto
qed

lemma nat_str_value [simp]: "digits_value (nat_str n) = n"
proof (induction n rule: nat_str.induct)
  case (1 n)
  show ?case
  proof (cases "n < 10")
    case True
    then show ?thesis by (simp add: nat_str.simps [of n] digits_value_Cons)
  next
    case False
    with 1 show ?thesis
      by (simp add: nat_str.simps [of n] digits_value_append digits_value_Cons)
  qed
qed

lemma nat_str_nonempty [simp]: "nat_str n \<noteq> []"
  by (subst nat_str.simps) simp

lemma nat_str_0 [simp]: "nat_str 0 = ''0''"
  by (simp add: nat_str.simps)

lemma nat_str_hd: "n \<noteq> 0 \<Longrightarrow> hd (nat_str n) \<noteq> CHR ''0''"
proof (induction n rule: nat_str.induct)
  case (1 n)
  show ?case
  proof (cases "n < 10")
    case True
    then have "digit_char n = digit_char 0 \<longleftrightarrow> n = 0" by (rule digit_char_inj) simp
    with 1 True show ?thesis by (simp add: nat_str.simps [of n])
  next
    case False
    with 1 show ?thesis by (simp add: nat_str.simps [of n] hd_append)
  qed
qed

text \<open>Digit strings without a leading zero are the printed numbers.\<close>

lemma digits_value_pos:
  assumes "all_digits s" "s \<noteq> []" "hd s \<noteq> CHR ''0''"
  shows "10 ^ (length s - 1) \<le> digits_value s"
proof (cases s)
  case Nil
  with assms show ?thesis by simp
next
  case (Cons c t)
  with assms have "is_digit c" "c \<noteq> CHR ''0''" by auto
  then have "1 \<le> digit_value c" using digit_value_0_iff [of c] by linarith
  then have "1 * 10 ^ length t \<le> digit_value c * 10 ^ length t" by (rule mult_right_mono) simp
  then have "10 ^ length t \<le> digit_value c * 10 ^ length t + digits_value t" by linarith
  with Cons show ?thesis by (simp add: digits_value_Cons)
qed

lemma nat_str_length_less_iff: "0 < k \<Longrightarrow> length (nat_str n) \<le> k \<longleftrightarrow> n < 10 ^ k"
proof
  assume "length (nat_str n) \<le> k"
  then have "(10::nat) ^ length (nat_str n) \<le> 10 ^ k" by (rule power_increasing) simp
  with digits_value_bound [OF nat_str_digits, of n] show "n < 10 ^ k"
    by (simp only: nat_str_value)
next
  assume k: "0 < k" and n: "n < 10 ^ k"
  show "length (nat_str n) \<le> k"
  proof (cases "n = 0")
    case True
    with k show ?thesis by simp
  next
    case False
    have "10 ^ (length (nat_str n) - 1) \<le> n"
      using digits_value_pos [OF nat_str_digits nat_str_nonempty nat_str_hd [OF False]] by simp
    with n have "(10::nat) ^ (length (nat_str n) - 1) < 10 ^ k" by linarith
    then have "length (nat_str n) - 1 < k" by (rule power_less_imp_less_exp [rotated]) simp
    then show ?thesis by linarith
  qed
qed

lemma nat_str_unique:
  assumes "all_digits s" "s \<noteq> []" "hd s \<noteq> CHR ''0'' \<or> s = ''0''"
  shows "nat_str (digits_value s) = s"
proof (cases "s = ''0''")
  case True
  then show ?thesis by (simp add: digits_value_Cons digit_value_def)
next
  case False
  with assms have h: "hd s \<noteq> CHR ''0''" by blast
  let ?n = "digits_value s"
  have lo: "10 ^ (length s - 1) \<le> ?n" and hi: "?n < 10 ^ length s"
    using digits_value_pos [OF assms(1,2) h] digits_value_bound [OF assms(1)] by auto
  have ne: "?n \<noteq> 0" using lo by (metis le_zero_eq power_not_zero zero_neq_numeral)
  have "length (nat_str ?n) \<le> length s"
    using hi assms(2) nat_str_length_less_iff [of "length s" ?n] by simp
  moreover have "length s \<le> length (nat_str ?n)"
  proof (rule ccontr)
    assume "\<not> length s \<le> length (nat_str ?n)"
    then have l: "length (nat_str ?n) \<le> length s - 1" "0 < length s - 1"
      by (auto intro: Suc_leI simp: less_diff_conv Suc_le_eq)
         (metis Suc_lessI length_greater_0_conv less_trans_Suc linorder_not_less nat_str_nonempty zero_less_diff less_one)
    then have "?n < 10 ^ (length s - 1)" using nat_str_length_less_iff by blast
    with lo show False by simp
  qed
  ultimately have "length (nat_str ?n) = length s" by simp
  then show ?thesis using digits_value_inj [of "nat_str ?n" s] assms(1) by simp
qed

section \<open>The package strings\<close>

text \<open>
  The UTF-8 encodings of the runes for which \<open>unicode.IsSpace\<close> holds. A valid encoding at the
  front (at the end) of a string is exactly its first (last) rune, so stripping these byte
  sequences is what \<open>strings.TrimSpace\<close> does.
\<close>

definition space_runes :: "string list" where
  "space_runes = map (map char_of) [[9], [10], [11], [12], [13], [32 :: nat], [194, 133], [194, 160],
     [225, 154, 128], [226, 128, 128], [226, 128, 129], [226, 128, 130], [226, 128, 131],
     [226, 128, 132], [226, 128, 133], [226, 128, 134], [226, 128, 135], [226, 128, 136],
     [226, 128, 137], [226, 128, 138], [226, 128, 168], [226, 128, 169], [226, 128, 175],
     [226, 129, 159], [227, 128, 128]]"

function trim_front :: "string list \<Rightarrow> string \<Rightarrow> string" where
  "trim_front ps s =
     (case find (\<lambda>p. p \<noteq> [] \<and> prefix p s) ps of
        None \<Rightarrow> s
      | Some p \<Rightarrow> trim_front ps (drop (length p) s))"
  by pat_completeness auto
termination
proof (relation "measure (\<lambda>(ps, s). length s)")
  fix ps :: "string list" and s p
  assume "find (\<lambda>p. p \<noteq> [] \<and> prefix p s) ps = Some p"
  then have "p \<noteq> []" "prefix p s" by (auto simp: find_Some_iff)
  then show "((ps, drop (length p) s), (ps, s)) \<in> measure (\<lambda>(ps, s). length s)"
    by (cases p; cases s) auto
qed simp

declare trim_front.simps [simp del]

definition trim_space :: "string \<Rightarrow> string" where
  "trim_space s = rev (trim_front (map rev space_runes) (rev (trim_front space_runes s)))"

lemma trim_front_id:
  "(\<And>p. p \<in> set ps \<Longrightarrow> p \<noteq> [] \<Longrightarrow> \<not> prefix p s) \<Longrightarrow> trim_front ps s = s"
  by (subst trim_front.simps) (auto split: option.splits simp: find_Some_iff dest: nth_mem)

lemma trim_front_no_prefix:
  "p \<in> set ps \<Longrightarrow> p \<noteq> [] \<Longrightarrow> \<not> prefix p (trim_front ps s)"
proof (induction ps s rule: trim_front.induct)
  case (1 ps s)
  show ?case
  proof (cases "find (\<lambda>p. p \<noteq> [] \<and> prefix p s) ps")
    case None
    moreover from None 1 have "\<not> prefix p s" by (auto simp: find_None_iff)
    ultimately show ?thesis by (subst trim_front.simps) simp
  next
    case (Some q)
    with 1 show ?thesis by (subst trim_front.simps) auto
  qed
qed

lemma trim_front_suffix: "suffix (trim_front ps s) s"
proof (induction ps s rule: trim_front.induct)
  case (1 ps s)
  show ?case
  proof (cases "find (\<lambda>p. p \<noteq> [] \<and> prefix p s) ps")
    case None
    then show ?thesis by (subst trim_front.simps) simp
  next
    case (Some q)
    with 1 have "suffix (trim_front ps (drop (length q) s)) (drop (length q) s)" by simp
    then have "suffix (trim_front ps (drop (length q) s)) s"
      using suffix_drop suffix_order.trans by blast
    with Some show ?thesis by (subst trim_front.simps) simp
  qed
qed

lemma trim_front_subset: "set (trim_front ps s) \<subseteq> set s"
  using trim_front_suffix [of ps s] by (rule set_mono_suffix)

lemma trim_space_no_front: "p \<in> set space_runes \<Longrightarrow> p \<noteq> [] \<Longrightarrow> \<not> prefix p (trim_space s)"
proof
  assume p: "p \<in> set space_runes" "p \<noteq> []" "prefix p (trim_space s)"
  let ?u = "trim_front space_runes s"
  have "suffix (trim_front (map rev space_runes) (rev ?u)) (rev ?u)" by (rule trim_front_suffix)
  then have "prefix (trim_space s) ?u" by (simp add: trim_space_def suffix_to_prefix)
  with p have "prefix p ?u" using prefix_order.trans by blast
  with p trim_front_no_prefix show False by blast
qed

lemma trim_space_idem [simp]: "trim_space (trim_space s) = trim_space s"
proof -
  have "trim_front space_runes (trim_space s) = trim_space s"
    by (rule trim_front_id) (use trim_space_no_front in blast)
  moreover have "trim_front (map rev space_runes) (rev (trim_space s)) = rev (trim_space s)"
    unfolding trim_space_def rev_rev_ident
    by (rule trim_front_id) (rule trim_front_no_prefix)
  ultimately show ?thesis by (simp add: trim_space_def)
qed

text \<open>A string of printable ASCII bytes has nothing to trim.\<close>

definition printable :: "char \<Rightarrow> bool" where
  "printable c \<longleftrightarrow> 33 \<le> (of_char c :: nat) \<and> (of_char c :: nat) \<le> 126"

lemma space_runes_not_printable:
  "list_all (\<lambda>p. p \<noteq> [] \<and> list_all (\<lambda>c. \<not> printable c) p) space_runes"
  by code_simp

lemma trim_space_printable [simp]:
  assumes "list_all printable s"
  shows "trim_space s = s"
proof -
  have "\<not> prefix p s" "\<not> prefix (rev p) (rev s)" if "p \<in> set space_runes" for p
  proof -
    from that have p: "p \<noteq> []" "\<forall>c \<in> set p. \<not> printable c"
      using space_runes_not_printable by (auto simp: list_all_iff)
    have "\<not> set p \<subseteq> set s" using p assms by (cases p) (auto simp: list_all_iff)
    then show "\<not> prefix p s" "\<not> prefix (rev p) (rev s)"
      using set_mono_prefix [of p s] set_mono_prefix [of "rev p" "rev s"] by auto
  qed
  then have "trim_front space_runes s = s" "trim_front (map rev space_runes) (rev s) = rev s"
    by (auto intro!: trim_front_id)
  then show ?thesis by (simp add: trim_space_def)
qed

lemma trim_space_Nil [simp]: "trim_space [] = []"
  by (rule trim_space_printable) simp

lemma digit_printable: "is_digit c \<Longrightarrow> printable c"
  unfolding is_digit_def printable_def by linarith

text \<open>\<open>ToUpper\<close>, \<open>ToLower\<close> and \<open>EqualFold\<close> on ASCII letters; other bytes are kept.\<close>

definition upper_char :: "char \<Rightarrow> char" where
  "upper_char c = (if 97 \<le> (of_char c :: nat) \<and> (of_char c :: nat) \<le> 122
     then char_of ((of_char c :: nat) - 32) else c)"

definition lower_char :: "char \<Rightarrow> char" where
  "lower_char c = (if 65 \<le> (of_char c :: nat) \<and> (of_char c :: nat) \<le> 90
     then char_of ((of_char c :: nat) + 32) else c)"

definition to_upper :: "string \<Rightarrow> string" where
  "to_upper s = map upper_char s"

definition to_lower :: "string \<Rightarrow> string" where
  "to_lower s = map lower_char s"

definition equal_fold :: "string \<Rightarrow> string \<Rightarrow> bool" where
  "equal_fold s t \<longleftrightarrow> to_lower s = to_lower t"

lemma upper_char_idem [simp]: "upper_char (upper_char c) = upper_char c"
  by (auto simp: upper_char_def)

lemma to_upper_idem [simp]: "to_upper (to_upper s) = to_upper s"
  by (simp add: to_upper_def)

lemma length_to_upper [simp]: "length (to_upper s) = length s"
  by (simp add: to_upper_def)

lemma to_upper_Nil_iff [simp]: "to_upper s = [] \<longleftrightarrow> s = []"
  by (simp add: to_upper_def)

lemma equal_fold_refl [simp]: "equal_fold s s"
  by (simp add: equal_fold_def)

lemma equal_fold_sym: "equal_fold s t \<Longrightarrow> equal_fold t s"
  by (simp add: equal_fold_def)

lemma equal_fold_trans: "equal_fold s t \<Longrightarrow> equal_fold t u \<Longrightarrow> equal_fold s u"
  by (simp add: equal_fold_def)

text \<open>\<open>Split\<close> at one separator byte, \<open>TrimLeft\<close> and \<open>TrimRight\<close> of one byte, \<open>Join\<close>.\<close>

fun split_on :: "char \<Rightarrow> string \<Rightarrow> string list" where
  "split_on d [] = [[]]"
| "split_on d (c # s) =
     (if c = d then [] # split_on d s
      else (case split_on d s of [] \<Rightarrow> [[c]] | p # ps \<Rightarrow> (c # p) # ps))"

definition trim_left_char :: "char \<Rightarrow> string \<Rightarrow> string" where
  "trim_left_char d s = dropWhile (\<lambda>c. c = d) s"

definition trim_right_char :: "char \<Rightarrow> string \<Rightarrow> string" where
  "trim_right_char d s = rev (dropWhile (\<lambda>c. c = d) (rev s))"

fun join :: "string \<Rightarrow> string list \<Rightarrow> string" where
  "join sep [] = []"
| "join sep [x] = x"
| "join sep (x # y # xs) = x @ sep @ join sep (y # xs)"

lemma split_on_nonempty [simp]: "split_on d s \<noteq> []"
  by (induction s) (auto split: list.splits)

lemma split_on_no_sep: "d \<notin> set s \<Longrightarrow> split_on d s = [s]"
  by (induction s) auto

lemma split_on_append: "d \<notin> set s \<Longrightarrow> split_on d (s @ d # t) = s # split_on d t"
  by (induction s) auto

lemma join_split_on: "join [d] (split_on d s) = s"
proof (induction s)
  case Nil
  show ?case by simp
next
  case (Cons c s)
  obtain p ps where p: "split_on d s = p # ps" by (meson neq_Nil_conv split_on_nonempty)
  with Cons show ?case by (cases ps) auto
qed

section \<open>Maps as association lists\<close>

lemma map_of_update [simp]: "map_of (AList.update k v m) = (map_of m)(k \<mapsto> v)"
  by (rule ext) (simp add: update_conv)

lemma distinct_keys_update [inv_rules]:
  "distinct (map fst m) \<Longrightarrow> distinct (map fst (AList.update k v m))"
  by (rule distinct_update)

lemma keys_update: "set (map fst (AList.update k v m)) = insert k (set (map fst m))"
  by (metis dom_map_of_conv_image_fst list.set_map map_of_update dom_fun_upd option.distinct(1))

end
