(* ===== verification/Calendar.thy ===== *)
theory Calendar
  imports Prelude
begin

text \<open>
  The part of Go's package \<open>time\<close> the program uses: civil dates in the layout
  \<open>2006-01-02\<close> (\<open>time.DateOnly\<close>), their arithmetic, and instants.

  A date at midnight UTC is its day number, counted from 0000-01-01 in the proleptic Gregorian
  calendar, so that \<open>AddDate(0, 0, n)\<close> is addition. An instant is a number of nanoseconds since
  the Unix epoch. The main results are that parsing and formatting are inverse, and that on
  four-digit years the byte order of formatted dates is the order of the days: the program
  compares dates as strings throughout.
\<close>

named_theorems cal \<open>calendar equations\<close>

type_synonym day = int
type_synonym instant = int

section \<open>Civil dates\<close>

definition leap :: "int \<Rightarrow> bool" where
  "leap y \<longleftrightarrow> y mod 4 = 0 \<and> (y mod 100 \<noteq> 0 \<or> y mod 400 = 0)"

definition days_in :: "int \<Rightarrow> int \<Rightarrow> int" where
  "days_in y m = (if m = 2 then (if leap y then 29 else 28)
     else if m = 4 \<or> m = 6 \<or> m = 9 \<or> m = 11 then 30 else 31)"

definition days_before_year :: "int \<Rightarrow> int" where
  "days_before_year y = 365 * y + (y + 3) div 4 - (y + 99) div 100 + (y + 399) div 400"

definition month_start :: "int \<Rightarrow> int" where
  "month_start m = (if m \<le> 1 then 0 else if m = 2 then 31 else if m = 3 then 59
     else if m = 4 then 90 else if m = 5 then 120 else if m = 6 then 151
     else if m = 7 then 181 else if m = 8 then 212 else if m = 9 then 243
     else if m = 10 then 273 else if m = 11 then 304 else if m = 12 then 334 else 365)"

definition days_before_month :: "int \<Rightarrow> int \<Rightarrow> int" where
  "days_before_month y m = month_start m + (if 2 < m \<and> leap y then 1 else 0)"

definition valid_civil :: "int \<Rightarrow> int \<Rightarrow> int \<Rightarrow> bool" where
  "valid_civil y m d \<longleftrightarrow> 1 \<le> m \<and> m \<le> 12 \<and> 1 \<le> d \<and> d \<le> days_in y m"

definition day_number :: "int \<Rightarrow> int \<Rightarrow> int \<Rightarrow> day" where
  "day_number y m d = days_before_year y + days_before_month y m + d - 1"

lemma div_step:
  fixes y k :: int
  assumes "0 < k" "j = k - 1"
  shows "(y + j) div k = y div k + (if y mod k = 0 then 0 else 1)"
proof -
  define q r where "q = y div k" and "r = y mod k"
  have y: "y = r + q * k" and r: "0 \<le> r" "r < k"
    using assms by (auto simp: q_def r_def)
  have "(r + j) div k = (if r = 0 then 0 else 1)"
    using r assms by (auto intro: int_div_pos_eq [where r = "r - 1"])
  moreover have "(y + j) div k = q + (r + j) div k"
    using assms div_mult_self1 [of k "r + j" q] by (simp add: y algebra_simps)
  ultimately show ?thesis by (simp add: r_def q_def)
qed

lemma month_cases:
  assumes "1 \<le> m" "m \<le> (12 :: int)"
  obtains "m = 1" | "m = 2" | "m = 3" | "m = 4" | "m = 5" | "m = 6" | "m = 7"
    | "m = 8" | "m = 9" | "m = 10" | "m = 11" | "m = 12"
proof -
  have "m = 1 \<or> m = 2 \<or> m = 3 \<or> m = 4 \<or> m = 5 \<or> m = 6 \<or> m = 7 \<or> m = 8 \<or> m = 9 \<or>
      m = 10 \<or> m = 11 \<or> m = 12"
    using assms by presburger
  then show ?thesis using that by blast
qed

lemma days_before_year_Suc:
  "days_before_year (y + 1) = days_before_year y + (if leap y then 366 else 365)"
proof -
  have old: "(y + 3) div 4 = y div 4 + (if y mod 4 = 0 then 0 else 1)"
    "(y + 99) div 100 = y div 100 + (if y mod 100 = 0 then 0 else 1)"
    "(y + 399) div 400 = y div 400 + (if y mod 400 = 0 then 0 else 1)"
    by (rule div_step; simp)+
  have new: "(y + 1 + 3) div 4 = y div 4 + 1" "(y + 1 + 99) div 100 = y div 100 + 1"
    "(y + 1 + 399) div 400 = y div 400 + 1"
    by simp_all
  have "y mod 400 = 0 \<Longrightarrow> y mod 100 = 0" "y mod 100 = 0 \<Longrightarrow> y mod 4 = 0"
    using dvd_trans [of 100 400 y] dvd_trans [of 4 100 y] unfolding mod_eq_0_iff_dvd by simp_all
  then show ?thesis
    unfolding days_before_year_def new old leap_def by (auto simp: algebra_simps)
qed

lemma days_before_year_step:
  "days_before_year y + 365 \<le> days_before_year (y + 1)"
  "days_before_year (y + 1) \<le> days_before_year y + 366"
  by (auto simp: days_before_year_Suc)

lemma days_before_year_mono: "y < z \<Longrightarrow> days_before_year (y + 1) \<le> days_before_year z"
proof (induction z rule: int_gr_induct)
  case base
  then show ?case by simp
next
  case (step i)
  with days_before_year_step(1) [of i] show ?case by linarith
qed

text \<open>The year of a day: a guess from the mean length of a year, corrected.\<close>

function find_year :: "day \<Rightarrow> int \<Rightarrow> int" where
  "find_year n y = (if n < days_before_year y then find_year n (y - 1)
     else if days_before_year (y + 1) \<le> n then find_year n (y + 1) else y)"
  by pat_completeness auto
termination
proof (relation "measure (\<lambda>(n, y). if n < days_before_year y then nat (days_before_year y - n)
    else if days_before_year (y + 1) \<le> n then nat (n - days_before_year y) else 0)", goal_cases)
  case 1
  show ?case by simp
next
  case (2 n y)
  with days_before_year_step(1) [of "y - 1"] show ?case by auto
next
  case (3 n y)
  with days_before_year_step(1) [of y] show ?case by auto
qed

declare find_year.simps [simp del]

lemma find_year_bounds:
  "days_before_year (find_year n y) \<le> n \<and> n < days_before_year (find_year n y + 1)"
proof (induction n y rule: find_year.induct)
  case (1 n y)
  then show ?case by (subst (1 2) find_year.simps) auto
qed

definition year_of :: "day \<Rightarrow> int" where
  "year_of n = find_year n (400 * n div 146097)"

lemma year_of_unique:
  assumes "days_before_year y \<le> n" "n < days_before_year (y + 1)"
  shows "year_of n = y"
proof -
  from find_year_bounds have b: "days_before_year (year_of n) \<le> n" "n < days_before_year (year_of n + 1)"
    by (auto simp: year_of_def)
  show ?thesis
    using days_before_year_mono [of y "year_of n"] days_before_year_mono [of "year_of n" y] assms b
    by linarith
qed

definition month_of :: "int \<Rightarrow> int \<Rightarrow> int" where
  "month_of y r = (if r < days_before_month y 2 then 1 else if r < days_before_month y 3 then 2
     else if r < days_before_month y 4 then 3 else if r < days_before_month y 5 then 4
     else if r < days_before_month y 6 then 5 else if r < days_before_month y 7 then 6
     else if r < days_before_month y 8 then 7 else if r < days_before_month y 9 then 8
     else if r < days_before_month y 10 then 9 else if r < days_before_month y 11 then 10
     else if r < days_before_month y 12 then 11 else 12)"

definition civil_of :: "day \<Rightarrow> int \<times> int \<times> int" where
  "civil_of n = (let y = year_of n; r = n - days_before_year y; m = month_of y r
     in (y, m, r - days_before_month y m + 1))"

lemmas month_defs = days_before_month_def month_start_def days_in_def

lemma month_of_correct:
  assumes "0 \<le> r" "r < (if leap y then 366 else 365)"
  shows "1 \<le> month_of y r \<and> month_of y r \<le> 12 \<and> days_before_month y (month_of y r) \<le> r \<and>
    r < days_before_month y (month_of y r) + days_in y (month_of y r)"
  using assms by (cases "leap y") (auto simp: month_of_def month_defs)

lemma month_of_offset:
  assumes "valid_civil y m d"
  shows "month_of y (days_before_month y m + d - 1) = m"
proof -
  from assms have "1 \<le> m" "m \<le> 12" by (auto simp: valid_civil_def)
  then show ?thesis
    by (rule month_cases; use assms in
        \<open>auto simp: valid_civil_def month_of_def month_defs split: if_splits\<close>)
qed

lemma day_in_year:
  assumes "valid_civil y m d"
  shows "0 \<le> days_before_month y m + d - 1"
    "days_before_month y m + d - 1 < (if leap y then 366 else 365)"
proof -
  from assms have m: "1 \<le> m" "m \<le> 12" by (auto simp: valid_civil_def)
  show "0 \<le> days_before_month y m + d - 1"
    using assms by (auto simp: valid_civil_def month_defs)
  from m show "days_before_month y m + d - 1 < (if leap y then 366 else 365)"
    by (rule month_cases; use assms in \<open>auto simp: valid_civil_def month_defs split: if_splits\<close>)
qed

theorem civil_of_day_number:
  assumes "valid_civil y m d"
  shows "civil_of (day_number y m d) = (y, m, d)"
proof -
  have "year_of (day_number y m d) = y"
    using day_in_year [OF assms] days_before_year_Suc [of y]
    by (intro year_of_unique) (auto simp: day_number_def split: if_splits)
  with month_of_offset [OF assms] show ?thesis
    by (simp add: civil_of_def day_number_def Let_def algebra_simps)
qed

theorem day_number_civil_of:
  assumes "civil_of n = (y, m, d)"
  shows "valid_civil y m d" "day_number y m d = n"
proof -
  let ?r = "n - days_before_year (year_of n)"
  have "0 \<le> ?r" "?r < (if leap (year_of n) then 366 else 365)"
    using find_year_bounds [of n "400 * n div 146097"] days_before_year_Suc [of "year_of n"]
    by (auto simp: year_of_def)
  from month_of_correct [OF this] assms
  show "valid_civil y m d" "day_number y m d = n"
    by (auto simp: civil_of_def Let_def valid_civil_def day_number_def)
qed

section \<open>Parsing and formatting\<close>

definition pad :: "nat \<Rightarrow> nat \<Rightarrow> string" where
  "pad w n = replicate (w - length (nat_str n)) (CHR ''0'') @ nat_str n"

definition pad_int :: "nat \<Rightarrow> int \<Rightarrow> string" where
  "pad_int w z = (if z < 0 then CHR ''-'' # pad w (nat (- z)) else pad w (nat z))"

text \<open>\<open>t.Format(time.DateOnly)\<close>\<close>

definition format_date :: "day \<Rightarrow> string" where
  "format_date n = (case civil_of n of (y, m, d) \<Rightarrow>
     pad_int 4 y @ ''-'' @ pad_int 2 m @ ''-'' @ pad_int 2 d)"

text \<open>\<open>time.Parse(time.DateOnly, s)\<close>: four, two and two digits, and a day of that month.\<close>

definition parse_date :: "string \<Rightarrow> day option" where
  "parse_date s =
     (let ys = take 4 s; ms = take 2 (drop 5 s); ds = drop 8 s
      in if length s = 10 \<and> s ! 4 = CHR ''-'' \<and> s ! 7 = CHR ''-''
            \<and> all_digits ys \<and> all_digits ms \<and> all_digits ds
         then (let y = int (digits_value ys); m = int (digits_value ms); d = int (digits_value ds)
               in if valid_civil y m d then Some (day_number y m d) else None)
         else None)"

text \<open>The days whose year has four digits: the range in which formatting can be undone.\<close>

definition four_digit :: "day \<Rightarrow> bool" where
  "four_digit n \<longleftrightarrow> days_before_year 0 \<le> n \<and> n < days_before_year 10000"

lemma four_digit_bounds: "four_digit n \<longleftrightarrow> 0 \<le> n \<and> n < 3652425"
  by (simp add: four_digit_def days_before_year_def)

lemma four_digit_civil:
  assumes "civil_of n = (y, m, d)"
  shows "four_digit n \<longleftrightarrow> 0 \<le> y \<and> y < 10000"
proof -
  have "days_before_year y \<le> n" "n < days_before_year (y + 1)"
    using assms find_year_bounds [of n "400 * n div 146097"]
    by (auto simp: civil_of_def Let_def year_of_def)
  with days_before_year_mono [of y 0] days_before_year_mono [of "-1" y]
    days_before_year_mono [of y 10000] days_before_year_mono [of 9999 y]
  show ?thesis unfolding four_digit_def by (cases "0 \<le> y"; cases "y < 10000") auto
qed

lemma digits_value_replicate_0 [simp]:
  "digits_value (replicate k (CHR ''0'') @ s) = digits_value s"
proof (induction k)
  case 0
  show ?case by simp
next
  case (Suc k)
  have "digit_value CHR ''0'' = 0" by code_simp
  with Suc show ?case by (simp add: digits_value_Cons)
qed

lemma is_digit_0 [simp]: "is_digit CHR ''0''"
  by code_simp

lemma pad_facts:
  assumes "0 < w" "n < 10 ^ w"
  shows "length (pad w n) = w" "all_digits (pad w n)" "digits_value (pad w n) = n"
proof -
  have "length (nat_str n) \<le> w" using assms nat_str_length_less_iff by blast
  then show "length (pad w n) = w" by (simp add: pad_def)
  have "all_digits (replicate k CHR ''0'')" for k by (induction k) auto
  then show "all_digits (pad w n)" by (simp add: pad_def)
  show "digits_value (pad w n) = n" by (simp add: pad_def)
qed

lemma pad_unique:
  assumes "0 < w" "length s = w" "all_digits s"
  shows "pad w (digits_value s) = s"
proof -
  have "digits_value s < 10 ^ w" using digits_value_bound [OF assms(3)] assms(2) by simp
  from pad_facts [OF assms(1) this] assms show ?thesis
    by (intro digits_value_inj [THEN iffD1]) auto
qed

text \<open>A formatted date of a four-digit year, taken apart.\<close>

lemma format_date_parts:
  assumes "four_digit n"
  obtains y m d where "civil_of n = (y, m, d)" "valid_civil y m d" "0 \<le> y" "y < 10000"
    "format_date n = pad 4 (nat y) @ ''-'' @ pad 2 (nat m) @ ''-'' @ pad 2 (nat d)"
    "length (pad 4 (nat y)) = 4" "length (pad 2 (nat m)) = 2" "length (pad 2 (nat d)) = 2"
    "all_digits (pad 4 (nat y))" "all_digits (pad 2 (nat m))" "all_digits (pad 2 (nat d))"
    "digits_value (pad 4 (nat y)) = nat y" "digits_value (pad 2 (nat m)) = nat m"
    "digits_value (pad 2 (nat d)) = nat d"
proof -
  obtain y m d where c: "civil_of n = (y, m, d)" by (cases "civil_of n")
  have v: "valid_civil y m d" using c by (rule day_number_civil_of)
  have y: "0 \<le> y" "y < 10000" using four_digit_civil [OF c] assms by auto
  have m: "1 \<le> m" "m \<le> 12" and d: "1 \<le> d" "d \<le> 31"
    using v by (auto simp: valid_civil_def days_in_def split: if_splits)
  have "nat y < 10 ^ 4" "nat m < 10 ^ 2" "nat d < 10 ^ 2" using y m d by auto
  note parts = pad_facts [OF zero_less_numeral this(1)] pad_facts [OF zero_less_numeral this(2)]
    pad_facts [OF zero_less_numeral this(3)]
  have f: "format_date n = pad 4 (nat y) @ ''-'' @ pad 2 (nat m) @ ''-'' @ pad 2 (nat d)"
    using y m d by (simp add: format_date_def c pad_int_def)
  show thesis
    by (rule that [OF c v y f parts(1,4,7) parts(2,5,8) parts(3,6,9)])
qed

theorem parse_format_date: "four_digit n \<Longrightarrow> parse_date (format_date n) = Some n"
proof -
  assume "four_digit n"
  then obtain y m d where c: "civil_of n = (y, m, d)" and v: "valid_civil y m d" "0 \<le> y"
    and f: "format_date n = pad 4 (nat y) @ ''-'' @ pad 2 (nat m) @ ''-'' @ pad 2 (nat d)"
      "length (pad 4 (nat y)) = 4" "length (pad 2 (nat m)) = 2" "length (pad 2 (nat d)) = 2"
      "all_digits (pad 4 (nat y))" "all_digits (pad 2 (nat m))" "all_digits (pad 2 (nat d))"
      "digits_value (pad 4 (nat y)) = nat y" "digits_value (pad 2 (nat m)) = nat m"
      "digits_value (pad 2 (nat d)) = nat d"
    by (rule format_date_parts)
  have "1 \<le> m" "1 \<le> d" using v by (auto simp: valid_civil_def)
  moreover have "day_number y m d = n" using c by (rule day_number_civil_of)
  ultimately show ?thesis
    using v f(2-) by (simp add: parse_date_def f(1) nth_append)
qed

theorem format_parse_date: "parse_date s = Some n \<Longrightarrow> format_date n = s \<and> four_digit n"
proof -
  assume a: "parse_date s = Some n"
  let ?ys = "take 4 s" and ?ms = "take 2 (drop 5 s)" and ?ds = "drop 8 s"
  let ?y = "int (digits_value ?ys)" and ?m = "int (digits_value ?ms)" and ?d = "int (digits_value ?ds)"
  from a have len: "length s = 10" "s ! 4 = CHR ''-''" "s ! 7 = CHR ''-''"
    and dg: "all_digits ?ys" "all_digits ?ms" "all_digits ?ds"
    and v: "valid_civil ?y ?m ?d" and n: "n = day_number ?y ?m ?d"
    by (auto simp: parse_date_def Let_def split: if_splits)
  have c: "civil_of n = (?y, ?m, ?d)" using civil_of_day_number [OF v] n by simp
  have "s = take 4 s @ s ! 4 # take 2 (drop 5 s) @ s ! 7 # drop 8 s"
    using len(1) id_take_nth_drop [of 4 s] id_take_nth_drop [of 2 "drop 5 s"] by simp
  then have s: "s = ?ys @ ''-'' @ ?ms @ ''-'' @ ?ds" using len by simp
  have p: "pad 4 (digits_value ?ys) = ?ys" "pad 2 (digits_value ?ms) = ?ms" "pad 2 (digits_value ?ds) = ?ds"
    using len(1) dg by (auto intro!: pad_unique)
  have "format_date n = pad 4 (digits_value ?ys) @ ''-'' @ pad 2 (digits_value ?ms) @ ''-'' @ pad 2 (digits_value ?ds)"
    by (simp add: format_date_def c pad_int_def)
  also have "\<dots> = s" using s by (simp only: p)
  finally have "format_date n = s" .
  moreover have "digits_value ?ys < 10 ^ 4" using digits_value_bound [OF dg(1)] len(1) by simp
  then have "four_digit n" using four_digit_civil [OF c] by simp
  ultimately show ?thesis ..
qed

section \<open>The order of dates\<close>

lemma less_append_Cons_same:
  "length a = length a' \<Longrightarrow> a @ x # b < a' @ x # b' \<longleftrightarrow> a @ b < a' @ (b' :: string)"
  by (induction a a' rule: list_induct2) auto

lemma civil_key_mono:
  assumes "valid_civil y m d" "valid_civil y' m' d'"
  shows "y * 10000 + m * 100 + d < y' * 10000 + m' * 100 + d' \<longleftrightarrow>
    day_number y m d < day_number y' m' d'"
proof -
  have imp: "day_number y m d < day_number y' m' d'"
    if v: "valid_civil y m d" "valid_civil y' m' d'"
      and k: "y < y' \<or> y = y' \<and> (m < m' \<or> m = m' \<and> d < d')" for y m d y' m' d'
  proof -
    have mono: "days_before_month y m + days_in y m \<le> days_before_month y m'"
      if "m < m'" "1 \<le> m" "m' \<le> 12" for y m m'
    proof -
      have "1 \<le> m" "m \<le> 12" using that by auto
      then show ?thesis by (rule month_cases; use that in \<open>auto simp: month_defs\<close>)
    qed
    show ?thesis
      using k day_in_year [OF v(1)] day_in_year [OF v(2)] days_before_year_Suc [of y]
        days_before_year_mono [of y y'] v mono [of m m' y]
      by (auto simp: day_number_def valid_civil_def split: if_splits)
  qed
  have b: "1 \<le> m" "m \<le> 12" "1 \<le> d" "d \<le> 31" "1 \<le> m'" "m' \<le> 12" "1 \<le> d'" "d' \<le> 31"
    using assms by (auto simp: valid_civil_def days_in_def split: if_splits)
  consider "y < y' \<or> y = y' \<and> (m < m' \<or> m = m' \<and> d < d')"
    | "y' < y \<or> y' = y \<and> (m' < m \<or> m' = m \<and> d' < d)" | "y = y'" "m = m'" "d = d'"
    by linarith
  then show ?thesis
  proof cases
    case 1
    with imp [OF assms 1] b show ?thesis by auto
  next
    case 2
    with imp [OF assms(2,1) 2] b show ?thesis by auto
  next
    case 3
    then show ?thesis by simp
  qed
qed

theorem format_date_less_iff:
  assumes "four_digit a" "four_digit b"
  shows "format_date a < format_date b \<longleftrightarrow> a < b"
proof -
  obtain y m d where A: "civil_of a = (y, m, d)" "valid_civil y m d" "0 \<le> y"
    "format_date a = pad 4 (nat y) @ ''-'' @ pad 2 (nat m) @ ''-'' @ pad 2 (nat d)"
    "length (pad 4 (nat y)) = 4" "length (pad 2 (nat m)) = 2" "length (pad 2 (nat d)) = 2"
    "all_digits (pad 4 (nat y))" "all_digits (pad 2 (nat m))" "all_digits (pad 2 (nat d))"
    "digits_value (pad 4 (nat y)) = nat y" "digits_value (pad 2 (nat m)) = nat m"
    "digits_value (pad 2 (nat d)) = nat d"
    by (rule format_date_parts [OF assms(1)])
  obtain y' m' d' where B: "civil_of b = (y', m', d')" "valid_civil y' m' d'" "0 \<le> y'"
    "format_date b = pad 4 (nat y') @ ''-'' @ pad 2 (nat m') @ ''-'' @ pad 2 (nat d')"
    "length (pad 4 (nat y')) = 4" "length (pad 2 (nat m')) = 2" "length (pad 2 (nat d')) = 2"
    "all_digits (pad 4 (nat y'))" "all_digits (pad 2 (nat m'))" "all_digits (pad 2 (nat d'))"
    "digits_value (pad 4 (nat y')) = nat y'" "digits_value (pad 2 (nat m')) = nat m'"
    "digits_value (pad 2 (nat d')) = nat d'"
    by (rule format_date_parts [OF assms(2)])
  let ?s = "pad 4 (nat y) @ pad 2 (nat m) @ pad 2 (nat d)"
  let ?t = "pad 4 (nat y') @ pad 2 (nat m') @ pad 2 (nat d')"
  have md: "1 \<le> m" "1 \<le> d" "1 \<le> m'" "1 \<le> d'" using A(2) B(2) by (auto simp: valid_civil_def)
  have "format_date a < format_date b \<longleftrightarrow> ?s < ?t"
    using A(5-7) B(5-7) less_append_Cons_same [of "pad 4 (nat y)" "pad 4 (nat y')"]
      less_append_Cons_same [of "pad 4 (nat y) @ pad 2 (nat m)" "pad 4 (nat y') @ pad 2 (nat m')"]
    by (simp add: A(4) B(4))
  also have "\<dots> \<longleftrightarrow> digits_value ?s < digits_value ?t"
    by (rule digits_less_iff) (use A(5-10) B(5-10) in simp_all)
  also have "\<dots> \<longleftrightarrow> y * 10000 + m * 100 + d < y' * 10000 + m' * 100 + d'"
    using A(3,5-7) B(3,5-7) md
    by (simp add: digits_value_append A(11-13) B(11-13) algebra_simps) linarith
  also have "\<dots> \<longleftrightarrow> a < b"
    using civil_key_mono [OF A(2) B(2)] day_number_civil_of [OF A(1)] day_number_civil_of [OF B(1)]
    by simp
  finally show ?thesis .
qed

text \<open>The same facts for strings that parse.\<close>

lemma parsed_less_iff:
  "parse_date s = Some a \<Longrightarrow> parse_date t = Some b \<Longrightarrow> s < t \<longleftrightarrow> a < b"
  using format_parse_date [of s a] format_parse_date [of t b] format_date_less_iff [of a b] by auto

lemma parsed_le_iff:
  "parse_date s = Some a \<Longrightarrow> parse_date t = Some b \<Longrightarrow> s \<le> t \<longleftrightarrow> a \<le> b"
  using parsed_less_iff [of t b s a] by (auto simp: not_less [symmetric])

lemma parsed_eq_iff:
  "parse_date s = Some a \<Longrightarrow> parse_date t = Some b \<Longrightarrow> s = t \<longleftrightarrow> a = b"
  by (metis format_parse_date option.inject)

lemma parsed_nonempty: "parse_date s = Some a \<Longrightarrow> s \<noteq> []"
  by (auto simp: parse_date_def)

lemma format_date_inj: "four_digit a \<Longrightarrow> four_digit b \<Longrightarrow> format_date a = format_date b \<longleftrightarrow> a = b"
  by (metis option.inject parse_format_date)

lemma format_date_nonempty [simp]: "format_date n \<noteq> []"
  by (simp add: format_date_def split: prod.splits)

lemma four_digit_between: "four_digit a \<Longrightarrow> four_digit b \<Longrightarrow> a \<le> n \<Longrightarrow> n \<le> b \<Longrightarrow> four_digit n"
  by (simp add: four_digit_bounds)

section \<open>Instants\<close>

definition ns_per_second :: int where
  "ns_per_second = 1000000000"

definition ns_per_day :: int where
  "ns_per_day = 86400 * ns_per_second"

text \<open>1970-01-01 as a day number.\<close>

definition unix_epoch_day :: day where
  "unix_epoch_day = 719528"

text \<open>The UTC date of an instant, and midnight UTC of a date.\<close>

definition day_of :: "instant \<Rightarrow> day" where
  "day_of t = t div ns_per_day + unix_epoch_day"

definition day_start :: "day \<Rightarrow> instant" where
  "day_start d = (d - unix_epoch_day) * ns_per_day"

lemma ns_per_day_pos [simp]: "0 < ns_per_day" "ns_per_day \<noteq> 0"
  by (simp_all add: ns_per_day_def ns_per_second_def)

lemma day_of_day_start [simp]: "day_of (day_start d) = d"
  by (simp add: day_of_def day_start_def)

lemma day_start_less_iff [simp]: "day_start a < day_start b \<longleftrightarrow> a < b"
  using ns_per_day_pos(1) by (simp add: day_start_def)

lemma day_start_le_iff [simp]: "day_start a \<le> day_start b \<longleftrightarrow> a \<le> b"
  using ns_per_day_pos(1) by (simp add: day_start_def)

lemma day_start_day_of: "day_start (day_of t) \<le> t" "t < day_start (day_of t + 1)"
proof -
  note p = ns_per_day_pos(1)
  have "t = t div ns_per_day * ns_per_day + t mod ns_per_day" by simp
  with pos_mod_bound [OF p, of t] pos_mod_sign [OF p, of t]
  have "t div ns_per_day * ns_per_day \<le> t" "t < t div ns_per_day * ns_per_day + ns_per_day"
    by linarith+
  then show "day_start (day_of t) \<le> t" "t < day_start (day_of t + 1)"
    by (simp_all add: day_of_def day_start_def algebra_simps)
qed

section \<open>Timestamps\<close>

text \<open>\<open>time.Parse(time.RFC3339Nano, s)\<close> as an instant.  The hour may have one digit, the fraction is
  optional, may follow a comma, and counts to nine digits; a numeric zone offset may be up to
  24:60.\<close>

fun get_digits :: "bool \<Rightarrow> string \<Rightarrow> (int \<times> string) option" where
  "get_digits fixed (a # b # s) =
     (if is_digit a \<and> is_digit b then Some (int (digits_value [a, b]), s)
      else if is_digit a \<and> \<not> fixed then Some (int (digits_value [a]), b # s) else None)"
| "get_digits fixed [a] = (if is_digit a \<and> \<not> fixed then Some (int (digits_value [a]), []) else None)"
| "get_digits fixed [] = None"

fun skip_char :: "char \<Rightarrow> string \<Rightarrow> string option" where
  "skip_char c (a # s) = (if a = c then Some s else None)"
| "skip_char c [] = None"

fun get_fraction :: "string \<Rightarrow> int \<times> string" where
  "get_fraction (c # a # s) =
     (if (c = CHR ''.'' \<or> c = CHR '','') \<and> is_digit a
      then (let ds = takeWhile is_digit (a # s); nine = take 9 ds
            in (int (digits_value nine) * 10 ^ (9 - length nine), drop (length ds) (a # s)))
      else (0, c # a # s))"
| "get_fraction s = (0, s)"

definition get_zone :: "string \<Rightarrow> (int \<times> string) option" where
  "get_zone s =
     (if s \<noteq> [] \<and> hd s = CHR ''Z'' then Some (0, tl s)
      else if length s < 6 \<or> s ! 3 \<noteq> CHR '':'' then None
      else case (get_digits True (take 2 (tl s)), get_digits True (take 2 (drop 4 s))) of
          (Some (h, _), Some (m, _)) \<Rightarrow>
            if h > 24 \<or> m > 60 then None
            else if hd s = CHR ''+'' then Some (h * 3600 + m * 60, drop 6 s)
            else if hd s = CHR ''-'' then Some (- (h * 3600 + m * 60), drop 6 s)
            else None
        | _ \<Rightarrow> None)"

definition parse_rfc3339 :: "string \<Rightarrow> instant option" where
  "parse_rfc3339 s =
     Option.bind (parse_date (take 10 s)) (\<lambda>d.
     Option.bind (skip_char CHR ''T'' (drop 10 s)) (\<lambda>s.
     Option.bind (get_digits False s) (\<lambda>(h, s).
     Option.bind (skip_char CHR '':'' s) (\<lambda>s.
     Option.bind (get_digits True s) (\<lambda>(m, s).
     Option.bind (skip_char CHR '':'' s) (\<lambda>s.
     Option.bind (get_digits True s) (\<lambda>(sec, s).
     case get_fraction s of (ns, s) \<Rightarrow>
     Option.bind (get_zone s) (\<lambda>(off, s).
       if h < 24 \<and> m < 60 \<and> sec < 60 \<and> s = []
       then Some (day_start d + ((h * 3600 + m * 60 + sec) - off) * ns_per_second + ns)
       else None))))))))"

end
