(* ===== verification/Decimal.thy ===== *)
theory Decimal
  imports Calendar
begin

text \<open>
  Exact decimals: \<open>internal/activity/decimal.go\<close>. A decimal is text; arithmetic goes through
  \<open>big.Rat\<close> (here \<open>rat\<close>) and back. The abstraction of a canonical decimal is the integer number
  of units of \<open>10^-18\<close>: the theory shows that \<open>Add\<close>, \<open>Sub\<close>, \<open>Mul\<close>, \<open>Compare\<close> and
  \<open>Negate\<close> refine the operations on rationals, that an operation fails exactly when the result
  is not a NUMERIC(38,18), and that canonical text is unique.
\<close>

section \<open>Model\<close>

definition canonical_decimal :: "string \<Rightarrow> string result" where
  "canonical_decimal s0 =
     (let s = trim_space s0
      in if s = [] \<or> 80 < length s then Inl ''invalid decimal''
      else let negative = (hd s = CHR ''-'');
               s = (if hd s = CHR ''-'' \<or> hd s = CHR ''+'' then tl s else s);
               pieces = split_on CHR ''.'' s
           in if 2 < length pieces \<or> s = [] then Inl ''invalid decimal''
           else let whole = pieces ! 0;
                    frac = (if length pieces = 2 then pieces ! 1 else [])
                in if whole = [] \<and> frac = [] then Inl ''invalid decimal''
                else if \<not> all_digits (whole @ frac) then Inl ''invalid decimal''
                else let whole = trim_left_char CHR ''0'' whole;
                         whole = (if whole = [] then ''0'' else whole);
                         frac = trim_right_char CHR ''0'' frac
                     in if 20 < length whole \<or> 18 < length frac
                        then Inl ''decimal exceeds NUMERIC(38,18)''
                        else let out = whole @ (if frac \<noteq> [] then ''.'' @ frac else [])
                             in Inr (if negative \<and> out \<noteq> ''0'' then ''-'' @ out else out))"

text \<open>\<open>big.Rat.SetString\<close> on plain decimal notation, the only form the program passes to it.\<close>

definition rat_set_string :: "string \<Rightarrow> rat option" where
  "rat_set_string s =
     (let neg = (s \<noteq> [] \<and> hd s = CHR ''-'');
          u = (if neg then tl s else s);
          pieces = split_on CHR ''.'' u;
          w = pieces ! 0;
          f = (if length pieces = 2 then pieces ! 1 else [])
      in if 2 < length pieces \<or> (w = [] \<and> f = []) \<or> \<not> all_digits (w @ f) then None
         else Some ((if neg then - 1 else 1) * of_nat (digits_value (w @ f)) / 10 ^ length f))"

text \<open>\<open>big.Rat.FloatString\<close>: the last digit is rounded to nearest, halves away from zero.\<close>

definition float_string :: "nat \<Rightarrow> rat \<Rightarrow> string" where
  "float_string prec r =
     (let n = nat \<lfloor>\<bar>r\<bar> * 10 ^ prec + 1 / 2\<rfloor>
      in (if r < 0 then ''-'' else []) @ nat_str (n div 10 ^ prec)
         @ (if 0 < prec then ''.'' @ pad prec (n mod 10 ^ prec) else []))"

definition rational :: "string \<Rightarrow> rat result" where
  "rational s = rbind (canonical_decimal s) (\<lambda>n.
     case rat_set_string n of None \<Rightarrow> Inl ''invalid decimal'' | Some r \<Rightarrow> Inr r)"

definition exact :: "rat \<Rightarrow> string result" where
  "exact r = (let s = float_string 18 r
     in if rat_set_string s = Some r then canonical_decimal s
        else Inl ''decimal operation exceeds precision'')"

definition Add :: "string \<Rightarrow> string \<Rightarrow> string result" where
  "Add a b = rbind (rational a) (\<lambda>x. rbind (rational b) (\<lambda>y. exact (x + y)))"

definition Sub :: "string \<Rightarrow> string \<Rightarrow> string result" where
  "Sub a b = rbind (rational a) (\<lambda>x. rbind (rational b) (\<lambda>y. exact (x - y)))"

definition Mul :: "string \<Rightarrow> string \<Rightarrow> string result" where
  "Mul a b = rbind (rational a) (\<lambda>x. rbind (rational b) (\<lambda>y. exact (x * y)))"

definition Compare :: "string \<Rightarrow> string \<Rightarrow> int result" where
  "Compare a b = rbind (rational a) (\<lambda>x. rbind (rational b) (\<lambda>y.
     Inr (if x < y then - 1 else if x = y then 0 else 1)))"

definition Negate :: "string \<Rightarrow> string result" where
  "Negate a = Sub ''0'' a"

definition Abs :: "string \<Rightarrow> string result" where
  "Abs a = rbind (canonical_decimal a) (\<lambda>s.
     Inr (if s \<noteq> [] \<and> hd s = CHR ''-'' then tl s else s))"

section \<open>The shape of decimal text\<close>

definition render :: "bool \<Rightarrow> string \<Rightarrow> string \<Rightarrow> string" where
  "render neg w f = (if neg then ''-'' else []) @ w @ (if f \<noteq> [] then ''.'' @ f else [])"

definition canon_parts :: "bool \<Rightarrow> string \<Rightarrow> string \<Rightarrow> bool" where
  "canon_parts neg w f \<longleftrightarrow> all_digits w \<and> all_digits f \<and> w \<noteq> []
     \<and> (hd w \<noteq> CHR ''0'' \<or> w = ''0'') \<and> (f \<noteq> [] \<longrightarrow> last f \<noteq> CHR ''0'')
     \<and> length w \<le> 20 \<and> length f \<le> 18 \<and> (neg \<longrightarrow> \<not> (w = ''0'' \<and> f = []))"

definition parts_value :: "bool \<Rightarrow> string \<Rightarrow> string \<Rightarrow> rat" where
  "parts_value neg w f = (if neg then - 1 else 1) * of_nat (digits_value (w @ f)) / 10 ^ length f"

text \<open>Plain decimal notation: an optional sign, digits, and digits after an optional point.\<close>

definition plain_text :: "string \<Rightarrow> string \<Rightarrow> bool \<Rightarrow> string \<Rightarrow> string" where
  "plain_text sg w dot f = sg @ w @ (if dot then ''.'' @ f else [])"

definition plain :: "string \<Rightarrow> string \<Rightarrow> bool \<Rightarrow> string \<Rightarrow> bool" where
  "plain sg w dot f \<longleftrightarrow> (sg = [] \<or> sg = ''-'' \<or> sg = ''+'') \<and> all_digits w \<and> all_digits f
     \<and> (w \<noteq> [] \<or> f \<noteq> []) \<and> (\<not> dot \<longrightarrow> f = [])"

definition strip_zeros :: "string \<Rightarrow> string" where
  "strip_zeros w = (let w' = trim_left_char CHR ''0'' w in if w' = [] then ''0'' else w')"

lemma not_digit_sep [simp]: "\<not> is_digit CHR ''.''" "\<not> is_digit CHR ''-''" "\<not> is_digit CHR ''+''"
  by code_simp+

lemma printable_sep [simp]: "printable CHR ''.''" "printable CHR ''-''" "printable CHR ''+''"
  by code_simp+

lemma digits_no_sep: "all_digits s \<Longrightarrow> CHR ''.'' \<notin> set s \<and> CHR ''-'' \<notin> set s \<and> CHR ''+'' \<notin> set s"
  by (auto simp: list_all_iff)

lemma digits_hd: "all_digits s \<Longrightarrow> s \<noteq> [] \<Longrightarrow> hd s \<noteq> CHR ''-'' \<and> hd s \<noteq> CHR ''+'' \<and> hd s \<noteq> CHR ''.''"
  by (cases s) auto

lemma digits_printable: "all_digits s \<Longrightarrow> list_all printable s"
  by (auto simp: list_all_iff intro: digit_printable)

lemma plain_printable: "plain sg w dot f \<Longrightarrow> list_all printable (plain_text sg w dot f)"
  by (auto simp: plain_def plain_text_def digits_printable)

lemma split_plain:
  assumes "all_digits w" "all_digits f"
  shows "split_on CHR ''.'' (w @ (if dot then ''.'' @ f else [])) = (if dot then [w, f] else [w])"
  using digits_no_sep [OF assms(1)] digits_no_sep [OF assms(2)]
  by (simp add: split_on_append split_on_no_sep)

lemma plain_hd:
  assumes "plain sg w dot f"
  shows "plain_text sg w dot f \<noteq> []"
    "hd (plain_text sg w dot f) = CHR ''-'' \<longleftrightarrow> sg = ''-''"
    "hd (plain_text sg w dot f) = CHR ''+'' \<longleftrightarrow> sg = ''+''"
  using assms digits_hd [of w] by (auto simp: plain_def plain_text_def hd_append)

text \<open>What \<open>CanonicalDecimal\<close> does to plain decimal notation.\<close>

lemma canonical_plain:
  assumes "plain sg w dot f" "length (plain_text sg w dot f) \<le> 80"
  shows "canonical_decimal (plain_text sg w dot f) =
    (let w' = strip_zeros w; f' = trim_right_char CHR ''0'' f
     in if 20 < length w' \<or> 18 < length f' then Inl ''decimal exceeds NUMERIC(38,18)''
        else Inr (render (sg = ''-'' \<and> \<not> (w' = ''0'' \<and> f' = [])) w' f'))"
proof -
  let ?t = "plain_text sg w dot f"
  let ?u = "w @ (if dot then ''.'' @ f else [])"
  have w: "all_digits w" "all_digits f" "w \<noteq> [] \<or> f \<noteq> []" "\<not> dot \<longrightarrow> f = []"
    using assms by (auto simp: plain_def)
  have tr: "trim_space ?t = ?t" using plain_printable [OF assms(1)] by simp
  have rest: "(if hd ?t = CHR ''-'' \<or> hd ?t = CHR ''+'' then tl ?t else ?t) = ?u"
    using assms(1) plain_hd [OF assms(1)] by (auto simp: plain_def plain_text_def)
  have ne: "?u \<noteq> []" using w by auto
  have sp: "split_on CHR ''.'' ?u = (if dot then [w, f] else [w])" by (rule split_plain [OF w(1,2)])
  have out0: "strip_zeros w @ (if g \<noteq> [] then ''.'' @ g else []) = ''0'' \<longleftrightarrow> strip_zeros w = ''0'' \<and> g = []"
    for g
    by (cases "strip_zeros w") (auto simp: append_eq_Cons_conv)
  have pc: "(if dot then [w, f] else [w]) ! 0 = w"
    "(if length (if dot then [w, f] else [w]) = 2 then (if dot then [w, f] else [w]) ! 1 else []) = f"
    "\<not> 2 < length (if dot then [w, f] else [w])"
    using w(4) by auto
  have dg: "all_digits (w @ f)" "\<not> (w = [] \<and> f = [])" using w by auto
  have le: "\<not> 80 < length ?t" using assms(2) by simp
  show ?thesis
    unfolding canonical_decimal_def Let_def tr rest sp pc strip_zeros_def [unfolded Let_def, symmetric]
    using plain_hd [OF assms(1)] ne dg le
    by (simp only: if_False if_True de_Morgan_disj simp_thms out0 render_def) (auto simp: out0)
qed

text \<open>Only plain decimal notation is accepted.\<close>

lemma canonical_accepts_plain:
  assumes "canonical_decimal s = Inr t"
  obtains sg w dot f where "plain sg w dot f" "trim_space s = plain_text sg w dot f"
    "length (plain_text sg w dot f) \<le> 80"
proof -
  let ?u = "trim_space s"
  let ?sg = "if hd ?u = CHR ''-'' \<or> hd ?u = CHR ''+'' then [hd ?u] else []"
  let ?r = "if hd ?u = CHR ''-'' \<or> hd ?u = CHR ''+'' then tl ?u else ?u"
  let ?ps = "split_on CHR ''.'' ?r"
  let ?w = "?ps ! 0" and ?f = "if length ?ps = 2 then ?ps ! 1 else []"
  let ?dot = "length ?ps = 2"
  from assms have ne: "?u \<noteq> []" "length ?u \<le> 80" and le: "length ?ps \<le> 2"
    and wf: "?w \<noteq> [] \<or> ?f \<noteq> []" and dg: "all_digits (?w @ ?f)"
    unfolding canonical_decimal_def Let_def by (auto split: if_splits)
  have r: "?r = ?w @ (if ?dot then ''.'' @ ?f else [])"
  proof -
    from le split_on_nonempty consider x where "?ps = [x]" | x y where "?ps = [x, y]"
      by (cases ?ps rule: remdups_adj.cases) auto
    then show ?thesis
    proof cases
      case 1
      then show ?thesis using join_split_on [of "CHR ''.''" ?r] by simp
    next
      case 2
      then show ?thesis using join_split_on [of "CHR ''.''" ?r] by simp
    qed
  qed
  have u: "?u = ?sg @ ?r" using ne by auto
  have t: "?u = plain_text ?sg ?w ?dot ?f"
    unfolding plain_text_def r [symmetric] by (rule u)
  have "plain ?sg ?w ?dot ?f"
    using wf dg by (auto simp: plain_def)
  then show thesis by (rule that) (use t ne in auto)
qed

lemma dropWhile_replicate: "\<exists>k. s = replicate k c @ dropWhile (\<lambda>x. x = c) s"
proof (induction s)
  case Nil
  show ?case by simp
next
  case (Cons a s)
  then obtain k where k: "s = replicate k c @ dropWhile (\<lambda>x. x = c) s" by blast
  show ?case
  proof (cases "a = c")
    case True
    with k show ?thesis by (intro exI [of _ "Suc k"]) simp
  next
    case False
    then show ?thesis by (intro exI [of _ 0]) simp
  qed
qed

lemma strip_zeros_facts:
  assumes "all_digits w"
  shows "all_digits (strip_zeros w)" "strip_zeros w \<noteq> []"
    "hd (strip_zeros w) \<noteq> CHR ''0'' \<or> strip_zeros w = ''0''"
    "digits_value (strip_zeros w @ f) = digits_value (w @ f)"
proof -
  obtain k where k: "w = replicate k CHR ''0'' @ trim_left_char CHR ''0'' w"
    using dropWhile_replicate [of w] unfolding trim_left_char_def by blast
  show "strip_zeros w \<noteq> []" by (simp add: strip_zeros_def Let_def)
  show "all_digits (strip_zeros w)"
    using assms by (auto simp: strip_zeros_def Let_def trim_left_char_def list_all_iff
        dest: set_dropWhileD)
  show "hd (strip_zeros w) \<noteq> CHR ''0'' \<or> strip_zeros w = ''0''"
    using hd_dropWhile [of "\<lambda>c. c = CHR ''0''" w]
    by (auto simp: strip_zeros_def Let_def trim_left_char_def)
  have "digit_value CHR ''0'' = 0" by code_simp
  then have "digits_value (''0'' @ f) = digits_value f" by (simp add: digits_value_Cons)
  moreover have "digits_value (w @ f) = digits_value (trim_left_char CHR ''0'' w @ f)"
    by (subst k) simp
  ultimately show "digits_value (strip_zeros w @ f) = digits_value (w @ f)"
    by (simp add: strip_zeros_def Let_def)
qed

lemma trim_right_facts:
  obtains k where "f = trim_right_char CHR ''0'' f @ replicate k CHR ''0''"
    "trim_right_char CHR ''0'' f \<noteq> [] \<longrightarrow> last (trim_right_char CHR ''0'' f) \<noteq> CHR ''0''"
proof -
  let ?d = "dropWhile (\<lambda>c. c = CHR ''0'') (rev f)"
  obtain k where "rev f = replicate k CHR ''0'' @ ?d"
    using dropWhile_replicate [of "rev f" "CHR ''0''"] by (elim exE)
  then have "f = rev ?d @ replicate k CHR ''0''"
    by (metis rev_append rev_replicate rev_rev_ident)
  moreover have "?d \<noteq> [] \<longrightarrow> hd ?d \<noteq> CHR ''0''" using hd_dropWhile [of "\<lambda>c. c = CHR ''0''"] by blast
  ultimately show thesis
    by (intro that [of k]) (auto simp: trim_right_char_def last_rev)
qed

lemma digits_value_zeros: "digits_value (s @ replicate k CHR ''0'') = digits_value s * 10 ^ k"
  using digits_value_append [of s "replicate k CHR ''0''"] digits_value_replicate_0 [of k "[]"]
  by simp

lemma parts_value_trim:
  assumes "all_digits w" "all_digits f"
  shows "parts_value neg (strip_zeros w) (trim_right_char CHR ''0'' f) = parts_value neg w f"
    "all_digits (trim_right_char CHR ''0'' f)"
proof -
  obtain k where k: "f = trim_right_char CHR ''0'' f @ replicate k CHR ''0''"
    by (rule trim_right_facts)
  let ?g = "trim_right_char CHR ''0'' f"
  show "all_digits ?g" using assms(2) by (subst (asm) k) simp
  have "digits_value (w @ f) = digits_value (w @ ?g) * 10 ^ k"
    by (subst k) (metis append_assoc digits_value_zeros)
  moreover have "length f = length ?g + k"
    by (metis k length_append length_replicate)
  ultimately show "parts_value neg (strip_zeros w) ?g = parts_value neg w f"
    by (simp add: parts_value_def strip_zeros_facts(4) [OF assms(1)] power_add)
qed

lemma render_plain:
  assumes "canon_parts neg w f"
  shows "render neg w f = plain_text (if neg then ''-'' else []) w (f \<noteq> []) f"
    "plain (if neg then ''-'' else []) w (f \<noteq> []) f" "length (render neg w f) \<le> 40"
  using assms by (auto simp: render_def plain_text_def plain_def canon_parts_def)

lemma rat_set_string_plain:
  assumes "plain sg w dot f" "sg \<noteq> ''+''"
  shows "rat_set_string (plain_text sg w dot f) = Some (parts_value (sg = ''-'') w f)"
proof -
  let ?t = "plain_text sg w dot f"
  let ?u = "w @ (if dot then ''.'' @ f else [])"
  have w: "all_digits w" "all_digits f" "w \<noteq> [] \<or> f \<noteq> []" "\<not> dot \<longrightarrow> f = []"
    using assms by (auto simp: plain_def)
  have hd: "?t \<noteq> [] \<and> hd ?t = CHR ''-'' \<longleftrightarrow> sg = ''-''" using plain_hd [OF assms(1)] by simp
  have u: "(if sg = ''-'' then tl ?t else ?t) = ?u"
    using assms by (auto simp: plain_def plain_text_def)
  have sp: "split_on CHR ''.'' ?u = (if dot then [w, f] else [w])" by (rule split_plain [OF w(1,2)])
  show ?thesis
    unfolding rat_set_string_def Let_def hd u sp using w by (auto simp: parts_value_def)
qed

lemma rat_set_string_render:
  assumes "canon_parts neg w f"
  shows "rat_set_string (render neg w f) = Some (parts_value neg w f)"
  unfolding render_plain(1) [OF assms]
  by (subst rat_set_string_plain [OF render_plain(2) [OF assms]]; cases neg; simp)

text \<open>Everything \<open>CanonicalDecimal\<close> returns is in canonical form, with the value of its input.\<close>

lemma canonical_result:
  assumes "canonical_decimal s = Inr t"
  obtains neg w f where "canon_parts neg w f" "t = render neg w f"
    "rat_set_string t = Some (parts_value neg w f)"
proof -
  obtain sg w dot f where p: "plain sg w dot f" and u: "trim_space s = plain_text sg w dot f"
    and l: "length (plain_text sg w dot f) \<le> 80"
    by (rule canonical_accepts_plain [OF assms])
  let ?w = "strip_zeros w" and ?f = "trim_right_char CHR ''0'' f"
  let ?neg = "sg = ''-'' \<and> \<not> (?w = ''0'' \<and> ?f = [])"
  have w: "all_digits w" "all_digits f" using p by (auto simp: plain_def)
  have "canonical_decimal (trim_space s) = canonical_decimal s"
    by (simp add: canonical_decimal_def)
  with canonical_plain [OF p l] assms u
  have t: "t = render ?neg ?w ?f" and b: "length ?w \<le> 20" "length ?f \<le> 18"
    by (auto simp: Let_def split: if_splits)
  have "?f \<noteq> [] \<longrightarrow> last ?f \<noteq> CHR ''0''" by (rule trim_right_facts) auto
  with b strip_zeros_facts(1-3) [OF w(1)] parts_value_trim(2) [OF w]
  have c: "canon_parts ?neg ?w ?f" unfolding canon_parts_def by blast
  have "rat_set_string t = Some (parts_value ?neg ?w ?f)"
    unfolding t by (rule rat_set_string_render [OF c])
  with c t show thesis by (rule that)
qed

lemma strip_zeros_id: "w \<noteq> [] \<Longrightarrow> hd w \<noteq> CHR ''0'' \<or> w = ''0'' \<Longrightarrow> strip_zeros w = w"
  by (cases w) (auto simp: strip_zeros_def trim_left_char_def)

lemma trim_right_id: "(f \<noteq> [] \<longrightarrow> last f \<noteq> CHR ''0'') \<Longrightarrow> trim_right_char CHR ''0'' f = f"
  by (cases f rule: rev_cases) (auto simp: trim_right_char_def)

lemma canonical_render:
  assumes "canon_parts neg w f"
  shows "canonical_decimal (render neg w f) = Inr (render neg w f)"
proof -
  have w: "strip_zeros w = w" "trim_right_char CHR ''0'' f = f" "length w \<le> 20" "length f \<le> 18"
    "neg \<longrightarrow> \<not> (w = ''0'' \<and> f = [])"
    using assms strip_zeros_id [of w] trim_right_id [of f] unfolding canon_parts_def by blast+
  have l: "length (plain_text (if neg then ''-'' else []) w (f \<noteq> []) f) \<le> 80"
    using render_plain(3) [OF assms] unfolding render_plain(1) [OF assms] by linarith
  have sg: "((if neg then ''-'' else []) = ''-'' \<and> \<not> (w = ''0'' \<and> f = [])) = neg"
    using w(5) by auto
  have "canonical_decimal (plain_text (if neg then ''-'' else []) w (f \<noteq> []) f) = Inr (render neg w f)"
    using w(3,4) unfolding canonical_plain [OF render_plain(2) [OF assms] l] Let_def w(1,2) sg
    by simp
  then show ?thesis unfolding render_plain(1) [OF assms] .
qed

theorem canonical_idem:
  "canonical_decimal s = Inr t \<Longrightarrow> canonical_decimal t = Inr t"
  by (metis canonical_render canonical_result)

text \<open>Canonicalisation keeps the value of the text.\<close>

lemma canonical_value:
  assumes "plain sg w dot f" "canonical_decimal (plain_text sg w dot f) = Inr t"
  shows "rat_set_string t = Some (parts_value (sg = ''-'') w f)"
proof -
  let ?w = "strip_zeros w" and ?f = "trim_right_char CHR ''0'' f"
  let ?neg = "sg = ''-'' \<and> \<not> (?w = ''0'' \<and> ?f = [])"
  have w: "all_digits w" "all_digits f" using assms(1) by (auto simp: plain_def)
  have tr: "trim_space (plain_text sg w dot f) = plain_text sg w dot f"
    using plain_printable [OF assms(1)] by simp
  have l: "length (plain_text sg w dot f) \<le> 80"
    using assms(2) unfolding canonical_decimal_def tr Let_def by (auto split: if_splits)
  have t: "t = render ?neg ?w ?f" and b: "length ?w \<le> 20" "length ?f \<le> 18"
    using assms(2) unfolding canonical_plain [OF assms(1) l] Let_def by (auto split: if_splits)
  have "?f \<noteq> [] \<longrightarrow> last ?f \<noteq> CHR ''0''" by (rule trim_right_facts) auto
  with b strip_zeros_facts(1-3) [OF w(1)] parts_value_trim(2) [OF w]
  have c: "canon_parts ?neg ?w ?f" unfolding canon_parts_def by blast
  have "digit_value CHR ''0'' = 0" by code_simp
  then have "parts_value ?neg ?w ?f = parts_value (sg = ''-'') ?w ?f"
    by (cases "?w = ''0'' \<and> ?f = []") (auto simp: parts_value_def digits_value_Cons)
  then show ?thesis
    unfolding t rat_set_string_render [OF c] parts_value_trim(1) [OF w] by simp
qed

section \<open>Rationals with a NUMERIC(38,18) text\<close>

definition representable :: "rat \<Rightarrow> bool" where
  "representable r \<longleftrightarrow> of_int \<lfloor>r * 10 ^ 18\<rfloor> = r * 10 ^ 18 \<and> \<bar>r\<bar> < 10 ^ 20"

definition dec_text :: "rat \<Rightarrow> string" where
  "dec_text r = (let n = nat \<lfloor>\<bar>r\<bar> * 10 ^ 18\<rfloor>
     in render (r < 0) (nat_str (n div 10 ^ 18)) (trim_right_char CHR ''0'' (pad 18 (n mod 10 ^ 18))))"

lemma representable_abs:
  assumes "of_int \<lfloor>r * 10 ^ 18\<rfloor> = r * 10 ^ 18"
  shows "of_nat (nat \<lfloor>\<bar>r\<bar> * 10 ^ 18\<rfloor>) = \<bar>r\<bar> * (10 :: rat) ^ 18"
proof -
  define z where "z = \<lfloor>r * 10 ^ 18\<rfloor>"
  have "\<bar>r\<bar> * 10 ^ 18 = \<bar>r * 10 ^ 18\<bar>" by (simp add: abs_mult)
  also have "\<dots> = of_int \<bar>z\<bar>" by (metis assms of_int_abs z_def)
  finally show ?thesis by simp
qed

lemma parts_value_units:
  assumes "canon_parts neg w f"
  shows "\<bar>parts_value neg w f\<bar> * 10 ^ 18 =
    of_nat (digits_value w * 10 ^ 18 + digits_value f * 10 ^ (18 - length f))"
proof -
  have l: "length f \<le> 18" using assms by (simp add: canon_parts_def)
  then have e: "(10 :: rat) ^ 18 = 10 ^ length f * 10 ^ (18 - length f)"
    by (metis le_add_diff_inverse power_add)
  have "\<bar>parts_value neg w f\<bar> = of_nat (digits_value (w @ f)) / 10 ^ length f"
    by (simp add: parts_value_def)
  then have "\<bar>parts_value neg w f\<bar> * 10 ^ 18 = of_nat (digits_value (w @ f)) * 10 ^ (18 - length f)"
    unfolding e by simp
  also have "\<dots> = of_nat (digits_value w) * (10 ^ length f * 10 ^ (18 - length f))
      + of_nat (digits_value f) * 10 ^ (18 - length f)"
    by (simp add: digits_value_append algebra_simps)
  finally show ?thesis unfolding e [symmetric] by simp
qed

lemma canon_frac_bound:
  assumes "canon_parts neg w f"
  shows "digits_value f * 10 ^ (18 - length f) < (10 :: nat) ^ 18"
proof -
  have l: "length f \<le> 18" and d: "all_digits f" using assms by (auto simp: canon_parts_def)
  have "digits_value f * 10 ^ (18 - length f) < 10 ^ length f * 10 ^ (18 - length f)"
    using digits_value_bound [OF d] by simp
  then show ?thesis using l by (metis le_add_diff_inverse power_add)
qed

lemma parts_representable:
  assumes "canon_parts neg w f"
  shows "representable (parts_value neg w f)"
proof -
  let ?v = "parts_value neg w f"
  let ?n = "digits_value w * 10 ^ 18 + digits_value f * 10 ^ (18 - length f)"
  have u: "\<bar>?v\<bar> * 10 ^ 18 = of_nat ?n" by (rule parts_value_units [OF assms])
  have "length w \<le> 20" "all_digits w" using assms by (auto simp: canon_parts_def)
  then have "digits_value w < 10 ^ 20"
    using digits_value_bound [of w] power_increasing [of "length w" 20 "10 :: nat"] by simp
  then have "digits_value w + 1 \<le> 10 ^ 20" by simp
  then have "(digits_value w + 1) * 10 ^ 18 \<le> 10 ^ 20 * 10 ^ 18" by (rule mult_right_mono) simp
  then have "digits_value w * 10 ^ 18 + 10 ^ 18 \<le> (10 :: nat) ^ 20 * 10 ^ 18"
    by (simp only: add_mult_distrib mult_1)
  with canon_frac_bound [OF assms] have "?n < 10 ^ 20 * 10 ^ 18" by linarith
  then have "of_nat ?n < (of_nat (10 ^ 20 * 10 ^ 18) :: rat)" by (rule of_nat_less_iff [THEN iffD2])
  then have "\<bar>?v\<bar> * 10 ^ 18 < 10 ^ 20 * 10 ^ 18" unfolding u by simp
  then have "\<bar>?v\<bar> < 10 ^ 20" by (rule mult_right_less_imp_less) simp
  moreover have "\<exists>z. ?v * 10 ^ 18 = of_int z"
  proof -
    have "?v * 10 ^ 18 = of_nat ?n \<or> ?v * 10 ^ 18 = - of_nat ?n"
      using u by (auto simp: abs_if split: if_splits)
    then show ?thesis by (metis of_int_of_nat_eq of_int_minus)
  qed
  ultimately show ?thesis by (auto simp: representable_def)
qed

lemma parts_value_neg: "canon_parts neg w f \<Longrightarrow> parts_value neg w f < 0 \<longleftrightarrow> neg"
proof -
  assume c: "canon_parts neg w f"
  have "digits_value (w @ f) \<noteq> 0" if neg
  proof
    assume z: "digits_value (w @ f) = 0"
    then have w0: "digits_value w = 0" and f0: "digits_value f = 0"
      by (auto simp: digits_value_append)
    have "w = ''0''"
      using digits_value_pos [of w] c w0 unfolding canon_parts_def
      by (metis le_zero_eq power_not_zero zero_neq_numeral)
    moreover have "f = []"
    proof (rule ccontr)
      assume f: "f \<noteq> []"
      then obtain g c where g: "f = g @ [c]" by (metis rev_exhaust)
      then have "is_digit c" "c \<noteq> CHR ''0''" using \<open>canon_parts neg w f\<close> by (auto simp: canon_parts_def)
      then have "digit_value c \<noteq> 0" by (simp add: digit_value_0_iff)
      then show False using f0 g by (simp add: digits_value_append digits_value_Cons)
    qed
    ultimately show False using c that by (simp add: canon_parts_def)
  qed
  then show ?thesis by (auto simp: parts_value_def divide_less_0_iff mult_less_0_iff)
qed

text \<open>Canonical text is determined by its value.\<close>

lemma dec_text_parts:
  assumes "canon_parts neg w f"
  shows "dec_text (parts_value neg w f) = render neg w f"
proof -
  let ?n = "digits_value w * 10 ^ 18 + digits_value f * 10 ^ (18 - length f)"
  have w: "all_digits w" "w \<noteq> []" "hd w \<noteq> CHR ''0'' \<or> w = ''0''" and l: "length f \<le> 18"
    and f: "all_digits f" "f \<noteq> [] \<longrightarrow> last f \<noteq> CHR ''0''"
    using assms by (auto simp: canon_parts_def)
  have fl: "nat \<lfloor>\<bar>parts_value neg w f\<bar> * 10 ^ 18\<rfloor> = ?n"
    unfolding parts_value_units [OF assms] by (metis floor_of_nat nat_int)
  have q: "?n div 10 ^ 18 = digits_value w" and m: "?n mod 10 ^ 18 = digits_value f * 10 ^ (18 - length f)"
    using canon_frac_bound [OF assms] by simp_all
  have "length (f @ replicate (18 - length f) CHR ''0'') = 18" using l by simp
  moreover have "all_digits (replicate k CHR ''0'')" for k by (induction k) auto
  ultimately have "pad 18 (?n mod 10 ^ 18) = f @ replicate (18 - length f) CHR ''0''"
    unfolding m using pad_unique [of 18 "f @ replicate (18 - length f) CHR ''0''"] f(1)
    by (simp add: digits_value_zeros)
  moreover have "trim_right_char CHR ''0'' (f @ replicate k CHR ''0'') = f" for k
    using trim_right_id [OF f(2)]
    by (simp add: trim_right_char_def dropWhile_append)
  ultimately show ?thesis
    unfolding dec_text_def Let_def fl q
    by (simp add: parts_value_neg [OF assms] nat_str_unique [OF w])
qed

lemma representable_parts:
  assumes "representable r"
  defines "n \<equiv> nat \<lfloor>\<bar>r\<bar> * 10 ^ 18\<rfloor>"
  defines "w \<equiv> nat_str (n div 10 ^ 18)"
  defines "f \<equiv> trim_right_char CHR ''0'' (pad 18 (n mod 10 ^ 18))"
  shows "canon_parts (r < 0) w f" "parts_value (r < 0) w f = r"
proof -
  have n: "of_nat n = \<bar>r\<bar> * (10 :: rat) ^ 18"
    using assms(1) representable_abs [of r] by (simp add: representable_def n_def)
  have "\<bar>r\<bar> * 10 ^ 18 < 10 ^ 20 * (10 :: rat) ^ 18"
    using assms(1) by (intro mult_strict_right_mono) (auto simp: representable_def)
  then have "of_nat n < (of_nat (10 ^ 20 * 10 ^ 18) :: rat)" by (simp add: n)
  then have "n < 10 ^ 20 * 10 ^ 18" by (rule of_nat_less_iff [THEN iffD1])
  then have q: "n div 10 ^ 18 < 10 ^ 20" by (simp add: less_mult_imp_div_less)
  have m: "n mod 10 ^ 18 < 10 ^ 18" by simp
  note p = pad_facts [OF zero_less_numeral m]
  have w: "all_digits w" "w \<noteq> []" "length w \<le> 20"
    using q nat_str_length_less_iff [of 20 "n div 10 ^ 18"] by (simp_all add: w_def)
  have hd: "hd w \<noteq> CHR ''0'' \<or> w = ''0''"
    using nat_str_hd [of "n div 10 ^ 18"] nat_str_0 unfolding w_def by metis
  obtain k where k: "pad 18 (n mod 10 ^ 18) = f @ replicate k CHR ''0''"
    and last: "f \<noteq> [] \<longrightarrow> last f \<noteq> CHR ''0''"
    unfolding f_def by (rule trim_right_facts)
  have f: "all_digits f" using p(2) unfolding k by simp
  have lf: "length f + k = 18" using p(1) unfolding k by simp
  have "digits_value w * 10 ^ 18 + digits_value (f @ replicate k CHR ''0'') = n"
    using p(3) unfolding k w_def by simp
  then have n': "n = digits_value (w @ f) * 10 ^ k"
    using lf digits_value_replicate_0 [of k "[]"]
    by (simp add: digits_value_append algebra_simps power_add [symmetric])
  have v: "of_nat (digits_value (w @ f)) / 10 ^ length f = \<bar>r\<bar>"
  proof -
    have "(of_nat n :: rat) = of_nat (digits_value (w @ f)) * 10 ^ k" unfolding n' by simp
    with n have "\<bar>r\<bar> * (10 ^ length f * 10 ^ k) = of_nat (digits_value (w @ f)) * 10 ^ k"
      using lf by (metis power_add)
    then show ?thesis by (simp add: field_simps)
  qed
  then show pv: "parts_value (r < 0) w f = r"
    by (auto simp: parts_value_def)
  have "\<not> (w = ''0'' \<and> f = [])" if "r < 0"
  proof
    assume "w = ''0'' \<and> f = []"
    then have "digits_value (w @ f) = 0" using nat_str_value [of 0] unfolding nat_str_0 by simp
    then have "\<bar>r\<bar> = 0" using v by simp
    with that show False by simp
  qed
  moreover have "length f \<le> 18" using lf by linarith
  ultimately show "canon_parts (r < 0) w f"
    unfolding canon_parts_def using w hd last f by blast
qed

theorem dec_text_facts:
  assumes "representable r"
  shows "canonical_decimal (dec_text r) = Inr (dec_text r)" "rat_set_string (dec_text r) = Some r"
    "rational (dec_text r) = Inr r"
proof -
  note p = representable_parts [OF assms]
  show c: "canonical_decimal (dec_text r) = Inr (dec_text r)"
    unfolding dec_text_def Let_def by (rule canonical_render [OF p(1)])
  show v: "rat_set_string (dec_text r) = Some r"
    unfolding dec_text_def Let_def rat_set_string_render [OF p(1)] p(2) by simp
  show "rational (dec_text r) = Inr r" by (simp add: rational_def c v)
qed

text \<open>A decimal the program accepts denotes a representable rational, and canonicalises to its text.\<close>

theorem rational_Inr_iff:
  "rational s = Inr x \<longleftrightarrow> canonical_decimal s = Inr (dec_text x) \<and> representable x"
proof
  assume "rational s = Inr x"
  then obtain t where t: "canonical_decimal s = Inr t" "rat_set_string t = Some x"
    by (auto simp: rational_def rbind_Inr_iff split: option.splits)
  from canonical_result [OF t(1)] t(2) obtain neg w f
    where p: "canon_parts neg w f" "t = render neg w f" "x = parts_value neg w f"
    by (metis option.inject)
  with t(1) show "canonical_decimal s = Inr (dec_text x) \<and> representable x"
    by (simp add: dec_text_parts parts_representable)
next
  assume "canonical_decimal s = Inr (dec_text x) \<and> representable x"
  then show "rational s = Inr x" by (simp add: rational_def dec_text_facts(2))
qed

lemma rational_canonical:
  assumes "canonical_decimal s = Inr t"
  obtains x where "rational s = Inr x" "t = dec_text x" "representable x" "rational t = Inr x"
proof -
  obtain neg w f where p: "canon_parts neg w f" "t = render neg w f"
      "rat_set_string t = Some (parts_value neg w f)"
    by (rule canonical_result [OF assms])
  let ?x = "parts_value neg w f"
  have "rational s = Inr ?x" "rational t = Inr ?x"
    using assms canonical_idem [OF assms] p(3) by (simp_all add: rational_def)
  then show thesis using that [of ?x] p dec_text_parts parts_representable by simp
qed

lemma rational_Inl_iff: "(\<exists>e. rational s = Inl e) \<longleftrightarrow> (\<exists>e. canonical_decimal s = Inl e)"
proof -
  have "(\<exists>x. rational s = Inr x) \<longleftrightarrow> (\<exists>t. canonical_decimal s = Inr t)"
    by (metis rational_Inr_iff rational_canonical)
  then show ?thesis by (metis Inl_not_Inr obj_sumE)
qed

text \<open>\<open>exact\<close> succeeds on the representable rationals, and only on them.\<close>

lemma float_string_plain:
  fixes r :: rat
  defines "n \<equiv> nat \<lfloor>\<bar>r\<bar> * 10 ^ 18 + 1 / 2\<rfloor>"
  shows "float_string 18 r =
      plain_text (if r < 0 then ''-'' else []) (nat_str (n div 10 ^ 18)) True (pad 18 (n mod 10 ^ 18))"
    and "plain (if r < 0 then ''-'' else []) (nat_str (n div 10 ^ 18)) True (pad 18 (n mod 10 ^ 18))"
    and "parts_value (r < 0) (nat_str (n div 10 ^ 18)) (pad 18 (n mod 10 ^ 18)) =
      (if r < 0 then - 1 else 1) * of_nat n / 10 ^ 18"
proof -
  have "n mod 10 ^ 18 < 10 ^ 18" by simp
  note p = pad_facts [OF zero_less_numeral this]
  show "float_string 18 r =
      plain_text (if r < 0 then ''-'' else []) (nat_str (n div 10 ^ 18)) True (pad 18 (n mod 10 ^ 18))"
    unfolding float_string_def plain_text_def n_def Let_def by simp
  show "plain (if r < 0 then ''-'' else []) (nat_str (n div 10 ^ 18)) True (pad 18 (n mod 10 ^ 18))"
    unfolding plain_def using p(2) by simp
  have "digits_value (nat_str (n div 10 ^ 18) @ pad 18 (n mod 10 ^ 18)) = n"
    unfolding digits_value_append p(1,3) by simp
  then show "parts_value (r < 0) (nat_str (n div 10 ^ 18)) (pad 18 (n mod 10 ^ 18)) =
      (if r < 0 then - 1 else 1) * of_nat n / 10 ^ 18"
    unfolding parts_value_def p(1) by simp
qed

lemma float_string_value:
  fixes r :: rat
  defines "n \<equiv> nat \<lfloor>\<bar>r\<bar> * 10 ^ 18 + 1 / 2\<rfloor>"
  shows "rat_set_string (float_string 18 r) = Some ((if r < 0 then - 1 else 1) * of_nat n / 10 ^ 18)"
  unfolding n_def float_string_plain(1)
  by (subst rat_set_string_plain [OF float_string_plain(2)])
     (use float_string_plain(3) [of r] in \<open>simp_all split: if_splits\<close>)

lemma floor_half: "x = of_nat m \<Longrightarrow> \<lfloor>x + 1 / 2 :: rat\<rfloor> = int m"
  by (rule floor_unique) simp_all

theorem exact_representable:
  assumes "representable r"
  shows "exact r = Inr (dec_text r)"
proof -
  let ?n = "nat \<lfloor>\<bar>r\<bar> * 10 ^ 18 + 1 / 2\<rfloor>"
  let ?m = "nat \<lfloor>\<bar>r\<bar> * 10 ^ 18\<rfloor>"
  have m: "of_nat ?m = \<bar>r\<bar> * (10 :: rat) ^ 18"
    using assms representable_abs by (simp add: representable_def)
  have "\<lfloor>\<bar>r\<bar> * 10 ^ 18 + 1 / 2\<rfloor> = int ?m"
    by (rule floor_half [OF m [symmetric]])
  then have nm: "?n = ?m" by simp
  define sg where "sg = (if r < 0 then ''-'' else [])"
  define w f where "w = nat_str (?n div 10 ^ 18)" and "f = pad 18 (?n mod 10 ^ 18)"
  have fs: "float_string 18 r = plain_text sg w True f" and pl: "plain sg w True f"
    unfolding sg_def w_def f_def by (rule float_string_plain)+
  have cp: "canon_parts (r < 0) w (trim_right_char CHR ''0'' f)"
    unfolding w_def f_def nm by (rule representable_parts(1) [OF assms])
  have "?n mod 10 ^ 18 < 10 ^ 18" by simp
  then have lf: "length f = 18" unfolding f_def by (rule pad_facts(1) [OF zero_less_numeral])
  have len: "length (plain_text sg w True f) \<le> 80"
    using cp lf by (simp add: plain_text_def canon_parts_def sg_def)
  have sz: "strip_zeros w = w"
    using cp strip_zeros_id [of w] unfolding canon_parts_def by blast
  have sg': "(sg = ''-'' \<and> \<not> (w = ''0'' \<and> trim_right_char CHR ''0'' f = [])) = (r < 0)"
  proof -
    have "r < 0 \<longrightarrow> \<not> (w = ''0'' \<and> trim_right_char CHR ''0'' f = [])"
      using cp unfolding canon_parts_def by blast
    then show ?thesis unfolding sg_def by (cases "r < 0") simp_all
  qed
  have "canonical_decimal (float_string 18 r) = Inr (render (r < 0) w (trim_right_char CHR ''0'' f))"
    using cp unfolding fs canonical_plain [OF pl len] Let_def sz sg' by (simp add: canon_parts_def)
  also have "\<dots> = Inr (dec_text r)" by (simp only: dec_text_def nm Let_def w_def f_def)
  finally have c: "canonical_decimal (float_string 18 r) = Inr (dec_text r)" .
  have "rat_set_string (float_string 18 r) = Some r"
    unfolding float_string_value nm m by simp
  with c show ?thesis by (simp add: exact_def Let_def)
qed

theorem exact_Inr_iff: "exact r = Inr t \<longleftrightarrow> representable r \<and> t = dec_text r"
proof
  assume e: "exact r = Inr t"
  let ?s = "float_string 18 r"
  from e have s: "rat_set_string ?s = Some r" "canonical_decimal ?s = Inr t"
    by (auto simp: exact_def Let_def split: if_splits)
  obtain x where x: "t = dec_text x" "representable x" "rational t = Inr x"
    by (rule rational_canonical [OF s(2)])
  have "rat_set_string t = rat_set_string ?s"
    unfolding float_string_plain(1)
    by (subst rat_set_string_plain [OF float_string_plain(2)])
       (use canonical_value [OF float_string_plain(2)] s(2) float_string_plain(1) in auto)
  then have "x = r" using x s(1) dec_text_facts(2) by simp
  with x show "representable r \<and> t = dec_text r" by simp
next
  assume "representable r \<and> t = dec_text r"
  then show "exact r = Inr t" by (simp add: exact_representable)
qed

section \<open>Arithmetic refines the rationals\<close>

lemma representable_scaled:
  "representable r \<longleftrightarrow> (\<exists>z. r * 10 ^ 18 = of_int z \<and> \<bar>r\<bar> < 10 ^ 20)"
  by (auto simp: representable_def)

lemma representable_closed:
  assumes "representable x" "representable y"
  shows "representable (x + y) \<longleftrightarrow> \<bar>x + y\<bar> < 10 ^ 20"
    "representable (x - y) \<longleftrightarrow> \<bar>x - y\<bar> < 10 ^ 20" "representable (- x)"
proof -
  obtain a b where a: "x * 10 ^ 18 = of_int a" "\<bar>x\<bar> < 10 ^ 20" and b: "y * 10 ^ 18 = of_int b"
    using assms unfolding representable_scaled by blast
  have "(x + y) * 10 ^ 18 = of_int (a + b)" "(x - y) * 10 ^ 18 = of_int (a - b)"
    "(- x) * 10 ^ 18 = of_int (- a)"
    unfolding distrib_right left_diff_distrib minus_mult_left [symmetric] a(1) b by simp_all
  then show "representable (x + y) \<longleftrightarrow> \<bar>x + y\<bar> < 10 ^ 20"
    "representable (x - y) \<longleftrightarrow> \<bar>x - y\<bar> < 10 ^ 20" "representable (- x)"
    unfolding representable_scaled using a(2) by (metis, metis, metis abs_minus_cancel)
qed

lemma rational_representable: "rational s = Inr x \<Longrightarrow> representable x"
  by (simp add: rational_Inr_iff)

lemma Add_Inr_iff:
  "Add a b = Inr c \<longleftrightarrow> (\<exists>x y. rational a = Inr x \<and> rational b = Inr y \<and> \<bar>x + y\<bar> < 10 ^ 20
     \<and> c = dec_text (x + y))"
  unfolding Add_def rbind_Inr_iff exact_Inr_iff
  by (metis rational_representable representable_closed(1))

lemma Sub_Inr_iff:
  "Sub a b = Inr c \<longleftrightarrow> (\<exists>x y. rational a = Inr x \<and> rational b = Inr y \<and> \<bar>x - y\<bar> < 10 ^ 20
     \<and> c = dec_text (x - y))"
  unfolding Sub_def rbind_Inr_iff exact_Inr_iff
  by (metis rational_representable representable_closed(2))

lemma Mul_Inr_iff:
  "Mul a b = Inr c \<longleftrightarrow> (\<exists>x y. rational a = Inr x \<and> rational b = Inr y \<and> representable (x * y)
     \<and> c = dec_text (x * y))"
  by (auto simp: Mul_def rbind_Inr_iff exact_Inr_iff)

lemma rational_zero [simp]: "rational ''0'' = Inr 0"
  by code_simp

lemma dec_text_zero [simp]: "dec_text 0 = ''0''"
  by code_simp

lemma dec_text_inj: "representable x \<Longrightarrow> representable y \<Longrightarrow> dec_text x = dec_text y \<longleftrightarrow> x = y"
  by (metis dec_text_facts(3) sum.inject(2))

text \<open>The result the arithmetic promises for the rational \<open>r\<close>, errors included.\<close>

definition dec_result :: "rat \<Rightarrow> string result" where
  "dec_result r =
     (if of_int \<lfloor>r * 10 ^ 18\<rfloor> \<noteq> r * 10 ^ 18 then Inl ''decimal operation exceeds precision''
      else if 10 ^ 20 \<le> \<bar>r\<bar> then Inl ''decimal exceeds NUMERIC(38,18)''
      else Inr (dec_text r))"

lemma exact_overflow:
  assumes int: "of_int \<lfloor>r * 10 ^ 18\<rfloor> = r * 10 ^ 18" and big: "10 ^ 20 \<le> \<bar>r\<bar>" "\<bar>r\<bar> < 10 ^ 40"
  shows "exact r = Inl ''decimal exceeds NUMERIC(38,18)''"
proof -
  define m where "m = nat \<lfloor>\<bar>r\<bar> * 10 ^ 18\<rfloor>"
  have m: "of_nat m = \<bar>r\<bar> * (10 :: rat) ^ 18"
    unfolding m_def by (rule representable_abs [OF int])
  have nm: "nat \<lfloor>\<bar>r\<bar> * 10 ^ 18 + 1 / 2\<rfloor> = m"
    using floor_half [OF m [symmetric]] by simp
  have "10 ^ 20 * 10 ^ 18 \<le> \<bar>r\<bar> * (10 :: rat) ^ 18" "\<bar>r\<bar> * 10 ^ 18 < 10 ^ 40 * (10 :: rat) ^ 18"
    using big by (auto intro: mult_right_mono mult_strict_right_mono)
  then have "of_nat (10 ^ 20 * 10 ^ 18) \<le> (of_nat m :: rat)"
    "(of_nat m :: rat) < of_nat (10 ^ 40 * 10 ^ 18)"
    unfolding m by simp_all
  then have "10 ^ 20 * 10 ^ 18 \<le> m" "m < 10 ^ 40 * 10 ^ 18"
    unfolding of_nat_le_iff of_nat_less_iff .
  then have q: "10 ^ 20 \<le> m div 10 ^ 18" "m div 10 ^ 18 < 10 ^ 40"
    using div_le_mono [of "10 ^ 20 * 10 ^ 18" m "10 ^ 18"] less_mult_imp_div_less by auto
  define sg where "sg = (if r < 0 then ''-'' else [])"
  define w f where "w = nat_str (m div 10 ^ 18)" and "f = pad 18 (m mod 10 ^ 18)"
  have fs: "float_string 18 r = plain_text sg w True f" and pl: "plain sg w True f"
    using float_string_plain(1,2) [of r] unfolding nm sg_def w_def f_def .
  have "m mod 10 ^ 18 < 10 ^ 18" by simp
  then have lf: "length f = 18" unfolding f_def by (rule pad_facts(1) [OF zero_less_numeral])
  have lw: "20 < length w" "length w \<le> 40"
    using q nat_str_length_less_iff [of 20 "m div 10 ^ 18"] nat_str_length_less_iff [of 40 "m div 10 ^ 18"]
    unfolding w_def by auto
  have "m div 10 ^ 18 \<noteq> 0" using q(1) by auto
  then have "strip_zeros w = w" unfolding w_def by (intro strip_zeros_id disjI1 nat_str_hd) simp_all
  moreover have "length (plain_text sg w True f) \<le> 80"
    using lf lw by (simp add: plain_text_def sg_def)
  ultimately have "canonical_decimal (float_string 18 r) = Inl ''decimal exceeds NUMERIC(38,18)''"
    unfolding fs using lw by (simp only: canonical_plain [OF pl] Let_def if_True simp_thms)
  moreover have "rat_set_string (float_string 18 r) = Some r"
    unfolding float_string_value nm m by simp
  ultimately show ?thesis by (simp add: exact_def Let_def)
qed

lemma exact_imprecise:
  assumes "of_int \<lfloor>r * 10 ^ 18\<rfloor> \<noteq> r * 10 ^ 18"
  shows "exact r = Inl ''decimal operation exceeds precision''"
proof -
  define n where "n = nat \<lfloor>\<bar>r\<bar> * 10 ^ 18 + 1 / 2\<rfloor>"
  have "(if r < 0 then - 1 else 1) * of_nat n / 10 ^ 18 \<noteq> r"
  proof
    assume "(if r < 0 then - 1 else 1) * of_nat n / 10 ^ 18 = r"
    then have "r * 10 ^ 18 = of_int ((if r < 0 then - 1 else 1) * int n)"
      by (auto simp: field_simps)
    then have "of_int \<lfloor>r * 10 ^ 18\<rfloor> = r * 10 ^ 18" by (metis floor_of_int)
    with assms show False ..
  qed
  then have "rat_set_string (float_string 18 r) \<noteq> Some r"
    unfolding float_string_value n_def by (metis option.inject)
  then show ?thesis by (simp add: exact_def Let_def)
qed

lemma exact_spec: "\<bar>r\<bar> < 10 ^ 40 \<Longrightarrow> exact r = dec_result r"
  using exact_overflow [of r] exact_imprecise [of r] exact_representable [of r]
  unfolding dec_result_def representable_def by (metis linorder_not_le)

lemma representable_bound: "representable x \<Longrightarrow> \<bar>x\<bar> < 10 ^ 20"
  by (simp add: representable_def)

lemma arithmetic_bounds:
  assumes "representable x" "representable y"
  shows "\<bar>x + y\<bar> < 10 ^ 40" "\<bar>x - y\<bar> < 10 ^ 40" "\<bar>x * y\<bar> < 10 ^ 40"
proof -
  note b = representable_bound [OF assms(1)] representable_bound [OF assms(2)]
  have "(2 :: rat) * 10 ^ 20 < 10 ^ 40" by simp
  with b abs_triangle_ineq [of x y] show "\<bar>x + y\<bar> < 10 ^ 40" by linarith
  from \<open>2 * 10 ^ 20 < (10 :: rat) ^ 40\<close> b abs_triangle_ineq4 [of x y] show "\<bar>x - y\<bar> < 10 ^ 40"
    by linarith
  have "\<bar>x\<bar> * \<bar>y\<bar> < 10 ^ 20 * 10 ^ 20" using b by (intro mult_strict_mono') auto
  then show "\<bar>x * y\<bar> < 10 ^ 40" by (simp add: abs_mult)
qed

lemma dec_text_eqI:
  assumes "rational t = Inr x" "canonical_decimal t = Inr t"
  shows "dec_text x = t" and "dec_result x = Inr t"
proof -
  have r: "canonical_decimal t = Inr (dec_text x)" "representable x"
    using assms(1) unfolding rational_Inr_iff by blast+
  then show "dec_text x = t" using assms(2) by simp
  with r(2) show "dec_result x = Inr t" unfolding dec_result_def representable_def by simp
qed

section \<open>Properties\<close>

text \<open>C1: on decimals that parse, \<open>Add\<close>, \<open>Sub\<close> and \<open>Mul\<close> compute the exact sum, difference and
  product of the rationals; the result is an error exactly when it needs more than 18 fractional
  digits (one error) or 20 integer digits (the other), and otherwise its canonical text.\<close>

theorem decimal_arithmetic_exact:
  assumes "rational a = Inr x" "rational b = Inr y"
  shows "Add a b = dec_result (x + y) \<and> Sub a b = dec_result (x - y) \<and> Mul a b = dec_result (x * y)"
  using assms arithmetic_bounds [OF assms [THEN rational_representable]]
  by (simp add: Add_def Sub_def Mul_def exact_spec)

theorem decimal_arithmetic_exact_witness:
  "Add ''0.1'' ''0.2'' = Inr ''0.3'' \<and> Mul ''0.333333333333333333'' ''0.1'' =
     Inl ''decimal operation exceeds precision''"
proof -
  have r: "rational ''0.1'' = Inr (1 / 10)" "rational ''0.2'' = Inr (2 / 10)"
    "rational ''0.333333333333333333'' = Inr (333333333333333333 / 1000000000000000000)"
    by code_simp+
  have "rational ''0.3'' = Inr (1 / 10 + 2 / 10)" "canonical_decimal ''0.3'' = Inr ''0.3''"
    by code_simp+
  then have "dec_result (1 / 10 + 2 / 10) = Inr ''0.3''" by (rule dec_text_eqI)
  moreover have "dec_result (333333333333333333 / 1000000000000000000 * (1 / 10)) =
       Inl ''decimal operation exceeds precision''"
    by code_simp
  ultimately show ?thesis
    using decimal_arithmetic_exact [OF r(1,2)] decimal_arithmetic_exact [OF r(3,1)]
    by (simp only: simp_thms)
qed

text \<open>\<open>CanonicalDecimal\<close> accepts exactly plain decimal notation of at most 80 bytes (after
  trimming) with at most 20 integer and 18 fractional digits once redundant zeros are dropped; what
  it returns is a fixed point of at most 40 bytes, and it denotes the number the input denotes.\<close>

theorem canonical_decimal_spec:
  "canonical_decimal s = Inr t \<longleftrightarrow>
     (\<exists>sg w dot f. plain sg w dot f \<and> trim_space s = plain_text sg w dot f
        \<and> length (plain_text sg w dot f) \<le> 80
        \<and> length (strip_zeros w) \<le> 20 \<and> length (trim_right_char CHR ''0'' f) \<le> 18
        \<and> t = dec_text (parts_value (sg = ''-'') w f)
        \<and> canonical_decimal t = Inr t \<and> rational t = Inr (parts_value (sg = ''-'') w f)
        \<and> length t \<le> 40)"
  (is "?L \<longleftrightarrow> (\<exists>sg w dot f. ?R sg w dot f)")
proof
  assume L: ?L
  have tr: "canonical_decimal (trim_space s) = canonical_decimal s"
    by (simp add: canonical_decimal_def)
  obtain sg w dot f where p: "plain sg w dot f" "trim_space s = plain_text sg w dot f"
    "length (plain_text sg w dot f) \<le> 80" by (rule canonical_accepts_plain [OF L])
  have c: "canonical_decimal (plain_text sg w dot f) = Inr t" using L tr p(2) by simp
  obtain neg w' f' where q: "canon_parts neg w' f'" "t = render neg w' f'"
    "rat_set_string t = Some (parts_value neg w' f')" by (rule canonical_result [OF L])
  have v: "parts_value neg w' f' = parts_value (sg = ''-'') w f"
    using canonical_value [OF p(1) c] q(3) by simp
  have "length (strip_zeros w) \<le> 20 \<and> length (trim_right_char CHR ''0'' f) \<le> 18"
    using c unfolding canonical_plain [OF p(1,3)] Let_def by (auto split: if_splits)
  moreover have "t = dec_text (parts_value (sg = ''-'') w f)"
    using dec_text_parts [OF q(1)] q(2) v by simp
  moreover have "rational t = Inr (parts_value (sg = ''-'') w f)"
    using canonical_idem [OF L] q(3) v by (simp add: rational_def)
  ultimately have "?R sg w dot f"
    using p canonical_idem [OF L] render_plain(3) [OF q(1)] q(2) by simp
  then show "\<exists>sg w dot f. ?R sg w dot f" by blast
next
  assume "\<exists>sg w dot f. ?R sg w dot f"
  then obtain sg w dot f where R: "?R sg w dot f" by blast
  have "canonical_decimal s = canonical_decimal (plain_text sg w dot f)"
    using R by (metis canonical_decimal_def trim_space_idem)
  moreover have "\<exists>t'. canonical_decimal (plain_text sg w dot f) = Inr t'"
    using R canonical_plain [of sg w dot f] by (auto simp: Let_def)
  ultimately obtain t' where t': "canonical_decimal s = Inr t'"
    "canonical_decimal (plain_text sg w dot f) = Inr t'" by auto
  obtain x where x: "t' = dec_text x" "rational t' = Inr x" by (rule rational_canonical [OF t'(1)])
  have "rat_set_string t' = Some (parts_value (sg = ''-'') w f)"
    using canonical_value R t'(2) by blast
  then have "x = parts_value (sg = ''-'') w f"
    using x(2) canonical_idem [OF t'(1)] by (simp add: rational_def)
  with R x t' show ?L by simp
qed

text \<open>canonical text is a unique name of its value: two inputs have the same canonical text
  exactly when \<open>Compare\<close> finds them equal, and \<open>Compare\<close> orders them as their values.\<close>

theorem canonical_unique:
  assumes "rational a = Inr x" "rational b = Inr y"
  shows "(canonical_decimal a = canonical_decimal b \<longleftrightarrow> x = y) \<and>
    Compare a b = Inr (if x < y then - 1 else if x = y then 0 else 1)"
proof -
  have "canonical_decimal a = Inr (dec_text x) \<and> representable x"
    "canonical_decimal b = Inr (dec_text y) \<and> representable y"
    using assms unfolding rational_Inr_iff by blast+
  then show ?thesis using assms dec_text_inj [of x y] by (simp add: Compare_def)
qed

theorem canonical_unique_witness:
  "canonical_decimal ''-00012.3400'' = canonical_decimal '' -12.34 '' \<and>
   Compare ''-00012.3400'' '' -12.34 '' = Inr 0"
proof -
  have r: "rational ''-00012.3400'' = Inr (- 1234 / 100)" "rational '' -12.34 '' = Inr (- 1234 / 100)"
    by code_simp+
  show ?thesis using canonical_unique [OF r] by simp
qed

text \<open>Negation never fails on a decimal that parses, is undone by a second negation, and the
  absolute value is the canonical text of the absolute value.\<close>

theorem negate_involution:
  assumes "rational a = Inr x"
  shows "Negate a = Inr (dec_text (- x)) \<and> Negate (dec_text (- x)) = Inr (dec_text x)
    \<and> Abs a = Inr (dec_text \<bar>x\<bar>)"
proof -
  have x: "representable x" using assms by (rule rational_representable)
  have mx: "representable (- x)" by (rule representable_closed(3) [OF x x])
  have n: "Negate b = Inr (dec_text (- y))" if "rational b = Inr y" "representable (- y)" for b y
    using that exact_representable [of "- y"] by (simp add: Negate_def Sub_def)
  from n [OF assms mx] n [OF dec_text_facts(3) [OF mx]] x
  have "Negate a = Inr (dec_text (- x)) \<and> Negate (dec_text (- x)) = Inr (dec_text x)" by simp
  moreover have "Abs a = Inr (dec_text \<bar>x\<bar>)"
  proof -
    have c: "canonical_decimal a = Inr (dec_text x)" using assms by (simp add: rational_Inr_iff)
    have p: "canon_parts (x < 0) w f" if "w = nat_str (nat \<lfloor>\<bar>x\<bar> * 10 ^ 18\<rfloor> div 10 ^ 18)"
        "f = trim_right_char CHR ''0'' (pad 18 (nat \<lfloor>\<bar>x\<bar> * 10 ^ 18\<rfloor> mod 10 ^ 18))" for w f
      using representable_parts(1) [OF x] that by simp
    have "(if dec_text x \<noteq> [] \<and> hd (dec_text x) = CHR ''-'' then tl (dec_text x) else dec_text x) =
        dec_text \<bar>x\<bar>"
    proof -
      define w f where "w = nat_str (nat \<lfloor>\<bar>x\<bar> * 10 ^ 18\<rfloor> div 10 ^ 18)"
        and "f = trim_right_char CHR ''0'' (pad 18 (nat \<lfloor>\<bar>x\<bar> * 10 ^ 18\<rfloor> mod 10 ^ 18))"
      have t: "dec_text x = render (x < 0) w f" "dec_text \<bar>x\<bar> = render False w f"
        unfolding dec_text_def Let_def w_def f_def by simp_all
      have w: "w \<noteq> []" "hd w \<noteq> CHR ''-''"
        using digits_hd [of w] nat_str_digits nat_str_nonempty unfolding w_def by blast+
      show ?thesis unfolding t using w by (simp add: render_def hd_append)
    qed
    with c show ?thesis by (simp only: Abs_def rbind_simps)
  qed
  ultimately show ?thesis by simp
qed

theorem negate_involution_witness:
  "Negate ''2.50'' = Inr ''-2.5'' \<and> Negate ''-2.5'' = Inr ''2.5'' \<and> Abs ''2.50'' = Inr ''2.5''"
proof -
  have r: "rational ''2.50'' = Inr (25 / 10)" "rational ''2.5'' = Inr (25 / 10)"
    "rational ''-2.5'' = Inr (- (25 / 10))" and c: "canonical_decimal ''2.5'' = Inr ''2.5''"
    "canonical_decimal ''-2.5'' = Inr ''-2.5''"
    by code_simp+
  note t = dec_text_eqI(1) [OF r(2) c(1)] dec_text_eqI(1) [OF r(3) c(2)]
  have a: "\<bar>25 / 10 :: rat\<bar> = 25 / 10" by simp
  show ?thesis by (rule negate_involution [OF r(1), unfolded a t])
qed

end
