(* ===== verification/Activity.thy ===== *)
theory Activity
  imports Decimal
begin

text \<open>
  The account-history records of \<open>internal/activity\<close> (\<open>types.go\<close>, \<open>snapshots.go\<close>) and the
  operations of \<open>validation.go\<close>: \<open>CashEffects\<close>, \<open>ValidateDate\<close>, \<open>Validate\<close>,
  \<open>Reconcile\<close> and \<open>NormalizeDate\<close>. A Go slice is a list (a nil slice and an empty one are the
  same list), a map is an association list with distinct keys, and an operation that mutates its
  argument returns the argument as it leaves it, on the error paths too.

  The locale \<open>exact_sum\<close> is the contract the ledger relies on: adding decimal texts is adding
  the numbers they denote. It is interpreted on \<open>rational\<close> and \<open>Add\<close>; the balances that
  \<open>CashEffects\<close> and \<open>Reconcile\<close> compute are sums by the facts of that interpretation.
\<close>

section \<open>Data\<close>

definition RuleVersion :: string where
  "RuleVersion = ''ibkr-activity-v2''"

abbreviation StatusEffective :: string where "StatusEffective \<equiv> ''effective''"
abbreviation StatusVoided :: string where "StatusVoided \<equiv> ''voided''"
abbreviation StatusNeedsReview :: string where "StatusNeedsReview \<equiv> ''needs_review''"
abbreviation StatusUnsupported :: string where "StatusUnsupported \<equiv> ''unsupported''"
abbreviation BookingBooked :: string where "BookingBooked \<equiv> ''booked''"
abbreviation BookingProvisional :: string where "BookingProvisional \<equiv> ''provisional''"

record leg =
  leg_instrument_id :: int
  leg_symbol :: string
  leg_asset_type :: string
  leg_external_instrument_id :: string
  leg_kind :: string
  leg_component :: string
  leg_currency :: string
  leg_quantity_delta :: string
  leg_cash_delta :: string
  leg_effective_date :: string
  leg_settlement_date :: string

record fill =
  fill_execution_id :: string
  fill_order_id :: string
  fill_side :: string
  fill_open_close :: string
  fill_quantity :: string
  fill_price :: string
  fill_price_currency :: string
  fill_multiplier :: string
  fill_exchange :: string
  fill_reported_net_cash :: string
  fill_reported_realized_pnl :: string

record source =
  src_raw_record_id :: string
  src_source :: string
  src_namespace :: string
  src_key :: string
  src_role :: string
  src_match_method :: string

record identity =
  idn_namespace :: string
  idn_kind :: string
  idn_external_id :: string

record cost_adjustment =
  cost_instrument_id :: int
  cost_external_instrument_id :: string
  cost_currency :: string
  cost_basis_delta :: string
  cost_basis_before :: string
  cost_basis_after :: string
  cost_allocation_method :: string
  cost_evidence :: string

record link =
  link_from_activity_id :: string
  link_to_activity_id :: string
  link_relation_type :: string
  link_status :: string

record activity =
  act_id :: string
  act_account_id :: int
  act_provider :: string
  act_provider_account_id :: string
  act_type :: string
  act_subtype :: string
  act_status :: string
  act_booking_status :: string
  act_description :: string
  act_trade_date :: string
  act_settlement_date :: string
  act_occurred_at :: string
  act_source_timezone :: string
  act_time_precision :: string
  act_revision :: int
  act_legs :: "leg list"
  act_fill :: "fill option"
  act_sources :: "source list"
  act_links :: "link list"
  act_cash_effects :: "(string \<times> string) list"
  act_warnings :: "string list"
  act_cost_adjustments :: "cost_adjustment list"

record raw_record =
  raw_source :: string
  raw_namespace :: string
  raw_key :: string
  raw_record_type :: string
  raw_provider_account_id :: string
  raw_source_updated_at :: string
  raw_payload :: string
  raw_activity :: activity
  raw_identities :: "identity list"

record balance =
  bal_kind :: string
  bal_currency :: string
  bal_instrument_id :: int
  bal_value :: string

record difference =
  diff_balance :: balance
  diff_expected :: string
  diff_actual :: string
  diff_difference :: string
  diff_status :: string

record reconciliation_balance =
  rb_balance :: balance
  rb_external_instrument_id :: string
  rb_symbol :: string
  rb_asset_type :: string
  rb_reported_cost :: string

record reconciliation_snapshot =
  snap_provider_account_id :: string
  snap_as_of_date :: string
  snap_basis :: string
  snap_source_ref :: string
  snap_completeness :: string
  snap_balances :: "reconciliation_balance list"

text \<open>The zero values \<open>Leg{}\<close> and \<open>Activity{}\<close>.\<close>

definition zero_leg :: leg where
  "zero_leg = \<lparr>leg_instrument_id = 0, leg_symbol = [], leg_asset_type = [],
     leg_external_instrument_id = [], leg_kind = [], leg_component = [], leg_currency = [],
     leg_quantity_delta = [], leg_cash_delta = [], leg_effective_date = [], leg_settlement_date = []\<rparr>"

definition zero_activity :: activity where
  "zero_activity = \<lparr>act_id = [], act_account_id = 0, act_provider = [], act_provider_account_id = [],
     act_type = [], act_subtype = [], act_status = [], act_booking_status = [], act_description = [],
     act_trade_date = [], act_settlement_date = [], act_occurred_at = [], act_source_timezone = [],
     act_time_precision = [], act_revision = 0, act_legs = [], act_fill = None, act_sources = [],
     act_links = [], act_cash_effects = [], act_warnings = [], act_cost_adjustments = []\<rparr>"

section \<open>Validation\<close>

definition ValidCurrency :: "string \<Rightarrow> bool" where
  "ValidCurrency s \<longleftrightarrow> length s = 3 \<and> list_all (\<lambda>c. CHR ''A'' \<le> c \<and> c \<le> CHR ''Z'') s"

text \<open>A lookup in a \<open>map[string]string\<close> gives the empty string for an absent key.\<close>

definition lookup_str :: "(string \<times> string) list \<Rightarrow> string \<Rightarrow> string" where
  "lookup_str m k = (case map_of m k of None \<Rightarrow> [] | Some v \<Rightarrow> v)"

definition cash_effect_step :: "(string \<times> string) list \<Rightarrow> leg \<Rightarrow> (string \<times> string) list result" where
  "cash_effect_step m l =
     (if leg_kind l \<noteq> ''cash'' then Inr m
      else if \<not> ValidCurrency (leg_currency l) then Inl ''cash leg requires a currency''
      else let old = lookup_str m (leg_currency l);
               old = (if old = [] then ''0'' else old)
           in rbind (Add old (leg_cash_delta l)) (\<lambda>n. Inr (AList.update (leg_currency l) n m)))"

definition CashEffects :: "leg list \<Rightarrow> (string \<times> string) list result" where
  "CashEffects legs = rfold cash_effect_step [] legs"

definition ValidateDate :: "string \<Rightarrow> string option" where
  "ValidateDate s =
     (if s = [] then None
      else case parse_date s of
          None \<Rightarrow> Some ''invalid activity date''
        | Some t \<Rightarrow> if format_date t \<noteq> s then Some ''invalid activity date'' else None)"

definition validate_leg :: "leg \<Rightarrow> leg result" where
  "validate_leg l =
     (case ValidateDate (leg_effective_date l) of Some e \<Rightarrow> Inl e | None \<Rightarrow>
      case ValidateDate (leg_settlement_date l) of Some e \<Rightarrow> Inl e | None \<Rightarrow>
      if leg_kind l = ''cash'' then
        (if \<not> ValidCurrency (leg_currency l) \<or> leg_cash_delta l = [] \<or> leg_quantity_delta l \<noteq> []
         then Inl ''invalid cash leg''
         else rbind (canonical_decimal (leg_cash_delta l)) (\<lambda>n. Inr (l\<lparr>leg_cash_delta := n\<rparr>)))
      else if leg_kind l = ''position'' then
        (if (leg_instrument_id l = 0 \<and> leg_external_instrument_id l = [] \<and> trim_space (leg_symbol l) = [])
            \<or> leg_quantity_delta l = [] \<or> leg_cash_delta l \<noteq> []
         then Inl ''invalid position leg''
         else rbind (canonical_decimal (leg_quantity_delta l)) (\<lambda>n. Inr (l\<lparr>leg_quantity_delta := n\<rparr>)))
      else Inl ''invalid leg kind'')"

text \<open>A loop that mutates the elements of a slice in place and stops at the first error leaves the
  elements before the error mutated and the rest as they were.\<close>

fun update_in_place :: "('a \<Rightarrow> 'a \<times> string option) \<Rightarrow> 'a list \<Rightarrow> 'a list \<times> string option" where
  "update_in_place f [] = ([], None)"
| "update_in_place f (x # xs) =
     (case f x of
        (y, Some e) \<Rightarrow> (y # xs, Some e)
      | (y, None) \<Rightarrow> (case update_in_place f xs of (ys, e) \<Rightarrow> (y # ys, e)))"

definition keep_on_error :: "('a \<Rightarrow> 'a result) \<Rightarrow> 'a \<Rightarrow> 'a \<times> string option" where
  "keep_on_error f x = (case f x of Inl e \<Rightarrow> (x, Some e) | Inr y \<Rightarrow> (y, None))"

definition canon_field :: "string \<Rightarrow> string result" where
  "canon_field s = (if s = [] then Inr s else canonical_decimal s)"

definition validate_fill :: "fill \<Rightarrow> fill \<times> string option" where
  "validate_fill f =
     (case update_in_place (keep_on_error canon_field)
        [fill_quantity f, fill_price f, fill_multiplier f, fill_reported_net_cash f,
         fill_reported_realized_pnl f] of
        (vs, e) \<Rightarrow>
          (f\<lparr>fill_quantity := vs ! 0, fill_price := vs ! 1, fill_multiplier := vs ! 2,
             fill_reported_net_cash := vs ! 3, fill_reported_realized_pnl := vs ! 4\<rparr>, e))"

definition validate_cost :: "cost_adjustment \<Rightarrow> cost_adjustment \<times> string option" where
  "validate_cost c =
     (if cost_instrument_id c = 0 \<and> cost_external_instrument_id c = []
      then (c, Some ''cost adjustment needs instrument'')
      else if \<not> ValidCurrency (cost_currency c) \<or> cost_evidence c = [] \<or> cost_allocation_method c = []
      then (c, Some ''cost adjustment needs currency and evidence'')
      else if cost_basis_delta c = [] \<and> cost_basis_before c = [] \<and> cost_basis_after c = []
      then (c, Some ''cost adjustment has no values'')
      else case update_in_place (keep_on_error canon_field)
             [cost_basis_delta c, cost_basis_before c, cost_basis_after c] of
          (vs, e) \<Rightarrow>
            (c\<lparr>cost_basis_delta := vs ! 0, cost_basis_before := vs ! 1, cost_basis_after := vs ! 2\<rparr>, e))"

text \<open>The checks before the first mutation, in the order of the code.\<close>

definition validate_header :: "activity \<Rightarrow> string option" where
  "validate_header a =
     (if act_type a = [] \<or> act_provider_account_id a = []
      then Some ''activity type and provider account are required''
      else if act_status a \<notin> {StatusEffective, StatusVoided, StatusNeedsReview, StatusUnsupported}
      then Some ''invalid activity status''
      else if act_booking_status a \<noteq> BookingBooked \<and> act_booking_status a \<noteq> BookingProvisional
      then Some ''invalid booking status''
      else case ValidateDate (act_trade_date a) of Some e \<Rightarrow> Some e | None \<Rightarrow>
        case ValidateDate (act_settlement_date a) of Some e \<Rightarrow> Some e | None \<Rightarrow>
        if act_occurred_at a \<noteq> [] \<and> parse_rfc3339 (act_occurred_at a) = None
        then Some ''occurred_at requires explicit timezone''
        else None)"

definition validate_fill_option :: "fill option \<Rightarrow> fill option \<times> string option" where
  "validate_fill_option fo = (case fo of None \<Rightarrow> (None, None)
     | Some f \<Rightarrow> (case validate_fill f of (f', e) \<Rightarrow> (Some f', e)))"

definition valid_precision :: "string \<Rightarrow> bool" where
  "valid_precision s \<longleftrightarrow> s \<in> {''date'', ''second'', ''millisecond'', ''nanosecond'', ''unknown''}"

definition validate_activity :: "activity \<Rightarrow> activity \<times> string option" where
  "validate_activity a =
     (case validate_header a of Some e \<Rightarrow> (a, Some e) | None \<Rightarrow>
      let a = (if act_time_precision a = [] then a\<lparr>act_time_precision := ''date''\<rparr> else a)
      in if \<not> valid_precision (act_time_precision a)
         then (a, Some ''invalid time precision'')
         else if act_status a = StatusEffective \<and> act_legs a = [] \<and> act_cost_adjustments a = []
         then (a, Some ''effective activity needs an explicit effect'')
         else case update_in_place (keep_on_error validate_leg) (act_legs a) of (ls, e) \<Rightarrow>
           let a = a\<lparr>act_legs := ls\<rparr> in
           if e \<noteq> None then (a, e)
           else case validate_fill_option (act_fill a) of (fo, e) \<Rightarrow>
             let a = a\<lparr>act_fill := fo\<rparr> in
             if e \<noteq> None then (a, e)
             else case update_in_place validate_cost (act_cost_adjustments a) of (cs, e) \<Rightarrow>
               let a = a\<lparr>act_cost_adjustments := cs\<rparr> in
               if e \<noteq> None then (a, e)
               else case CashEffects (act_legs a) of
                   Inl e \<Rightarrow> (a, Some e)
                 | Inr effects \<Rightarrow> (a\<lparr>act_cash_effects := effects\<rparr>, None))"

definition Validate :: "activity option \<Rightarrow> activity option \<times> string option" where
  "Validate a = (case a of
       None \<Rightarrow> (None, Some ''activity is required'')
     | Some a \<Rightarrow> (case validate_activity a of (b, e) \<Rightarrow> (Some b, e)))"

section \<open>Reconciliation\<close>

text \<open>The text of the delta a leg contributes to the reconciled unit, empty when it contributes
  nothing.\<close>

definition leg_delta :: "balance \<Rightarrow> leg \<Rightarrow> string" where
  "leg_delta closing l =
     (let v = (if bal_kind closing = ''cash'' \<and> leg_kind l = ''cash'' \<and> leg_currency l = bal_currency closing
               then leg_cash_delta l else [])
      in if bal_kind closing = ''position'' \<and> leg_kind l = ''position''
            \<and> leg_instrument_id l = bal_instrument_id closing
         then leg_quantity_delta l else v)"

definition reconcile_leg :: "balance \<Rightarrow> string \<Rightarrow> leg \<Rightarrow> string result" where
  "reconcile_leg closing acc l = (let v = leg_delta closing l in if v \<noteq> [] then Add acc v else Inr acc)"

definition reconcile_activity :: "balance \<Rightarrow> string \<times> bool \<Rightarrow> activity \<Rightarrow> (string \<times> bool) result" where
  "reconcile_activity closing st a =
     (case st of (acc, incomplete) \<Rightarrow>
      if act_status a = StatusVoided then Inr (acc, incomplete)
      else if act_status a \<noteq> StatusEffective \<or> act_booking_status a \<noteq> BookingBooked then Inr (acc, True)
      else rbind (rfold (reconcile_leg closing) acc (act_legs a)) (\<lambda>acc. Inr (acc, incomplete)))"

definition Reconcile :: "balance option \<Rightarrow> balance \<Rightarrow> activity list \<Rightarrow> difference \<times> string option" where
  "Reconcile opening closing activities =
     (let d = \<lparr>diff_balance = closing, diff_expected = [], diff_actual = bal_value closing,
               diff_difference = [], diff_status = ''unknown''\<rparr>
      in case opening of None \<Rightarrow> (d, None) | Some opening \<Rightarrow>
         if bal_kind opening \<noteq> bal_kind closing \<or> bal_currency opening \<noteq> bal_currency closing
            \<or> bal_instrument_id opening \<noteq> bal_instrument_id closing
         then (d, Some ''reconciliation unit mismatch'')
         else case rbind (canonical_decimal (bal_value opening))
                    (\<lambda>acc. rfold (reconcile_activity closing) (acc, False) activities) of
             Inl e \<Rightarrow> (d, Some e)
           | Inr (acc, incomplete) \<Rightarrow>
               (let d = d\<lparr>diff_expected := acc\<rparr>
                in case Sub (bal_value closing) acc of
                     Inl e \<Rightarrow> (d, Some e)
                   | Inr diff \<Rightarrow>
                       (d\<lparr>diff_difference := diff,
                          diff_status := (if incomplete then ''incomplete''
                            else if diff \<noteq> ''0'' then ''mismatch'' else ''passed'')\<rparr>, None)))"

section \<open>Date normalisation\<close>

text \<open>\<open>time.Parse("20060102", s)\<close>\<close>

definition parse_compact_date :: "string \<Rightarrow> day option" where
  "parse_compact_date s =
     (if length s = 8 \<and> all_digits s
      then (let y = int (digits_value (take 4 s)); m = int (digits_value (take 2 (drop 4 s)));
                d = int (digits_value (drop 6 s))
            in if valid_civil y m d then Some (day_number y m d) else None)
      else None)"

text \<open>\<open>strings.Index(s, sep)\<close> for a one-byte separator, when it is positive.\<close>

definition cut_at :: "char \<Rightarrow> string \<Rightarrow> string option" where
  "cut_at c s = (let p = takeWhile (\<lambda>x. x \<noteq> c) s in if c \<in> set s \<and> p \<noteq> [] then Some p else None)"

lemma cut_at_shorter: "cut_at c s = Some p \<Longrightarrow> length p < length s"
proof -
  assume "cut_at c s = Some p"
  then have "p = takeWhile (\<lambda>x. x \<noteq> c) s" "c \<in> set s" by (auto simp: cut_at_def Let_def split: if_splits)
  then show ?thesis
    by (metis (mono_tags, lifting) length_takeWhile_le le_neq_implies_less takeWhile_eq_all_conv
        takeWhile_eq_take take_all_iff le_refl)
qed

lemma trim_space_length: "length (trim_space s) \<le> length s"
proof -
  have "length (trim_front ps t) \<le> length t" for ps t
    using trim_front_suffix suffix_length_le by blast
  then show ?thesis unfolding trim_space_def by (metis le_trans length_rev)
qed

function NormalizeDate :: "string \<Rightarrow> string" where
  "NormalizeDate s0 =
     (let s = trim_space s0
      in case parse_date s of Some t \<Rightarrow> format_date t | None \<Rightarrow>
         case parse_compact_date s of Some t \<Rightarrow> format_date t | None \<Rightarrow>
         case cut_at CHR '';'' s of Some p \<Rightarrow> NormalizeDate p | None \<Rightarrow>
         case cut_at CHR ''T'' s of Some p \<Rightarrow> NormalizeDate p | None \<Rightarrow>
         case cut_at CHR '' '' s of Some p \<Rightarrow> NormalizeDate p | None \<Rightarrow> [])"
  by pat_completeness auto
termination
  by (relation "measure length")
    (auto dest!: cut_at_shorter intro: less_le_trans trim_space_length)

declare NormalizeDate.simps [simp del]

section \<open>The contract of exact sums\<close>

text \<open>Numerals of type \<open>'d\<close> that denote rationals, and an addition that returns the numeral of the
  sum whenever the sum fits.\<close>

locale exact_sum =
  fixes num :: "'d \<Rightarrow> rat option" and str_of :: "rat \<Rightarrow> 'd" and fits :: "rat \<Rightarrow> bool"
    and add :: "'d \<Rightarrow> 'd \<Rightarrow> 'e + 'd"
  assumes num_str: "fits x \<Longrightarrow> num (str_of x) = Some x"
    and fits_0: "fits 0"
    and add_Inr_iff: "add a b = Inr c \<longleftrightarrow>
      (\<exists>x y. num a = Some x \<and> num b = Some y \<and> fits (x + y) \<and> c = str_of (x + y))"
begin

definition val :: "'d \<Rightarrow> rat" where
  "val s = (case num s of None \<Rightarrow> 0 | Some x \<Rightarrow> x)"

lemma val_Some: "num s = Some x \<Longrightarrow> val s = x"
  by (simp add: val_def)

lemma add_str:
  "fits a \<Longrightarrow> add (str_of a) s = Inr c \<longleftrightarrow> num s \<noteq> None \<and> fits (a + val s) \<and> c = str_of (a + val s)"
  by (auto simp: add_Inr_iff num_str val_def split: option.splits)

lemma fold_add:
  "fits a \<Longrightarrow> rfold (\<lambda>s x. add s (d x)) (str_of a) xs = Inr u \<longleftrightarrow>
     (\<forall>x\<in>set xs. num (d x) \<noteq> None) \<and> (\<forall>n. fits (a + (\<Sum>x\<leftarrow>take n xs. val (d x))))
     \<and> u = str_of (a + (\<Sum>x\<leftarrow>xs. val (d x)))"
proof (induction xs arbitrary: a)
  case Nil
  then show ?case by auto
next
  case (Cons x xs)
  let ?a = "a + val (d x)"
  have pre: "(\<forall>n. fits (a + (\<Sum>y\<leftarrow>take n (x # xs). val (d y)))) \<longleftrightarrow>
      fits ?a \<and> (\<forall>n. fits (?a + (\<Sum>y\<leftarrow>take n xs. val (d y))))" (is "?L \<longleftrightarrow> ?R")
  proof
    assume ?L
    then have "fits (a + (\<Sum>y\<leftarrow>take (Suc n) (x # xs). val (d y)))" for n by blast
    then have R: "fits (?a + (\<Sum>y\<leftarrow>take n xs. val (d y)))" for n by (simp add: add.assoc)
    with R [of 0] show ?R by simp
  next
    assume ?R
    show ?L
    proof
      fix n
      show "fits (a + (\<Sum>y\<leftarrow>take n (x # xs). val (d y)))"
        using \<open>?R\<close> Cons.prems by (cases n) (auto simp: add.assoc)
    qed
  qed
  have "rfold (\<lambda>s x. add s (d x)) (str_of a) (x # xs) = Inr u \<longleftrightarrow>
      num (d x) \<noteq> None \<and> fits ?a \<and> rfold (\<lambda>s x. add s (d x)) (str_of ?a) xs = Inr u"
    using Cons.prems by (auto simp: rbind_Inr_iff add_str)
  then show ?case using Cons.IH [of ?a] pre by (auto simp: add.assoc)
qed

text \<open>Balances per key: the addition of an item goes to the balance of its key, which starts at
  zero. \<open>get\<close> reads a balance.\<close>

definition total_for :: "('x \<Rightarrow> 'k) \<Rightarrow> ('x \<Rightarrow> 'd) \<Rightarrow> 'k \<Rightarrow> 'x list \<Rightarrow> rat" where
  "total_for key d k xs = (\<Sum>x\<leftarrow>filter (\<lambda>x. key x = k) xs. val (d x))"

lemma total_for_snoc:
  "total_for key d k (xs @ [x]) = total_for key d k xs + (if key x = k then val (d x) else 0)"
  by (simp add: total_for_def)

definition represents :: "('x \<Rightarrow> 'k) \<Rightarrow> ('x \<Rightarrow> 'd) \<Rightarrow> 'x list \<Rightarrow> ('k \<times> 'd) list \<Rightarrow> bool" where
  "represents key d xs m \<longleftrightarrow> distinct (map fst m) \<and>
     (\<forall>k. map_of m k = (if \<exists>x\<in>set xs. key x = k then Some (str_of (total_for key d k xs)) else None))"

definition addable :: "('x \<Rightarrow> 'k) \<Rightarrow> ('x \<Rightarrow> 'd) \<Rightarrow> 'x list \<Rightarrow> bool" where
  "addable key d xs \<longleftrightarrow>
     (\<forall>x\<in>set xs. num (d x) \<noteq> None) \<and> (\<forall>n k. fits (total_for key d k (take n xs)))"

lemma addable_total: "addable key d xs \<Longrightarrow> fits (total_for key d k xs)"
  by (metis addable_def order_refl take_all_iff)

lemma addable_snoc:
  "addable key d (xs @ [x]) \<longleftrightarrow>
     addable key d xs \<and> num (d x) \<noteq> None \<and> fits (total_for key d (key x) xs + val (d x))"
  (is "?l \<longleftrightarrow> ?r")
proof
  assume l: ?l
  then have t: "fits (total_for key d k (take n (xs @ [x])))" for n k by (simp add: addable_def)
  have "fits (total_for key d k (take n xs))" for n k
    using t [of k "min n (length xs)"] by (auto simp: min_def split: if_splits)
  moreover have "fits (total_for key d (key x) xs + val (d x))"
    using t [of "key x" "Suc (length xs)"] by (simp add: total_for_snoc)
  ultimately show ?r using l by (auto simp: addable_def)
next
  assume r: ?r
  then have "fits (total_for key d k (xs @ [x]))" for k
    using addable_total [of key d xs] by (auto simp: total_for_snoc)
  then have "fits (total_for key d k (take n (xs @ [x])))" for n k
    using r by (cases "n \<le> length xs") (auto simp: addable_def)
  with r show ?l by (auto simp: addable_def)
qed

text \<open>What reading a balance has to give: zero for an absent key, else the stored numeral.\<close>

definition reads :: "(('k \<times> 'd) list \<Rightarrow> 'k \<Rightarrow> 'd) \<Rightarrow> bool" where
  "reads get \<longleftrightarrow> (\<forall>m k. (map_of m k = None \<longrightarrow> get m k = str_of 0) \<and>
     (\<forall>v. map_of m k = Some v \<longrightarrow> num v \<noteq> None \<longrightarrow> get m k = v))"

lemma get_represents:
  assumes "reads get" "represents key d xs m" "addable key d xs"
  shows "get m k = str_of (total_for key d k xs)"
proof (cases "\<exists>y\<in>set xs. key y = k")
  case True
  with assms(2) have "map_of m k = Some (str_of (total_for key d k xs))" by (simp add: represents_def)
  with assms(1) addable_total [OF assms(3), of k] show ?thesis by (simp add: reads_def num_str)
next
  case False
  with assms(2) have "map_of m k = None" by (auto simp: represents_def)
  moreover from False have "total_for key d k xs = 0"
    unfolding total_for_def by (metis (mono_tags, lifting) filter_False list.map(1) sum_list.Nil)
  ultimately show ?thesis using assms(1) by (simp add: reads_def)
qed

definition add_to_key ::
  "(('k \<times> 'd) list \<Rightarrow> 'k \<Rightarrow> 'd) \<Rightarrow> ('x \<Rightarrow> 'k) \<Rightarrow> ('x \<Rightarrow> 'd) \<Rightarrow> ('k \<times> 'd) list \<Rightarrow> 'x \<Rightarrow> 'e + ('k \<times> 'd) list" where
  "add_to_key get key d m x =
     rbind (add (get m (key x)) (d x)) (\<lambda>n. Inr (AList.update (key x) n m))"

lemma add_to_key_represents:
  assumes "reads get" "represents key d xs m" "addable key d xs"
  shows "add_to_key get key d m x = Inr m' \<longleftrightarrow> addable key d (xs @ [x]) \<and>
    m' = AList.update (key x) (str_of (total_for key d (key x) xs + val (d x))) m"
    and "represents key d (xs @ [x])
      (AList.update (key x) (str_of (total_for key d (key x) xs + val (d x))) m)"
  using assms(2,3) get_represents [OF assms] addable_total [OF assms(3)]
  by (auto simp: add_to_key_def rbind_Inr_iff add_str addable_snoc represents_def total_for_snoc
      distinct_keys_update)

lemma keyed_fold:
  assumes "reads get"
  shows "(rfold (add_to_key get key d) [] xs = Inr m \<longrightarrow> addable key d xs \<and> represents key d xs m)
    \<and> (addable key d xs \<longrightarrow> (\<exists>m. rfold (add_to_key get key d) [] xs = Inr m))"
proof (induction xs arbitrary: m rule: rev_induct)
  case Nil
  then show ?case by (auto simp: addable_def represents_def total_for_def fits_0)
next
  case (snoc x xs)
  note step = add_to_key_represents [OF assms]
  show ?case
  proof (intro conjI impI)
    assume "rfold (add_to_key get key d) [] (xs @ [x]) = Inr m"
    then obtain m' where m': "rfold (add_to_key get key d) [] xs = Inr m'"
      "add_to_key get key d m' x = Inr m" by (auto simp: rfold_append rbind_Inr_iff)
    with snoc have i: "represents key d xs m'" "addable key d xs" by blast+
    from m'(2) step [OF i] show "addable key d (xs @ [x])" "represents key d (xs @ [x]) m" by auto
  next
    assume a: "addable key d (xs @ [x])"
    then have "addable key d xs" by (simp add: addable_snoc)
    with snoc obtain m' where m': "rfold (add_to_key get key d) [] xs = Inr m'" by blast
    with snoc have i: "represents key d xs m'" "addable key d xs" by blast+
    have "\<exists>m. add_to_key get key d m' x = Inr m" unfolding step(1) [OF i] using a by simp
    with m' show "\<exists>m. rfold (add_to_key get key d) [] (xs @ [x]) = Inr m"
      by (auto simp: rfold_append)
  qed
qed

end

text \<open>The number a decimal text denotes, if any.\<close>

definition dec_num :: "string \<Rightarrow> rat option" where
  "dec_num s = (case rational s of Inl _ \<Rightarrow> None | Inr x \<Rightarrow> Some x)"

lemma dec_num_Some: "dec_num s = Some x \<longleftrightarrow> rational s = Inr x"
  by (auto simp: dec_num_def split: sum.splits)

interpretation ledger: exact_sum dec_num dec_text representable Add
proof
  show "dec_num (dec_text x) = Some x" if "representable x" for x
    using that by (simp add: dec_num_Some dec_text_facts)
  show "representable 0" by (simp add: representable_def)
  show "Add a b = Inr c \<longleftrightarrow> (\<exists>x y. dec_num a = Some x \<and> dec_num b = Some y
      \<and> representable (x + y) \<and> c = dec_text (x + y))" for a b c
    unfolding dec_num_Some Add_def rbind_Inr_iff exact_Inr_iff by auto
qed

abbreviation dec_val :: "string \<Rightarrow> rat" where
  "dec_val \<equiv> ledger.val"

lemma dec_num_Nil [simp]: "dec_num [] = None"
  by code_simp

lemma dec_val_canonical: "canonical_decimal s = Inr t \<Longrightarrow> dec_val t = dec_val s"
  by (metis dec_num_Some ledger.val_Some rational_canonical)

section \<open>Cash effects\<close>

definition cash_leg :: "leg \<Rightarrow> bool" where
  "cash_leg l \<longleftrightarrow> leg_kind l = ''cash''"

definition read_cash :: "(string \<times> string) list \<Rightarrow> string \<Rightarrow> string" where
  "read_cash m k = (if lookup_str m k = [] then ''0'' else lookup_str m k)"

lemma reads_read_cash: "ledger.reads read_cash"
  by (auto simp: ledger.reads_def read_cash_def lookup_str_def)

lemma rfold_filter:
  "rfold (\<lambda>acc x. if P x then f acc x else Inr acc) acc xs = rfold f acc (filter P xs)"
proof (induction xs arbitrary: acc)
  case (Cons x xs)
  then show ?case by (cases "f acc x") auto
qed simp

lemma rfold_guard:
  assumes "\<forall>x\<in>set xs. P x"
  shows "rfold (\<lambda>acc x. if P x then f acc x else g x) acc xs = rfold f acc xs"
  using assms
proof (induction xs arbitrary: acc)
  case (Cons x xs)
  then show ?case by (cases "f acc x") auto
qed simp

lemma CashEffects_fold:
  "CashEffects legs = rfold (\<lambda>m l. if ValidCurrency (leg_currency l)
     then ledger.add_to_key read_cash leg_currency leg_cash_delta m l
     else Inl ''cash leg requires a currency'') [] (filter cash_leg legs)"
  unfolding CashEffects_def rfold_filter [symmetric]
  by (rule arg_cong [where f = "\<lambda>f. rfold f [] legs"])
    (auto simp: fun_eq_iff cash_effect_step_def cash_leg_def ledger.add_to_key_def read_cash_def Let_def)

lemma rfold_guard_Inr:
  "rfold (\<lambda>acc x. if P x then f acc x else Inl e) acc xs = Inr r \<longleftrightarrow>
     (\<forall>x\<in>set xs. P x) \<and> rfold f acc xs = Inr r"
proof (induction xs arbitrary: acc)
  case (Cons x xs)
  then show ?case by (cases "f acc x") auto
qed simp

lemma CashEffects_Inr_iff:
  "CashEffects legs = Inr m \<longleftrightarrow> (\<forall>l\<in>set legs. cash_leg l \<longrightarrow> ValidCurrency (leg_currency l)) \<and>
     rfold (ledger.add_to_key read_cash leg_currency leg_cash_delta) [] (filter cash_leg legs) = Inr m"
  unfolding CashEffects_fold rfold_guard_Inr by auto

text \<open>The sum of the cash legs of one currency.\<close>

definition cash_sum :: "string \<Rightarrow> leg list \<Rightarrow> rat" where
  "cash_sum cur legs = (\<Sum>l\<leftarrow>filter (\<lambda>l. cash_leg l \<and> leg_currency l = cur) legs. dec_val (leg_cash_delta l))"

lemma total_for_cash:
  "ledger.total_for leg_currency leg_cash_delta cur (filter cash_leg legs) = cash_sum cur legs"
  by (simp add: ledger.total_for_def cash_sum_def conj_commute)

text \<open>C2: \<open>CashEffects\<close> never mixes currencies: the result has exactly the currencies of the cash
  legs, each with the canonical text of the exact sum of its legs.\<close>

theorem cash_effects_per_currency:
  assumes "CashEffects legs = Inr m"
  shows "distinct (map fst m) \<and> (\<forall>cur. map_of m cur =
    (if \<exists>l\<in>set legs. cash_leg l \<and> leg_currency l = cur then Some (dec_text (cash_sum cur legs)) else None))"
proof -
  have "ledger.represents leg_currency leg_cash_delta (filter cash_leg legs) m"
    using assms ledger.keyed_fold [OF reads_read_cash] unfolding CashEffects_Inr_iff by blast
  then show ?thesis by (auto simp: ledger.represents_def total_for_cash)
qed

theorem cash_effects_per_currency_witness:
  "\<exists>m. CashEffects
     [zero_leg\<lparr>leg_kind := ''cash'', leg_currency := ''USD'', leg_cash_delta := ''7.00''\<rparr>] = Inr m
   \<and> map_of m ''USD'' = Some ''7'' \<and> map_of m ''EUR'' = None" (is "\<exists>m. CashEffects [?l] = Inr m \<and> _")
proof -
  have "rational ''7.00'' = Inr (7)" "ValidCurrency ''USD''" by code_simp+
  moreover have r: "rational ''7'' = Inr (7)" "canonical_decimal ''7'' = Inr ''7''"
    by code_simp+
  note t = dec_text_eqI(1) [OF r]
  ultimately have v: "dec_num ''7.00'' = Some (7)" "representable (7)"
    by (auto simp: dec_num_Some dest: rational_representable)
  have "Add ''0'' ''7.00'' = Inr (dec_text (7))"
    using v ledger.add_str [OF ledger.fits_0, of "''7.00''"]
    by (simp only: dec_text_zero ledger.val_Some add_0_left simp_thms option.distinct)
  then have "CashEffects [?l] = Inr [(''USD'', dec_text (7))]"
    using \<open>ValidCurrency ''USD''\<close> by (simp add: CashEffects_def cash_effect_step_def lookup_str_def)
  then obtain m where m: "CashEffects [?l] = Inr m" ..
  have "cash_sum ''USD'' [?l] = 7"
    using ledger.val_Some [OF v(1)] by (simp add: cash_sum_def cash_leg_def)
  with cash_effects_per_currency [OF m] t m show ?thesis by (auto simp: cash_leg_def)
qed

section \<open>Validation\<close>

lemma update_in_place_None:
  "update_in_place f xs = (ys, None) \<longleftrightarrow> list_all2 (\<lambda>x y. f x = (y, None)) xs ys"
proof (induction xs arbitrary: ys)
  case Nil
  then show ?case by auto
next
  case (Cons x xs)
  obtain zs e where z: "update_in_place f xs = (zs, e)" by fastforce
  obtain y e' where y: "f x = (y, e')" by fastforce
  show ?case using Cons [of "tl ys"] z y by (cases ys; cases e') auto
qed

lemma update_in_place_length: "length (fst (update_in_place f xs)) = length xs"
  by (induction xs) (auto split: prod.splits option.splits)

lemma update_in_place_idem:
  assumes "update_in_place f xs = (ys, None)" and "\<And>x y. f x = (y, None) \<Longrightarrow> f y = (y, None)"
  shows "update_in_place f ys = (ys, None)"
  using assms(1) unfolding update_in_place_None
  by (induction rule: list_all2_induct) (auto dest: assms(2))

lemma keep_on_error_None [simp]: "keep_on_error f x = (y, None) \<longleftrightarrow> f x = Inr y"
  by (auto simp: keep_on_error_def split: sum.splits)

lemma canonical_nonempty: "canonical_decimal s = Inr t \<Longrightarrow> t \<noteq> []"
  by (metis canonical_idem dec_num_Nil dec_num_Some option.distinct(1) rational_canonical)

lemma canon_field_idem: "canon_field s = Inr t \<Longrightarrow> canon_field t = Inr t"
  by (cases "s = []") (auto simp: canon_field_def dest: canonical_nonempty canonical_idem)

lemma canon_field_Nil: "canon_field s = Inr t \<Longrightarrow> t = [] \<longleftrightarrow> s = []"
  by (cases "s = []") (auto simp: canon_field_def dest: canonical_nonempty)

definition date_ok :: "string \<Rightarrow> bool" where
  "date_ok s \<longleftrightarrow> s = [] \<or> parse_date s \<noteq> None"

lemma ValidateDate_None: "ValidateDate s = None \<longleftrightarrow> date_ok s"
  using format_parse_date by (auto simp: ValidateDate_def date_ok_def split: option.splits)

definition identified :: "leg \<Rightarrow> bool" where
  "identified l \<longleftrightarrow>
     leg_instrument_id l \<noteq> 0 \<or> leg_external_instrument_id l \<noteq> [] \<or> trim_space (leg_symbol l) \<noteq> []"

lemma validate_leg_Inr:
  "validate_leg l = Inr l' \<longleftrightarrow> date_ok (leg_effective_date l) \<and> date_ok (leg_settlement_date l) \<and>
     (leg_kind l = ''cash'' \<and> ValidCurrency (leg_currency l) \<and> leg_cash_delta l \<noteq> []
        \<and> leg_quantity_delta l = []
        \<and> (\<exists>n. canonical_decimal (leg_cash_delta l) = Inr n \<and> l' = l\<lparr>leg_cash_delta := n\<rparr>) \<or>
      leg_kind l = ''position'' \<and> identified l \<and> leg_quantity_delta l \<noteq> [] \<and> leg_cash_delta l = []
        \<and> (\<exists>n. canonical_decimal (leg_quantity_delta l) = Inr n \<and> l' = l\<lparr>leg_quantity_delta := n\<rparr>))"
  unfolding ValidateDate_None [symmetric]
  by (cases "ValidateDate (leg_effective_date l)"; cases "ValidateDate (leg_settlement_date l)";
      cases "leg_kind l = ''cash''"; cases "leg_kind l = ''position''")
    (auto simp: validate_leg_def identified_def rbind_Inr_iff)

lemma validate_leg_idem: "validate_leg l = Inr l' \<Longrightarrow> validate_leg l' = Inr l'"
  unfolding validate_leg_Inr
  by (elim conjE disjE exE) (auto simp: identified_def dest: canonical_nonempty canonical_idem)

lemma validate_fill_None:
  "validate_fill f = (g, None) \<longleftrightarrow> (\<exists>q p m n r. canon_field (fill_quantity f) = Inr q
     \<and> canon_field (fill_price f) = Inr p \<and> canon_field (fill_multiplier f) = Inr m
     \<and> canon_field (fill_reported_net_cash f) = Inr n \<and> canon_field (fill_reported_realized_pnl f) = Inr r
     \<and> g = f\<lparr>fill_quantity := q, fill_price := p, fill_multiplier := m,
         fill_reported_net_cash := n, fill_reported_realized_pnl := r\<rparr>)"
  by (cases "canon_field (fill_quantity f)"; cases "canon_field (fill_price f)";
      cases "canon_field (fill_multiplier f)"; cases "canon_field (fill_reported_net_cash f)";
      cases "canon_field (fill_reported_realized_pnl f)")
    (auto simp: validate_fill_def keep_on_error_def)

lemma validate_fill_idem: "validate_fill f = (g, None) \<Longrightarrow> validate_fill g = (g, None)"
proof -
  assume "validate_fill f = (g, None)"
  then obtain q p m n r where f: "canon_field (fill_quantity f) = Inr q"
    "canon_field (fill_price f) = Inr p" "canon_field (fill_multiplier f) = Inr m"
    "canon_field (fill_reported_net_cash f) = Inr n" "canon_field (fill_reported_realized_pnl f) = Inr r"
    "g = f\<lparr>fill_quantity := q, fill_price := p, fill_multiplier := m,
         fill_reported_net_cash := n, fill_reported_realized_pnl := r\<rparr>"
    unfolding validate_fill_None by blast
  show ?thesis by (simp add: validate_fill_None f(6) f(1-5) [THEN canon_field_idem])
qed

lemma validate_cost_None:
  "validate_cost c = (b, None) \<longleftrightarrow>
     (cost_instrument_id c \<noteq> 0 \<or> cost_external_instrument_id c \<noteq> []) \<and> ValidCurrency (cost_currency c)
     \<and> cost_evidence c \<noteq> [] \<and> cost_allocation_method c \<noteq> []
     \<and> (cost_basis_delta c \<noteq> [] \<or> cost_basis_before c \<noteq> [] \<or> cost_basis_after c \<noteq> [])
     \<and> (\<exists>d e f. canon_field (cost_basis_delta c) = Inr d \<and> canon_field (cost_basis_before c) = Inr e
         \<and> canon_field (cost_basis_after c) = Inr f
         \<and> b = c\<lparr>cost_basis_delta := d, cost_basis_before := e, cost_basis_after := f\<rparr>)"
  by (cases "canon_field (cost_basis_delta c)"; cases "canon_field (cost_basis_before c)";
      cases "canon_field (cost_basis_after c)")
    (auto simp: validate_cost_def keep_on_error_def)

lemma validate_cost_idem: "validate_cost c = (b, None) \<Longrightarrow> validate_cost b = (b, None)"
proof -
  assume v: "validate_cost c = (b, None)"
  then obtain d e f where f: "canon_field (cost_basis_delta c) = Inr d"
    "canon_field (cost_basis_before c) = Inr e" "canon_field (cost_basis_after c) = Inr f"
    "b = c\<lparr>cost_basis_delta := d, cost_basis_before := e, cost_basis_after := f\<rparr>"
    unfolding validate_cost_None by blast
  from v show ?thesis
    by (simp add: validate_cost_None f(4) f(1-3) [THEN canon_field_idem] f(1-3) [THEN canon_field_Nil])
qed

definition default_precision :: "activity \<Rightarrow> string" where
  "default_precision a = (if act_time_precision a = [] then ''date'' else act_time_precision a)"

lemma validate_activity_None:
  "validate_activity a = (b, None) \<longleftrightarrow> validate_header a = None
     \<and> valid_precision (default_precision a)
     \<and> (act_status a = StatusEffective \<longrightarrow> act_legs a \<noteq> [] \<or> act_cost_adjustments a \<noteq> [])
     \<and> (\<exists>ls fo cs ef. list_all2 (\<lambda>l l'. validate_leg l = Inr l') (act_legs a) ls
         \<and> validate_fill_option (act_fill a) = (fo, None)
         \<and> list_all2 (\<lambda>c c'. validate_cost c = (c', None)) (act_cost_adjustments a) cs
         \<and> CashEffects ls = Inr ef
         \<and> b = a\<lparr>act_time_precision := default_precision a, act_legs := ls, act_fill := fo,
                 act_cost_adjustments := cs, act_cash_effects := ef\<rparr>)"
proof -
  obtain ls e where l: "update_in_place (keep_on_error validate_leg) (act_legs a) = (ls, e)" by fastforce
  obtain cs e' where c: "update_in_place validate_cost (act_cost_adjustments a) = (cs, e')" by fastforce
  have ll: "list_all2 (\<lambda>l l'. validate_leg l = Inr l') (act_legs a) ls' \<longleftrightarrow> ls = ls' \<and> e = None" for ls'
    using update_in_place_None [of "keep_on_error validate_leg" "act_legs a" ls'] l by auto
  have cc: "list_all2 (\<lambda>c c'. validate_cost c = (c', None)) (act_cost_adjustments a) cs' \<longleftrightarrow>
      cs = cs' \<and> e' = None" for cs'
    using update_in_place_None [of validate_cost "act_cost_adjustments a" cs'] c by auto
  obtain fo e'' where f: "validate_fill_option (act_fill a) = (fo, e'')" by fastforce
  have ff: "validate_fill_option (act_fill a) = (fo', None) \<longleftrightarrow> fo = fo' \<and> e'' = None" for fo'
    using f by auto
  have p: "act_time_precision (if act_time_precision a = [] then a\<lparr>act_time_precision := ''date''\<rparr> else a) =
      default_precision a" "(if act_time_precision a = [] then a\<lparr>act_time_precision := ''date''\<rparr> else a) =
      a\<lparr>act_time_precision := default_precision a\<rparr>"
    by (simp_all add: default_precision_def)
  show ?thesis
    unfolding ll cc ff validate_activity_def Let_def p
    by (cases "validate_header a"; cases "valid_precision (default_precision a)";
        cases "act_status a = StatusEffective \<and> act_legs a = [] \<and> act_cost_adjustments a = []";
        cases e; cases e'; cases e''; cases "CashEffects ls")
      (simp_all add: l c f, auto)
qed

text \<open>What validation guarantees of a leg, a fill and a cost adjustment.\<close>

definition canonical_text :: "string \<Rightarrow> bool" where
  "canonical_text s \<longleftrightarrow> canonical_decimal s = Inr s"

definition leg_ok :: "leg \<Rightarrow> bool" where
  "leg_ok l \<longleftrightarrow> date_ok (leg_effective_date l) \<and> date_ok (leg_settlement_date l) \<and>
     (leg_kind l = ''cash'' \<and> ValidCurrency (leg_currency l) \<and> canonical_text (leg_cash_delta l)
        \<and> leg_quantity_delta l = [] \<or>
      leg_kind l = ''position'' \<and> canonical_text (leg_quantity_delta l) \<and> leg_cash_delta l = []
        \<and> identified l)"

definition field_ok :: "string \<Rightarrow> bool" where
  "field_ok s \<longleftrightarrow> s = [] \<or> canonical_text s"

definition fill_ok :: "fill \<Rightarrow> bool" where
  "fill_ok f \<longleftrightarrow> list_all field_ok [fill_quantity f, fill_price f, fill_multiplier f,
     fill_reported_net_cash f, fill_reported_realized_pnl f]"

definition cost_ok :: "cost_adjustment \<Rightarrow> bool" where
  "cost_ok c \<longleftrightarrow> list_all field_ok [cost_basis_delta c, cost_basis_before c, cost_basis_after c]
     \<and> list_ex (\<lambda>s. s \<noteq> []) [cost_basis_delta c, cost_basis_before c, cost_basis_after c]
     \<and> (cost_instrument_id c \<noteq> 0 \<or> cost_external_instrument_id c \<noteq> [])
     \<and> ValidCurrency (cost_currency c) \<and> cost_evidence c \<noteq> []"

definition activity_ok :: "activity \<Rightarrow> bool" where
  "activity_ok a \<longleftrightarrow>
     act_status a \<in> {StatusEffective, StatusVoided, StatusNeedsReview, StatusUnsupported}
     \<and> act_booking_status a \<in> {BookingBooked, BookingProvisional}
     \<and> date_ok (act_trade_date a) \<and> date_ok (act_settlement_date a)
     \<and> (act_occurred_at a = [] \<or> parse_rfc3339 (act_occurred_at a) \<noteq> None)
     \<and> (act_status a = StatusEffective \<longrightarrow> act_legs a \<noteq> [] \<or> act_cost_adjustments a \<noteq> [])
     \<and> list_all leg_ok (act_legs a) \<and> pred_option fill_ok (act_fill a)
     \<and> list_all cost_ok (act_cost_adjustments a)
     \<and> CashEffects (act_legs a) = Inr (act_cash_effects a)"

text \<open>Two legs that differ only in how their deltas are written.\<close>

definition same_leg :: "leg \<Rightarrow> leg \<Rightarrow> bool" where
  "same_leg l l' \<longleftrightarrow>
     l = l'\<lparr>leg_cash_delta := leg_cash_delta l, leg_quantity_delta := leg_quantity_delta l\<rparr>
     \<and> dec_val (leg_cash_delta l') = dec_val (leg_cash_delta l)
     \<and> dec_val (leg_quantity_delta l') = dec_val (leg_quantity_delta l)"

lemma validate_leg_ok:
  assumes "validate_leg l = Inr l'"
  shows "leg_ok l'" and "same_leg l l'"
proof -
  from assms have "leg_ok l' \<and> same_leg l l'"
    unfolding validate_leg_Inr
  proof (elim conjE disjE exE)
    fix n assume n: "canonical_decimal (leg_cash_delta l) = Inr n" and l': "l' = l\<lparr>leg_cash_delta := n\<rparr>"
      and "date_ok (leg_effective_date l)" "date_ok (leg_settlement_date l)" "leg_kind l = ''cash''"
        "ValidCurrency (leg_currency l)" "leg_quantity_delta l = []"
    then show ?thesis
      by (simp add: leg_ok_def same_leg_def canonical_text_def canonical_idem [OF n]
          dec_val_canonical [OF n])
  next
    fix n assume n: "canonical_decimal (leg_quantity_delta l) = Inr n"
      and l': "l' = l\<lparr>leg_quantity_delta := n\<rparr>"
      and "date_ok (leg_effective_date l)" "date_ok (leg_settlement_date l)" "leg_kind l = ''position''"
        "identified l" "leg_cash_delta l = []"
    then show ?thesis
      by (simp add: leg_ok_def same_leg_def canonical_text_def identified_def canonical_idem [OF n]
          dec_val_canonical [OF n])
  qed
  then show "leg_ok l'" "same_leg l l'" by blast+
qed

lemma canon_field_ok: "canon_field s = Inr t \<Longrightarrow> field_ok t"
  by (cases "s = []") (auto simp: canon_field_def field_ok_def canonical_text_def dest: canonical_idem)

lemma validate_fill_ok: "validate_fill f = (g, None) \<Longrightarrow> fill_ok g"
  by (auto simp: validate_fill_None fill_ok_def dest!: canon_field_ok)

lemma validate_cost_ok: "validate_cost c = (b, None) \<Longrightarrow> cost_ok b"
  unfolding validate_cost_None cost_ok_def
  by (elim conjE exE) (simp add: canon_field_ok [of "cost_basis_delta c"] canon_field_ok [of "cost_basis_before c"]
      canon_field_ok [of "cost_basis_after c"] canon_field_Nil [of "cost_basis_delta c"]
      canon_field_Nil [of "cost_basis_before c"] canon_field_Nil [of "cost_basis_after c"])

lemma validate_fill_option_None:
  assumes "validate_fill_option fo = (go, None)"
  shows "validate_fill_option go = (go, None)" and "pred_option fill_ok go"
  using assms validate_fill_idem validate_fill_ok
  by (auto simp: validate_fill_option_def split: option.splits prod.splits)

lemma list_all2_target:
  assumes "list_all2 R xs ys" "\<And>x y. R x y \<Longrightarrow> P y"
  shows "list_all P ys"
  using assms by (induction rule: list_all2_induct) auto

lemma list_all2_source:
  assumes "list_all2 R xs ys" "\<And>x y. R x y \<Longrightarrow> R y y"
  shows "list_all2 R ys ys"
  using assms by (induction rule: list_all2_induct) auto

lemma validate_header_None:
  assumes "validate_header a = None"
  shows "act_status a \<in> {StatusEffective, StatusVoided, StatusNeedsReview, StatusUnsupported}
    \<and> act_booking_status a \<in> {BookingBooked, BookingProvisional} \<and> date_ok (act_trade_date a)
    \<and> date_ok (act_settlement_date a) \<and> (act_occurred_at a = [] \<or> parse_rfc3339 (act_occurred_at a) \<noteq> None)"
  using assms unfolding validate_header_def ValidateDate_None [symmetric]
  by (simp split: if_splits option.splits)

lemma validate_activity_ok:
  assumes "validate_activity a = (b, None)"
  shows "activity_ok b \<and> list_all2 same_leg (act_legs a) (act_legs b) \<and> validate_activity b = (b, None)"
proof -
  note v = assms [unfolded validate_activity_None]
  then obtain ls fo cs ef where h: "validate_header a = None"
    and l: "list_all2 (\<lambda>l l'. validate_leg l = Inr l') (act_legs a) ls"
    and f: "validate_fill_option (act_fill a) = (fo, None)"
    and c: "list_all2 (\<lambda>c c'. validate_cost c = (c', None)) (act_cost_adjustments a) cs"
    and e: "CashEffects ls = Inr ef"
    and b: "b = a\<lparr>act_time_precision := default_precision a, act_legs := ls, act_fill := fo,
                 act_cost_adjustments := cs, act_cash_effects := ef\<rparr>" by blast
  have ne: "ls = [] \<longleftrightarrow> act_legs a = []" "cs = [] \<longleftrightarrow> act_cost_adjustments a = []"
    using l c by auto
  have same: "act_type b = act_type a" "act_provider_account_id b = act_provider_account_id a"
    "act_status b = act_status a" "act_booking_status b = act_booking_status a"
    "act_trade_date b = act_trade_date a" "act_settlement_date b = act_settlement_date a"
    "act_occurred_at b = act_occurred_at a" by (simp_all add: b)
  have "validate_header b = validate_header a" unfolding validate_header_def same ..
  then have hb: "validate_header b = None" "default_precision b = default_precision a"
    using h by (simp, simp add: b default_precision_def)
  have header: "act_status b \<in> {StatusEffective, StatusVoided, StatusNeedsReview, StatusUnsupported}
      \<and> act_booking_status b \<in> {BookingBooked, BookingProvisional} \<and> date_ok (act_trade_date b)
      \<and> date_ok (act_settlement_date b) \<and> (act_occurred_at b = [] \<or> parse_rfc3339 (act_occurred_at b) \<noteq> None)"
    using validate_header_None [OF hb(1)] by blast
  have legs: "list_all leg_ok ls" using l by (rule list_all2_target) (rule validate_leg_ok)
  have costs: "list_all cost_ok cs" using c by (rule list_all2_target) (rule validate_cost_ok)
  have eff: "act_status a = StatusEffective \<longrightarrow> ls \<noteq> [] \<or> cs \<noteq> []" using v ne by blast
  have "activity_ok b"
    unfolding activity_ok_def using header legs costs eff e validate_fill_option_None(2) [OF f]
    by (simp add: b)
  moreover have "list_all2 same_leg (act_legs a) (act_legs b)"
    using list_all2_mono [OF l validate_leg_ok(2)] by (simp add: b)
  moreover have "validate_activity b = (b, None)"
  proof -
    have ls: "list_all2 (\<lambda>l l'. validate_leg l = Inr l') (act_legs b) ls"
      using l by (simp add: b) (erule list_all2_source, erule validate_leg_idem)
    have cs: "list_all2 (\<lambda>c c'. validate_cost c = (c', None)) (act_cost_adjustments b) cs"
      using c by (simp add: b) (erule list_all2_source, erule validate_cost_idem)
    have fo: "validate_fill_option (act_fill b) = (fo, None)"
      using validate_fill_option_None(1) [OF f] by (simp add: b)
    have "b = b\<lparr>act_time_precision := default_precision a, act_legs := ls, act_fill := fo,
        act_cost_adjustments := cs, act_cash_effects := ef\<rparr>" by (simp add: b)
    moreover have "act_status b = StatusEffective \<longrightarrow> act_legs b \<noteq> [] \<or> act_cost_adjustments b \<noteq> []"
      using eff by (simp add: b)
    ultimately show ?thesis unfolding validate_activity_None hb(2) using hb(1) v ls cs fo e by blast
  qed
  ultimately show ?thesis by blast
qed



section \<open>Reconciliation\<close>

text \<open>The exact contribution of the booked activities to the reconciled unit, and whether every
  activity is either voided or effective and booked.\<close>

definition booked :: "activity \<Rightarrow> bool" where
  "booked a \<longleftrightarrow> act_status a = StatusEffective \<and> act_booking_status a = BookingBooked"

definition booked_delta :: "balance \<Rightarrow> activity list \<Rightarrow> rat" where
  "booked_delta closing activities =
     (\<Sum>l\<leftarrow>concat (map act_legs (filter booked activities)). dec_val (leg_delta closing l))"

lemma reconcile_leg_add:
  assumes "dec_num t = Some x" "representable x" "reconcile_leg closing t l = Inr u"
  shows "dec_num u = Some (x + dec_val (leg_delta closing l)) \<and> representable (x + dec_val (leg_delta closing l))"
proof (cases "leg_delta closing l = []")
  case True
  with assms show ?thesis by (simp add: reconcile_leg_def ledger.val_def)
next
  case False
  with assms(3) have "Add t (leg_delta closing l) = Inr u" by (simp add: reconcile_leg_def)
  then show ?thesis using assms(1)
    by (auto simp: ledger.add_Inr_iff ledger.val_Some ledger.num_str)
qed

lemma reconcile_legs_add:
  assumes "rfold (reconcile_leg closing) t ls = Inr u" "dec_num t = Some x" "representable x"
  shows "dec_num u = Some (x + (\<Sum>l\<leftarrow>ls. dec_val (leg_delta closing l)))
    \<and> representable (x + (\<Sum>l\<leftarrow>ls. dec_val (leg_delta closing l)))"
  using assms
proof (induction ls arbitrary: t x)
  case (Cons l ls)
  then obtain t' where t': "reconcile_leg closing t l = Inr t'" "rfold (reconcile_leg closing) t' ls = Inr u"
    by (auto simp: rbind_Inr_iff)
  from Cons.IH [OF t'(2)] reconcile_leg_add [OF Cons.prems(2,3) t'(1)] show ?case
    by (auto simp: add.assoc)
qed simp

lemma reconcile_activities_add:
  assumes "rfold (reconcile_activity closing) (t, i) as = Inr (u, j)" "dec_num t = Some x" "representable x"
  shows "dec_num u = Some (x + booked_delta closing as) \<and> representable (x + booked_delta closing as)
    \<and> (j \<longleftrightarrow> i \<or> (\<exists>a\<in>set as. act_status a \<noteq> StatusVoided \<and> \<not> booked a))"
  using assms
proof (induction as arbitrary: t i x)
  case Nil
  then show ?case by (simp add: booked_delta_def)
next
  case (Cons a as)
  then obtain t' i' where s: "reconcile_activity closing (t, i) a = Inr (t', i')"
    "rfold (reconcile_activity closing) (t', i') as = Inr (u, j)" by (auto simp: rbind_Inr_iff)
  let ?d = "if booked a then \<Sum>l\<leftarrow>act_legs a. dec_val (leg_delta closing l) else 0"
  have "dec_num t' = Some (x + ?d) \<and> representable (x + ?d)
      \<and> (i' \<longleftrightarrow> i \<or> (act_status a \<noteq> StatusVoided \<and> \<not> booked a))"
  proof (cases "booked a")
    case True
    then show ?thesis using s(1) Cons.prems(2,3) reconcile_legs_add [of closing t "act_legs a" t' x]
      by (auto simp: reconcile_activity_def booked_def rbind_Inr_iff)
  next
    case False
    then show ?thesis using s(1) Cons.prems(2,3)
      by (auto simp: reconcile_activity_def booked_def split: if_splits)
  qed
  with Cons.IH [OF s(2)] show ?case by (auto simp: booked_delta_def add.assoc)
qed

text \<open>\<open>Reconcile\<close> decides exactly: without an opening balance the outcome is unknown; otherwise,
  when it returns no error, the expected value is the opening value plus the deltas of the booked
  activities, the difference is the closing value less the expected one, and the status is
  incomplete as soon as one activity is neither voided nor booked, else passed exactly when the
  closing value equals the expected one.\<close>

lemma Reconcile_verdict:
  assumes "Reconcile start closing activities = (d, None)"
  shows "diff_balance d = closing \<and>
    (case start of None \<Rightarrow> diff_status d = ''unknown''
     | Some b \<Rightarrow> (\<exists>x y. dec_num (bal_value b) = Some x \<and> dec_num (bal_value closing) = Some y \<and>
         bal_kind b = bal_kind closing \<and> bal_currency b = bal_currency closing
         \<and> bal_instrument_id b = bal_instrument_id closing \<and>
         dec_num (diff_expected d) = Some (x + booked_delta closing activities) \<and>
         dec_num (diff_difference d) = Some (y - (x + booked_delta closing activities)) \<and>
         diff_status d =
           (if \<exists>a\<in>set activities. act_status a \<noteq> StatusVoided \<and> \<not> booked a then ''incomplete''
            else if y = x + booked_delta closing activities then ''passed'' else ''mismatch'')))"
proof (cases start)
  case None
  with assms show ?thesis by (auto simp: Reconcile_def)
next
  case (Some b)
  from assms obtain c t i df where
    unit: "bal_kind b = bal_kind closing" "bal_currency b = bal_currency closing"
      "bal_instrument_id b = bal_instrument_id closing"
    and c: "canonical_decimal (bal_value b) = Inr c"
    and t: "rfold (reconcile_activity closing) (c, False) activities = Inr (t, i)"
    and df: "Sub (bal_value closing) t = Inr df"
    and d: "diff_balance d = closing" "diff_expected d = t" "diff_difference d = df"
      "diff_status d = (if i then ''incomplete'' else if df \<noteq> ''0'' then ''mismatch'' else ''passed'')"
    unfolding Reconcile_def Some Let_def
    by (auto simp: rbind_Inr_iff split: if_splits sum.splits prod.splits)
  obtain x where x: "rational (bal_value b) = Inr x" "representable x" "rational c = Inr x"
    by (rule rational_canonical [OF c])
  let ?e = "x + booked_delta closing activities"
  have e: "dec_num t = Some ?e" "i \<longleftrightarrow> (\<exists>a\<in>set activities. act_status a \<noteq> StatusVoided \<and> \<not> booked a)"
    using reconcile_activities_add [OF t] x by (auto simp: dec_num_Some)
  obtain y where y: "rational (bal_value closing) = Inr y" "df = dec_text (y - ?e)" "representable (y - ?e)"
    using df e(1) representable_closed(2) rational_representable
    unfolding Sub_Inr_iff dec_num_Some by (metis sum.inject(2))
  have "df = ''0'' \<longleftrightarrow> y = ?e"
    using dec_text_inj [OF y(3) ledger.fits_0] y(2) by simp
  moreover have "dec_num df = Some (y - ?e)" using y by (simp add: ledger.num_str)
  ultimately show ?thesis using unit x y(1) e d by (auto simp: Some dec_num_Some)
qed

lemma Reconcile_verdict_example:
  "\<exists>d. Reconcile (Some \<lparr>bal_kind = ''cash'', bal_currency = ''USD'', bal_instrument_id = 0, bal_value = ''10''\<rparr>)
      \<lparr>bal_kind = ''cash'', bal_currency = ''USD'', bal_instrument_id = 0, bal_value = ''15''\<rparr>
      [zero_activity\<lparr>act_status := StatusEffective, act_booking_status := BookingBooked,
         act_legs := [zero_leg\<lparr>leg_kind := ''cash'', leg_currency := ''USD'', leg_cash_delta := ''5''\<rparr>]\<rparr>]
    = (d, None) \<and> diff_status d = ''passed''"
  (is "\<exists>d. Reconcile (Some ?o) ?c [?a] = _ \<and> _")
proof -
  have r: "rational ''10'' = Inr 10" "rational ''5'' = Inr 5" "rational ''15'' = Inr 15"
    and c: "canonical_decimal ''10'' = Inr ''10''" "canonical_decimal ''15'' = Inr ''15''" by code_simp+
  then have n: "dec_num ''10'' = Some 10" "dec_num ''5'' = Some 5" "dec_num ''15'' = Some 15"
    by (simp_all add: dec_num_Some)
  have t: "dec_text 15 = ''15''" "representable 15"
    using dec_text_eqI(1) [OF r(3) c(2)] rational_representable [OF r(3)] by simp_all
  have "Add ''10'' ''5'' = Inr ''15''" using ledger.add_Inr_iff n t by simp
  moreover have "Sub ''15'' ''15'' = Inr ''0''" using r by (simp add: Sub_Inr_iff)
  ultimately have "\<exists>d. Reconcile (Some ?o) ?c [?a] = (d, None)"
    by (simp add: Reconcile_def c reconcile_activity_def reconcile_leg_def leg_delta_def zero_leg_def
        zero_activity_def)
  then obtain d where d: "Reconcile (Some ?o) ?c [?a] = (d, None)" ..
  have "booked_delta ?c [?a] = 5"
    using ledger.val_Some [OF n(2)] by (simp add: booked_delta_def booked_def leg_delta_def zero_activity_def
        zero_leg_def)
  with Reconcile_verdict [OF d] n have "diff_status d = ''passed''" by (auto simp: booked_def zero_activity_def)
  with d show ?thesis by blast
qed

section \<open>Dates\<close>

lemma parse_compact_four_digit: "parse_compact_date s = Some n \<Longrightarrow> four_digit n"
proof -
  assume a: "parse_compact_date s = Some n"
  let ?y = "int (digits_value (take 4 s))" and ?m = "int (digits_value (take 2 (drop 4 s)))"
    and ?d = "int (digits_value (drop 6 s))"
  from a have s: "length s = 8" "all_digits s" "valid_civil ?y ?m ?d" "n = day_number ?y ?m ?d"
    by (auto simp: parse_compact_date_def Let_def split: if_splits)
  have "all_digits (take 4 s)" using s(2) by (metis append_take_drop_id list_all_append)
  from digits_value_bound [OF this] s(1) have "?y < 10000" by simp
  then show ?thesis using four_digit_civil civil_of_day_number [OF s(3)] s(4) by simp
qed

lemma NormalizeDate_cases: "NormalizeDate s = [] \<or> (\<exists>n. four_digit n \<and> NormalizeDate s = format_date n)"
proof (induction s rule: NormalizeDate.induct)
  case (1 s)
  let ?s = "trim_space s"
  note cut = 1 [OF refl]
  note n = NormalizeDate.simps [of s] Let_def
  show ?case
  proof (cases "parse_date ?s")
    case (Some t)
    then show ?thesis using format_parse_date [OF Some] by (auto simp: n)
  next
    case p: None
    show ?thesis
    proof (cases "parse_compact_date ?s")
      case (Some t)
      then show ?thesis using p parse_compact_four_digit [OF Some] by (auto simp: n)
    next
      case None
      note cut = cut [OF p None]
      show ?thesis using p None cut
        by (cases "cut_at CHR '';'' ?s"; cases "cut_at CHR ''T'' ?s"; cases "cut_at CHR '' '' ?s")
          (simp_all add: n)
    qed
  qed
qed

lemma format_date_printable:
  assumes "four_digit n"
  shows "list_all printable (format_date n)" and "set (format_date n) \<inter> {CHR ''T'', CHR '';''} = {}"
    and "length (format_date n) = 10"
proof -
  obtain y m d where f: "format_date n = pad 4 y @ ''-'' @ pad 2 m @ ''-'' @ pad 2 d"
    and l: "length (pad 4 y) = 4" "length (pad 2 m) = 2" "length (pad 2 d) = 2"
    and a: "all_digits (pad 4 y)" "all_digits (pad 2 m)" "all_digits (pad 2 d)"
    using format_date_parts [OF assms] by metis
  show "list_all printable (format_date n)" unfolding f using a [THEN digits_printable] by simp
  show "length (format_date n) = 10" unfolding f using l by simp
  have "\<not> is_digit CHR ''T''" "\<not> is_digit CHR '';''" by code_simp+
  then show "set (format_date n) \<inter> {CHR ''T'', CHR '';''} = {}"
    unfolding f using a by (auto simp: list_all_iff)
qed

lemma NormalizeDate_iso: "parse_date s = Some n \<Longrightarrow> NormalizeDate s = s"
  using format_parse_date [of s n] format_date_printable(1) [of n]
  by (auto simp: NormalizeDate.simps [of s])

lemma parse_date_length: "parse_date s = Some n \<Longrightarrow> length s = 10"
  using format_parse_date format_date_printable(3) by blast

lemma NormalizeDate_long:
  assumes "list_all printable s" "10 < length s"
  shows "NormalizeDate s = (case cut_at CHR '';'' s of Some p \<Rightarrow> NormalizeDate p | None \<Rightarrow>
    case cut_at CHR ''T'' s of Some p \<Rightarrow> NormalizeDate p | None \<Rightarrow> [])"
proof -
  have "parse_date s = None" using parse_date_length [of s] assms(2) by (cases "parse_date s") auto
  moreover have "parse_compact_date s = None" using assms(2) by (simp add: parse_compact_date_def)
  moreover have "\<not> printable CHR '' ''" by code_simp
  then have "cut_at CHR '' '' s = None" using assms(1) by (auto simp: cut_at_def list_all_iff)
  ultimately show ?thesis using assms(1) by (simp add: NormalizeDate.simps [of s] split: option.splits)
qed

lemma cut_at_append: "c \<notin> set p \<Longrightarrow> p \<noteq> [] \<Longrightarrow> cut_at c (p @ c # u) = Some p"
  by (induction p) (auto simp: cut_at_def takeWhile_append)

lemma cut_at_None: "c \<notin> set s \<Longrightarrow> cut_at c s = None"
  by (simp add: cut_at_def)

lemma NormalizeDate_timestamp:
  assumes "four_digit n" "c \<in> {CHR ''T'', CHR '';''}" "list_all printable rest"
  shows "NormalizeDate (format_date n @ c # rest) = format_date n"
proof -
  note f = format_date_printable [OF assms(1)]
  have iso: "NormalizeDate (format_date n) = format_date n"
    using NormalizeDate_iso parse_format_date [OF assms(1)] by blast
  have pr: "list_all printable (format_date n @ c # u)" if "list_all printable u" for u
  proof -
    have "printable CHR ''T''" "printable CHR '';''" by code_simp+
    with that f(1) assms(2) show ?thesis by auto
  qed
  have semi: "NormalizeDate (format_date n @ CHR '';'' # u) = format_date n"
    if "list_all printable (format_date n @ CHR '';'' # u)" for u
    using NormalizeDate_long [OF that] f iso cut_at_append [of "CHR '';''" "format_date n" u] by auto
  have t: "NormalizeDate (format_date n @ CHR ''T'' # u) = format_date n"
    if "list_all printable (format_date n @ CHR ''T'' # u)" "CHR '';'' \<notin> set u" for u
    using NormalizeDate_long [OF that(1)] that(2) f iso cut_at_append [of "CHR ''T''" "format_date n" u]
      cut_at_None [of "CHR '';''" "format_date n @ CHR ''T'' # u"] by auto
  show ?thesis
  proof (cases "c = CHR '';''")
    case True
    then show ?thesis using semi pr [OF assms(3)] by simp
  next
    case False
    then have c: "c = CHR ''T''" using assms(2) by simp
    show ?thesis
    proof (cases "CHR '';'' \<in> set rest")
      case False
      then show ?thesis using t pr [OF assms(3)] c by simp
    next
      case True
      let ?u = "takeWhile (\<lambda>x. x \<noteq> CHR '';'') rest"
      have "list_all printable ?u" "CHR '';'' \<notin> set ?u"
        using assms(3) by (auto simp: list_all_iff dest: set_takeWhileD)
      then have u: "NormalizeDate (format_date n @ CHR ''T'' # ?u) = format_date n"
        using t pr c by simp
      have "cut_at CHR '';'' (format_date n @ c # rest) = Some (format_date n @ CHR ''T'' # ?u)"
        using True f(2) c by (auto simp: cut_at_def takeWhile_append)
      with NormalizeDate_long [OF pr [OF assms(3)]] f(3) u show ?thesis by simp
    qed
  qed
qed

text \<open>a normalised date is empty or a real calendar date in ISO form, so normalising again changes
  nothing, and an ISO timestamp (or a date with a \<open>;time\<close> part) normalises to its own date: the rest
  of the text never moves the day.\<close>

theorem normalize_date_sound:
  assumes "four_digit n" "c \<in> {CHR ''T'', CHR '';''}" "list_all printable rest"
  shows "(NormalizeDate s = [] \<or> (\<exists>k. parse_date (NormalizeDate s) = Some k))
   \<and> NormalizeDate (NormalizeDate s) = NormalizeDate s
   \<and> NormalizeDate (format_date n @ c # rest) = format_date n"
proof -
  have "NormalizeDate [] = []" by code_simp
  with NormalizeDate_cases [of s] NormalizeDate_iso parse_format_date
  have "(NormalizeDate s = [] \<or> (\<exists>k. parse_date (NormalizeDate s) = Some k))
      \<and> NormalizeDate (NormalizeDate s) = NormalizeDate s" by metis
  with NormalizeDate_timestamp [OF assms] show ?thesis by blast
qed

theorem normalize_date_sound_witness:
  "NormalizeDate ''2024-02-29T23:59:59;-05:00'' = ''2024-02-29'' \<and> NormalizeDate ''20240230'' = []"
proof -
  have f: "format_date 739310 = ''2024-02-29''" by code_simp
  have "four_digit 739310" "list_all printable ''23:59:59;-05:00''" "NormalizeDate ''20240230'' = []"
    by code_simp+
  with normalize_date_sound [of 739310 "CHR ''T''" "''23:59:59;-05:00''"] f show ?thesis by simp
qed

end
