(* ===== verification/Calculator.thy ===== *)
theory Calculator
  imports Activity "HOL-Library.Multiset"
begin

text \<open>
  The daily performance calculation: \<open>internal/performance/calculator.go\<close> and the data of
  \<open>types.go\<close>. Dates handed to the calculator are midnights in UTC, so a \<open>time.Time\<close> that is a
  date is a day number; \<open>now\<close> is an instant. \<open>big.Rat\<close> is \<open>rat\<close>. A Go map is an association
  list with distinct keys (its order stands for the unspecified iteration order), a
  \<open>map[string]struct{}\<close> the list of its keys, and \<open>map[int64]bool\<close> a predicate.

  The second half shows that the replay refines the ledger: the points hold the value of the exact
  balances that the booked legs up to the day add up to.
\<close>

section \<open>Data\<close>

definition CalculationVersion :: string where
  "CalculationVersion = ''daily-performance-v1''"

record instrument =
  ins_id :: int
  ins_connection_id :: int
  ins_symbol :: string
  ins_currency :: string
  ins_external_id :: string

definition zero_instrument :: instrument where
  "zero_instrument = \<lparr>ins_id = 0, ins_connection_id = 0, ins_symbol = [], ins_currency = [],
     ins_external_id = []\<rparr>"

record coverage_window =
  cw_source :: string
  cw_from :: string
  cw_to :: string
  cw_fetch_status :: string
  cw_normalize_status :: string
  cw_reconcile_status :: string

record input =
  inp_account_id :: int
  inp_connection_id :: int
  inp_provider :: string
  inp_base_currency :: string
  inp_activity_generation :: int
  inp_activities :: "activity list"
  inp_instruments :: "(int \<times> instrument) list"
  inp_coverage :: "coverage_window list"

record price =
  px_date :: string
  px_value :: string
  px_source :: string
  px_missing :: bool

record fx_rate =
  fx_date :: string
  fx_from :: string
  fx_to :: string
  fx_value :: string
  fx_source :: string

record fx_pair =
  pair_from :: string
  pair_to :: string

record coverage =
  cov_status :: string
  cov_requested_from :: string
  cov_requested_to :: string
  cov_activity_from :: string
  cov_activity_to :: string
  cov_activity_windows :: "coverage_window list"
  cov_recalculated_from :: string

record point =
  pt_date :: string
  pt_total_value :: "string option"
  pt_cash_value :: "string option"
  pt_holdings_value :: "string option"
  pt_external_cash_flow :: "string option"
  pt_daily_pnl :: "string option"
  pt_daily_return :: "string option"
  pt_cumulative_twr :: "string option"
  pt_quality :: string
  pt_finality :: string
  pt_missing_prices :: "string list"
  pt_missing_fx :: "string list"
  pt_missing_cost_basis :: "string list"
  pt_source_mix :: "string list"
  pt_calculation_version :: string

record series =
  ser_account_id :: int
  ser_base_currency :: string
  ser_retention_mode :: string
  ser_as_of :: string
  ser_coverage :: coverage
  ser_points :: "point list"
  ser_calculation_version :: string
  ser_activity_generation :: int

record anchor =
  anc_date :: string
  anc_total_value :: "string option"
  anc_cumulative_twr :: "string option"

type_synonym price_index = "(int \<times> (string \<times> price) list) list"
type_synonym fx_index = "(fx_pair \<times> (string \<times> fx_rate) list) list"

record calculator =
  calc_input :: input
  calc_base :: string
  calc_from :: day
  calc_to :: day
  calc_now :: instant
  calc_prices :: price_index
  calc_fx :: fx_index
  calc_anchor :: anchor
  calc_coverage :: coverage

type_synonym dated_leg = "activity \<times> leg"

definition lookup_list :: "('k \<times> 'v list) list \<Rightarrow> 'k \<Rightarrow> 'v list" where
  "lookup_list m k = (case map_of m k of None \<Rightarrow> [] | Some vs \<Rightarrow> vs)"

definition lookup_instrument :: "(int \<times> instrument) list \<Rightarrow> int \<Rightarrow> instrument" where
  "lookup_instrument m k = (case map_of m k of None \<Rightarrow> zero_instrument | Some i \<Rightarrow> i)"

section \<open>Small functions\<close>

definition parseRat :: "string \<Rightarrow> rat result" where
  "parseRat value = rbind (canonical_decimal value) (\<lambda>v.
     case rat_set_string v of None \<Rightarrow> Inl ''invalid decimal'' | Some r \<Rightarrow> Inr r)"

definition ratPtr :: "string option \<Rightarrow> rat option" where
  "ratPtr value = (case value of None \<Rightarrow> None
     | Some v \<Rightarrow> (case parseRat v of Inl _ \<Rightarrow> None | Inr r \<Rightarrow> Some r))"

text \<open>\<open>decimalPtr\<close> of a non-nil number.\<close>

definition decimalPtr :: "rat \<Rightarrow> string" where
  "decimalPtr value = (let t = float_string 18 value
     in case canonical_decimal t of Inl _ \<Rightarrow> t | Inr c \<Rightarrow> c)"

definition addTo :: "rat option \<Rightarrow> rat \<Rightarrow> rat" where
  "addTo current delta = (case current of None \<Rightarrow> 0 | Some x \<Rightarrow> x) + delta"

definition instrumentLabel :: "instrument \<Rightarrow> string" where
  "instrumentLabel i = (if ins_symbol i \<noteq> [] then ins_symbol i else ''instrument:'' @ int_str (ins_id i))"

definition sortedKeys :: "string list \<Rightarrow> string list" where
  "sortedKeys values = sort values"

definition legDate :: "activity \<Rightarrow> leg \<Rightarrow> string" where
  "legDate a l =
     (if leg_effective_date l \<noteq> [] then leg_effective_date l
      else if leg_settlement_date l \<noteq> [] then leg_settlement_date l
      else if act_settlement_date a \<noteq> [] then act_settlement_date a
      else if act_trade_date a \<noteq> [] then act_trade_date a
      else if 10 \<le> length (act_occurred_at a) then take 10 (act_occurred_at a)
      else [])"

definition activityDate :: "activity \<Rightarrow> string" where
  "activityDate a =
     (let earliest = foldl (\<lambda>earliest l.
            let date = legDate a l
            in if date \<noteq> [] \<and> (earliest = [] \<or> date < earliest) then date else earliest) [] (act_legs a)
      in if earliest \<noteq> [] then earliest
         else if act_settlement_date a \<noteq> [] then act_settlement_date a
         else if act_trade_date a \<noteq> [] then act_trade_date a
         else if 10 \<le> length (act_occurred_at a) then take 10 (act_occurred_at a)
         else [])"

text \<open>Both dates are midnights, so the duration exceeds seven days exactly when the day numbers
  do.\<close>

definition staleDailyValue :: "string \<Rightarrow> string \<Rightarrow> bool" where
  "staleDailyValue day observed =
     (case parse_date day of None \<Rightarrow> True | Some requested \<Rightarrow>
      case parse_date observed of None \<Rightarrow> True | Some seen \<Rightarrow> 7 < requested - seen)"

text \<open>The latest date of an index that is not after the day.\<close>

definition selectDate :: "string \<Rightarrow> string list \<Rightarrow> string" where
  "selectDate day dates =
     foldl (\<lambda>selected date. if date \<le> day \<and> selected < date then date else selected) [] dates"

text \<open>A price or rate with its source; \<open>Inr None\<close> is \<open>found = false\<close> without an error.\<close>

definition priceAt :: "string \<Rightarrow> int \<Rightarrow> price_index \<Rightarrow> (rat \<times> string) option result" where
  "priceAt day iid prices =
     (let values = lookup_list prices iid; selected = selectDate day (map fst values)
      in if selected = [] then Inr None
         else case map_of values selected of
             None \<Rightarrow> Inr None
           | Some p \<Rightarrow>
               if px_missing p then Inr None
               else if staleDailyValue day selected then Inr None
               else rbind (parseRat (px_value p)) (\<lambda>v. Inr (Some (v, px_source p))))"

definition fxAt :: "string \<Rightarrow> string \<Rightarrow> string \<Rightarrow> fx_index \<Rightarrow> (rat \<times> string) option result" where
  "fxAt day frm to rates =
     (let frm = to_upper frm; to = to_upper to
      in if frm = [] \<or> to = [] then Inr None
         else if frm = to then Inr (Some (1, []))
         else let values = lookup_list rates \<lparr>pair_from = frm, pair_to = to\<rparr>;
                  selected = selectDate day (map fst values)
              in if selected = [] then Inr None
                 else if staleDailyValue day selected then Inr None
                 else case map_of values selected of
                     None \<Rightarrow> Inr None
                   | Some r \<Rightarrow> rbind (parseRat (fx_value r)) (\<lambda>v. Inr (Some (v, fx_source r))))"

definition externalFlowType :: "string \<Rightarrow> bool" where
  "externalFlowType value \<longleftrightarrow>
     value \<in> {''deposit'', ''withdrawal'', ''cash_transfer'', ''security_transfer''}"

section \<open>Replay\<close>

record book =
  book_cash :: "(string \<times> rat) list"
  book_positions :: "(int \<times> rat) list"
  book_cost_known :: "int \<Rightarrow> bool"

definition empty_book :: book where
  "empty_book = \<lparr>book_cash = [], book_positions = [], book_cost_known = (\<lambda>_. False)\<rparr>"

definition applyLeg :: "activity \<Rightarrow> leg \<Rightarrow> book \<Rightarrow> book result" where
  "applyLeg a l b =
     (if act_status a \<noteq> StatusEffective \<or> act_booking_status a \<noteq> BookingBooked then Inr b
      else if leg_kind l = ''cash'' then
        rbind (parseRat (leg_cash_delta l)) (\<lambda>value.
          let currency = to_upper (leg_currency l)
          in Inr (b\<lparr>book_cash :=
               AList.update currency (addTo (map_of (book_cash b) currency) value) (book_cash b)\<rparr>))
      else if leg_kind l = ''position'' then
        rbind (parseRat (leg_quantity_delta l)) (\<lambda>value.
          let iid = leg_instrument_id l;
              b = b\<lparr>book_positions :=
                    AList.update iid (addTo (map_of (book_positions b) iid) value) (book_positions b)\<rparr>
          in Inr (case act_fill a of
                None \<Rightarrow> b
              | Some f \<Rightarrow> if fill_price f \<noteq> [] then b\<lparr>book_cost_known := (book_cost_known b)(iid := True)\<rparr> else b))
      else Inr b)"

definition applyCostEvidence :: "activity \<Rightarrow> book \<Rightarrow> book" where
  "applyCostEvidence a b =
     foldl (\<lambda>b c. if cost_instrument_id c > 0 \<and> (cost_basis_delta c \<noteq> [] \<or> cost_basis_after c \<noteq> [])
        then b\<lparr>book_cost_known := (book_cost_known b)(cost_instrument_id c := True)\<rparr> else b)
       b (act_cost_adjustments a)"

section \<open>Valuation\<close>

record valuation =
  v_total :: rat
  v_ok :: bool
  v_sources :: "string list"
  v_missing_prices :: "string list"
  v_missing_fx :: "string list"

text \<open>Each valuation function starts from a zero total and goes on with the sets it was given.\<close>

definition restart :: "valuation \<Rightarrow> valuation" where
  "restart v = v\<lparr>v_total := 0, v_ok := True\<rparr>"

definition add_source :: "string \<Rightarrow> valuation \<Rightarrow> valuation" where
  "add_source s v = (if s \<noteq> [] then v\<lparr>v_sources := List.insert s (v_sources v)\<rparr> else v)"

definition add_total :: "rat \<Rightarrow> valuation \<Rightarrow> valuation" where
  "add_total x v = v\<lparr>v_total := v_total v + x\<rparr>"

definition miss_price :: "string \<Rightarrow> valuation \<Rightarrow> valuation" where
  "miss_price s v = v\<lparr>v_ok := False, v_missing_prices := List.insert s (v_missing_prices v)\<rparr>"

definition miss_fx :: "string \<Rightarrow> valuation \<Rightarrow> valuation" where
  "miss_fx s v = v\<lparr>v_ok := False, v_missing_fx := List.insert s (v_missing_fx v)\<rparr>"

definition valueCashStep :: "string \<Rightarrow> string \<Rightarrow> fx_index \<Rightarrow> valuation \<Rightarrow> string \<times> rat \<Rightarrow> valuation result" where
  "valueCashStep day base fx v e =
     (case e of (currency, balance) \<Rightarrow>
      if balance = 0 then Inr v
      else rbind (fxAt day currency base fx) (\<lambda>found.
        case found of
          None \<Rightarrow> Inr (miss_fx (currency @ ''/'' @ base) v)
        | Some (rate, source) \<Rightarrow> Inr (add_total (balance * rate) (add_source source v))))"

definition valueCash :: "string \<Rightarrow> (string \<times> rat) list \<Rightarrow> string \<Rightarrow> fx_index \<Rightarrow> valuation \<Rightarrow> valuation result" where
  "valueCash day balances base fx v = rfold (valueCashStep day base fx) (restart v) balances"

definition valuePositionsStep ::
  "string \<Rightarrow> (int \<times> instrument) list \<Rightarrow> string \<Rightarrow> price_index \<Rightarrow> fx_index \<Rightarrow> valuation \<Rightarrow> int \<times> rat \<Rightarrow> valuation result" where
  "valuePositionsStep day instruments base prices fx v e =
     (case e of (iid, quantity) \<Rightarrow>
      if quantity = 0 then Inr v
      else let instrument = lookup_instrument instruments iid
        in rbind (priceAt day iid prices) (\<lambda>found.
          case found of
            None \<Rightarrow> Inr (miss_price (instrumentLabel instrument) v)
          | Some (price, source) \<Rightarrow>
              let v = add_source source v
              in rbind (fxAt day (ins_currency instrument) base fx) (\<lambda>found.
                case found of
                  None \<Rightarrow> Inr (miss_fx (to_upper (ins_currency instrument) @ ''/'' @ base) v)
                | Some (rate, fxSource) \<Rightarrow>
                    Inr (add_total (quantity * price * rate) (add_source fxSource v)))))"

definition valuePositions ::
  "string \<Rightarrow> (int \<times> rat) list \<Rightarrow> (int \<times> instrument) list \<Rightarrow> string \<Rightarrow> price_index \<Rightarrow> fx_index
     \<Rightarrow> valuation \<Rightarrow> valuation result" where
  "valuePositions day positions instruments base prices fx v =
     rfold (valuePositionsStep day instruments base prices fx) (restart v) positions"

definition externalFlowStep ::
  "string \<Rightarrow> (int \<times> instrument) list \<Rightarrow> string \<Rightarrow> price_index \<Rightarrow> fx_index \<Rightarrow> valuation \<Rightarrow> dated_leg \<Rightarrow> valuation result" where
  "externalFlowStep day instruments base prices fx v event =
     (case event of (a, l) \<Rightarrow>
      if act_status a \<noteq> StatusEffective \<or> act_booking_status a \<noteq> BookingBooked
         \<or> \<not> externalFlowType (act_type a)
      then Inr v
      else if leg_kind l = ''cash'' then
        rbind (parseRat (leg_cash_delta l)) (\<lambda>amount.
        rbind (fxAt day (leg_currency l) base fx) (\<lambda>found.
          case found of
            None \<Rightarrow> Inr (miss_fx (to_upper (leg_currency l) @ ''/'' @ base) v)
          | Some (rate, source) \<Rightarrow> Inr (add_total (amount * rate) (add_source source v))))
      else if leg_kind l = ''position'' \<and> act_type a = ''security_transfer'' then
        rbind (parseRat (leg_quantity_delta l)) (\<lambda>quantity.
        let instrument = lookup_instrument instruments (leg_instrument_id l)
        in rbind (priceAt day (leg_instrument_id l) prices) (\<lambda>found.
          case found of
            None \<Rightarrow> Inr (miss_price (instrumentLabel instrument) v)
          | Some (price, source) \<Rightarrow>
              rbind (fxAt day (ins_currency instrument) base fx) (\<lambda>found.
                case found of
                  None \<Rightarrow> Inr (miss_fx (to_upper (ins_currency instrument) @ ''/'' @ base) v)
                | Some (rate, fxSource) \<Rightarrow>
                    Inr (add_total (quantity * price * rate) (add_source fxSource (add_source source v))))))
      else Inr v)"

definition externalFlow ::
  "string \<Rightarrow> dated_leg list \<Rightarrow> (int \<times> instrument) list \<Rightarrow> string \<Rightarrow> price_index \<Rightarrow> fx_index
     \<Rightarrow> valuation \<Rightarrow> valuation result" where
  "externalFlow day events instruments base prices fx v =
     rfold (externalFlowStep day instruments base prices fx) (restart v) events"

section \<open>The daily loop\<close>

definition dated_legs :: "activity list \<Rightarrow> dated_leg list" where
  "dated_legs activities = concat (map (\<lambda>a. map (\<lambda>l. (a, l)) (act_legs a)) activities)"

definition event_date :: "dated_leg \<Rightarrow> string" where
  "event_date e = legDate (fst e) (snd e)"

definition groupByDate :: "string \<Rightarrow> dated_leg list \<Rightarrow> string \<Rightarrow> dated_leg list" where
  "groupByDate to events =
     foldl (\<lambda>byDate e. let date = event_date e
        in if date = [] \<or> to < date then byDate else byDate(date := byDate date @ [e]))
       (\<lambda>_. []) events"

definition openingStep :: "string \<Rightarrow> book \<Rightarrow> activity \<Rightarrow> book result" where
  "openingStep frm b a =
     rbind (rfold (\<lambda>b l. let date = legDate a l
          in if date \<noteq> [] \<and> date < frm then applyLeg a l b else Inr b) b (act_legs a))
       (\<lambda>b. let date = activityDate a
         in Inr (if date \<noteq> [] \<and> date < frm then applyCostEvidence a b else b))"

definition dayEventStep :: "book \<Rightarrow> dated_leg \<Rightarrow> book result" where
  "dayEventStep b e = rbind (applyLeg (fst e) (snd e) b) (\<lambda>b. Inr (applyCostEvidence (fst e) b))"

record day_state =
  ds_book :: book
  ds_prev_value :: "rat option"
  ds_twr_factor :: rat
  ds_twr_available :: bool
  ds_first_point :: bool

text \<open>The three valuations of a day over the day's sets of sources and missing inputs.\<close>

definition dayValues ::
  "calculator \<Rightarrow> string \<Rightarrow> book \<Rightarrow> dated_leg list \<Rightarrow> (valuation \<times> valuation \<times> valuation) result" where
  "dayValues c day b events =
     rbind (valueCash day (book_cash b) (calc_base c) (calc_fx c)
       \<lparr>v_total = 0, v_ok = True, v_sources = [], v_missing_prices = [], v_missing_fx = []\<rparr>) (\<lambda>cash.
     rbind (valuePositions day (book_positions b) (inp_instruments (calc_input c)) (calc_base c)
       (calc_prices c) (calc_fx c) cash) (\<lambda>holdings.
     rbind (externalFlow day events (inp_instruments (calc_input c)) (calc_base c)
       (calc_prices c) (calc_fx c) holdings) (\<lambda>flow. Inr (cash, holdings, flow))))"

definition dayQuality :: "calculator \<Rightarrow> day \<Rightarrow> string \<times> string" where
  "dayQuality c d =
     (let (quality, finality) =
        (if format_date d = format_date (day_of (calc_now c)) \<or> day_of (calc_now c) < d
         then (''estimated'', ''intraday'') else (''official'', ''eod''))
      in (if cov_status (calc_coverage c) \<noteq> ''complete'' then ''partial'' else quality, finality))"

text \<open>Profit, return and time-weighted return of a day: the three fields of the point, the new
  factor and whether the chain goes on.\<close>

definition dayReturns ::
  "bool \<Rightarrow> day_state \<Rightarrow> rat option \<Rightarrow> rat \<Rightarrow> (string option \<times> string option \<times> string option) \<times> rat \<times> bool" where
  "dayReturns returnsAllowed st val flow =
     (case (val, ds_prev_value st) of
        (Some tot, Some prev) \<Rightarrow>
          if returnsAllowed \<and> prev \<noteq> 0 then
            (let pnl = tot - prev - flow; ret = pnl / prev
             in if ds_twr_available st
                then (let factor = ds_twr_factor st * (1 + ret)
                      in ((Some (decimalPtr pnl), Some (decimalPtr ret), Some (decimalPtr (factor - 1))),
                          factor, True))
                else ((Some (decimalPtr pnl), Some (decimalPtr ret), None), ds_twr_factor st, False))
          else if returnsAllowed \<and> ds_first_point st
          then ((None, None, Some ''0''), ds_twr_factor st, ds_twr_available st)
          else if \<not> returnsAllowed then ((None, None, None), ds_twr_factor st, False)
          else ((None, None, None), ds_twr_factor st, ds_twr_available st)
      | (Some tot, None) \<Rightarrow>
          if returnsAllowed \<and> ds_first_point st
          then ((None, None, Some ''0''), ds_twr_factor st, ds_twr_available st)
          else if \<not> returnsAllowed then ((None, None, None), ds_twr_factor st, False)
          else ((None, None, None), ds_twr_factor st, ds_twr_available st)
      | (None, _) \<Rightarrow> ((None, None, None), ds_twr_factor st, False))"

definition missingCostBasis :: "(int \<times> instrument) list \<Rightarrow> book \<Rightarrow> string list" where
  "missingCostBasis instruments b =
     sort (map (\<lambda>e. instrumentLabel (lookup_instrument instruments (fst e)))
       (filter (\<lambda>e. snd e \<noteq> 0 \<and> \<not> book_cost_known b (fst e)) (book_positions b)))"

definition dayPoint ::
  "calculator \<Rightarrow> day \<Rightarrow> book \<Rightarrow> valuation \<times> valuation \<times> valuation \<Rightarrow> rat option
     \<Rightarrow> string option \<times> string option \<times> string option \<Rightarrow> point" where
  "dayPoint c d b vals val rets =
     (case vals of (cash, holdings, flow) \<Rightarrow> case rets of (pnl, ret, twr) \<Rightarrow>
      let quality = fst (dayQuality c d);
          quality = (if v_missing_prices flow \<noteq> [] \<or> v_missing_fx flow \<noteq> [] then ''partial'' else quality);
          sourceMix = sortedKeys (v_sources flow);
          quality = (if quality = ''official'' \<and> ''yahoo'' \<in> set sourceMix then ''estimated'' else quality)
      in \<lparr>pt_date = format_date d, pt_total_value = map_option decimalPtr val,
          pt_cash_value = (if v_ok cash then Some (decimalPtr (v_total cash)) else None),
          pt_holdings_value = (if v_ok holdings then Some (decimalPtr (v_total holdings)) else None),
          pt_external_cash_flow = (if v_ok flow then Some (decimalPtr (v_total flow)) else None),
          pt_daily_pnl = pnl, pt_daily_return = ret, pt_cumulative_twr = twr,
          pt_quality = quality, pt_finality = snd (dayQuality c d),
          pt_missing_prices = sortedKeys (v_missing_prices flow),
          pt_missing_fx = sortedKeys (v_missing_fx flow),
          pt_missing_cost_basis = missingCostBasis (inp_instruments (calc_input c)) b,
          pt_source_mix = sourceMix, pt_calculation_version = CalculationVersion\<rparr>)"

definition calculateDay ::
  "calculator \<Rightarrow> (string \<Rightarrow> dated_leg list) \<Rightarrow> day_state \<Rightarrow> day \<Rightarrow> (day_state \<times> point) result" where
  "calculateDay c byDate st d =
     (let day = format_date d; dayEvents = byDate day
      in rbind (rfold dayEventStep (ds_book st) dayEvents) (\<lambda>b.
         rbind (dayValues c day b dayEvents) (\<lambda>(cash, holdings, flow).
         let returnsAllowed = (cov_status (calc_coverage c) = ''complete'');
             val = (if v_ok cash \<and> v_ok holdings \<and> v_ok flow
                    then Some (v_total cash + v_total holdings) else None)
         in case dayReturns returnsAllowed st val (v_total flow) of (rets, factor, available) \<Rightarrow>
            Inr (\<lparr>ds_book = b, ds_prev_value = val, ds_twr_factor = factor,
                  ds_twr_available = available, ds_first_point = False\<rparr>,
                 dayPoint c d b (cash, holdings, flow) val rets))))"

fun calculateDays ::
  "calculator \<Rightarrow> (string \<Rightarrow> dated_leg list) \<Rightarrow> day_state \<Rightarrow> day list \<Rightarrow> point list result" where
  "calculateDays c byDate st [] = Inr []"
| "calculateDays c byDate st (d # ds) =
     rbind (calculateDay c byDate st d) (\<lambda>(st', p).
     rbind (calculateDays c byDate st' ds) (\<lambda>ps. Inr (p # ps)))"

text \<open>\<open>t.UTC().Format(time.RFC3339)\<close>\<close>

definition format_rfc3339 :: "instant \<Rightarrow> string" where
  "format_rfc3339 t =
     (let secs = (t - day_start (day_of t)) div ns_per_second
      in format_date (day_of t) @ ''T'' @ pad 2 (nat (secs div 3600)) @ '':''
         @ pad 2 (nat (secs div 60 mod 60)) @ '':'' @ pad 2 (nat (secs mod 60)) @ ''Z'')"

definition anchorFactor :: "anchor \<Rightarrow> bool \<Rightarrow> (rat \<times> bool) result" where
  "anchorFactor anc returnsAllowed =
     (case anc_cumulative_twr anc of
        Some t \<Rightarrow> rbind (parseRat t) (\<lambda>x. Inr (1 + x, returnsAllowed))
      | None \<Rightarrow> Inr (1, if anc_date anc \<noteq> [] then False else returnsAllowed))"

definition calculate :: "calculator \<Rightarrow> series result" where
  "calculate c =
     (let activities = sort_key activityDate (inp_activities (calc_input c));
          byDate = groupByDate (format_date (calc_to c)) (dated_legs activities)
      in rbind (rfold (openingStep (format_date (calc_from c))) empty_book activities) (\<lambda>b.
         rbind (anchorFactor (calc_anchor c) (cov_status (calc_coverage c) = ''complete'')) (\<lambda>(factor, available).
         rbind (calculateDays c byDate
           \<lparr>ds_book = b, ds_prev_value = ratPtr (anc_total_value (calc_anchor c)),
            ds_twr_factor = factor, ds_twr_available = available,
            ds_first_point = (anc_date (calc_anchor c) = [])\<rparr>
           [calc_from c..calc_to c]) (\<lambda>points.
         Inr \<lparr>ser_account_id = inp_account_id (calc_input c), ser_base_currency = calc_base c,
              ser_retention_mode = [], ser_as_of = format_rfc3339 (calc_now c),
              ser_coverage = calc_coverage c, ser_points = points,
              ser_calculation_version = CalculationVersion,
              ser_activity_generation = inp_activity_generation (calc_input c)\<rparr>))))"

text \<open>A small concrete calculation: one deposit the day before a range of two days.\<close>

definition example_calculator :: calculator where
  "example_calculator = \<lparr>
     calc_input = \<lparr>inp_account_id = 7, inp_connection_id = 1, inp_provider = ''ibkr'', inp_base_currency = ''USD'',
       inp_activity_generation = 1,
       inp_activities = [zero_activity\<lparr>act_type := ''deposit'', act_status := StatusEffective,
         act_booking_status := BookingBooked, act_settlement_date := ''2024-01-01'',
         act_legs := [zero_leg\<lparr>leg_kind := ''cash'', leg_currency := ''usd'', leg_cash_delta := ''100''\<rparr>]\<rparr>],
       inp_instruments = [], inp_coverage = []\<rparr>,
     calc_base = ''USD'', calc_from = 739252, calc_to = 739253, calc_now = 0, calc_prices = [], calc_fx = [],
     calc_anchor = \<lparr>anc_date = [], anc_total_value = None, anc_cumulative_twr = None\<rparr>,
     calc_coverage = \<lparr>cov_status = ''complete'', cov_requested_from = [], cov_requested_to = [], cov_activity_from = [],
       cov_activity_to = [], cov_activity_windows = [], cov_recalculated_from = []\<rparr>\<rparr>"

abbreviation partial_example :: calculator where
  "partial_example \<equiv> example_calculator\<lparr>calc_coverage := (calc_coverage example_calculator)\<lparr>cov_status := ''partial''\<rparr>\<rparr>"

section \<open>Replay refines the ledger\<close>

lemma parseRat_rational: "parseRat = rational"
  by (simp add: fun_eq_iff parseRat_def rational_def)

lemma parseRat_val: "parseRat s = Inr x \<Longrightarrow> dec_val s = x"
  by (simp add: parseRat_rational dec_num_Some ledger.val_Some)

text \<open>What an event adds to the balance of a currency or of an instrument.\<close>

definition cash_of :: "string \<Rightarrow> dated_leg \<Rightarrow> rat" where
  "cash_of cur e = (if booked (fst e) \<and> leg_kind (snd e) = ''cash'' \<and> to_upper (leg_currency (snd e)) = cur
     then dec_val (leg_cash_delta (snd e)) else 0)"

definition quantity_of :: "int \<Rightarrow> dated_leg \<Rightarrow> rat" where
  "quantity_of iid e = (if booked (fst e) \<and> leg_kind (snd e) = ''position'' \<and> leg_instrument_id (snd e) = iid
     then dec_val (leg_quantity_delta (snd e)) else 0)"

definition bal :: "('k \<times> rat) list \<Rightarrow> 'k \<Rightarrow> rat" where
  "bal m k = (case map_of m k of None \<Rightarrow> 0 | Some x \<Rightarrow> x)"

lemma bal_update: "bal (AList.update k (addTo (map_of m k) x) m) j = bal m j + (if j = k then x else 0)"
  by (auto simp: bal_def addTo_def split: option.splits)

text \<open>A book that holds exactly what the events add up to.\<close>

definition holds :: "dated_leg list \<Rightarrow> book \<Rightarrow> bool" where
  "holds es b \<longleftrightarrow> distinct (map fst (book_cash b)) \<and> distinct (map fst (book_positions b))
     \<and> (\<forall>cur. bal (book_cash b) cur = (\<Sum>e\<leftarrow>es. cash_of cur e))
     \<and> (\<forall>iid. bal (book_positions b) iid = (\<Sum>e\<leftarrow>es. quantity_of iid e))"

lemma holds_empty: "holds [] empty_book"
  by (simp add: holds_def empty_book_def bal_def)

lemma applyLeg_holds:
  assumes "holds es b" "applyLeg a l b = Inr b'"
  shows "holds (es @ [(a, l)]) b'"
proof (cases "booked a")
  case False
  with assms show ?thesis by (auto simp: applyLeg_def booked_def holds_def cash_of_def quantity_of_def)
next
  case True
  then have st: "act_status a = StatusEffective" "act_booking_status a = BookingBooked"
    by (simp_all add: booked_def)
  consider "leg_kind l = ''cash''" | "leg_kind l = ''position''"
    | "leg_kind l \<noteq> ''cash''" "leg_kind l \<noteq> ''position''" by blast
  then show ?thesis
  proof cases
    case 1
    with assms(2) st obtain x where x: "parseRat (leg_cash_delta l) = Inr x"
      and b': "b' = b\<lparr>book_cash := AList.update (to_upper (leg_currency l))
        (addTo (map_of (book_cash b) (to_upper (leg_currency l))) x) (book_cash b)\<rparr>"
      by (auto simp: applyLeg_def rbind_Inr_iff Let_def)
    show ?thesis using assms(1) True 1 parseRat_val [OF x]
      by (auto simp: holds_def b' bal_update distinct_keys_update cash_of_def quantity_of_def)
  next
    case 2
    with assms(2) st obtain x where x: "parseRat (leg_quantity_delta l) = Inr x"
      and b': "book_cash b' = book_cash b" "book_positions b' = AList.update (leg_instrument_id l)
        (addTo (map_of (book_positions b) (leg_instrument_id l)) x) (book_positions b)"
      by (auto simp: applyLeg_def rbind_Inr_iff Let_def split: option.splits if_splits)
    show ?thesis using assms(1) True 2 parseRat_val [OF x]
      by (auto simp: holds_def b' bal_update distinct_keys_update cash_of_def quantity_of_def)
  next
    case 3
    with assms st show ?thesis by (auto simp: applyLeg_def holds_def cash_of_def quantity_of_def)
  qed
qed

lemma applyCostEvidence_balances:
  "book_cash (applyCostEvidence a b) = book_cash b" "book_positions (applyCostEvidence a b) = book_positions b"
  unfolding applyCostEvidence_def by (rule foldl_keeps, simp)+

lemma holds_cost: "holds es (applyCostEvidence a b) = holds es b"
  by (simp add: holds_def applyCostEvidence_balances)

lemma dayEvents_holds:
  assumes "rfold dayEventStep b es = Inr b'" "holds es0 b"
  shows "holds (es0 @ es) b'"
  using assms
proof (induction es arbitrary: b es0)
  case (Cons e es)
  then obtain b1 where b1: "applyLeg (fst e) (snd e) b = Inr b1"
    "rfold dayEventStep (applyCostEvidence (fst e) b1) es = Inr b'"
    by (auto simp: dayEventStep_def [of b e] rbind_Inr_iff)
  have "holds (es0 @ [e]) (applyCostEvidence (fst e) b1)"
    using applyLeg_holds [OF Cons.prems(2) b1(1)] by (simp add: holds_cost)
  from Cons.IH [OF b1(2) this] show ?case by simp
qed simp

lemma dated_legs_Cons: "dated_legs (a # as) = map (Pair a) (act_legs a) @ dated_legs as"
  by (simp add: dated_legs_def)

definition before :: "string \<Rightarrow> dated_leg \<Rightarrow> bool" where
  "before frm e \<longleftrightarrow> event_date e \<noteq> [] \<and> event_date e < frm"

lemma openingLegs_holds:
  assumes "rfold (\<lambda>b l. let date = legDate a l
      in if date \<noteq> [] \<and> date < frm then applyLeg a l b else Inr b) b ls = Inr b'" "holds es0 b"
  shows "holds (es0 @ filter (before frm) (map (Pair a) ls)) b'"
  using assms
proof (induction ls arbitrary: b es0)
  case (Cons l ls)
  show ?case
  proof (cases "legDate a l \<noteq> [] \<and> legDate a l < frm")
    case True
    with Cons.prems(1) obtain b1 where b1: "applyLeg a l b = Inr b1"
      "rfold (\<lambda>b l. let date = legDate a l
        in if date \<noteq> [] \<and> date < frm then applyLeg a l b else Inr b) b1 ls = Inr b'"
      by (auto simp: rbind_Inr_iff Let_def)
    from Cons.IH [OF b1(2) applyLeg_holds [OF Cons.prems(2) b1(1)]] True show ?thesis
      by (simp add: before_def event_date_def)
  next
    case False
    then have "rfold (\<lambda>b l. let date = legDate a l
        in if date \<noteq> [] \<and> date < frm then applyLeg a l b else Inr b) b ls = Inr b'"
      using Cons.prems(1) by (auto simp: Let_def)
    from Cons.IH [OF this Cons.prems(2)] False show ?thesis by (auto simp: before_def event_date_def)
  qed
qed simp

lemma opening_holds:
  assumes "rfold (openingStep frm) b as = Inr b'" "holds es0 b"
  shows "holds (es0 @ filter (before frm) (dated_legs as)) b'"
  using assms
proof (induction as arbitrary: b es0)
  case Nil
  then show ?case by (simp add: dated_legs_def)
next
  case (Cons a as)
  then obtain b1 b2 where b1: "rfold (\<lambda>b l. let date = legDate a l
      in if date \<noteq> [] \<and> date < frm then applyLeg a l b else Inr b) b (act_legs a) = Inr b1"
    and b2: "rfold (openingStep frm) b2 as = Inr b'" "b2 = b1 \<or> b2 = applyCostEvidence a b1"
    by (auto simp: openingStep_def [of frm b a] rbind_Inr_iff Let_def split: if_splits)
  have "holds (es0 @ filter (before frm) (map (Pair a) (act_legs a))) b2"
    using openingLegs_holds [OF b1 Cons.prems(2)] b2(2) by (auto simp: holds_cost)
  from Cons.IH [OF b2(1) this] show ?case by (simp add: dated_legs_Cons)
qed

lemma groupByDate_filter:
  "groupByDate to es day = filter (\<lambda>e. event_date e = day \<and> day \<noteq> [] \<and> day \<le> to) es"
proof -
  have "foldl (\<lambda>byDate e. let date = event_date e
      in if date = [] \<or> to < date then byDate else byDate(date := byDate date @ [e])) f es day =
    f day @ filter (\<lambda>e. event_date e = day \<and> day \<noteq> [] \<and> day \<le> to) es" for f
    by (induction es arbitrary: f) (auto simp: Let_def not_less)
  then show ?thesis by (simp add: groupByDate_def)
qed


section \<open>Valuation as a weighted sum\<close>

text \<open>The value of balances under optional weights: undefined when a non-zero balance has no weight.\<close>

definition weigh :: "('k \<Rightarrow> rat option) \<Rightarrow> ('k \<Rightarrow> rat) \<Rightarrow> rat option" where
  "weigh w f = (if \<forall>k. f k \<noteq> 0 \<longrightarrow> w k \<noteq> None
     then Some (\<Sum>k | f k \<noteq> 0. f k * (case w k of None \<Rightarrow> 0 | Some x \<Rightarrow> x)) else None)"

definition v_value :: "valuation \<Rightarrow> rat option" where
  "v_value v = (if v_ok v then Some (v_total v) else None)"

text \<open>Missing inputs and sources are only ever added.\<close>

definition grows :: "valuation \<Rightarrow> valuation \<Rightarrow> bool" where
  "grows v v' \<longleftrightarrow> set (v_sources v) \<subseteq> set (v_sources v')
     \<and> set (v_missing_prices v) \<subseteq> set (v_missing_prices v') \<and> set (v_missing_fx v) \<subseteq> set (v_missing_fx v')"

definition missing :: "valuation \<Rightarrow> bool" where
  "missing v \<longleftrightarrow> v_missing_prices v \<noteq> [] \<or> v_missing_fx v \<noteq> []"

lemma grows_refl [simp]: "grows v v"
  by (simp add: grows_def)

lemma grows_trans: "grows u v \<Longrightarrow> grows v w \<Longrightarrow> grows u w"
  by (auto simp: grows_def)

lemma grows_missing: "grows v v' \<Longrightarrow> missing v \<Longrightarrow> missing v'"
  unfolding grows_def missing_def by (metis set_empty subset_empty)

lemmas valuation_defs = add_source_def add_total_def miss_price_def miss_fx_def restart_def

lemma restart_facts [simp]: "v_total (restart v) = 0" "v_ok (restart v)" "missing (restart v) = missing v"
  "grows (restart v) v'= grows v v'"
  by (simp_all add: restart_def missing_def grows_def)

lemma effects_simps [simp]:
  "v_total (add_source s v) = v_total v" "v_ok (add_source s v) = v_ok v"
  "missing (add_source s v) = missing v" "grows u v \<Longrightarrow> grows u (add_source s v)"
  "v_total (add_total x v) = v_total v + x" "v_ok (add_total x v) = v_ok v"
  "missing (add_total x v) = missing v" "grows u (add_total x v) = grows u v"
  "\<not> v_ok (miss_price s v)" "missing (miss_price s v)" "grows u v \<Longrightarrow> grows u (miss_price s v)"
  "\<not> v_ok (miss_fx s v)" "missing (miss_fx s v)" "grows u v \<Longrightarrow> grows u (miss_fx s v)"
  by (auto simp: valuation_defs missing_def grows_def List.insert_def)

text \<open>The contract of one step of a valuation: an item without amount changes nothing, an item with
  a weight is added, and an item without one is reported missing.\<close>

locale weighted_valuation =
  fixes step :: "valuation \<Rightarrow> 'i \<Rightarrow> valuation result" and amount :: "'i \<Rightarrow> rat option"
  assumes step_adds: "step v i = Inr v' \<Longrightarrow> amount i = Some x \<Longrightarrow>
      v_total v' = v_total v + x \<and> v_ok v' = v_ok v \<and> grows v v' \<and> (missing v' = missing v)"
    and step_misses: "step v i = Inr v' \<Longrightarrow> amount i = None \<Longrightarrow> \<not> v_ok v' \<and> grows v v' \<and> missing v'"
begin

lemma fold_value:
  assumes "rfold step v its = Inr v'"
  shows "v_ok v' = (v_ok v \<and> (\<forall>i\<in>set its. amount i \<noteq> None)) \<and> grows v v'
    \<and> (missing v' = (missing v \<or> (\<exists>i\<in>set its. amount i = None)))
    \<and> (v_ok v' \<longrightarrow> v_total v' = v_total v + (\<Sum>i\<leftarrow>its. case amount i of None \<Rightarrow> 0 | Some x \<Rightarrow> x))"
  using assms
proof (induction its arbitrary: v)
  case Nil
  then show ?case by simp
next
  case (Cons i its)
  then obtain u where u: "step v i = Inr u" "rfold step u its = Inr v'" by (auto simp: rbind_Inr_iff)
  show ?case
  proof (cases "amount i")
    case None
    with step_misses [OF u(1)] Cons.IH [OF u(2)] show ?thesis by (auto intro: grows_trans)
  next
    case (Some x)
    with step_adds [OF u(1)] Cons.IH [OF u(2)] show ?thesis by (auto intro: grows_trans)
  qed
qed

lemma fold_restart:
  assumes "rfold step (restart v) its = Inr v'"
  shows "v_value v' = (if \<forall>i\<in>set its. amount i \<noteq> None
      then Some (\<Sum>i\<leftarrow>its. case amount i of None \<Rightarrow> 0 | Some x \<Rightarrow> x) else None)"
    and "grows v v'" and "missing v' = (missing v \<or> v_value v' = None)"
  using fold_value [OF assms] by (auto simp: v_value_def)

end

definition rate_at :: "string \<Rightarrow> string \<Rightarrow> fx_index \<Rightarrow> string \<Rightarrow> rat option" where
  "rate_at day base fx cur = (case fxAt day cur base fx of Inr (Some (r, _)) \<Rightarrow> Some r | _ \<Rightarrow> None)"

definition worth_at :: "string \<Rightarrow> (int \<times> instrument) list \<Rightarrow> string \<Rightarrow> price_index \<Rightarrow> fx_index \<Rightarrow> int \<Rightarrow> rat option" where
  "worth_at day instruments base prices fx iid =
     (case priceAt day iid prices of
        Inr (Some (p, _)) \<Rightarrow> map_option ((*) p) (rate_at day base fx (ins_currency (lookup_instrument instruments iid)))
      | _ \<Rightarrow> None)"

definition item_amount :: "('k \<Rightarrow> rat option) \<Rightarrow> 'k \<times> rat \<Rightarrow> rat option" where
  "item_amount w e = (if snd e = 0 then Some 0 else map_option ((*) (snd e)) (w (fst e)))"

definition flow_amount ::
  "string \<Rightarrow> (int \<times> instrument) list \<Rightarrow> string \<Rightarrow> price_index \<Rightarrow> fx_index \<Rightarrow> dated_leg \<Rightarrow> rat option" where
  "flow_amount day instruments base prices fx e =
     (if \<not> booked (fst e) \<or> \<not> externalFlowType (act_type (fst e)) then Some 0
      else if leg_kind (snd e) = ''cash''
      then map_option ((*) (dec_val (leg_cash_delta (snd e)))) (rate_at day base fx (leg_currency (snd e)))
      else if leg_kind (snd e) = ''position'' \<and> act_type (fst e) = ''security_transfer''
      then map_option ((*) (dec_val (leg_quantity_delta (snd e))))
        (worth_at day instruments base prices fx (leg_instrument_id (snd e)))
      else Some 0)"

lemma fxAt_found:
  assumes "fxAt day cur base fx = Inr found"
  obtains "found = None" "rate_at day base fx cur = None"
    | r src where "found = Some (r, src)" "rate_at day base fx cur = Some r"
  using assms by (cases found) (auto simp: rate_at_def)

lemma priceAt_found:
  assumes "priceAt day iid prices = Inr found"
  obtains "found = None" "worth_at day instruments base prices fx iid = None"
    | p src where "found = Some (p, src)" "worth_at day instruments base prices fx iid =
        map_option ((*) p) (rate_at day base fx (ins_currency (lookup_instrument instruments iid)))"
  using assms by (cases found) (auto simp: worth_at_def)

definition step_outcome :: "valuation \<Rightarrow> valuation \<Rightarrow> rat option \<Rightarrow> bool" where
  "step_outcome v v' am \<longleftrightarrow> grows v v' \<and> (case am of
       Some x \<Rightarrow> v_total v' = v_total v + x \<and> v_ok v' = v_ok v \<and> (missing v' = missing v)
     | None \<Rightarrow> \<not> v_ok v' \<and> missing v')"

lemma valueCashStep_outcome:
  assumes "valueCashStep day base fx v (k, x) = Inr v'"
  shows "step_outcome v v' (item_amount (rate_at day base fx) (k, x))"
proof (cases "x = 0")
  case True
  with assms show ?thesis
    by (auto simp: valueCashStep_def item_amount_def step_outcome_def)
next
  case False
  with assms obtain found where f: "fxAt day k base fx = Inr found"
    and v': "(case found of None \<Rightarrow> Inr (miss_fx (k @ CHR ''/'' # base) v)
        | Some (rate, source) \<Rightarrow> Inr (add_total (x * rate) (add_source source v))) = (Inr v' :: valuation result)"
    by (auto simp: valueCashStep_def rbind_Inr_iff)
  from f show ?thesis
    by (rule fxAt_found) (use False v' in \<open>auto simp: item_amount_def step_outcome_def\<close>)
qed

lemma valuePositionsStep_outcome:
  assumes "valuePositionsStep day instruments base prices fx v (k, x) = Inr v'"
  shows "step_outcome v v' (item_amount (worth_at day instruments base prices fx) (k, x))"
proof (cases "x = 0")
  case True
  with assms show ?thesis
    by (auto simp: valuePositionsStep_def item_amount_def step_outcome_def)
next
  case False
  let ?i = "lookup_instrument instruments k"
  from False assms obtain found where f: "priceAt day k prices = Inr found"
    and v': "(case found of None \<Rightarrow> Inr (miss_price (instrumentLabel ?i) v)
      | Some (price, source) \<Rightarrow> rbind (fxAt day (ins_currency ?i) base fx) (\<lambda>found.
          case found of None \<Rightarrow> Inr (miss_fx (to_upper (ins_currency ?i) @ CHR ''/'' # base) (add_source source v))
          | Some (rate, fxSource) \<Rightarrow>
              Inr (add_total (x * price * rate) (add_source fxSource (add_source source v)))))
      = (Inr v' :: valuation result)"
    by (auto simp: valuePositionsStep_def rbind_Inr_iff Let_def)
  from f show ?thesis
  proof (rule priceAt_found [where instruments = instruments and base = base and fx = fx])
    assume "found = None" "worth_at day instruments base prices fx k = None"
    with False v' show ?thesis by (auto simp: item_amount_def step_outcome_def)
  next
    fix p src
    assume p: "found = Some (p, src)" "worth_at day instruments base prices fx k =
      map_option ((*) p) (rate_at day base fx (ins_currency ?i))"
    with v' obtain found' where f': "fxAt day (ins_currency ?i) base fx = Inr found'"
      and v'': "(case found' of None \<Rightarrow> Inr (miss_fx (to_upper (ins_currency ?i) @ CHR ''/'' # base) (add_source src v))
          | Some (rate, fxSource) \<Rightarrow>
              Inr (add_total (x * p * rate) (add_source fxSource (add_source src v))))
        = (Inr v' :: valuation result)"
      by (auto simp: rbind_Inr_iff)
    from f' show ?thesis
      by (rule fxAt_found) (use False p v'' in \<open>auto simp: item_amount_def step_outcome_def mult.assoc\<close>)
  qed
qed

lemma externalFlowStep_outcome:
  assumes "externalFlowStep day instruments base prices fx v e = Inr v'"
  shows "step_outcome v v' (flow_amount day instruments base prices fx e)"
proof -
  obtain a l where e: "e = (a, l)" by (cases e)
  let ?i = "lookup_instrument instruments (leg_instrument_id l)"
  consider (skip) "\<not> booked a \<or> \<not> externalFlowType (act_type a) \<or>
      leg_kind l \<noteq> ''cash'' \<and> (leg_kind l \<noteq> ''position'' \<or> act_type a \<noteq> ''security_transfer'')"
    | (cash) "booked a" "externalFlowType (act_type a)" "leg_kind l = ''cash''"
    | (pos) "booked a" "externalFlowType (act_type a)" "leg_kind l = ''position''"
        "act_type a = ''security_transfer''" by blast
  then show ?thesis
  proof cases
    case skip
    then have "v' = v" using assms e by (auto simp: externalFlowStep_def booked_def split: if_splits)
    then show ?thesis using skip e by (auto simp: flow_amount_def step_outcome_def)
  next
    case cash
    with assms e obtain amt found where x: "parseRat (leg_cash_delta l) = Inr amt"
      and f: "fxAt day (leg_currency l) base fx = Inr found"
      and v': "(case found of None \<Rightarrow> Inr (miss_fx (to_upper (leg_currency l) @ CHR ''/'' # base) v)
          | Some (rate, source) \<Rightarrow> Inr (add_total (amt * rate) (add_source source v))) = (Inr v' :: valuation result)"
      by (auto simp: externalFlowStep_def booked_def rbind_Inr_iff)
    from f show ?thesis
      by (rule fxAt_found) (use cash v' e parseRat_val [OF x] in \<open>auto simp: flow_amount_def step_outcome_def\<close>)
  next
    case pos
    with assms e obtain q found where x: "parseRat (leg_quantity_delta l) = Inr q"
      and f: "priceAt day (leg_instrument_id l) prices = Inr found"
      and v': "(case found of None \<Rightarrow> Inr (miss_price (instrumentLabel ?i) v)
        | Some (price, source) \<Rightarrow> rbind (fxAt day (ins_currency ?i) base fx) (\<lambda>found.
            case found of None \<Rightarrow> Inr (miss_fx (to_upper (ins_currency ?i) @ CHR ''/'' # base) v)
            | Some (rate, fxSource) \<Rightarrow>
                Inr (add_total (q * price * rate) (add_source fxSource (add_source source v)))))
        = (Inr v' :: valuation result)"
      by (auto simp: externalFlowStep_def booked_def rbind_Inr_iff Let_def)
    from f show ?thesis
    proof (rule priceAt_found [where instruments = instruments and base = base and fx = fx])
      assume "found = None" "worth_at day instruments base prices fx (leg_instrument_id l) = None"
      with pos v' e show ?thesis by (auto simp: flow_amount_def step_outcome_def)
    next
      fix p src
      assume p: "found = Some (p, src)" "worth_at day instruments base prices fx (leg_instrument_id l) =
        map_option ((*) p) (rate_at day base fx (ins_currency ?i))"
      with v' obtain found' where f': "fxAt day (ins_currency ?i) base fx = Inr found'"
        and v'': "(case found' of None \<Rightarrow> Inr (miss_fx (to_upper (ins_currency ?i) @ CHR ''/'' # base) v)
            | Some (rate, fxSource) \<Rightarrow>
                Inr (add_total (q * p * rate) (add_source fxSource (add_source src v))))
          = (Inr v' :: valuation result)"
        by (auto simp: rbind_Inr_iff)
      from f' show ?thesis
        by (rule fxAt_found)
          (use pos e p v'' parseRat_val [OF x] in \<open>auto simp: flow_amount_def step_outcome_def mult.assoc\<close>)
    qed
  qed
qed

interpretation cash_valuation: weighted_valuation "valueCashStep day base fx"
    "item_amount (rate_at day base fx)" for day base fx
  by unfold_locales (auto simp: step_outcome_def split_paired_all dest!: valueCashStep_outcome)

interpretation position_valuation: weighted_valuation "valuePositionsStep day instruments base prices fx"
    "item_amount (worth_at day instruments base prices fx)" for day instruments base prices fx
  by unfold_locales (auto simp: step_outcome_def split_paired_all dest!: valuePositionsStep_outcome)

interpretation flow_valuation: weighted_valuation "externalFlowStep day instruments base prices fx"
    "flow_amount day instruments base prices fx" for day instruments base prices fx
  by unfold_locales (auto simp: step_outcome_def dest!: externalFlowStep_outcome)


lemma weigh_balances:
  assumes "distinct (map fst m)"
  shows "(if \<forall>i\<in>set m. item_amount w i \<noteq> None
      then Some (\<Sum>i\<leftarrow>m. case item_amount w i of None \<Rightarrow> 0 | Some x \<Rightarrow> x) else None) = weigh w (bal m)"
proof -
  have bal: "bal m (fst i) = snd i" if "i \<in> set m" for i
  proof -
    have "map_of m (fst i) = Some (snd i)" using that assms by simp
    then show ?thesis by (simp add: bal_def)
  qed
  have dom: "\<exists>i\<in>set m. fst i = k \<and> snd i = bal m k" if "bal m k \<noteq> 0" for k
    using that by (auto simp: bal_def split: option.splits dest!: map_of_SomeD intro: bexI [of _ "(k, _)"])
  have "(\<forall>i\<in>set m. item_amount w i \<noteq> None) \<longleftrightarrow> (\<forall>k. bal m k \<noteq> 0 \<longrightarrow> w k \<noteq> None)"
    using bal dom by (fastforce simp: item_amount_def)
  moreover have "(\<Sum>i\<leftarrow>m. case item_amount w i of None \<Rightarrow> 0 | Some x \<Rightarrow> x) =
      (\<Sum>k | bal m k \<noteq> 0. bal m k * (case w k of None \<Rightarrow> 0 | Some x \<Rightarrow> x))"
  proof -
    let ?f = "\<lambda>k. bal m k * (case w k of None \<Rightarrow> 0 | Some x \<Rightarrow> x)"
    have "(\<Sum>i\<leftarrow>m. case item_amount w i of None \<Rightarrow> 0 | Some x \<Rightarrow> x) = (\<Sum>i\<leftarrow>m. ?f (fst i))"
      by (rule arg_cong [where f = sum_list], rule map_cong)
        (auto simp: item_amount_def bal split: option.splits)
    also have "\<dots> = (\<Sum>k\<leftarrow>map fst m. ?f k)" by (simp add: comp_def)
    also have "\<dots> = sum ?f (set (map fst m))" using assms by (rule sum_list_distinct_conv_sum_set)
    also have "\<dots> = (\<Sum>k | bal m k \<noteq> 0. ?f k)"
      by (rule sum.mono_neutral_cong_right) (use dom in \<open>auto intro: rev_image_eqI\<close>)
    finally show ?thesis .
  qed
  ultimately show ?thesis unfolding weigh_def by (simp only:)
qed

lemma valueCash_weigh:
  assumes "valueCash day m base fx v = Inr v'" "distinct (map fst m)"
  shows "v_value v' = weigh (rate_at day base fx) (bal m)"
  using cash_valuation.fold_restart(1) [OF assms(1) [unfolded valueCash_def]] weigh_balances [OF assms(2)]
  by simp

lemma valuePositions_weigh:
  assumes "valuePositions day m instruments base prices fx v = Inr v'" "distinct (map fst m)"
  shows "v_value v' = weigh (worth_at day instruments base prices fx) (bal m)"
  using position_valuation.fold_restart(1) [OF assms(1) [unfolded valuePositions_def]]
    weigh_balances [OF assms(2)] by simp

section \<open>The ledger specification\<close>

text \<open>The events a calculator has replayed by the end of day \<open>d\<close>, and the balances, values and
  flows the ledger gives for that day.\<close>

definition calc_events :: "calculator \<Rightarrow> dated_leg list" where
  "calc_events c = dated_legs (inp_activities (calc_input c))"

definition replayed :: "calculator \<Rightarrow> day \<Rightarrow> dated_leg \<Rightarrow> bool" where
  "replayed c d e \<longleftrightarrow> event_date e \<noteq> [] \<and>
     (event_date e < format_date (calc_from c) \<or> (\<exists>k\<in>{calc_from c..d}. event_date e = format_date k))"

definition ledger_cash :: "calculator \<Rightarrow> day \<Rightarrow> string \<Rightarrow> rat" where
  "ledger_cash c d cur = (\<Sum>e\<leftarrow>filter (replayed c d) (calc_events c). cash_of cur e)"

definition ledger_quantity :: "calculator \<Rightarrow> day \<Rightarrow> int \<Rightarrow> rat" where
  "ledger_quantity c d iid = (\<Sum>e\<leftarrow>filter (replayed c d) (calc_events c). quantity_of iid e)"

definition cash_value :: "calculator \<Rightarrow> day \<Rightarrow> rat option" where
  "cash_value c d = weigh (rate_at (format_date d) (calc_base c) (calc_fx c)) (ledger_cash c d)"

definition holdings_value :: "calculator \<Rightarrow> day \<Rightarrow> rat option" where
  "holdings_value c d = weigh (worth_at (format_date d) (inp_instruments (calc_input c)) (calc_base c)
     (calc_prices c) (calc_fx c)) (ledger_quantity c d)"

definition flow_value :: "calculator \<Rightarrow> day \<Rightarrow> rat option" where
  "flow_value c d =
     (let fl = flow_amount (format_date d) (inp_instruments (calc_input c)) (calc_base c) (calc_prices c) (calc_fx c);
          es = filter (\<lambda>e. event_date e = format_date d) (calc_events c)
      in if \<forall>e\<in>set es. fl e \<noteq> None then Some (\<Sum>e\<leftarrow>es. case fl e of None \<Rightarrow> 0 | Some x \<Rightarrow> x) else None)"

definition total_value :: "calculator \<Rightarrow> day \<Rightarrow> rat option" where
  "total_value c d = (case (cash_value c d, holdings_value c d, flow_value c d) of
       (Some x, Some y, Some _) \<Rightarrow> Some (x + y) | _ \<Rightarrow> None)"

lemma sum_dated_legs: "(\<Sum>e\<leftarrow>filter P (dated_legs as). f e) = (\<Sum>a\<leftarrow>as. \<Sum>e\<leftarrow>filter P (map (Pair a) (act_legs a)). f e)"
  by (induction as) (simp_all add: dated_legs_def)

lemma sum_list_sort_key: "(\<Sum>x\<leftarrow>sort_key k xs. (f x :: rat)) = (\<Sum>x\<leftarrow>xs. f x)"
  by (metis mset_map mset_sort sum_mset_sum_list)

lemma sum_dated_legs_sort:
  "(\<Sum>e\<leftarrow>filter P (dated_legs (sort_key k as)). (f e :: rat)) = (\<Sum>e\<leftarrow>filter P (dated_legs as). f e)"
  by (simp add: sum_dated_legs sum_list_sort_key)

lemma set_dated_legs_sort: "set (dated_legs (sort_key k as)) = set (dated_legs as)"
  by (simp add: dated_legs_def)

lemma sum_filter_or:
  assumes "\<And>x. \<not> (P x \<and> Q x)"
  shows "(\<Sum>x\<leftarrow>filter P xs. (f x :: rat)) + (\<Sum>x\<leftarrow>filter Q xs. f x) = (\<Sum>x\<leftarrow>filter (\<lambda>x. P x \<or> Q x) xs. f x)"
  using assms by (induction xs) (auto simp: add.assoc add.left_commute)

text \<open>The book of a running calculation: it holds the ledger balances of the day.\<close>

definition book_at :: "calculator \<Rightarrow> day \<Rightarrow> book \<Rightarrow> bool" where
  "book_at c d b \<longleftrightarrow> distinct (map fst (book_cash b)) \<and> distinct (map fst (book_positions b))
     \<and> (\<forall>cur. bal (book_cash b) cur = ledger_cash c d cur)
     \<and> (\<forall>iid. bal (book_positions b) iid = ledger_quantity c d iid)"

abbreviation sorted_activities :: "calculator \<Rightarrow> activity list" where
  "sorted_activities c \<equiv> sort_key activityDate (inp_activities (calc_input c))"

abbreviation by_date :: "calculator \<Rightarrow> string \<Rightarrow> dated_leg list" where
  "by_date c \<equiv> groupByDate (format_date (calc_to c)) (dated_legs (sorted_activities c))"

lemma opening_book_at:
  assumes "rfold (openingStep (format_date (calc_from c))) empty_book (sorted_activities c) = Inr b"
  shows "book_at c (calc_from c - 1) b"
proof -
  have "holds (filter (before (format_date (calc_from c))) (dated_legs (sorted_activities c))) b"
    using opening_holds [OF assms holds_empty] by simp
  moreover have "before (format_date (calc_from c)) = replayed c (calc_from c - 1)"
    by (simp add: fun_eq_iff before_def replayed_def)
  ultimately show ?thesis
    by (simp add: holds_def book_at_def ledger_cash_def ledger_quantity_def calc_events_def sum_dated_legs_sort)
qed

lemma holds_append:
  "holds (es @ es') b \<longleftrightarrow> distinct (map fst (book_cash b)) \<and> distinct (map fst (book_positions b))
     \<and> (\<forall>cur. bal (book_cash b) cur = (\<Sum>e\<leftarrow>es. cash_of cur e) + (\<Sum>e\<leftarrow>es'. cash_of cur e))
     \<and> (\<forall>iid. bal (book_positions b) iid = (\<Sum>e\<leftarrow>es. quantity_of iid e) + (\<Sum>e\<leftarrow>es'. quantity_of iid e))"
  by (simp add: holds_def)

lemma day_book_at:
  assumes fd: "four_digit (calc_from c)" "four_digit (calc_to c)"
    and d: "calc_from c \<le> d" "d \<le> calc_to c"
    and b: "book_at c (d - 1) b" "rfold dayEventStep b (by_date c (format_date d)) = Inr b'"
  shows "book_at c d b'"
proof -
  let ?es = "dated_legs (sorted_activities c)"
  let ?today = "\<lambda>e. event_date e = format_date d"
  have d4: "four_digit d" using four_digit_between [OF fd] d by blast
  have k4: "four_digit k" if "calc_from c \<le> k" "k \<le> d" for k
    using four_digit_between [OF fd(1) d4] that by blast
  have le: "format_date d \<le> format_date (calc_to c)"
    using format_date_less_iff [OF fd(2) d4] d(2) by (simp add: not_less [symmetric])
  have today: "by_date c (format_date d) = filter ?today ?es"
    using le by (simp add: groupByDate_filter)
  have "holds (filter (replayed c (d - 1)) ?es) b"
    using b(1) by (simp add: book_at_def holds_def ledger_cash_def ledger_quantity_def calc_events_def
        sum_dated_legs_sort)
  from dayEvents_holds [OF b(2) this]
  have h: "holds (filter (replayed c (d - 1)) ?es @ filter ?today ?es) b'" by (simp only: today)
  have dis: "\<not> (replayed c (d - 1) e \<and> ?today e)" for e
  proof
    assume a: "replayed c (d - 1) e \<and> ?today e"
    then consider "format_date d < format_date (calc_from c)"
      | k where "calc_from c \<le> k" "k \<le> d - 1" "format_date d = format_date k"
      by (auto simp: replayed_def)
    then show False
    proof cases
      case 1
      then show False using format_date_less_iff [OF d4 fd(1)] d(1) by simp
    next
      case 2
      then show False using format_date_inj [OF d4 k4 [of k]] by simp
    qed
  qed
  have un: "(\<lambda>e. replayed c (d - 1) e \<or> ?today e) = replayed c d"
  proof
    fix e
    have "{calc_from c..d} = insert d {calc_from c..d - 1}" using d(1) by auto
    then show "(replayed c (d - 1) e \<or> ?today e) = replayed c d e"
      using format_date_nonempty [of d, THEN not_sym] unfolding replayed_def by (cases "event_date e = []") auto
  qed
  show ?thesis
    using h unfolding holds_append sum_filter_or [OF dis] un
    by (simp add: book_at_def ledger_cash_def ledger_quantity_def calc_events_def sum_dated_legs_sort)
qed


section \<open>Points\<close>

text \<open>The point of a day whose book holds the ledger: values, flows and what is missing.\<close>

lemma dayValues_values:
  assumes "dayValues c (format_date d) b es = Inr (cash, holdings, flow)" "book_at c d b"
    and es: "es = filter (\<lambda>e. event_date e = format_date d) (dated_legs (sorted_activities c))"
  shows "v_value cash = cash_value c d" "v_value holdings = holdings_value c d"
    "v_value flow = flow_value c d" "missing flow = (total_value c d = None)"
proof -
  let ?v0 = "\<lparr>v_total = 0, v_ok = True, v_sources = [], v_missing_prices = [], v_missing_fx = []\<rparr>"
  from assms(1) have
    c: "valueCash (format_date d) (book_cash b) (calc_base c) (calc_fx c) ?v0 = Inr cash"
    and h: "valuePositions (format_date d) (book_positions b) (inp_instruments (calc_input c)) (calc_base c)
      (calc_prices c) (calc_fx c) cash = Inr holdings"
    and f: "externalFlow (format_date d) es (inp_instruments (calc_input c)) (calc_base c)
      (calc_prices c) (calc_fx c) holdings = Inr flow"
    by (auto simp: dayValues_def rbind_Inr_iff)
  have bk: "distinct (map fst (book_cash b))" "distinct (map fst (book_positions b))"
    "bal (book_cash b) = ledger_cash c d" "bal (book_positions b) = ledger_quantity c d"
    using assms(2) by (auto simp: book_at_def fun_eq_iff)
  show cv: "v_value cash = cash_value c d"
    using valueCash_weigh [OF c bk(1)] by (simp add: cash_value_def bk(3))
  show hv: "v_value holdings = holdings_value c d"
    using valuePositions_weigh [OF h bk(2)] by (simp add: holdings_value_def bk(4))
  let ?fl = "flow_amount (format_date d) (inp_instruments (calc_input c)) (calc_base c) (calc_prices c) (calc_fx c)"
  have s: "(\<Sum>e\<leftarrow>es. case ?fl e of None \<Rightarrow> 0 | Some x \<Rightarrow> x) =
      (\<Sum>e\<leftarrow>filter (\<lambda>e. event_date e = format_date d) (calc_events c). case ?fl e of None \<Rightarrow> 0 | Some x \<Rightarrow> x)"
    unfolding es calc_events_def by (rule sum_dated_legs_sort)
  have "set es = set (filter (\<lambda>e. event_date e = format_date d) (calc_events c))"
    unfolding es calc_events_def by (simp add: set_dated_legs_sort)
  with flow_valuation.fold_restart(1) [OF f [unfolded externalFlow_def]] s
  show fv: "v_value flow = flow_value c d" unfolding flow_value_def Let_def by (simp only:)
  have "missing flow = (v_value cash = None \<or> v_value holdings = None \<or> v_value flow = None)"
    using cash_valuation.fold_restart(3) [OF c [unfolded valueCash_def]]
      position_valuation.fold_restart(3) [OF h [unfolded valuePositions_def]]
      flow_valuation.fold_restart(3) [OF f [unfolded externalFlow_def]]
    by (simp add: missing_def)
  then show "missing flow = (total_value c d = None)"
    unfolding cv hv fv by (auto simp: total_value_def split: option.splits)
qed


definition complete_coverage :: "calculator \<Rightarrow> bool" where
  "complete_coverage c \<longleftrightarrow> cov_status (calc_coverage c) = ''complete''"

definition flow_or_zero :: "calculator \<Rightarrow> day \<Rightarrow> rat" where
  "flow_or_zero c d = (case flow_value c d of None \<Rightarrow> 0 | Some f \<Rightarrow> f)"

definition point_values :: "calculator \<Rightarrow> day \<Rightarrow> point \<Rightarrow> bool" where
  "point_values c d p \<longleftrightarrow> pt_date p = format_date d
     \<and> pt_cash_value p = map_option decimalPtr (cash_value c d)
     \<and> pt_holdings_value p = map_option decimalPtr (holdings_value c d)
     \<and> pt_external_cash_flow p = map_option decimalPtr (flow_value c d)
     \<and> pt_total_value p = map_option decimalPtr (total_value c d)
     \<and> ((pt_missing_prices p = [] \<and> pt_missing_fx p = []) = (total_value c d \<noteq> None))
     \<and> (total_value c d = None \<or> \<not> complete_coverage c \<longrightarrow> pt_quality p = ''partial'')"

text \<open>The part of a day's state that the returns depend on, and the returns of the point.\<close>

definition point_returns :: "calculator \<Rightarrow> day \<Rightarrow> day_state \<Rightarrow> day_state \<Rightarrow> point \<Rightarrow> bool" where
  "point_returns c d st st' p \<longleftrightarrow>
     dayReturns (complete_coverage c) st (total_value c d) (flow_or_zero c d) =
       ((pt_daily_pnl p, pt_daily_return p, pt_cumulative_twr p), ds_twr_factor st', ds_twr_available st')
     \<and> ds_prev_value st' = total_value c d \<and> \<not> ds_first_point st'"

lemma dayReturns_flow:
  "(val \<noteq> None \<Longrightarrow> f = g) \<Longrightarrow> dayReturns ra st val f = dayReturns ra st val g"
  by (cases val) (simp_all add: dayReturns_def)


lemma sort_Nil_iff [simp]: "sort xs = [] \<longleftrightarrow> xs = []"
  by (metis length_0_conv length_sort)

lemma calculateDay_point:
  assumes day: "calculateDay c (by_date c) st d = Inr (st', p)" "book_at c (d - 1) (ds_book st)"
    and range: "four_digit (calc_from c)" "four_digit (calc_to c)" "calc_from c \<le> d" "d \<le> calc_to c"
  shows "book_at c d (ds_book st') \<and> point_values c d p \<and> point_returns c d st st' p"
proof -
  from day(1) obtain b cash holdings flow where
    b: "rfold dayEventStep (ds_book st) (by_date c (format_date d)) = Inr b"
    and v: "dayValues c (format_date d) b (by_date c (format_date d)) = Inr (cash, holdings, flow)"
    by (auto simp: calculateDay_def Let_def rbind_Inr_iff)
  have bk: "book_at c d b" by (rule day_book_at [OF range day(2) b])
  have le: "format_date d \<le> format_date (calc_to c)"
    using format_date_less_iff [OF range(2) four_digit_between [OF range]] range(4)
    by (simp add: not_less [symmetric])
  have es: "by_date c (format_date d) =
      filter (\<lambda>e. event_date e = format_date d) (dated_legs (sorted_activities c))"
    using le by (simp add: groupByDate_filter)
  note vals = dayValues_values [OF v bk es]
  let ?acc = "if v_ok cash \<and> v_ok holdings \<and> v_ok flow then Some (v_total cash + v_total holdings) else None"
  have tot: "?acc = total_value c d"
    unfolding total_value_def vals(1-3) [symmetric] by (simp add: v_value_def)
  have fl: "total_value c d \<noteq> None \<Longrightarrow> v_total flow = flow_or_zero c d"
    unfolding tot [symmetric] flow_or_zero_def vals(3) [symmetric] by (simp add: v_value_def split: if_splits)
  have ret: "dayReturns (complete_coverage c) st (total_value c d) (v_total flow) =
      dayReturns (complete_coverage c) st (total_value c d) (flow_or_zero c d)"
    by (rule dayReturns_flow) (rule fl)
  obtain pnl r twr factor available where rr:
    "dayReturns (complete_coverage c) st (total_value c d) (flow_or_zero c d) = ((pnl, r, twr), factor, available)"
    by (metis surj_pair)
  have "calculateDay c (by_date c) st d = Inr (\<lparr>ds_book = b, ds_prev_value = total_value c d, ds_twr_factor = factor,
      ds_twr_available = available, ds_first_point = False\<rparr>,
      dayPoint c d b (cash, holdings, flow) (total_value c d) (pnl, r, twr))"
    unfolding calculateDay_def Let_def b v rbind_simps split_conv tot
      complete_coverage_def [symmetric] ret rr ..
  with day(1) have st': "st' = \<lparr>ds_book = b, ds_prev_value = total_value c d, ds_twr_factor = factor,
      ds_twr_available = available, ds_first_point = False\<rparr>"
    and pp: "p = dayPoint c d b (cash, holdings, flow) (total_value c d) (pnl, r, twr)" by simp_all
  have p: "pt_date p = format_date d" "pt_total_value p = map_option decimalPtr (total_value c d)"
    "pt_cash_value p = map_option decimalPtr (v_value cash)"
    "pt_holdings_value p = map_option decimalPtr (v_value holdings)"
    "pt_external_cash_flow p = map_option decimalPtr (v_value flow)"
    "pt_daily_pnl p = pnl" "pt_daily_return p = r" "pt_cumulative_twr p = twr"
    "pt_missing_prices p = sort (v_missing_prices flow)" "pt_missing_fx p = sort (v_missing_fx flow)"
    "missing flow \<or> \<not> complete_coverage c \<longrightarrow> pt_quality p = ''partial''"
    unfolding pp dayPoint_def
    by (simp_all add: Let_def v_value_def sortedKeys_def missing_def dayQuality_def complete_coverage_def)
  have "point_values c d p"
    unfolding point_values_def p vals(1-3) using p(11) vals(4) by (auto simp: missing_def)
  moreover have "point_returns c d st st' p"
    unfolding point_returns_def p rr st' by simp
  ultimately show ?thesis using bk st' by simp
qed


lemma calculateDays_points:
  assumes "calculateDays c (by_date c) st [d..calc_to c] = Inr ps" "book_at c (d - 1) (ds_book st)"
    and range: "four_digit (calc_from c)" "four_digit (calc_to c)" "calc_from c \<le> d"
  shows "length ps = nat (calc_to c + 1 - d)" and "i < length ps \<Longrightarrow> point_values c (d + int i) (ps ! i)"
proof -
  have "length ps = nat (calc_to c + 1 - d) \<and> (\<forall>i < length ps. point_values c (d + int i) (ps ! i))"
    using assms(1,2) range(3)
  proof (induction "nat (calc_to c + 1 - d)" arbitrary: d st ps)
    case 0
    then show ?case by simp
  next
    case (Suc n)
    then have d: "d \<le> calc_to c" and up: "[d..calc_to c] = d # [d + 1..calc_to c]"
      by (simp_all add: upto_rec1)
    from Suc.prems(1) obtain st' p qs where day: "calculateDay c (by_date c) st d = Inr (st', p)"
      and rest: "calculateDays c (by_date c) st' [d + 1..calc_to c] = Inr qs" and ps: "ps = p # qs"
      unfolding up by (auto simp: rbind_Inr_iff)
    note pt = calculateDay_point [OF day Suc.prems(2) range(1,2) Suc.prems(3) d]
    have "length qs = nat (calc_to c + 1 - (d + 1)) \<and> (\<forall>i < length qs. point_values c (d + 1 + int i) (qs ! i))"
      by (rule Suc.hyps(1) [OF _ rest]) (use Suc.hyps(2) Suc.prems(3) pt in auto)
    then show ?case using pt d by (auto simp: ps nth_Cons add.assoc split: nat.splits)
  qed
  then show "length ps = nat (calc_to c + 1 - d)"
    and "i < length ps \<Longrightarrow> point_values c (d + int i) (ps ! i)" by blast+
qed

text \<open>The days of a calculation: their states and points. \<open>calculateDays\<close> runs them in order.\<close>

lemma calculate_Inr:
  assumes "calculate c = Inr s"
  obtains b factor available where
    "rfold (openingStep (format_date (calc_from c))) empty_book (sorted_activities c) = Inr b"
    "anchorFactor (calc_anchor c) (complete_coverage c) = Inr (factor, available)"
    "calculateDays c (by_date c)
       \<lparr>ds_book = b, ds_prev_value = ratPtr (anc_total_value (calc_anchor c)),
        ds_twr_factor = factor, ds_twr_available = available,
        ds_first_point = (anc_date (calc_anchor c) = [])\<rparr> [calc_from c..calc_to c] = Inr (ser_points s)"
  using assms by (auto simp: calculate_def Let_def rbind_Inr_iff complete_coverage_def)

text \<open>C4: the series has exactly one point per calendar day from the first to the last day, in
  order, and the values of each point are those of the ledger: the cash, the holdings and the
  external flow of the day, each the exact sum over the booked legs of the activities dated up to
  (for the flow: on) that day, valued at the rates and prices in force and rounded once. A value is
  null exactly when one of its inputs is missing.\<close>

theorem calculate_matches_ledger:
  assumes "calculate c = Inr s" "four_digit (calc_from c)" "four_digit (calc_to c)"
  shows "length (ser_points s) = nat (calc_to c + 1 - calc_from c) \<and>
    (\<forall>i < length (ser_points s). let d = calc_from c + int i; p = ser_points s ! i in
       pt_date p = format_date d
       \<and> pt_cash_value p = map_option decimalPtr (cash_value c d)
       \<and> pt_holdings_value p = map_option decimalPtr (holdings_value c d)
       \<and> pt_external_cash_flow p = map_option decimalPtr (flow_value c d)
       \<and> pt_total_value p = map_option decimalPtr (total_value c d))"
proof -
  obtain b factor available where
    b: "rfold (openingStep (format_date (calc_from c))) empty_book (sorted_activities c) = Inr b"
    and days: "calculateDays c (by_date c)
       \<lparr>ds_book = b, ds_prev_value = ratPtr (anc_total_value (calc_anchor c)),
        ds_twr_factor = factor, ds_twr_available = available,
        ds_first_point = (anc_date (calc_anchor c) = [])\<rparr> [calc_from c..calc_to c] = Inr (ser_points s)"
    using calculate_Inr [OF assms(1)] by metis
  note pts = calculateDays_points [OF days _ assms(2,3) order_refl]
  have "book_at c (calc_from c - 1) b" by (rule opening_book_at [OF b])
  with pts show ?thesis by (simp add: point_values_def Let_def)
qed

text \<open>With well-formed dates, the legs replayed by a day are the legs dated up to it.\<close>

lemma replayed_iff:
  assumes "four_digit (calc_from c)" "four_digit d" "calc_from c - 1 \<le> d" "date_ok (event_date e)"
  shows "replayed c d e \<longleftrightarrow> (\<exists>k. parse_date (event_date e) = Some k \<and> k \<le> d)"
proof (cases "parse_date (event_date e)")
  case None
  with assms(4) show ?thesis by (simp add: date_ok_def replayed_def)
next
  case (Some k)
  then have k: "event_date e = format_date k" "four_digit k" "event_date e \<noteq> []"
    using format_parse_date [OF Some] parsed_nonempty [OF Some] by simp_all
  have "(\<exists>j\<in>{calc_from c..d}. format_date k = format_date j) \<longleftrightarrow> k \<in> {calc_from c..d}"
    using format_date_inj [OF k(2)] four_digit_between [OF assms(1,2)] by fastforce
  then show ?thesis
    using k assms(3) format_date_less_iff [OF k(2) assms(1)] Some by (auto simp: replayed_def)
qed



section \<open>Returns\<close>

lemma calculateDays_induct:
  assumes "calculateDays c (by_date c) st [d..calc_to c] = Inr ps" "book_at c (d - 1) (ds_book st)"
    and range: "four_digit (calc_from c)" "four_digit (calc_to c)" "calc_from c \<le> d"
    and I: "I d st" "\<And>k st st' p. d \<le> k \<Longrightarrow> k \<le> calc_to c \<Longrightarrow> I k st \<Longrightarrow> point_returns c k st st' p \<Longrightarrow>
      I (k + 1) st' \<and> Q k p"
    and i: "i < length ps"
  shows "Q (d + int i) (ps ! i)"
  using assms(1,2) range(3) I i
proof (induction "nat (calc_to c + 1 - d)" arbitrary: d st ps i)
  case 0
  then show ?case by simp
next
  case (Suc n)
  then have d: "d \<le> calc_to c" and up: "[d..calc_to c] = d # [d + 1..calc_to c]"
    by (simp_all add: upto_rec1)
  from Suc.prems(1) obtain st' p qs where day: "calculateDay c (by_date c) st d = Inr (st', p)"
    and rest: "calculateDays c (by_date c) st' [d + 1..calc_to c] = Inr qs" and ps: "ps = p # qs"
    unfolding up by (auto simp: rbind_Inr_iff)
  note pt = calculateDay_point [OF day Suc.prems(2) range(1,2) Suc.prems(3) d]
  then have step: "I (d + 1) st'" "Q d p" using Suc.prems(5) [OF order_refl d Suc.prems(4)] by blast+
  show ?case
  proof (cases i)
    case 0
    with step ps show ?thesis by simp
  next
    case (Suc j)
    have "Q (d + 1 + int j) (qs ! j)"
      by (rule Suc.hyps(1) [OF _ rest]) (use Suc.hyps(2) Suc.prems pt step Suc ps in auto)
    with Suc ps show ?thesis by (simp add: add.assoc)
  qed
qed

lemma calculate_returns_induct:
  assumes "calculate c = Inr s" "four_digit (calc_from c)" "four_digit (calc_to c)"
    and "\<And>b factor available. anchorFactor (calc_anchor c) (complete_coverage c) = Inr (factor, available) \<Longrightarrow>
      I (calc_from c) \<lparr>ds_book = b, ds_prev_value = ratPtr (anc_total_value (calc_anchor c)),
        ds_twr_factor = factor, ds_twr_available = available,
        ds_first_point = (anc_date (calc_anchor c) = [])\<rparr>"
    and "\<And>k st st' p. calc_from c \<le> k \<Longrightarrow> k \<le> calc_to c \<Longrightarrow> I k st \<Longrightarrow> point_returns c k st st' p \<Longrightarrow>
      I (k + 1) st' \<and> Q k p"
    and "i < length (ser_points s)"
  shows "Q (calc_from c + int i) (ser_points s ! i)"
proof -
  obtain b factor available where
    b: "rfold (openingStep (format_date (calc_from c))) empty_book (sorted_activities c) = Inr b"
    and f: "anchorFactor (calc_anchor c) (complete_coverage c) = Inr (factor, available)"
    and days: "calculateDays c (by_date c)
       \<lparr>ds_book = b, ds_prev_value = ratPtr (anc_total_value (calc_anchor c)),
        ds_twr_factor = factor, ds_twr_available = available,
        ds_first_point = (anc_date (calc_anchor c) = [])\<rparr> [calc_from c..calc_to c] = Inr (ser_points s)"
    by (rule calculate_Inr [OF assms(1)])
  have "book_at c (calc_from c - 1) b" by (rule opening_book_at [OF b])
  then have bk: "book_at c (calc_from c - 1) (ds_book
      \<lparr>ds_book = b, ds_prev_value = ratPtr (anc_total_value (calc_anchor c)),
        ds_twr_factor = factor, ds_twr_available = available,
        ds_first_point = (anc_date (calc_anchor c) = [])\<rparr>)" by simp
  show ?thesis
    by (rule calculateDays_induct [where I = I and Q = Q, OF days bk assms(2,3) order_refl
          assms(4) [OF f] assms(5) assms(6)])
qed



text \<open>The growth of a day: one plus the profit over the value of the day before.\<close>

definition growth :: "calculator \<Rightarrow> (day \<Rightarrow> rat) \<Rightarrow> day \<Rightarrow> rat" where
  "growth c V k = 1 + (V k - V (k - 1) - flow_or_zero c k) / V (k - 1)"

definition compounded :: "calculator \<Rightarrow> (day \<Rightarrow> rat) \<Rightarrow> day \<Rightarrow> rat" where
  "compounded c V k = (\<Prod>j\<in>{calc_from c + 1..k}. growth c V j)"

lemma compounded_from: "compounded c V (calc_from c) = 1"
  by (simp add: compounded_def)

lemma compounded_step:
  assumes "calc_from c < k"
  shows "compounded c V k = compounded c V (k - 1) * growth c V k"
proof -
  have "{calc_from c + 1..k} = insert k {calc_from c + 1..k - 1}" using assms by auto
  then show ?thesis by (simp add: compounded_def mult.commute)
qed

lemma compounded_telescopes:
  assumes "\<forall>k\<in>{calc_from c..calc_to c}. V k \<noteq> 0 \<and> flow_or_zero c k = 0"
    and "calc_from c \<le> k" "k \<le> calc_to c"
  shows "compounded c V k = V k / V (calc_from c)"
  using assms(2,3)
proof (induction k rule: int_ge_induct)
  case base
  then show ?case using assms(1) by (simp add: compounded_from)
next
  case (step k)
  then have "V k \<noteq> 0" "V (calc_from c) \<noteq> 0" "flow_or_zero c (k + 1) = 0" using assms(1) by auto
  then show ?case using step by (simp add: compounded_step growth_def field_simps)
qed

lemma decimalPtr_representable: "representable x \<Longrightarrow> decimalPtr x = dec_text x"
proof -
  assume "representable x"
  then have e: "exact x = Inr (dec_text x)" by (rule exact_representable)
  then have "canonical_decimal (float_string 18 x) = Inr (dec_text x)"
    by (auto simp: exact_def Let_def split: if_splits)
  then show ?thesis by (simp add: decimalPtr_def)
qed

lemma decimalPtr_0: "decimalPtr 0 = ''0''"
  using decimalPtr_representable [OF ledger.fits_0] by simp

definition chain_state :: "calculator \<Rightarrow> (day \<Rightarrow> rat) \<Rightarrow> day \<Rightarrow> day_state \<Rightarrow> bool" where
  "chain_state c V k st \<longleftrightarrow> ds_twr_available st \<and> ds_twr_factor st = compounded c V (k - 1) \<and>
     (if k = calc_from c then ds_prev_value st = None \<and> ds_first_point st else ds_prev_value st = Some (V (k - 1)))"

lemma chain_step:
  assumes "complete_coverage c" "calc_from c \<le> k" "total_value c k = Some (V k)" "calc_from c < k \<Longrightarrow> V (k - 1) \<noteq> 0"
    and "chain_state c V k st" "point_returns c k st st' p"
  shows "chain_state c V (k + 1) st' \<and> pt_cumulative_twr p = Some (decimalPtr (compounded c V k - 1))
    \<and> (calc_from c < k \<longrightarrow> pt_daily_pnl p = Some (decimalPtr (V k - V (k - 1) - flow_or_zero c k)))"
proof (cases "k = calc_from c")
  case True
  with assms(5) have st: "ds_twr_available st" "ds_twr_factor st = 1" "ds_prev_value st = None" "ds_first_point st"
    by (simp_all add: chain_state_def compounded_def)
  then have "((pt_daily_pnl p, pt_daily_return p, pt_cumulative_twr p), ds_twr_factor st', ds_twr_available st') =
      ((None, None, Some ''0''), 1, True)" "ds_prev_value st' = Some (V k)"
    using assms(1,3,6) by (simp_all add: point_returns_def dayReturns_def)
  then show ?thesis using True by (simp add: chain_state_def compounded_from decimalPtr_0)
next
  case False
  with assms(5) have st: "ds_twr_available st" "ds_twr_factor st = compounded c V (k - 1)"
    "ds_prev_value st = Some (V (k - 1))" by (simp_all add: chain_state_def)
  have "calc_from c < k" using False assms(2) by simp
  from compounded_step [OF this] have "((pt_daily_pnl p, pt_daily_return p, pt_cumulative_twr p), ds_twr_factor st', ds_twr_available st') =
      ((Some (decimalPtr (V k - V (k - 1) - flow_or_zero c k)),
        Some (decimalPtr ((V k - V (k - 1) - flow_or_zero c k) / V (k - 1))),
        Some (decimalPtr (compounded c V k - 1))), compounded c V k, True)" "ds_prev_value st' = Some (V k)"
    using assms(1,3,6) assms(4) [OF \<open>calc_from c < k\<close>] st
    by (auto simp: point_returns_def dayReturns_def Let_def growth_def)
  then show ?thesis using False assms(2) by (simp add: chain_state_def)
qed

text \<open>C7: with complete coverage, a fresh start and a known non-zero value on every day, the
  cumulative return of a point compounds the daily returns exactly (profit net of external flows over
  the value of the day before), rounded only for display; without external flows it is the ratio of
  the last value to the first, less one.\<close>

theorem twr_compounds:
  assumes "calculate c = Inr s" "four_digit (calc_from c)" "four_digit (calc_to c)" "complete_coverage c"
    and "anc_date (calc_anchor c) = []" "anc_total_value (calc_anchor c) = None"
      "anc_cumulative_twr (calc_anchor c) = None"
    and V: "\<forall>k\<in>{calc_from c..calc_to c}. total_value c k = Some (V k) \<and> V k \<noteq> 0"
    and i: "i < length (ser_points s)"
  shows "pt_cumulative_twr (ser_points s ! i) = Some (decimalPtr (compounded c V (calc_from c + int i) - 1))
    \<and> (0 < i \<longrightarrow> pt_daily_pnl (ser_points s ! i) = Some (decimalPtr (V (calc_from c + int i)
          - V (calc_from c + int i - 1) - flow_or_zero c (calc_from c + int i))))
    \<and> ((\<forall>k\<in>{calc_from c..calc_to c}. flow_or_zero c k = 0) \<longrightarrow>
        pt_cumulative_twr (ser_points s ! i) =
          Some (decimalPtr (V (calc_from c + int i) / V (calc_from c) - 1)))"
proof -
  define Q where "Q = (\<lambda>k (p :: point). k \<le> calc_to c \<and>
    pt_cumulative_twr p = Some (decimalPtr (compounded c V k - 1))
    \<and> (calc_from c < k \<longrightarrow> pt_daily_pnl p = Some (decimalPtr (V k - V (k - 1) - flow_or_zero c k))))"
  define I where "I = (\<lambda>k st. chain_state c V k st)"
  have "Q (calc_from c + int i) (ser_points s ! i)"
  proof (rule calculate_returns_induct [where I = I, OF assms(1-3) _ _ i])
    fix b factor available
    assume "anchorFactor (calc_anchor c) (complete_coverage c) = Inr (factor, available)"
    then show "I (calc_from c) \<lparr>ds_book = b, ds_prev_value = ratPtr (anc_total_value (calc_anchor c)),
        ds_twr_factor = factor, ds_twr_available = available,
        ds_first_point = (anc_date (calc_anchor c) = [])\<rparr>"
      using assms(4-7) by (simp add: I_def chain_state_def anchorFactor_def ratPtr_def compounded_def)
  next
    fix k st st' p
    assume k: "calc_from c \<le> k" "k \<le> calc_to c" and st: "I k st" and r: "point_returns c k st st' p"
    show "I (k + 1) st' \<and> Q k p"
      using chain_step [OF assms(4) k(1) _ _ st [unfolded I_def] r] V k by (simp add: Q_def I_def)
  qed
  then show ?thesis using compounded_telescopes [of c V "calc_from c + int i"] V by (auto simp: Q_def)
qed

section \<open>The example\<close>

lemma Inr_of_not_isl: "isl r = False \<Longrightarrow> \<exists>x. r = Inr x"
  by (cases r) auto

lemma example_runs: "\<exists>s. calculate example_calculator = Inr s" "\<exists>s. calculate partial_example = Inr s"
  by (rule Inr_of_not_isl, code_simp)+

lemma example_range: "calc_from example_calculator = 739252" "calc_to example_calculator = 739253"
  "four_digit (calc_from example_calculator)" "four_digit (calc_to example_calculator)"
  by code_simp+

lemma example_cash:
  assumes "d \<in> {739252, 739253}"
  shows "ledger_cash example_calculator d cur = (if cur = ''USD'' then 100 else 0)"
proof -
  have date: "''2024-01-01'' < format_date (calc_from example_calculator)" by code_simp
  have v: "rational ''100'' = Inr 100" and u: "to_upper ''usd'' = ''USD''" by code_simp+
  show ?thesis using date u ledger.val_Some [OF v [folded dec_num_Some]]
    by (simp add: ledger_cash_def calc_events_def dated_legs_def example_calculator_def replayed_def event_date_def
        legDate_def cash_of_def booked_def zero_activity_def zero_leg_def)
qed

lemma example_quantity: "ledger_quantity example_calculator d iid = 0"
  by (simp add: ledger_quantity_def calc_events_def dated_legs_def example_calculator_def quantity_of_def zero_leg_def)

lemma example_flow: 
  assumes "d \<in> {739252, 739253}"
  shows "flow_value example_calculator d = Some 0"
proof -
  have "format_date 739252 \<noteq> ''2024-01-01''" "format_date 739253 \<noteq> ''2024-01-01''" by code_simp+
  with assms show ?thesis
    by (auto simp add: flow_value_def calc_events_def dated_legs_def example_calculator_def event_date_def
        legDate_def zero_activity_def zero_leg_def)
qed

lemma example_total:
  assumes "d \<in> {739252, 739253}"
  shows "total_value example_calculator d = Some 100"
proof -
  have b: "calc_base example_calculator = ''USD''" by (simp add: example_calculator_def)
  have f: "fxAt (format_date d) ''USD'' ''USD'' (calc_fx example_calculator) = Inr (Some (1, []))"
  proof -
    have "to_upper ''USD'' = ''USD''" by code_simp
    then show ?thesis by (simp add: fxAt_def)
  qed
  have "{k. ledger_cash example_calculator d k \<noteq> 0} = {''USD''}"
    using example_cash [OF assms] by auto
  then have "cash_value example_calculator d = Some 100"
    using example_cash [OF assms] f by (simp add: cash_value_def weigh_def rate_at_def b)
  moreover have "holdings_value example_calculator d = Some 0"
    by (simp add: holdings_value_def weigh_def example_quantity)
  ultimately show ?thesis by (simp add: total_value_def example_flow [OF assms])
qed

theorem calculate_matches_ledger_witness:
  "\<exists>s. calculate example_calculator = Inr s \<and> length (ser_points s) = 2 \<and>
    pt_cash_value (ser_points s ! 1) = map_option decimalPtr (cash_value example_calculator 739253)"
proof -
  obtain s where s: "calculate example_calculator = Inr s" using example_runs by blast
  with calculate_matches_ledger [OF s example_range(3,4)] show ?thesis
    by (simp add: example_range Let_def)
qed



theorem twr_compounds_witness:
  "\<exists>s. calculate example_calculator = Inr s \<and> pt_cumulative_twr (ser_points s ! 1) = Some (decimalPtr 0)"
proof -
  obtain s where s: "calculate example_calculator = Inr s" using example_runs by blast
  have l: "Suc 0 < length (ser_points (projr (calculate example_calculator)))" by code_simp
  have a: "complete_coverage example_calculator" "anc_date (calc_anchor example_calculator) = []"
    "anc_total_value (calc_anchor example_calculator) = None"
    "anc_cumulative_twr (calc_anchor example_calculator) = None"
    by (simp_all add: complete_coverage_def example_calculator_def)
  have d: "{calc_from example_calculator..calc_to example_calculator} = {739252, 739253}"
    by (auto simp: example_range)
  have V: "\<forall>k\<in>{calc_from example_calculator..calc_to example_calculator}.
      total_value example_calculator k = Some ((\<lambda>_. 100) k) \<and> (\<lambda>_. 100 :: rat) k \<noteq> 0"
    and F: "\<forall>k\<in>{calc_from example_calculator..calc_to example_calculator}. flow_or_zero example_calculator k = 0"
    by (simp_all add: d example_total flow_or_zero_def example_flow)
  have "1 < length (ser_points s)" using l s by simp
  from twr_compounds [OF s example_range(3,4) a V this] F
  have "pt_cumulative_twr (ser_points s ! 1) = Some (decimalPtr (100 / 100 - 1))" by blast
  with s show ?thesis by simp
qed

text \<open>a point never hides a gap: its value is null exactly when it lists a missing price or
  rate, and then (as under incomplete coverage) it is marked partial.\<close>

theorem gaps_are_reported:
  assumes "calculate c = Inr s" "four_digit (calc_from c)" "four_digit (calc_to c)" "i < length (ser_points s)"
  shows "(pt_total_value (ser_points s ! i) = None \<longleftrightarrow>
      pt_missing_prices (ser_points s ! i) \<noteq> [] \<or> pt_missing_fx (ser_points s ! i) \<noteq> [])
    \<and> (pt_total_value (ser_points s ! i) = None \<or> \<not> complete_coverage c
        \<longrightarrow> pt_quality (ser_points s ! i) = ''partial'')"
proof -
  obtain b factor available where
    b: "rfold (openingStep (format_date (calc_from c))) empty_book (sorted_activities c) = Inr b"
    and days: "calculateDays c (by_date c)
       \<lparr>ds_book = b, ds_prev_value = ratPtr (anc_total_value (calc_anchor c)),
        ds_twr_factor = factor, ds_twr_available = available,
        ds_first_point = (anc_date (calc_anchor c) = [])\<rparr> [calc_from c..calc_to c] = Inr (ser_points s)"
    using calculate_Inr [OF assms(1)] by metis
  have "point_values c (calc_from c + int i) (ser_points s ! i)"
    using calculateDays_points(2) [OF days _ assms(2,3) order_refl assms(4)] opening_book_at [OF b] by simp
  then show ?thesis by (auto simp: point_values_def)
qed

theorem gaps_are_reported_witness:
  "\<exists>s. calculate partial_example = Inr s \<and> pt_quality (ser_points s ! 1) = ''partial''"
proof -
  obtain s where s: "calculate partial_example = Inr s" using example_runs by blast
  have r: "four_digit (calc_from partial_example)" "four_digit (calc_to partial_example)"
    "\<not> complete_coverage partial_example" "Suc 0 < length (ser_points (projr (calculate partial_example)))"
    by code_simp+
  from gaps_are_reported [OF s r(1,2), of 1] r(3,4) s show ?thesis by auto
qed

section \<open>Prices and rates in force\<close>

lemma selectDate_spec:
  "(selectDate day dates = [] \<longleftrightarrow> (\<forall>d\<in>set dates. d \<le> day \<longrightarrow> d = [])) \<and>
   (selectDate day dates \<noteq> [] \<longrightarrow> selectDate day dates \<in> set dates \<and> selectDate day dates \<le> day
      \<and> (\<forall>d\<in>set dates. d \<le> day \<longrightarrow> d \<le> selectDate day dates))"
proof (induction dates rule: rev_induct)
  case Nil
  then show ?case by (simp add: selectDate_def)
next
  case (snoc x xs)
  have "selectDate day (xs @ [x]) =
      (if x \<le> day \<and> selectDate day xs < x then x else selectDate day xs)" by (simp add: selectDate_def)
  then consider "x \<le> day" "selectDate day xs < x" "selectDate day (xs @ [x]) = x"
    | "x \<le> day \<longrightarrow> x \<le> selectDate day xs" "selectDate day (xs @ [x]) = selectDate day xs"
    by (cases "x \<le> day \<and> selectDate day xs < x") (auto simp: not_less)
  then show ?case
  proof cases
    case 1
    have "x \<noteq> []" using 1(2) by auto
    moreover have "d \<le> x" if "d \<in> set xs" "d \<le> day" for d
      using snoc that 1(2) by (cases "selectDate day xs = []") (auto intro: order_trans less_imp_le)
    ultimately show ?thesis using 1 by auto
  next
    case 2
    have "x = []" if "x \<le> day" "selectDate day xs = []" using 2(1) that by simp
    then show ?thesis using 2 snoc by auto
  qed
qed

lemma staleDailyValue_False:
  "\<not> staleDailyValue day date \<longleftrightarrow>
     (\<exists>d k. parse_date day = Some d \<and> parse_date date = Some k \<and> d - k \<le> 7)"
  by (auto simp: staleDailyValue_def split: option.splits)

text \<open>a price used for a day is the latest observation not after the day, at most seven days
  old and not an explicit gap: an explicit gap or a stale observation is never replaced by an older
  price. The same holds of a conversion rate between different currencies.\<close>

theorem values_in_force:
  "(priceAt day iid prices = Inr (Some (v, src)) \<longrightarrow>
     (\<exists>date p d k. map_of (lookup_list prices iid) date = Some p \<and> \<not> px_missing p \<and> rational (px_value p) = Inr v
        \<and> src = px_source p \<and> parse_date day = Some d \<and> parse_date date = Some k \<and> k \<le> d \<and> d - k \<le> 7
        \<and> (\<forall>other\<in>set (map fst (lookup_list prices iid)). other \<le> day \<longrightarrow> other \<le> date)))
   \<and> (fxAt day frm to rates = Inr (Some (v, src)) \<and> to_upper frm \<noteq> to_upper to \<longrightarrow>
     (\<exists>date r d k. map_of (lookup_list rates \<lparr>pair_from = to_upper frm, pair_to = to_upper to\<rparr>) date = Some r
        \<and> rational (fx_value r) = Inr v \<and> src = fx_source r \<and> parse_date day = Some d \<and> parse_date date = Some k
        \<and> k \<le> d \<and> d - k \<le> 7 \<and> (\<forall>other\<in>set (map fst (lookup_list rates
            \<lparr>pair_from = to_upper frm, pair_to = to_upper to\<rparr>)). other \<le> day \<longrightarrow> other \<le> date)))"
  (is "(?p \<longrightarrow> ?P) \<and> (?f \<longrightarrow> ?F)")
proof (intro conjI impI)
  assume ?p
  let ?vs = "lookup_list prices iid"
  let ?d = "selectDate day (map fst ?vs)"
  from \<open>?p\<close> obtain p where p: "?d \<noteq> []" "map_of ?vs ?d = Some p" "\<not> px_missing p" "\<not> staleDailyValue day ?d"
    "parseRat (px_value p) = Inr v" "src = px_source p"
    by (auto simp: priceAt_def Let_def rbind_Inr_iff split: if_splits option.splits)
  obtain d k where d: "parse_date day = Some d" "parse_date ?d = Some k" "d - k \<le> 7"
    using p(4) unfolding staleDailyValue_False by blast
  note sel = selectDate_spec [of day "map fst ?vs", THEN conjunct2, rule_format, OF p(1)]
  have "k \<le> d" using parsed_le_iff [OF d(2,1)] sel by blast
  with p d sel show ?P unfolding parseRat_rational by blast
next
  assume f: ?f
  let ?vs = "lookup_list rates \<lparr>pair_from = to_upper frm, pair_to = to_upper to\<rparr>"
  let ?d = "selectDate day (map fst ?vs)"
  from f obtain r where r: "?d \<noteq> []" "map_of ?vs ?d = Some r" "\<not> staleDailyValue day ?d"
    "parseRat (fx_value r) = Inr v" "src = fx_source r"
    by (auto simp: fxAt_def Let_def rbind_Inr_iff split: if_splits option.splits)
  obtain d k where d: "parse_date day = Some d" "parse_date ?d = Some k" "d - k \<le> 7"
    using r(3) unfolding staleDailyValue_False by blast
  note sel = selectDate_spec [of day "map fst ?vs", THEN conjunct2, rule_format, OF r(1)]
  have "k \<le> d" using parsed_le_iff [OF d(2,1)] sel by blast
  with r d sel show ?F unfolding parseRat_rational by blast
qed

theorem values_in_force_witness:
  "\<exists>date p. map_of (lookup_list [(7, [(''2024-01-02'', \<lparr>px_date = ''2024-01-02'', px_value = ''12.5'',
      px_source = ''tiingo'', px_missing = False\<rparr>)])] (7 :: int)) date = Some p \<and> px_source p = ''tiingo''"
  (is "\<exists>date p. map_of (lookup_list ?ps _) date = _ \<and> _")
proof -
  have "priceAt ''2024-01-05'' 7 ?ps = Inr (Some (25 / 2, ''tiingo''))" by code_simp
  from values_in_force [of "''2024-01-05''" 7 ?ps "25 / 2" "''tiingo''" "[]" "[]" "[]",
      THEN conjunct1, THEN mp, OF this]
  show ?thesis by metis
qed

end
