(* ===== verification/Performance.thy ===== *)
theory Performance
  imports Calculator
begin

text \<open>
  The performance service: \<open>internal/performance/service.go\<close>, \<open>market_data.go\<close> and the rest of
  \<open>types.go\<close>. The repository and the valuation provider are interfaces in the code; here they are
  records of functions over a repository state, passed as parameters. The clock is a function of
  the reading (the first, second, \<dots> call of \<open>s.now\<close> in one request). Requests run one at a
  time: the per-account lock and the cache lock are not modelled.

  Shown: the coverage summary is sound and complete and its loop ends; the query normalisation; the
  transient cache returns what a calculation stored; the refresh timer; the inputs requested from
  the market data cover what the calculation looks up.
\<close>

section \<open>Data\<close>

abbreviation RetentionTransient :: string where "RetentionTransient \<equiv> ''transient''"
abbreviation RetentionLicensedPersistence :: string where
  "RetentionLicensedPersistence \<equiv> ''licensed_persistence''"

abbreviation ErrAccountNotFound :: string where "ErrAccountNotFound \<equiv> ''performance_account_not_found''"
abbreviation ErrInvalidRequest :: string where "ErrInvalidRequest \<equiv> ''invalid_performance_request''"

definition ParseRetentionMode :: "string \<Rightarrow> string result" where
  "ParseRetentionMode value =
     (let v = to_lower (trim_space value)
      in if v = [] \<or> v = RetentionTransient then Inr RetentionTransient
         else if v = RetentionLicensedPersistence then Inr RetentionLicensedPersistence
         else Inl ''unsupported performance retention mode'')"

record query =
  q_account_id :: int
  q_from :: string
  q_to :: string
  q_base_currency :: string

record 's repository =
  repo_load_input :: "'s \<Rightarrow> int \<Rightarrow> string \<Rightarrow> input result"
  repo_load_series :: "'s \<Rightarrow> query \<Rightarrow> string \<Rightarrow> series option result"
  repo_list_account_ids :: "'s \<Rightarrow> int list result"
  repo_dirty_from :: "'s \<Rightarrow> int \<Rightarrow> string result"
  repo_load_anchor :: "'s \<Rightarrow> int \<Rightarrow> string \<Rightarrow> string \<Rightarrow> anchor result"
  repo_replace_series :: "'s \<Rightarrow> series \<Rightarrow> string \<Rightarrow> bool \<Rightarrow> 's \<times> string option"

record valuation_provider =
  val_daily_prices :: "instrument list \<Rightarrow> day \<Rightarrow> day \<Rightarrow> (int \<times> price list) list result"
  val_daily_fx :: "fx_pair list \<Rightarrow> day \<Rightarrow> day \<Rightarrow> (fx_pair \<times> fx_rate list) list result"

record service =
  svc_mode :: string
  svc_cache :: "((int \<times> string) \<times> series) list"
  svc_cache_base :: "(int \<times> string) list"

definition New :: "string \<Rightarrow> service" where
  "New mode = \<lparr>svc_mode = (if mode = [] then RetentionTransient else mode), svc_cache = [], svc_cache_base = []\<rparr>"

section \<open>Requests\<close>

definition parseDateDefault :: "string \<Rightarrow> day \<Rightarrow> day option" where
  "parseDateDefault value fallback =
     (if trim_space value = [] then Some fallback else parse_date (trim_space value))"

definition normalizeReadQuery :: "instant \<Rightarrow> query \<Rightarrow> query result" where
  "normalizeReadQuery now q =
     (if q_account_id q \<le> 0 then Inl ErrInvalidRequest
      else let today = day_of now
      in case parseDateDefault (q_to q) today of
           None \<Rightarrow> Inl ErrInvalidRequest
         | Some to \<Rightarrow>
             if today < to then Inl ErrInvalidRequest
             else let q = q\<lparr>q_to := format_date to,
                            q_base_currency := to_upper (trim_space (q_base_currency q))\<rparr>
             in if q_base_currency q \<noteq> [] \<and> length (q_base_currency q) \<noteq> 3 then Inl ErrInvalidRequest
             else if trim_space (q_from q) \<noteq> [] then
               (case parse_date (trim_space (q_from q)) of
                  None \<Rightarrow> Inl ErrInvalidRequest
                | Some frm \<Rightarrow> if to < frm then Inl ErrInvalidRequest else Inr (q\<lparr>q_from := format_date frm\<rparr>))
             else Inr q)"

text \<open>01:15 UTC of today, or of tomorrow when that has passed.\<close>

definition nextDailyRefresh :: "instant \<Rightarrow> instant" where
  "nextDailyRefresh now =
     (let next = day_start (day_of now) + (3600 + 15 * 60) * ns_per_second
      in if \<not> now < next then next + ns_per_day else next)"

section \<open>The transient cache\<close>

definition lookup_int :: "(int \<times> string) list \<Rightarrow> int \<Rightarrow> string" where
  "lookup_int m k = (case map_of m k of None \<Rightarrow> [] | Some v \<Rightarrow> v)"

definition sliceSeries :: "series \<Rightarrow> string \<Rightarrow> string \<Rightarrow> series" where
  "sliceSeries s frm to =
     (let points = filter (\<lambda>p. (frm = [] \<or> frm \<le> pt_date p) \<and> (to = [] \<or> pt_date p \<le> to)) (ser_points s);
          s = s\<lparr>ser_points := points\<rparr>;
          s = (if frm \<noteq> [] then s\<lparr>ser_coverage := (ser_coverage s)\<lparr>cov_requested_from := frm\<rparr>\<rparr>
               else if points \<noteq> []
               then s\<lparr>ser_coverage := (ser_coverage s)\<lparr>cov_requested_from := pt_date (hd points)\<rparr>\<rparr>
               else s)
      in if to \<noteq> [] then s\<lparr>ser_coverage := (ser_coverage s)\<lparr>cov_requested_to := to\<rparr>\<rparr> else s)"

definition loadTransientSeries :: "service \<Rightarrow> query \<Rightarrow> series option" where
  "loadTransientSeries sv q =
     (let cached =
        (if q_base_currency q \<noteq> [] then map_of (svc_cache sv) (q_account_id q, q_base_currency q)
         else let base = lookup_int (svc_cache_base sv) (q_account_id q)
              in if base \<noteq> [] then map_of (svc_cache sv) (q_account_id q, base) else None)
      in case cached of
           None \<Rightarrow> None
         | Some s \<Rightarrow> if ser_points s = [] then None else Some (sliceSeries s (q_from q) (q_to q)))"

definition storeTransientSeries :: "series \<Rightarrow> string \<Rightarrow> bool \<Rightarrow> service \<Rightarrow> service" where
  "storeTransientSeries s frm defaultBase sv =
     (let key = (ser_account_id s, ser_base_currency s);
          s = (case map_of (svc_cache sv) key of
                 None \<Rightarrow> s
               | Some previous \<Rightarrow>
                   if ser_points previous \<noteq> [] \<and> frm \<noteq> []
                   then s\<lparr>ser_points := filter (\<lambda>p. pt_date p < frm) (ser_points previous) @ ser_points s\<rparr>
                   else s);
          sv = sv\<lparr>svc_cache := AList.update key s (svc_cache sv)\<rparr>
      in if defaultBase
         then sv\<lparr>svc_cache_base := AList.update (ser_account_id s) (ser_base_currency s) (svc_cache_base sv)\<rparr>
         else sv)"

section \<open>Coverage\<close>

definition usable :: "coverage_window \<Rightarrow> string \<Rightarrow> bool" where
  "usable w cursor \<longleftrightarrow> cw_from w \<le> cursor \<and> cursor \<le> cw_to w
     \<and> cw_fetch_status w = ''complete'' \<and> cw_normalize_status w = ''complete''"

text \<open>The inner loop: the furthest end of a usable window, and whether all of them are
  reconciled.\<close>

definition scanWindows :: "coverage_window list \<Rightarrow> string \<Rightarrow> bool \<Rightarrow> string \<times> bool" where
  "scanWindows windows cursor reconciled =
     foldl (\<lambda>(coveredTo, reconciled) w.
       if usable w cursor
       then (if coveredTo < cw_to w then cw_to w else coveredTo,
             if cw_reconcile_status w \<noteq> ''passed'' then False else reconciled)
       else (coveredTo, reconciled)) ([], reconciled) windows"

fun coverageLoop :: "nat \<Rightarrow> coverage_window list \<Rightarrow> string \<Rightarrow> string \<Rightarrow> bool \<Rightarrow> string option" where
  "coverageLoop 0 windows cursor to reconciled = None"
| "coverageLoop (Suc fuel) windows cursor to reconciled =
     (if \<not> cursor \<le> to then Some ''partial''
      else case scanWindows windows cursor reconciled of (coveredTo, reconciled) \<Rightarrow>
        if coveredTo = [] then Some ''partial''
        else if to \<le> coveredTo then Some (if reconciled then ''complete'' else ''normalized'')
        else case parse_date coveredTo of
            None \<Rightarrow> Some ''partial''
          | Some date \<Rightarrow> coverageLoop fuel windows (format_date (date + 1)) to reconciled)"

text \<open>Each pass of the loop that goes on ends at the end of another window: one pass per window and
  one more are enough (\<open>coverageLoop_enough\<close>).\<close>

definition summarizeCoverage :: "coverage_window list \<Rightarrow> string \<Rightarrow> string \<Rightarrow> string" where
  "summarizeCoverage windows frm to =
     (if windows = [] then ''unknown''
      else case coverageLoop (Suc (length windows)) windows frm to True of
          None \<Rightarrow> ''partial''
        | Some status \<Rightarrow> status)"

section \<open>What a calculation needs\<close>

definition activityDates :: "activity \<Rightarrow> string list" where
  "activityDates a =
     (let dates = filter (\<lambda>d. d \<noteq> []) (map (legDate a) (act_legs a))
      in if dates = [] then [activityDate a] else dates)"

definition inputActivityRange :: "activity list \<Rightarrow> string \<times> string" where
  "inputActivityRange activities =
     foldl (\<lambda>(frm, to) date.
       if date = [] then (frm, to)
       else (if frm = [] \<or> date < frm then date else frm, if to < date then date else to))
       ([], []) (concat (map activityDates activities))"

definition usedInstruments :: "input \<Rightarrow> instrument list" where
  "usedInstruments inp =
     (let ids = remdups (map leg_instrument_id
            (filter (\<lambda>l. leg_kind l = ''position'' \<and> leg_instrument_id l > 0)
              (concat (map act_legs (inp_activities inp)))))
      in sort_key ins_id (map (lookup_instrument (inp_instruments inp)) ids))"

definition addPair :: "string \<Rightarrow> fx_pair list \<Rightarrow> string \<Rightarrow> fx_pair list" where
  "addPair base pairs currency =
     (let cur = to_upper currency
      in if cur \<noteq> [] \<and> cur \<noteq> base then List.insert \<lparr>pair_from = cur, pair_to = base\<rparr> pairs else pairs)"

definition usedFXPairs :: "input \<Rightarrow> string \<Rightarrow> fx_pair list" where
  "usedFXPairs inp base =
     (let pairs = foldl (addPair base) [] (map (\<lambda>e. ins_currency (snd e)) (inp_instruments inp));
          pairs = foldl (addPair base) pairs
            (map leg_currency (filter (\<lambda>l. leg_kind l = ''cash'') (concat (map act_legs (inp_activities inp)))))
      in sort_key pair_from (sort_key pair_to pairs))"

definition indexPriceRows :: "price list \<Rightarrow> (string \<times> price) list result" where
  "indexPriceRows values = rfold (\<lambda>m v.
     if parse_date (px_date v) = None then Inl ''parsing time''
     else if \<not> px_missing v
     then rbind (parseRat (px_value v)) (\<lambda>_. Inr (AList.update (px_date v) v m))
     else Inr (AList.update (px_date v) v m)) [] values"

definition indexPrices :: "(int \<times> price list) list \<Rightarrow> price_index result" where
  "indexPrices rows = rfold (\<lambda>out e. rbind (indexPriceRows (snd e))
     (\<lambda>m. Inr (AList.update (fst e) m out))) [] rows"

definition indexFXRows :: "fx_rate list \<Rightarrow> (string \<times> fx_rate) list result" where
  "indexFXRows values = rfold (\<lambda>m v.
     if parse_date (fx_date v) = None then Inl ''parsing time''
     else rbind (parseRat (fx_value v)) (\<lambda>_. Inr (AList.update (fx_date v) v m))) [] values"

definition indexFX :: "(fx_pair \<times> fx_rate list) list \<Rightarrow> fx_index result" where
  "indexFX rows = rfold (\<lambda>out e. rbind (indexFXRows (snd e)) (\<lambda>m.
     Inr (AList.update \<lparr>pair_from = to_upper (pair_from (fst e)), pair_to = to_upper (pair_to (fst e))\<rparr> m out)))
     [] rows"

section \<open>The calculation of a request\<close>

text \<open>\<open>time.Time{}\<close>, what \<open>time.Parse\<close> returns beside an error.\<close>

definition zero_day :: day where
  "zero_day = day_number 1 1 1"

text \<open>The boundary a recalculation starts at: in licensed mode, the day from which stored rows are
  dirty, when it is earlier or asked for.\<close>

definition dirtyBoundary ::
  "'s repository \<Rightarrow> 's \<Rightarrow> string \<Rightarrow> int \<Rightarrow> bool \<Rightarrow> day \<Rightarrow> day result" where
  "dirtyBoundary repo st mode account useDirty frm =
     (if mode = RetentionLicensedPersistence then
        rbind (repo_dirty_from repo st account) (\<lambda>dirtyFrom.
          if dirtyFrom = [] then Inr frm
          else rbind (from_option ''parsing time'' (parse_date dirtyFrom)) (\<lambda>dirty.
            Inr (if useDirty \<or> dirty < frm then dirty else frm)))
      else Inr frm)"

definition empty_anchor :: anchor where
  "empty_anchor = \<lparr>anc_date = [], anc_total_value = None, anc_cumulative_twr = None\<rparr>"

definition prepare ::
  "'s repository \<Rightarrow> valuation_provider \<Rightarrow> 's \<Rightarrow> string \<Rightarrow> instant \<Rightarrow> query \<Rightarrow> bool \<Rightarrow> (calculator \<times> day) result" where
  "prepare repo vp st mode now q useDirty =
     rbind (require (q_account_id q > 0) ErrInvalidRequest) (\<lambda>_.
     rbind (from_option ErrInvalidRequest (parseDateDefault (q_to q) (day_of now))) (\<lambda>to.
     rbind (require (to \<le> day_of now) ErrInvalidRequest) (\<lambda>_.
     rbind (repo_load_input repo st (q_account_id q) (format_date to)) (\<lambda>inp.
     let base = to_upper (trim_space (q_base_currency q));
         base = (if base = [] then to_upper (trim_space (inp_base_currency inp)) else base)
     in rbind (require (length base = 3) ErrInvalidRequest) (\<lambda>_.
     let activityFrom = fst (inputActivityRange (inp_activities inp));
         activityTo = snd (inputActivityRange (inp_activities inp));
         defaultFrom = (if activityFrom \<noteq> []
           then (case parse_date activityFrom of Some d \<Rightarrow> d | None \<Rightarrow> zero_day) else to)
     in rbind (from_option ErrInvalidRequest (parseDateDefault (q_from q) defaultFrom)) (\<lambda>requestedFrom.
     rbind (require (requestedFrom \<le> to) ErrInvalidRequest) (\<lambda>_.
     rbind (dirtyBoundary repo st mode (q_account_id q) useDirty requestedFrom) (\<lambda>frm.
     rbind (if mode = RetentionLicensedPersistence
            then repo_load_anchor repo st (q_account_id q) (format_date frm) CalculationVersion
            else Inr empty_anchor) (\<lambda>anc.
     rbind (val_daily_prices vp (usedInstruments inp) (frm - 10) to) (\<lambda>priceRows.
     rbind (val_daily_fx vp (usedFXPairs inp base) (frm - 10) to) (\<lambda>fxRows.
     rbind (indexPrices priceRows) (\<lambda>prices.
     rbind (indexFX fxRows) (\<lambda>fx.
     Inr (\<lparr>calc_input = inp, calc_base = base, calc_from = frm, calc_to = to, calc_now = now,
            calc_prices = prices, calc_fx = fx, calc_anchor = anc,
            calc_coverage = \<lparr>
              cov_status = summarizeCoverage (inp_coverage inp) (format_date requestedFrom) (format_date to),
              cov_requested_from = format_date requestedFrom, cov_requested_to = format_date to,
              cov_activity_from = activityFrom, cov_activity_to = activityTo,
              cov_activity_windows = inp_coverage inp, cov_recalculated_from = format_date frm\<rparr>\<rparr>,
          requestedFrom))))))))))))))"

definition dropBefore :: "day \<Rightarrow> day \<Rightarrow> series \<Rightarrow> series" where
  "dropBefore frm requestedFrom s =
     (if frm < requestedFrom
      then s\<lparr>ser_points := filter (\<lambda>p. format_date requestedFrom \<le> pt_date p) (ser_points s)\<rparr> else s)"

definition calculateRequest ::
  "'s repository \<Rightarrow> valuation_provider \<Rightarrow> instant \<Rightarrow> query \<Rightarrow> bool \<Rightarrow> 's \<times> service \<Rightarrow> ('s \<times> service) \<times> series result" where
  "calculateRequest repo vp now q useDirty world =
     (case world of (st, sv) \<Rightarrow>
      case rbind (prepare repo vp st (svc_mode sv) now q useDirty) (\<lambda>(c, requestedFrom).
             rbind (calculate c) (\<lambda>s. Inr (c, requestedFrom, s\<lparr>ser_retention_mode := svc_mode sv\<rparr>))) of
        Inl e \<Rightarrow> (world, Inl e)
      | Inr (c, requestedFrom, s) \<Rightarrow>
          if svc_mode sv = RetentionLicensedPersistence then
            (let clearDirty = (day_of now \<le> calc_to c)
             in case repo_replace_series repo st s (format_date (calc_from c)) clearDirty of
                  (st', Some e) \<Rightarrow> ((st', sv), Inl e)
                | (st', None) \<Rightarrow> ((st', sv), Inr (dropBefore (calc_from c) requestedFrom s)))
          else
            ((st, storeTransientSeries s (format_date (calc_from c)) (trim_space (q_base_currency q) = []) sv),
             Inr (dropBefore (calc_from c) requestedFrom s)))"

definition Recalculate ::
  "'s repository \<Rightarrow> valuation_provider \<Rightarrow> instant \<Rightarrow> query \<Rightarrow> 's \<times> service \<Rightarrow> ('s \<times> service) \<times> series result" where
  "Recalculate repo vp now q world = calculateRequest repo vp now q True world"

definition Calculate ::
  "'s repository \<Rightarrow> valuation_provider \<Rightarrow> (nat \<Rightarrow> instant) \<Rightarrow> query \<Rightarrow> 's \<times> service \<Rightarrow> ('s \<times> service) \<times> series result" where
  "Calculate repo vp clock q0 world =
     (case normalizeReadQuery (clock 0) q0 of
        Inl e \<Rightarrow> (world, Inl e)
      | Inr q \<Rightarrow>
          if svc_mode (snd world) = RetentionLicensedPersistence then
            (case repo_dirty_from repo (fst world) (q_account_id q) of
               Inl e \<Rightarrow> (world, Inl e)
             | Inr dirtyFrom \<Rightarrow>
                 (let (world, err) = (if dirtyFrom \<noteq> []
                        then (case calculateRequest repo vp (clock 1) q True world of
                                (world, Inl e) \<Rightarrow> (world, Some e) | (world, Inr _) \<Rightarrow> (world, None))
                        else (world, None))
                  in case err of
                       Some e \<Rightarrow> (world, Inl e)
                     | None \<Rightarrow>
                      (case repo_load_series repo (fst world) q CalculationVersion of
                         Inl e \<Rightarrow> (world, Inl e)
                       | Inr (Some s) \<Rightarrow> (world, Inr (s\<lparr>ser_retention_mode := svc_mode (snd world)\<rparr>))
                       | Inr None \<Rightarrow> calculateRequest repo vp (clock 2) q False world)))
          else (case loadTransientSeries (snd world) q of
              Some s \<Rightarrow> (world, Inr s)
            | None \<Rightarrow> calculateRequest repo vp (clock 1) q False world))"

text \<open>Accounts are refreshed in order, each positive account once; an error does not stop the
  rest.\<close>

fun refreshEach ::
  "'s repository \<Rightarrow> valuation_provider \<Rightarrow> (int \<Rightarrow> instant) \<Rightarrow> string \<Rightarrow> int list \<Rightarrow> int list \<Rightarrow> 's \<times> service
     \<Rightarrow> ('s \<times> service) \<times> (int \<times> string) list" where
  "refreshEach repo vp clock frm seen [] world = (world, [])"
| "refreshEach repo vp clock frm seen (a # as) world =
     (if a \<le> 0 \<or> a \<in> set seen then refreshEach repo vp clock frm seen as world
      else case Recalculate repo vp (clock a) \<lparr>q_account_id = a, q_from = frm, q_to = [], q_base_currency = []\<rparr> world of
          (world', r) \<Rightarrow>
            (case refreshEach repo vp clock frm (a # seen) as world' of
               (world'', errs) \<Rightarrow> (world'', (case r of Inl e \<Rightarrow> (a, e) # errs | Inr _ \<Rightarrow> errs))))"

definition RefreshAccounts ::
  "'s repository \<Rightarrow> valuation_provider \<Rightarrow> (int \<Rightarrow> instant) \<Rightarrow> int list \<Rightarrow> string \<Rightarrow> 's \<times> service
     \<Rightarrow> ('s \<times> service) \<times> (int \<times> string) list" where
  "RefreshAccounts repo vp clock accounts frm world = refreshEach repo vp clock frm [] accounts world"

section \<open>Market data\<close>

definition periodFor :: "day \<Rightarrow> day \<Rightarrow> string" where
  "periodFor frm to =
     (let days = to - frm + 1
      in if days \<le> 31 then ''1m'' else if days \<le> 93 then ''3m'' else if days \<le> 186 then ''6m''
         else if days \<le> 366 then ''1y'' else if days \<le> 730 then ''2y'' else if days \<le> 1826 then ''5y''
         else ''max'')"

fun upsertPrice :: "price list \<Rightarrow> price \<Rightarrow> price list" where
  "upsertPrice [] v = [v]"
| "upsertPrice (r # rows) v = (if px_date r = px_date v then v # rows else r # upsertPrice rows v)"

text \<open>The market-data policy is an interface; its quotes carry floating-point numbers of type
  \<open>'f\<close>, of which the code uses the sign and the shortest decimal text
  (\<open>strconv.FormatFloat(x, 'f', -1, 64)\<close>).\<close>

record 'f candle =
  cnd_time :: int
  cnd_close :: 'f

record 'f market_policy =
  mkt_history :: "string \<Rightarrow> string \<Rightarrow> string \<Rightarrow> ('f candle list \<times> string) option"
  mkt_quote :: "string \<Rightarrow> int \<Rightarrow> ('f \<times> string) option"
  mkt_positive :: "'f \<Rightarrow> bool"
  mkt_text :: "'f \<Rightarrow> string"

definition candle_instant :: "'f candle \<Rightarrow> instant" where
  "candle_instant r = cnd_time r * ns_per_second"

definition append_row :: "'k \<Rightarrow> 'v \<Rightarrow> ('k \<times> 'v list) list \<Rightarrow> ('k \<times> 'v list) list" where
  "append_row k v m = AList.update k (lookup_list m k @ [v]) m"

definition instrumentPrices ::
  "'f market_policy \<Rightarrow> string \<Rightarrow> string \<Rightarrow> day \<Rightarrow> day \<Rightarrow> instrument \<Rightarrow> (int \<times> price list) list \<Rightarrow> (int \<times> price list) list" where
  "instrumentPrices mk today period frm to ins out =
     (let symbol = trim_space (ins_symbol ins)
      in if symbol = [] then out
      else let out = (case mkt_history mk symbol period ''auto'' of
            None \<Rightarrow> out
          | Some (candles, source) \<Rightarrow> foldl (\<lambda>out r.
              let date = candle_instant r; text = format_date (day_of date)
              in if today \<le> text \<or> date < day_start frm \<or> day_start (to + 1) < date \<or> \<not> mkt_positive mk (cnd_close r)
                 then out
                 else append_row (ins_id ins)
                   \<lparr>px_date = text, px_value = mkt_text mk (cnd_close r), px_source = source, px_missing = False\<rparr> out)
              out candles)
      in if today \<le> format_date to
         then (let row = (case mkt_quote mk symbol (ins_connection_id ins) of
                 Some (px, source) \<Rightarrow>
                   if mkt_positive mk px
                   then \<lparr>px_date = today, px_value = mkt_text mk px, px_source = source, px_missing = False\<rparr>
                   else \<lparr>px_date = today, px_value = [], px_source = [], px_missing = True\<rparr>
               | None \<Rightarrow> \<lparr>px_date = today, px_value = [], px_source = [], px_missing = True\<rparr>)
               in AList.update (ins_id ins) (upsertPrice (lookup_list out (ins_id ins)) row) out)
         else out)"

definition DailyPrices ::
  "'f market_policy \<Rightarrow> instant \<Rightarrow> instrument list \<Rightarrow> day \<Rightarrow> day \<Rightarrow> (int \<times> price list) list" where
  "DailyPrices mk now instruments frm to =
     foldl (\<lambda>out ins. instrumentPrices mk (format_date (day_of now)) (periodFor frm to) frm to ins out) [] instruments"

definition pairRates ::
  "'f market_policy \<Rightarrow> string \<Rightarrow> day \<Rightarrow> day \<Rightarrow> fx_pair \<Rightarrow> (fx_pair \<times> fx_rate list) list \<Rightarrow> (fx_pair \<times> fx_rate list) list" where
  "pairRates mk period frm to pr out =
     (let symbol = to_upper (pair_from pr) @ to_upper (pair_to pr) @ ''=X''
      in case mkt_history mk symbol period ''yahoo'' of
           None \<Rightarrow> out
         | Some (candles, source) \<Rightarrow> foldl (\<lambda>out r.
             let date = candle_instant r
             in if date < day_start frm \<or> day_start (to + 1) < date \<or> \<not> mkt_positive mk (cnd_close r) then out
                else append_row pr
                  \<lparr>fx_date = format_date (day_of date), fx_from = pair_from pr, fx_to = pair_to pr,
                   fx_value = mkt_text mk (cnd_close r), fx_source = source\<rparr> out) out candles)"

definition DailyFX ::
  "'f market_policy \<Rightarrow> fx_pair list \<Rightarrow> day \<Rightarrow> day \<Rightarrow> (fx_pair \<times> fx_rate list) list" where
  "DailyFX mk pairs frm to = foldl (\<lambda>out pr. pairRates mk (periodFor frm to) frm to pr out) [] pairs"


section \<open>The coverage summary\<close>

definition covered :: "coverage_window list \<Rightarrow> day \<Rightarrow> bool" where
  "covered windows d \<longleftrightarrow> (\<exists>w\<in>set windows. usable w (format_date d))"

definition reconciled_on :: "coverage_window list \<Rightarrow> day \<Rightarrow> bool" where
  "reconciled_on windows d \<longleftrightarrow>
     (\<exists>w\<in>set windows. usable w (format_date d) \<and> cw_reconcile_status w = ''passed'')"

definition dated_windows :: "coverage_window list \<Rightarrow> bool" where
  "dated_windows windows \<longleftrightarrow> (\<forall>w\<in>set windows. parse_date (cw_from w) \<noteq> None \<and> parse_date (cw_to w) \<noteq> None)"

lemma scanWindows_spec:
  assumes "\<forall>w\<in>set windows. cw_to w \<noteq> []"
  shows "(fst (scanWindows windows cur rc) = [] \<longleftrightarrow> (\<forall>w\<in>set windows. \<not> usable w cur)) \<and>
    (\<forall>w\<in>set windows. usable w cur \<longrightarrow> cw_to w \<le> fst (scanWindows windows cur rc)) \<and>
    (fst (scanWindows windows cur rc) \<noteq> [] \<longrightarrow>
       (\<exists>w\<in>set windows. usable w cur \<and> cw_to w = fst (scanWindows windows cur rc))) \<and>
    (snd (scanWindows windows cur rc) \<longleftrightarrow> rc \<and> (\<forall>w\<in>set windows. usable w cur \<longrightarrow> cw_reconcile_status w = ''passed''))"
  using assms
proof (induction windows rule: rev_induct)
  case Nil
  then show ?case by (simp add: scanWindows_def)
next
  case (snoc w ws)
  obtain t r where tr: "scanWindows ws cur rc = (t, r)" by fastforce
  have e: "scanWindows (ws @ [w]) cur rc =
      (if usable w cur then (if t < cw_to w then cw_to w else t,
         if cw_reconcile_status w \<noteq> ''passed'' then False else r) else (t, r))"
    using tr by (simp add: scanWindows_def)
  show ?case
  proof (cases "usable w cur")
    case False
    then show ?thesis using snoc tr e by auto
  next
    case True
    show ?thesis
    proof (cases "t < cw_to w")
      case lt: True
      have "\<forall>v\<in>set ws. usable v cur \<longrightarrow> cw_to v \<le> cw_to w" using snoc tr lt by (auto intro: order_trans less_imp_le)
      then show ?thesis using True lt snoc tr e by auto
    next
      case False
      then have "t \<noteq> []" "cw_to w \<le> t" using snoc.prems by (auto simp: not_less)
      then show ?thesis using True False snoc tr e by auto
    qed
  qed
qed

lemma usable_interval:
  assumes "usable w (format_date k)" "parse_date (cw_to w) = Some e" "four_digit k" "k \<le> d" "d \<le> e"
  shows "usable w (format_date d)"
proof -
  have e: "cw_to w = format_date e" "four_digit e" using format_parse_date [OF assms(2)] by auto
  have d: "four_digit d" using four_digit_between [OF assms(3) e(2)] assms(4,5) by blast
  have "format_date k \<le> format_date d" "format_date d \<le> format_date e"
    using format_date_less_iff [OF d assms(3)] format_date_less_iff [OF e(2) d] assms(4,5)
    by (auto simp: not_less [symmetric])
  then show ?thesis using assms(1) e(1) by (auto simp: usable_def intro: order_trans)
qed

lemma split_days: "k \<le> e + 1 \<Longrightarrow> e \<le> b \<Longrightarrow> {k..b} = {k..e} \<union> {e + 1..(b :: day)}"
  by auto

text \<open>What the loop has found when it stops.\<close>

definition verdict :: "coverage_window list \<Rightarrow> day \<Rightarrow> day \<Rightarrow> bool \<Rightarrow> string \<Rightarrow> bool" where
  "verdict windows k b rc s \<longleftrightarrow> s \<in> {''partial'', ''complete'', ''normalized''}
     \<and> (s \<noteq> ''partial'' \<longleftrightarrow> (\<forall>d\<in>{k..b}. covered windows d))
     \<and> (s = ''complete'' \<longrightarrow> rc \<and> (\<forall>d\<in>{k..b}. reconciled_on windows d))
     \<and> (rc \<and> (\<forall>d\<in>{k..b}. covered windows d) \<and>
          (\<forall>w\<in>set windows. \<forall>d\<in>{k..b}. usable w (format_date d) \<longrightarrow> cw_reconcile_status w = ''passed'')
          \<longrightarrow> s = ''complete'')"

lemma verdict_step:
  assumes w: "w \<in> set windows" "usable w (format_date k)" "parse_date (cw_to w) = Some e" "four_digit k"
    and ke: "k \<le> e" "e < b"
    and rest: "verdict windows (e + 1) b rc' s"
    and rc': "rc' \<longleftrightarrow> rc \<and> (\<forall>w\<in>set windows. usable w (format_date k) \<longrightarrow> cw_reconcile_status w = ''passed'')"
  shows "verdict windows k b rc s"
proof -
  have u: "usable w (format_date d)" if "d \<in> {k..e}" for d
    using usable_interval [OF w(2-4)] that by auto
  then have c: "covered windows d" if "d \<in> {k..e}" for d using w(1) that by (auto simp: covered_def)
  have r: "reconciled_on windows d" if "rc'" "d \<in> {k..e}" for d
    using u [OF that(2)] w(1,2) rc' that(1) by (auto simp: reconciled_on_def)
  have "{k..b} = {k..e} \<union> {e + 1..b}" using ke by (intro split_days) auto
  then have dom: "(\<forall>d\<in>{k..b}. P d) \<longleftrightarrow> (\<forall>d\<in>{k..e}. P d) \<and> (\<forall>d\<in>{e + 1..b}. P d)" for P by auto
  have "k \<in> {k..e}" using ke(1) by simp
  then have all: "rc'" if "rc" "\<forall>w\<in>set windows. \<forall>d\<in>{k..e}. usable w (format_date d) \<longrightarrow> cw_reconcile_status w = ''passed''"
    using that rc' by blast
  have cs: "\<forall>d\<in>{k..e}. covered windows d" using c by blast
  note v = rest [unfolded verdict_def]
  show ?thesis unfolding verdict_def dom
  proof (intro conjI)
    show "s \<in> {''partial'', ''complete'', ''normalized''}" using v by (elim conjE)
    show "(s \<noteq> ''partial'') = ((\<forall>d\<in>{k..e}. covered windows d) \<and> (\<forall>d\<in>{e + 1..b}. covered windows d))"
      using v cs by (elim conjE) simp
    show "s = ''complete'' \<longrightarrow>
        rc \<and> (\<forall>d\<in>{k..e}. reconciled_on windows d) \<and> (\<forall>d\<in>{e + 1..b}. reconciled_on windows d)"
    proof
      assume "s = ''complete''"
      with v have "rc'" "\<forall>d\<in>{e + 1..b}. reconciled_on windows d" by (elim conjE, simp)+
      with r rc' show "rc \<and> (\<forall>d\<in>{k..e}. reconciled_on windows d) \<and> (\<forall>d\<in>{e + 1..b}. reconciled_on windows d)"
        by blast
    qed
    show "rc \<and> ((\<forall>d\<in>{k..e}. covered windows d) \<and> (\<forall>d\<in>{e + 1..b}. covered windows d)) \<and>
        (\<forall>w\<in>set windows. (\<forall>d\<in>{k..e}. usable w (format_date d) \<longrightarrow> cw_reconcile_status w = ''passed'') \<and>
          (\<forall>d\<in>{e + 1..b}. usable w (format_date d) \<longrightarrow> cw_reconcile_status w = ''passed'')) \<longrightarrow> s = ''complete''"
      using v all by (elim conjE) simp
  qed
qed

lemma verdict_stop:
  assumes w: "w \<in> set windows" "usable w (format_date k)" "parse_date (cw_to w) = Some e" "four_digit k"
    and ke: "k \<le> b" "b \<le> e"
    and rc': "rc' \<longleftrightarrow> rc \<and> (\<forall>w\<in>set windows. usable w (format_date k) \<longrightarrow> cw_reconcile_status w = ''passed'')"
  shows "verdict windows k b rc (if rc' then ''complete'' else ''normalized'')"
proof -
  have u: "usable w (format_date d)" if "d \<in> {k..b}" for d
    using usable_interval [OF w(2-4)] that ke by auto
  then have c: "covered windows d" if "d \<in> {k..b}" for d using w(1) that by (auto simp: covered_def)
  have r: "reconciled_on windows d" if "rc'" "d \<in> {k..b}" for d
    using u [OF that(2)] w(1,2) rc' that(1) by (auto simp: reconciled_on_def)
  have "k \<in> {k..b}" using ke(1) by simp
  then have "rc \<and> (\<forall>w\<in>set windows. \<forall>d\<in>{k..b}. usable w (format_date d) \<longrightarrow> cw_reconcile_status w = ''passed'')
      \<Longrightarrow> rc'" using rc' by blast
  then show ?thesis using c r rc' unfolding verdict_def by (cases rc') auto
qed

lemma filter_shrinks:
  assumes "\<And>v. Q v \<Longrightarrow> P v" "x \<in> set xs" "P x" "\<not> Q x"
  shows "length (filter Q xs) < length (filter P xs)"
proof -
  have "filter Q xs = filter Q (filter P xs)" using assms(1) by (auto intro: filter_cong)
  moreover have "x \<in> set (filter P xs)" using assms by simp
  ultimately show ?thesis using assms(4) by (metis length_filter_less)
qed

lemma coverageLoop_verdict:
  assumes "dated_windows windows" "parse_date to = Some b" "four_digit k" "k \<le> b"
    and "length (filter (\<lambda>w. format_date k \<le> cw_to w) windows) < fuel"
  shows "\<exists>s. coverageLoop fuel windows (format_date k) to rc = Some s \<and> verdict windows k b rc s"
  using assms(3-)
proof (induction fuel arbitrary: k rc)
  case 0
  then show ?case by simp
next
  case (Suc fuel)
  let ?cur = "format_date k"
  have b: "to = format_date b" "four_digit b" using format_parse_date [OF assms(2)] by auto
  have cur: "?cur \<le> to" using format_date_less_iff [OF b(2) Suc.prems(1)] Suc.prems(2) b(1)
    by (simp add: not_less [symmetric])
  have ne: "\<forall>w\<in>set windows. cw_to w \<noteq> []"
    using assms(1) parsed_nonempty by (auto simp: dated_windows_def)
  obtain t r where tr: "scanWindows windows ?cur rc = (t, r)" by fastforce
  note sc = scanWindows_spec [OF ne, of ?cur rc, unfolded tr fst_conv snd_conv]
  show ?case
  proof (cases "t = []")
    case True
    then have "\<not> covered windows k" using sc by (auto simp: covered_def)
    then have "verdict windows k b rc ''partial''" using Suc.prems(2) by (auto simp: verdict_def)
    then show ?thesis using True tr cur by simp
  next
    case False
    then obtain w where w: "w \<in> set windows" "usable w ?cur" "cw_to w = t" using sc by blast
    then obtain e where e: "parse_date (cw_to w) = Some e" using assms(1) by (auto simp: dated_windows_def)
    then have e': "t = format_date e" "four_digit e" using format_parse_date [OF e] w(3) by auto
    have ke: "k \<le> e"
      using w(2) e' w(3) format_date_less_iff [OF e'(2) Suc.prems(1)] by (auto simp: usable_def not_less [symmetric])
    have r: "r \<longleftrightarrow> rc \<and> (\<forall>w\<in>set windows. usable w ?cur \<longrightarrow> cw_reconcile_status w = ''passed'')" using sc by blast
    show ?thesis
    proof (cases "b \<le> e")
      case True
      then have "to \<le> t" using format_date_less_iff [OF e'(2) b(2)] e'(1) b(1) by (simp add: not_less [symmetric])
      then show ?thesis
        using verdict_stop [OF w(1,2) e Suc.prems(1,2) True r] False tr cur by simp
    next
      case go: False
      then have "\<not> to \<le> t" using format_date_less_iff [OF e'(2) b(2)] e'(1) b(1) by (simp add: not_le)
      moreover have p: "parse_date t = Some e" using e w(3) by simp
      moreover have e1: "four_digit (e + 1)" using four_digit_between [OF e'(2) b(2)] go by simp
      have "length (filter (\<lambda>w. format_date (e + 1) \<le> cw_to w) windows)
          < length (filter (\<lambda>w. ?cur \<le> cw_to w) windows)"
      proof (rule filter_shrinks [OF _ w(1)])
        show "?cur \<le> cw_to v" if "format_date (e + 1) \<le> cw_to v" for v
          using that format_date_less_iff [OF Suc.prems(1) e1] ke by (auto intro: order_trans less_imp_le)
        show "?cur \<le> cw_to w" using w(2) by (simp add: usable_def)
        show "\<not> format_date (e + 1) \<le> cw_to w"
          using format_date_less_iff [OF e'(2) e1] w(3) e'(1) by (simp add: not_le)
      qed
      then have "length (filter (\<lambda>w. format_date (e + 1) \<le> cw_to w) windows) < fuel" using Suc.prems(3) by simp
      then obtain s where s: "coverageLoop fuel windows (format_date (e + 1)) to r = Some s"
        "verdict windows (e + 1) b r s"
        using Suc.IH [OF e1, of r] go by auto
      then have "verdict windows k b rc s"
        using verdict_step [OF w(1,2) e Suc.prems(1) ke _ s(2) r] go by simp
      ultimately show ?thesis using s(1) False tr cur by simp
    qed
  qed
qed


text \<open>C8: on dated windows the coverage summary is exact and the loop always ends: the range is
  complete or normalized exactly when every one of its days lies in a fetched and normalized window;
  complete implies that every day lies in a reconciled one, and holds when all windows that touch the
  range are reconciled.\<close>

theorem summarize_coverage_exact:
  assumes "windows \<noteq> []" "dated_windows windows" "parse_date frm = Some a" "parse_date to = Some b" "a \<le> b"
  shows "coverageLoop (Suc (length windows)) windows frm to True = Some (summarizeCoverage windows frm to)
    \<and> (summarizeCoverage windows frm to \<noteq> ''partial'' \<longleftrightarrow> (\<forall>d\<in>{a..b}. covered windows d))
    \<and> (summarizeCoverage windows frm to = ''complete'' \<longrightarrow> (\<forall>d\<in>{a..b}. reconciled_on windows d))
    \<and> ((\<forall>d\<in>{a..b}. covered windows d) \<and> (\<forall>w\<in>set windows. \<forall>d\<in>{a..b}.
          usable w (format_date d) \<longrightarrow> cw_reconcile_status w = ''passed'')
        \<longrightarrow> summarizeCoverage windows frm to = ''complete'')"
proof -
  have a: "frm = format_date a" "four_digit a" using format_parse_date [OF assms(3)] by auto
  have "length (filter (\<lambda>w. format_date a \<le> cw_to w) windows) < Suc (length windows)"
    by (simp add: less_Suc_eq_le)
  from coverageLoop_verdict [OF assms(2,4) a(2) assms(5) this, of True]
  obtain s where s: "coverageLoop (Suc (length windows)) windows frm to True = Some s" "verdict windows a b True s"
    unfolding a(1) by blast
  then have e: "summarizeCoverage windows frm to = s" using assms(1) by (simp add: summarizeCoverage_def)
  show ?thesis unfolding e using s unfolding verdict_def by (elim conjE) simp
qed

theorem summarize_coverage_exact_witness:
  "list_all (reconciled_on
     [\<lparr>cw_source = ''flex'', cw_from = ''2024-01-01'', cw_to = ''2024-01-03'', cw_fetch_status = ''complete'',
       cw_normalize_status = ''complete'', cw_reconcile_status = ''passed''\<rparr>,
      \<lparr>cw_source = ''flex'', cw_from = ''2024-01-03'', cw_to = ''2024-01-09'', cw_fetch_status = ''complete'',
       cw_normalize_status = ''complete'', cw_reconcile_status = ''passed''\<rparr>]) [739252, 739253, 739254]"
  (is "list_all (reconciled_on ?ws) _")
proof -
  have "dated_windows ?ws" "parse_date ''2024-01-02'' = Some 739252" "parse_date ''2024-01-04'' = Some 739254"
    and s: "summarizeCoverage ?ws ''2024-01-02'' ''2024-01-04'' = ''complete''" by code_simp+
  from summarize_coverage_exact [OF _ this(1-3)] s show ?thesis by simp
qed

section \<open>Requests\<close>

text \<open>A normalised query: a positive account, a real last day not in the future, a real first day
  not after it (or none), and an upper-case currency of three letters (or none).\<close>

definition query_ok :: "instant \<Rightarrow> query \<Rightarrow> bool" where
  "query_ok now q \<longleftrightarrow> 0 < q_account_id q \<and>
     (\<exists>to. parse_date (q_to q) = Some to \<and> to \<le> day_of now \<and>
        (trim_space (q_from q) = [] \<or> (\<exists>frm. parse_date (q_from q) = Some frm \<and> frm \<le> to))) \<and>
     (q_base_currency q = [] \<or> length (q_base_currency q) = 3) \<and> to_upper (q_base_currency q) = q_base_currency q"

lemma trim_date: "parse_date s = Some d \<Longrightarrow> trim_space s = s"
  using format_parse_date [of s d] format_date_printable(1) [of d] by auto

lemma parseDateDefault_Some:
  assumes "parseDateDefault s d = Some k" "four_digit d"
  shows "parse_date (format_date k) = Some k"
  using assms parse_format_date format_parse_date
  by (auto simp: parseDateDefault_def split: if_splits)

lemma normalizeReadQuery_Inr:
  "normalizeReadQuery now q = Inr q' \<longleftrightarrow> 0 < q_account_id q \<and>
     (\<exists>to. parseDateDefault (q_to q) (day_of now) = Some to \<and> to \<le> day_of now \<and>
        (to_upper (trim_space (q_base_currency q)) = [] \<or> length (to_upper (trim_space (q_base_currency q))) = 3) \<and>
        (let n = q\<lparr>q_to := format_date to, q_base_currency := to_upper (trim_space (q_base_currency q))\<rparr>
         in if trim_space (q_from q) = [] then q' = n
            else (\<exists>frm. parse_date (trim_space (q_from q)) = Some frm \<and> frm \<le> to \<and> q' = n\<lparr>q_from := format_date frm\<rparr>)))"
  by (auto simp: normalizeReadQuery_def Let_def not_less split: option.splits if_splits)

lemma printable_to_upper: "list_all printable s \<Longrightarrow> list_all printable (to_upper s)"
proof -
  have "printable (upper_char c)" if "printable c" for c
    using that by (auto simp: printable_def upper_char_def)
  then show "list_all printable s \<Longrightarrow> list_all printable (to_upper s)"
    by (auto simp: to_upper_def list_all_iff)
qed

lemma day_of_offset: "0 \<le> k \<Longrightarrow> k < ns_per_day \<Longrightarrow> day_of (day_start e + k) = e"
  by (simp add: day_of_def day_start_def div_pos_pos_trivial)

text \<open>a normalised read query is well formed, and normalising it again at the same time gives it
  back: the later stages see one spelling of every request.\<close>

theorem normalize_read_query_sound:
  assumes "normalizeReadQuery now q = Inr q'" "four_digit (day_of now)"
    and "list_all printable (trim_space (q_base_currency q))"
  shows "query_ok now q' \<and> normalizeReadQuery now q' = Inr q'"
proof -
  from assms(1) obtain to where acc: "0 < q_account_id q"
    and to: "parseDateDefault (q_to q) (day_of now) = Some to" "to \<le> day_of now"
    and base: "to_upper (trim_space (q_base_currency q)) = [] \<or> length (to_upper (trim_space (q_base_currency q))) = 3"
    and q': "let n = q\<lparr>q_to := format_date to, q_base_currency := to_upper (trim_space (q_base_currency q))\<rparr>
         in if trim_space (q_from q) = [] then q' = n
            else (\<exists>frm. parse_date (trim_space (q_from q)) = Some frm \<and> frm \<le> to \<and> q' = n\<lparr>q_from := format_date frm\<rparr>)"
    unfolding normalizeReadQuery_Inr by blast
  have t: "parse_date (format_date to) = Some to" by (rule parseDateDefault_Some [OF to(1) assms(2)])
  have b: "trim_space (to_upper (trim_space (q_base_currency q))) = to_upper (trim_space (q_base_currency q))"
    by (rule trim_space_printable) (rule printable_to_upper [OF assms(3)])
  have d: "parseDateDefault (format_date to) (day_of now) = Some to"
    using t trim_date [OF t] by (simp add: parseDateDefault_def)
  show ?thesis
  proof (cases "trim_space (q_from q) = []")
    case True
    then have e: "q' = q\<lparr>q_to := format_date to, q_base_currency := to_upper (trim_space (q_base_currency q))\<rparr>"
      using q' by (simp add: Let_def)
    show ?thesis using acc to(2) base True t b d
      by (auto simp: e query_ok_def normalizeReadQuery_Inr)
  next
    case False
    then obtain frm where f: "parse_date (trim_space (q_from q)) = Some frm" "frm \<le> to"
      and e: "q' = q\<lparr>q_to := format_date to, q_base_currency := to_upper (trim_space (q_base_currency q)),
        q_from := format_date frm\<rparr>" using q' by (auto simp: Let_def)
    have g: "parse_date (format_date frm) = Some frm" using format_parse_date [OF f(1)] f(1) by simp
    show ?thesis using acc to(2) base f(2) t b d g trim_date [OF g]
      by (auto simp: e query_ok_def normalizeReadQuery_Inr)
  qed
qed

theorem normalize_read_query_sound_witness:
  "\<exists>q'. normalizeReadQuery (86400 * 1000000000 * 19800)
     \<lparr>q_account_id = 4, q_from = '' 2024-01-02'', q_to = [], q_base_currency = ''usd ''\<rparr> = Inr q'
   \<and> query_ok (86400 * 1000000000 * 19800) q' \<and> q_base_currency q' = ''USD'' \<and> q_to q' = ''2024-03-18''"
  (is "\<exists>q'. normalizeReadQuery ?t ?q = _ \<and> _")
proof -
  have n: "normalizeReadQuery ?t ?q = Inr \<lparr>q_account_id = 4, q_from = ''2024-01-02'', q_to = ''2024-03-18'',
      q_base_currency = ''USD''\<rparr>" and h: "four_digit (day_of ?t)"
    "list_all printable (trim_space (q_base_currency ?q))" by code_simp+
  from normalize_read_query_sound [OF n h] n show ?thesis by simp
qed

text \<open>The background refresh is always scheduled for the next 01:15 UTC: strictly in the future
  and never more than a day ahead.\<close>

theorem next_daily_refresh_spec:
  "now < nextDailyRefresh now \<and> nextDailyRefresh now \<le> now + ns_per_day \<and>
   (nextDailyRefresh now - day_start (day_of (nextDailyRefresh now))) = 4500 * ns_per_second"
proof -
  let ?n = "day_start (day_of now) + 4500 * ns_per_second"
  have k: "0 \<le> 4500 * ns_per_second" "4500 * ns_per_second < ns_per_day"
    by (simp_all add: ns_per_day_def ns_per_second_def)
  note d = day_start_day_of [of now]
  have "day_start (day_of now + 1) = day_start (day_of now) + ns_per_day"
    by (simp add: day_start_def algebra_simps)
  then have n: "nextDailyRefresh now = (if now < ?n then ?n else day_start (day_of now + 1) + 4500 * ns_per_second)"
    by (simp add: nextDailyRefresh_def Let_def)
  have off: "day_of (day_start e + 4500 * ns_per_second) = e" for e
    by (rule day_of_offset [OF k])
  show ?thesis
  proof (cases "now < ?n")
    case True
    then show ?thesis using n d k off by simp
  next
    case False
    then have eq: "nextDailyRefresh now = day_start (day_of now + 1) + 4500 * ns_per_second" using n by simp
    show ?thesis unfolding eq off using False d k \<open>day_start (day_of now + 1) = _\<close> by simp
  qed
qed


section \<open>The transient cache\<close>

lemma calculate_series:
  assumes "calculate c = Inr s"
  shows "ser_account_id s = inp_account_id (calc_input c)" "ser_base_currency s = calc_base c"
    "ser_coverage s = calc_coverage c"
  using assms by (auto simp: calculate_def Let_def rbind_Inr_iff)

lemma calculate_dates:
  assumes "calculate c = Inr s" "four_digit (calc_from c)" "four_digit (calc_to c)" "p \<in> set (ser_points s)"
  shows "\<exists>d\<in>{calc_from c..calc_to c}. pt_date p = format_date d"
proof -
  obtain b factor available where
    b: "rfold (openingStep (format_date (calc_from c))) empty_book (sorted_activities c) = Inr b"
    and days: "calculateDays c (by_date c)
       \<lparr>ds_book = b, ds_prev_value = ratPtr (anc_total_value (calc_anchor c)),
        ds_twr_factor = factor, ds_twr_available = available,
        ds_first_point = (anc_date (calc_anchor c) = [])\<rparr> [calc_from c..calc_to c] = Inr (ser_points s)"
    using calculate_Inr [OF assms(1)] by metis
  have bk: "book_at c (calc_from c - 1) b" by (rule opening_book_at [OF b])
  obtain i where i: "i < length (ser_points s)" "p = ser_points s ! i" using assms(4) by (auto simp: in_set_conv_nth)
  note pts = calculateDays_points [OF days _ assms(2,3) order_refl]
  have "pt_date p = format_date (calc_from c + int i)" using pts(2) [of i] bk i by (simp add: point_values_def)
  moreover have "int i \<le> calc_to c - calc_from c" using pts(1) bk i(1) by simp
  ultimately show ?thesis by (intro bexI [of _ "calc_from c + int i"]) auto
qed

lemma calculate_length:
  assumes "calculate c = Inr s" "four_digit (calc_from c)" "four_digit (calc_to c)"
  shows "length (ser_points s) = nat (calc_to c + 1 - calc_from c)"
proof -
  obtain b factor available where
    b: "rfold (openingStep (format_date (calc_from c))) empty_book (sorted_activities c) = Inr b"
    and days: "calculateDays c (by_date c)
       \<lparr>ds_book = b, ds_prev_value = ratPtr (anc_total_value (calc_anchor c)),
        ds_twr_factor = factor, ds_twr_available = available,
        ds_first_point = (anc_date (calc_anchor c) = [])\<rparr> [calc_from c..calc_to c] = Inr (ser_points s)"
    using calculate_Inr [OF assms(1)] by metis
  show ?thesis
    using calculateDays_points(1) [OF days _ assms(2,3) order_refl] opening_book_at [OF b] by simp
qed

lemma date_order: "four_digit a \<Longrightarrow> four_digit b \<Longrightarrow> a \<le> d \<Longrightarrow> d \<le> b \<Longrightarrow>
    format_date a \<le> format_date d \<and> format_date d \<le> format_date b"
  using format_date_less_iff four_digit_between by (metis linorder_not_le)

lemma RetentionTransient_neq: "RetentionTransient \<noteq> RetentionLicensedPersistence"
  by simp

lemma store_load_transient:
  assumes "ser_points s \<noteq> []" "frm \<noteq> []" "to \<noteq> []" "\<forall>p\<in>set (ser_points s). frm \<le> pt_date p \<and> pt_date p \<le> to"
    and "q_account_id q = ser_account_id s" "q_from q = frm" "q_to q = to"
    and "q_base_currency q = ser_base_currency s \<and> ser_base_currency s \<noteq> [] \<or>
      q_base_currency q = [] \<and> db \<and> ser_base_currency s \<noteq> []"
  shows "\<exists>r. loadTransientSeries (storeTransientSeries s frm db sv) q = Some r \<and> ser_points r = ser_points s"
proof -
  define s' where "s' = (case map_of (svc_cache sv) (ser_account_id s, ser_base_currency s) of
      None \<Rightarrow> s
    | Some previous \<Rightarrow>
        if ser_points previous \<noteq> [] \<and> frm \<noteq> []
        then s\<lparr>ser_points := filter (\<lambda>p. pt_date p < frm) (ser_points previous) @ ser_points s\<rparr> else s)"
  obtain old where old: "ser_points s' = filter (\<lambda>p. pt_date p < frm) old @ ser_points s"
  proof (cases "\<exists>previous. map_of (svc_cache sv) (ser_account_id s, ser_base_currency s) = Some previous
      \<and> ser_points previous \<noteq> []")
    case True
    with assms(2) that show thesis by (auto simp: s'_def)
  next
    case False
    then have "s' = s" by (auto simp: s'_def split: option.splits)
    with that [of "[]"] show thesis by simp
  qed
  have id: "ser_account_id s' = ser_account_id s" "ser_base_currency s' = ser_base_currency s"
    unfolding s'_def by (auto split: option.splits)
  have cache: "map_of (svc_cache (storeTransientSeries s frm db sv)) (ser_account_id s, ser_base_currency s) = Some s'"
    "db \<Longrightarrow> lookup_int (svc_cache_base (storeTransientSeries s frm db sv)) (ser_account_id s) = ser_base_currency s"
    unfolding storeTransientSeries_def Let_def s'_def [symmetric] by (simp_all add: id lookup_int_def)
  have "loadTransientSeries (storeTransientSeries s frm db sv) q = Some (sliceSeries s' frm to)"
    using assms old cache by (auto simp: loadTransientSeries_def Let_def)
  moreover have "ser_points (sliceSeries s' frm to) = ser_points s"
  proof -
    have "filter (\<lambda>p. frm \<le> pt_date p \<and> pt_date p \<le> to) (filter (\<lambda>p. pt_date p < frm) old) = []"
      by (auto simp: filter_empty_conv)
    moreover have "filter (\<lambda>p. frm \<le> pt_date p \<and> pt_date p \<le> to) (ser_points s) = ser_points s"
      using assms(4) by simp
    ultimately show ?thesis using assms(2,3) old by (simp add: sliceSeries_def Let_def)
  qed
  ultimately show ?thesis by blast
qed

lemma parseDateDefault_four_digit:
  "parseDateDefault s d = Some k \<Longrightarrow> four_digit d \<Longrightarrow> four_digit k"
  using format_parse_date by (auto simp: parseDateDefault_def split: if_splits)

lemma dirtyBoundary_Inr:
  assumes "dirtyBoundary repo st mode a useDirty frm = Inr k" "four_digit frm"
  shows "four_digit k" "mode \<noteq> RetentionLicensedPersistence \<Longrightarrow> k = frm"
  using assms format_parse_date
  by (auto simp: dirtyBoundary_def rbind_Inr_iff split: if_splits)

lemma prepare_Inr:
  assumes "prepare repo vp st mode now q useDirty = Inr (c, requestedFrom)" "four_digit (day_of now)"
  obtains inp where "repo_load_input repo st (q_account_id q) (format_date (calc_to c)) = Inr inp"
    "calc_input c = inp" "calc_base c = (let base = to_upper (trim_space (q_base_currency q))
        in if base = [] then to_upper (trim_space (inp_base_currency inp)) else base)"
    "length (calc_base c) = 3" "requestedFrom \<le> calc_to c" "four_digit (calc_to c)" "four_digit (calc_from c)"
    "mode \<noteq> RetentionLicensedPersistence \<Longrightarrow> calc_from c = requestedFrom"
    "cov_status (calc_coverage c) =
       summarizeCoverage (inp_coverage inp) (format_date requestedFrom) (format_date (calc_to c))"
    "cov_requested_from (calc_coverage c) = format_date requestedFrom"
    "cov_requested_to (calc_coverage c) = format_date (calc_to c)"
    "\<exists>rows. indexPrices rows = Inr (calc_prices c)" "\<exists>rows. indexFX rows = Inr (calc_fx c)"
proof -
  obtain to inp base frm priceRows fxRows prices fx defaultFrom af where
    to: "parseDateDefault (q_to q) (day_of now) = Some to"
    and inp: "repo_load_input repo st (q_account_id q) (format_date to) = Inr inp"
    and base: "base = (let base = to_upper (trim_space (q_base_currency q))
        in if base = [] then to_upper (trim_space (inp_base_currency inp)) else base)" "length base = 3"
    and df: "defaultFrom = (if af \<noteq> [] then (case parse_date af of Some d \<Rightarrow> d | None \<Rightarrow> zero_day) else to)"
    and rf: "parseDateDefault (q_from q) defaultFrom = Some requestedFrom" "requestedFrom \<le> to"
    and frm: "dirtyBoundary repo st mode (q_account_id q) useDirty requestedFrom = Inr frm"
    and ix: "indexPrices priceRows = Inr prices" "indexFX fxRows = Inr fx"
    and c: "calc_input c = inp" "calc_base c = base" "calc_from c = frm" "calc_to c = to"
      "calc_prices c = prices" "calc_fx c = fx" "cov_status (calc_coverage c) =
         summarizeCoverage (inp_coverage inp) (format_date requestedFrom) (format_date to)"
      "cov_requested_from (calc_coverage c) = format_date requestedFrom"
      "cov_requested_to (calc_coverage c) = format_date to"
    using assms(1) unfolding prepare_def Let_def rbind_Inr_iff require_Inr from_option_Inr
    by auto
  have "four_digit to" by (rule parseDateDefault_four_digit [OF to assms(2)])
  moreover have "four_digit zero_day" by code_simp
  ultimately have "four_digit defaultFrom"
    using format_parse_date [of af] by (auto simp: df split: option.splits)
  then have "four_digit requestedFrom" by (rule parseDateDefault_four_digit [OF rf(1)])
  note dirtyBoundary_Inr [OF frm this]
  with that \<open>four_digit to\<close> inp base rf(2) ix c show thesis by simp blast
qed


text \<open>in transient mode a calculation leaves the repository alone and the series it returns is
  the one the next read of the same account, currency and range gets from the cache. The repository
  is assumed to return the input of the account it was asked for.\<close>

theorem transient_roundtrip:
  fixes repo :: "'s repository"
  assumes req: "calculateRequest repo vp now q useDirty (st, sv) = ((st', sv'), Inr s)"
    and mode: "svc_mode sv = RetentionTransient" and now: "four_digit (day_of now)"
    and repo: "\<And>d inp. repo_load_input repo st (q_account_id q) d = Inr inp \<Longrightarrow> inp_account_id inp = q_account_id q"
  shows "st' = st \<and> ser_points s \<noteq> [] \<and>
    (\<exists>r. loadTransientSeries sv' (q\<lparr>q_from := cov_requested_from (ser_coverage s),
           q_to := cov_requested_to (ser_coverage s), q_base_currency := ser_base_currency s\<rparr>) = Some r
       \<and> ser_points r = ser_points s)"
proof -
  obtain c rf s0 where p: "prepare repo vp st (svc_mode sv) now q useDirty = Inr (c, rf)" and c: "calculate c = Inr s0"
    using req by (auto simp: calculateRequest_def rbind_def split: sum.splits)
  define s1 where "s1 = s0\<lparr>ser_retention_mode := svc_mode sv\<rparr>"
  have eff: "st' = st" "s = dropBefore (calc_from c) rf s1"
    "sv' = storeTransientSeries s1 (format_date (calc_from c)) (trim_space (q_base_currency q) = []) sv"
    using req p c by (simp_all add: calculateRequest_def mode s1_def)
  obtain inp where i: "repo_load_input repo st (q_account_id q) (format_date (calc_to c)) = Inr inp"
    "calc_input c = inp" and b: "length (calc_base c) = 3" and r: "rf \<le> calc_to c" "calc_from c = rf"
    and f: "four_digit (calc_to c)" "four_digit (calc_from c)"
    and cov: "cov_requested_from (calc_coverage c) = format_date rf" "cov_requested_to (calc_coverage c) = format_date (calc_to c)"
    using prepare_Inr [OF p now] mode by (metis RetentionTransient_neq)
  note cs = calculate_series [OF c]
  have s: "s = s1" using eff(2) r by (simp add: dropBefore_def)
  have s1: "ser_points s1 = ser_points s0" "ser_account_id s1 = q_account_id q" "ser_base_currency s1 = calc_base c"
    "ser_coverage s1 = calc_coverage c"
    using cs i repo by (simp_all add: s1_def)
  have "length (ser_points s0) \<noteq> 0" using calculate_length [OF c f(2,1)] r by simp
  then have ne: "ser_points s1 \<noteq> []" using s1(1) by auto
  have dates: "\<forall>p\<in>set (ser_points s0). format_date rf \<le> pt_date p \<and> pt_date p \<le> format_date (calc_to c)"
  proof
    fix p assume "p \<in> set (ser_points s0)"
    from calculate_dates [OF c f(2,1) this] obtain d where d: "calc_from c \<le> d" "d \<le> calc_to c" "pt_date p = format_date d"
      by auto
    then show "format_date rf \<le> pt_date p \<and> pt_date p \<le> format_date (calc_to c)"
      using date_order [OF f(2,1) d(1,2)] r(2) by simp
  qed
  have "\<exists>r. loadTransientSeries (storeTransientSeries s1 (format_date (calc_from c)) (trim_space (q_base_currency q) = []) sv)
      (q\<lparr>q_from := cov_requested_from (ser_coverage s), q_to := cov_requested_to (ser_coverage s),
        q_base_currency := ser_base_currency s\<rparr>) = Some r \<and> ser_points r = ser_points s1"
    by (rule store_load_transient [where to = "format_date (calc_to c)"])
      (use ne dates s1 s cov r b in auto)
  then show ?thesis using eff s ne by simp
qed


text \<open>A repository and a provider for a concrete run: one account, no market data.\<close>

definition example_repository :: "unit repository" where
  "example_repository = \<lparr>repo_load_input = (\<lambda>_ a _. Inr ((calc_input example_calculator)\<lparr>inp_account_id := a\<rparr>)),
     repo_load_series = (\<lambda>_ _ _. Inr None), repo_list_account_ids = (\<lambda>_. Inr [7]),
     repo_dirty_from = (\<lambda>_ _. Inr []), repo_load_anchor = (\<lambda>_ _ _ _. Inr empty_anchor),
     repo_replace_series = (\<lambda>_ _ _ _. ((), None))\<rparr>"

definition example_provider :: valuation_provider where
  "example_provider = \<lparr>val_daily_prices = (\<lambda>_ _ _. Inr []), val_daily_fx = (\<lambda>_ _ _. Inr [])\<rparr>"

lemma rbind_weak_cong: "r = r' \<Longrightarrow> rbind r f = rbind r' f" by simp
definition example_request :: calculator where
  "example_request = example_calculator\<lparr>calc_to := 739252, calc_now := 86400 * 1000000000 * 19724,
     calc_coverage := \<lparr>cov_status = ''unknown'', cov_requested_from = ''2024-01-02'', cov_requested_to = ''2024-01-02'',
       cov_activity_from = ''2024-01-01'', cov_activity_to = ''2024-01-01'', cov_activity_windows = [],
       cov_recalculated_from = ''2024-01-02''\<rparr>\<rparr>"
lemma example_request_runs: "\<exists>s. calculate example_request = Inr s"
  by (rule Inr_of_not_isl) code_simp
theorem transient_roundtrip_witness:
  "\<exists>st' sv' s r. calculateRequest example_repository example_provider (86400 * 1000000000 * 19724)
      \<lparr>q_account_id = 7, q_from = ''2024-01-02'', q_to = ''2024-01-02'', q_base_currency = ''usd''\<rparr> False
      ((), New []) = ((st', sv'), Inr s)
    \<and> loadTransientSeries sv' \<lparr>q_account_id = 7, q_from = cov_requested_from (ser_coverage s),
        q_to = cov_requested_to (ser_coverage s), q_base_currency = ser_base_currency s\<rparr> = Some r
    \<and> ser_points r = ser_points s"
  (is "\<exists>st' sv' s r. calculateRequest _ _ ?t ?q _ _ = _ \<and> _")
proof -
  define t :: int where "t = ?t"
  have dates: "parseDateDefault ''2024-01-02'' (day_of ?t) = Some 739252" "739252 \<le> day_of ?t"
    "format_date 739252 = ''2024-01-02''" "to_upper (trim_space ''usd'') = ''USD''"
    "inputActivityRange (inp_activities (calc_input example_calculator)) = (''2024-01-01'', ''2024-01-01'')"
    "parse_date ''2024-01-01'' = Some 739251" "parseDateDefault ''2024-01-02'' 739251 = Some 739252"
    and t: "four_digit (day_of ?t)" by code_simp+
  have i: "(calc_input example_calculator)\<lparr>inp_account_id := 7\<rparr> = calc_input example_calculator"
    "inp_coverage (calc_input example_calculator) = []"
    by (simp_all add: example_calculator_def)
  have p: "prepare example_repository example_provider () (svc_mode (New [])) t ?q False = Inr (example_request, 739252)"
    using dates unfolding t_def [symmetric]
    by (simp add: prepare_def New_def example_repository_def example_provider_def require_def from_option_def Let_def i
        dirtyBoundary_def indexPrices_def indexFX_def summarizeCoverage_def example_request_def t_def empty_anchor_def
        cong: rbind_weak_cong) (simp add: example_calculator_def)
  obtain s0 where s0: "calculate example_request = Inr s0" using example_request_runs by blast
  have m: "svc_mode (New []) = RetentionTransient" by (simp add: New_def)
  obtain st' sv' s where r: "calculateRequest example_repository example_provider t ?q False ((), New []) = ((st', sv'), Inr s)"
    using p s0 m by (simp add: calculateRequest_def)
  have a: "repo_load_input example_repository () (q_account_id ?q) d = Inr inp \<Longrightarrow> inp_account_id inp = q_account_id ?q"
    for d inp by (auto simp: example_repository_def)
  from transient_roundtrip [OF r m _ a] t r show ?thesis unfolding t_def by auto
qed

section \<open>Indexed prices and rates never fail\<close>

lemma map_of_update_values:
  assumes "rfold f m0 xs = Inr m" "\<forall>k v. map_of m0 k = Some v \<longrightarrow> P v"
    and "\<And>m x m'. x \<in> set xs \<Longrightarrow> f m x = Inr m' \<Longrightarrow> \<exists>k v. m' = AList.update k v m \<and> P v"
  shows "\<forall>k v. map_of m k = Some v \<longrightarrow> P v"
  using assms(1)
proof (rule rfold_invariant)
  show "\<forall>k v. map_of m0 k = Some v \<longrightarrow> P v" by (rule assms(2))
next
  fix a x a' assume "x \<in> set xs" "\<forall>k v. map_of a k = Some v \<longrightarrow> P v" "f a x = Inr a'"
  with assms(3) [of x a a'] show "\<forall>k v. map_of a' k = Some v \<longrightarrow> P v" by (auto split: if_splits)
qed

definition price_ok :: "price \<Rightarrow> bool" where
  "price_ok p \<longleftrightarrow> px_missing p \<or> (\<exists>x. parseRat (px_value p) = Inr x)"

definition rate_ok :: "fx_rate \<Rightarrow> bool" where
  "rate_ok r \<longleftrightarrow> (\<exists>x. parseRat (fx_value r) = Inr x)"

lemma indexPriceRows_ok:
  assumes "indexPriceRows values = Inr m"
  shows "\<forall>d p. map_of m d = Some p \<longrightarrow> price_ok p"
  by (rule map_of_update_values [OF assms [unfolded indexPriceRows_def]])
    (auto simp: price_ok_def rbind_Inr_iff split: if_splits)

lemma indexFXRows_ok:
  assumes "indexFXRows values = Inr m"
  shows "\<forall>d r. map_of m d = Some r \<longrightarrow> rate_ok r"
  by (rule map_of_update_values [OF assms [unfolded indexFXRows_def]])
    (auto simp: rate_ok_def rbind_Inr_iff split: if_splits)

lemma indexPrices_ok:
  assumes "indexPrices rows = Inr ix" "map_of (lookup_list ix iid) d = Some p"
  shows "price_ok p"
proof -
  have "\<forall>k m. map_of ix k = Some m \<longrightarrow> (\<forall>d p. map_of m d = Some p \<longrightarrow> price_ok p)"
    by (rule map_of_update_values [OF assms(1) [unfolded indexPrices_def]])
      (simp, simp add: rbind_Inr_iff, metis indexPriceRows_ok)
  then show ?thesis using assms(2) by (auto simp: lookup_list_def split: option.splits)
qed

lemma indexFX_ok:
  assumes "indexFX rows = Inr ix" "map_of (lookup_list ix pr) d = Some r"
  shows "rate_ok r"
proof -
  have "\<forall>k m. map_of ix k = Some m \<longrightarrow> (\<forall>d r. map_of m d = Some r \<longrightarrow> rate_ok r)"
    by (rule map_of_update_values [OF assms(1) [unfolded indexFX_def]])
      (simp, simp add: rbind_Inr_iff, metis indexFXRows_ok)
  then show ?thesis using assms(2) by (auto simp: lookup_list_def split: option.splits)
qed

text \<open>prices and rates are checked once, when they are indexed: looking one up in an accepted
  index never fails with an error, whatever the day, instrument or currency.\<close>

theorem indexed_lookups_total:
  assumes "indexPrices priceRows = Inr prices" "indexFX fxRows = Inr fx"
  shows "(\<exists>found. priceAt day iid prices = Inr found) \<and> (\<exists>found. fxAt day frm to fx = Inr found)"
proof
  let ?vs = "lookup_list prices iid"
  show "\<exists>found. priceAt day iid prices = Inr found"
  proof (cases "map_of ?vs (selectDate day (map fst ?vs))")
    case (Some p)
    with indexPrices_ok [OF assms(1)] have "price_ok p" by blast
    with Some show ?thesis by (auto simp: priceAt_def Let_def price_ok_def)
  qed (simp add: priceAt_def Let_def)
next
  let ?vs = "lookup_list fx \<lparr>pair_from = to_upper frm, pair_to = to_upper to\<rparr>"
  show "\<exists>found. fxAt day frm to fx = Inr found"
  proof (cases "map_of ?vs (selectDate day (map fst ?vs))")
    case (Some r)
    with indexFX_ok [OF assms(2)] have "rate_ok r" by blast
    with Some show ?thesis by (auto simp: fxAt_def Let_def rate_ok_def)
  qed (simp add: fxAt_def Let_def)
qed

theorem indexed_lookups_total_witness:
  "\<exists>found. priceAt ''2024-01-05'' 7 [(7, [(''2024-01-04'', \<lparr>px_date = ''2024-01-04'', px_value = ''1.5'',
     px_source = ''tiingo'', px_missing = False\<rparr>)])] = Inr found"
proof -
  have "indexPrices [(7, [\<lparr>px_date = ''2024-01-04'', px_value = ''1.5'', px_source = ''tiingo'', px_missing = False\<rparr>])] =
      Inr [(7, [(''2024-01-04'', \<lparr>px_date = ''2024-01-04'', px_value = ''1.5'', px_source = ''tiingo'', px_missing = False\<rparr>)])]"
    and "indexFX [] = Inr []" by code_simp+
  from indexed_lookups_total [OF this] show ?thesis by blast
qed


section \<open>What is asked of the market\<close>

lemma addPair_set:
  "set (foldl (addPair base) pairs curs) = set pairs \<union>
     {pr. \<exists>cur\<in>set curs. to_upper cur \<noteq> [] \<and> to_upper cur \<noteq> base \<and> pr = \<lparr>pair_from = to_upper cur, pair_to = base\<rparr>}"
  by (induction curs arbitrary: pairs) (auto simp: addPair_def Let_def)

lemma addPair_distinct: "distinct pairs \<Longrightarrow> distinct (foldl (addPair base) pairs curs)"
  by (induction curs arbitrary: pairs) (auto simp: addPair_def Let_def)

text \<open>The currencies and instruments a calculation may have to value.\<close>

definition needed_currencies :: "input \<Rightarrow> string set" where
  "needed_currencies inp = (\<lambda>e. ins_currency (snd e)) ` set (inp_instruments inp) \<union>
     leg_currency ` {l. leg_kind l = ''cash'' \<and> (\<exists>a\<in>set (inp_activities inp). l \<in> set (act_legs a))}"

text \<open>the market data requested for a calculation are exactly what it can look up: one pair into
  the base currency for each other currency of an instrument or a cash leg, without repetition, and
  the instrument of every position leg.\<close>

theorem requested_market_data:
  "set (usedFXPairs inp base) = {\<lparr>pair_from = to_upper cur, pair_to = base\<rparr> |cur.
      cur \<in> needed_currencies inp \<and> to_upper cur \<noteq> [] \<and> to_upper cur \<noteq> base}
   \<and> distinct (usedFXPairs inp base)
   \<and> set (usedInstruments inp) = {lookup_instrument (inp_instruments inp) (leg_instrument_id l) |a l.
      a \<in> set (inp_activities inp) \<and> l \<in> set (act_legs a) \<and> leg_kind l = ''position'' \<and> 0 < leg_instrument_id l}
   \<and> sorted (map ins_id (usedInstruments inp))"
proof (intro conjI)
  show "set (usedFXPairs inp base) = {\<lparr>pair_from = to_upper cur, pair_to = base\<rparr> |cur.
      cur \<in> needed_currencies inp \<and> to_upper cur \<noteq> [] \<and> to_upper cur \<noteq> base}"
    unfolding usedFXPairs_def Let_def set_sort addPair_set needed_currencies_def by auto
  show "distinct (usedFXPairs inp base)"
    by (simp add: usedFXPairs_def Let_def addPair_distinct)
  show "set (usedInstruments inp) = {lookup_instrument (inp_instruments inp) (leg_instrument_id l) |a l.
      a \<in> set (inp_activities inp) \<and> l \<in> set (act_legs a) \<and> leg_kind l = ''position'' \<and> 0 < leg_instrument_id l}"
    by (auto simp: usedInstruments_def Let_def)
  show "sorted (map ins_id (usedInstruments inp))" by (simp add: usedInstruments_def Let_def)
qed

section \<open>Today's price\<close>

lemma upsertPrice_mem: "v \<in> set (upsertPrice rows v)"
  by (induction rows) auto

lemma upsertPrice_date:
  assumes "r \<in> set (upsertPrice rows v)" "px_date r = px_date v" "\<forall>x\<in>set rows. px_date x \<noteq> px_date v"
  shows "r = v"
  using assms by (induction rows) (auto split: if_splits)

lemma lookup_list_update:
  "lookup_list (AList.update k vs m) j = (if j = k then vs else lookup_list m j)"
  by (simp add: lookup_list_def)

text \<open>Rows that hold an explicit gap for a day and nothing else for it.\<close>

definition masked :: "string \<Rightarrow> price list \<Rightarrow> bool" where
  "masked today rows \<longleftrightarrow> (\<exists>r\<in>set rows. px_date r = today) \<and> (\<forall>r\<in>set rows. px_date r = today \<longrightarrow> px_missing r)"

definition no_quote :: "'f market_policy \<Rightarrow> instrument \<Rightarrow> bool" where
  "no_quote mk ins \<longleftrightarrow> (case mkt_quote mk (trim_space (ins_symbol ins)) (ins_connection_id ins) of
     None \<Rightarrow> True | Some (px, _) \<Rightarrow> \<not> mkt_positive mk px)"

definition historyStep ::
  "'f market_policy \<Rightarrow> string \<Rightarrow> day \<Rightarrow> day \<Rightarrow> int \<Rightarrow> string \<Rightarrow> (int \<times> price list) list \<Rightarrow> 'f candle \<Rightarrow> (int \<times> price list) list" where
  "historyStep mk today frm to iid source = (\<lambda>out r.
     let date = candle_instant r; text = format_date (day_of date)
     in if today \<le> text \<or> date < day_start frm \<or> day_start (to + 1) < date \<or> \<not> mkt_positive mk (cnd_close r)
        then out
        else append_row iid
          \<lparr>px_date = text, px_value = mkt_text mk (cnd_close r), px_source = source, px_missing = False\<rparr> out)"

lemma foldl_invariant: "P a \<Longrightarrow> (\<And>a x. P a \<Longrightarrow> P (f a x)) \<Longrightarrow> P (foldl f a xs)"
  by (induction xs arbitrary: a) simp_all

lemma historyStep_step:
  "j \<noteq> iid \<Longrightarrow> lookup_list (historyStep mk today frm to iid source out x) j = lookup_list out j"
  "distinct (map fst out) \<Longrightarrow> distinct (map fst (historyStep mk today frm to iid source out x))"
  "\<forall>r\<in>set (lookup_list out iid). px_date r \<noteq> today \<Longrightarrow>
     \<forall>r\<in>set (lookup_list (historyStep mk today frm to iid source out x) iid). px_date r \<noteq> today"
  by (auto simp: historyStep_def Let_def append_row_def lookup_list_update distinct_keys_update)

lemma historySteps:
  fixes mk :: "'f market_policy" and cs :: "'f candle list" and today source :: string and frm to :: day
    and iid :: int and out :: "(int \<times> price list) list"
  defines "out' \<equiv> foldl (historyStep mk today frm to iid source) out cs"
  shows "j \<noteq> iid \<Longrightarrow> lookup_list out' j = lookup_list out j"
    and "distinct (map fst out) \<Longrightarrow> distinct (map fst out')"
    and "\<forall>r\<in>set (lookup_list out iid). px_date r \<noteq> today \<Longrightarrow> \<forall>r\<in>set (lookup_list out' iid). px_date r \<noteq> today"
proof -
  show "j \<noteq> iid \<Longrightarrow> lookup_list out' j = lookup_list out j"
    unfolding out'_def by (rule foldl_keeps [where g = "\<lambda>m. lookup_list m j"]) (rule historyStep_step(1))
  show "distinct (map fst out) \<Longrightarrow> distinct (map fst out')"
    unfolding out'_def by (erule foldl_invariant [where P = "\<lambda>m. distinct (map fst m)"])
      (rule historyStep_step(2))
  show "\<forall>r\<in>set (lookup_list out iid). px_date r \<noteq> today \<Longrightarrow> \<forall>r\<in>set (lookup_list out' iid). px_date r \<noteq> today"
    unfolding out'_def
    by (erule foldl_invariant [where P = "\<lambda>m. \<forall>r\<in>set (lookup_list m iid). px_date r \<noteq> today"])
      (rule historyStep_step(3))
qed

lemma instrumentPrices_lookup:
  fixes mk :: "'f market_policy" and today period :: string and frm to :: day and ins :: instrument
    and out :: "(int \<times> price list) list"
  defines "out' \<equiv> instrumentPrices mk today period frm to ins out"
  shows "j \<noteq> ins_id ins \<Longrightarrow> lookup_list out' j = lookup_list out j"
    and "distinct (map fst out) \<Longrightarrow> distinct (map fst out')"
    and "lookup_list out (ins_id ins) = [] \<Longrightarrow> trim_space (ins_symbol ins) \<noteq> [] \<Longrightarrow> today \<le> format_date to \<Longrightarrow>
      no_quote mk ins \<Longrightarrow> masked today (lookup_list out' (ins_id ins))"
proof -
  define h where "h = (case mkt_history mk (trim_space (ins_symbol ins)) period ''auto'' of
      None \<Rightarrow> out
    | Some (candles, source) \<Rightarrow> foldl (historyStep mk today frm to (ins_id ins) source) out candles)"
  have h: "j \<noteq> ins_id ins \<Longrightarrow> lookup_list h j = lookup_list out j" for j
    by (auto simp: h_def historySteps(1) split: option.splits)
  have hd: "distinct (map fst out) \<Longrightarrow> distinct (map fst h)"
    by (auto simp: h_def intro!: historySteps(2) split: option.splits)
  have ht: "\<forall>r\<in>set (lookup_list out (ins_id ins)). px_date r \<noteq> today \<Longrightarrow>
      \<forall>r\<in>set (lookup_list h (ins_id ins)). px_date r \<noteq> today"
    unfolding h_def by (cases "mkt_history mk (trim_space (ins_symbol ins)) period ''auto''")
      (auto dest: historySteps(3))
  define row where "row = (case mkt_quote mk (trim_space (ins_symbol ins)) (ins_connection_id ins) of
      Some (px, source) \<Rightarrow>
        if mkt_positive mk px
        then \<lparr>px_date = today, px_value = mkt_text mk px, px_source = source, px_missing = False\<rparr>
        else \<lparr>px_date = today, px_value = [], px_source = [], px_missing = True\<rparr>
    | None \<Rightarrow> \<lparr>px_date = today, px_value = [], px_source = [], px_missing = True\<rparr>)"
  have o: "out' = (if trim_space (ins_symbol ins) = [] then out
      else if today \<le> format_date to
      then AList.update (ins_id ins) (upsertPrice (lookup_list h (ins_id ins)) row) h else h)"
    unfolding out'_def instrumentPrices_def Let_def h_def row_def historyStep_def by simp
  show "j \<noteq> ins_id ins \<Longrightarrow> lookup_list out' j = lookup_list out j"
    by (simp add: o h lookup_list_update)
  show "distinct (map fst out) \<Longrightarrow> distinct (map fst out')"
    by (simp add: o hd distinct_keys_update)
  assume e: "lookup_list out (ins_id ins) = []" and s: "trim_space (ins_symbol ins) \<noteq> []" "today \<le> format_date to"
    and q: "no_quote mk ins"
  have row: "px_date row = today" "px_missing row"
    using q by (auto simp: row_def no_quote_def split: option.splits)
  have "r = row" if "r \<in> set (upsertPrice (lookup_list h (ins_id ins)) row)" "px_date r = today" for r
    using upsertPrice_date [OF that(1)] that(2) row(1) ht e by simp
  then show "masked today (lookup_list out' (ins_id ins))"
    using s row upsertPrice_mem [of row "lookup_list h (ins_id ins)"] by (auto simp: o lookup_list_update masked_def)
qed

lemma DailyPrices_lookup:
  fixes mk :: "'f market_policy" and today period :: string and frm to :: day
  assumes "distinct (map ins_id (is1 @ ins # is2))" "trim_space (ins_symbol ins) \<noteq> []"
    "today \<le> format_date to" "no_quote mk ins"
  defines "step \<equiv> \<lambda>out ins. instrumentPrices mk today period frm to ins out"
  shows "masked today (lookup_list (foldl step [] (is1 @ ins # is2)) (ins_id ins))"
    "distinct (map fst (foldl step [] (is1 @ ins # is2)))"
proof -
  have keep: "j \<notin> ins_id ` set xs \<Longrightarrow> lookup_list (foldl step out xs) j = lookup_list out j" for j xs out
    by (induction xs arbitrary: out) (auto simp: step_def instrumentPrices_lookup(1))
  have dist: "distinct (map fst out) \<Longrightarrow> distinct (map fst (foldl step out xs))" for xs out
    by (induction xs arbitrary: out) (auto simp: step_def instrumentPrices_lookup(2))
  have "lookup_list (foldl step [] is1) (ins_id ins) = []"
    using keep [of "ins_id ins" is1 "[]"] assms(1) by (auto simp: lookup_list_def)
  then have "masked today (lookup_list (step (foldl step [] is1) ins) (ins_id ins))"
    unfolding step_def using assms(2-4) by (rule instrumentPrices_lookup(3))
  then show "masked today (lookup_list (foldl step [] (is1 @ ins # is2)) (ins_id ins))"
    using keep [of "ins_id ins" is2] assms(1) by simp
  show "distinct (map fst (foldl step [] (is1 @ ins # is2)))" by (rule dist) simp
qed

lemma indexPriceRows_dates:
  assumes "indexPriceRows rows = Inr m"
  shows "map_of m d = Some p \<Longrightarrow> p \<in> set rows \<and> px_date p = d" and "p \<in> set rows \<Longrightarrow> px_date p \<in> fst ` set m"
proof -
  have "(\<forall>d p. map_of m d = Some p \<longrightarrow> p \<in> set rows \<and> px_date p = d) \<and> (\<forall>p\<in>set rows. px_date p \<in> fst ` set m)"
    using assms
  proof (induction rows arbitrary: m rule: rev_induct)
    case Nil
    then show ?case by (simp add: indexPriceRows_def)
  next
    case (snoc v rows)
    then obtain m' where m': "indexPriceRows rows = Inr m'" "m = AList.update (px_date v) v m'"
      by (auto simp: indexPriceRows_def rfold_append rbind_Inr_iff split: if_splits)
    have "fst ` set m = insert (px_date v) (fst ` set m')"
      using keys_update [of "px_date v" v m'] m'(2) by simp
    then show ?case using snoc.IH [OF m'(1)] m'(2) by (auto split: if_splits)
  qed
  then show "map_of m d = Some p \<Longrightarrow> p \<in> set rows \<and> px_date p = d" and "p \<in> set rows \<Longrightarrow> px_date p \<in> fst ` set m"
    by blast+
qed

lemma indexPrices_lookup:
  assumes "indexPrices rows = Inr ix" "distinct (map fst rows)"
  shows "indexPriceRows (lookup_list rows k) = Inr (lookup_list ix k)"
  using assms
proof (induction rows arbitrary: ix rule: rev_induct)
  case Nil
  then show ?case by (simp add: indexPrices_def lookup_list_def indexPriceRows_def)
next
  case (snoc e rows)
  then obtain m ix' where i: "indexPrices rows = Inr ix'" "indexPriceRows (snd e) = Inr m"
    "ix = AList.update (fst e) m ix'"
    by (auto simp: indexPrices_def rfold_append rbind_Inr_iff)
  have d: "distinct (map fst rows)" "fst e \<notin> fst ` set rows" using snoc.prems(2) by auto
  have "map_of rows (fst e) = None" using d(2) by (simp add: map_of_eq_None_iff)
  then have "lookup_list (rows @ [e]) k = (if k = fst e then snd e else lookup_list rows k)"
    by (cases e) (auto simp: lookup_list_def map_add_def split: option.splits)
  then show ?case using snoc.IH [OF i(1) d(1)] i(2,3) by (simp add: lookup_list_update)
qed

lemma masked_price:
  assumes "masked today rows" "indexPriceRows rows = Inr (lookup_list ix iid)" "today \<noteq> []"
  shows "priceAt today iid ix = Inr None"
proof -
  let ?m = "lookup_list ix iid"
  have "today \<in> set (map fst ?m)"
    using assms(1) indexPriceRows_dates(2) [OF assms(2)] by (auto simp: masked_def)
  then have sel: "selectDate today (map fst ?m) = today"
    using selectDate_spec [of today "map fst ?m"] assms(3) by (metis order_antisym order_refl)
  have "px_missing p" if "map_of ?m today = Some p" for p
    using indexPriceRows_dates(1) [OF assms(2) that] assms(1) by (auto simp: masked_def)
  then show ?thesis using sel assms(3) by (auto simp: priceAt_def Let_def split: option.splits)
qed

text \<open>without a positive quote for today, no price is made up: the instrument has an explicit gap
  for today, and the calculation finds no price for it on that day, however many closes of earlier
  days the history returned.\<close>

theorem no_quote_no_price:
  assumes "distinct (map ins_id instruments)" "ins \<in> set instruments" "trim_space (ins_symbol ins) \<noteq> []"
    and "format_date (day_of now) \<le> format_date to" "no_quote mk ins"
    and "indexPrices (DailyPrices mk now instruments frm to) = Inr prices"
  shows "priceAt (format_date (day_of now)) (ins_id ins) prices = Inr None"
proof -
  obtain is1 is2 where sp: "instruments = is1 @ ins # is2" using assms(2) by (meson split_list)
  note lk = DailyPrices_lookup [OF assms(1) [unfolded sp] assms(3-5), where period = "periodFor frm to" and frm = frm]
  have "masked (format_date (day_of now)) (lookup_list (DailyPrices mk now instruments frm to) (ins_id ins))"
    unfolding DailyPrices_def sp by (rule lk(1))
  moreover have "distinct (map fst (DailyPrices mk now instruments frm to))"
    unfolding DailyPrices_def sp by (rule lk(2))
  ultimately show ?thesis
    using masked_price indexPrices_lookup [OF assms(6)] format_date_nonempty by blast
qed

theorem no_quote_no_price_witness:
  "\<exists>prices. indexPrices (DailyPrices
       \<lparr>mkt_history = (\<lambda>_ _ _. None),
        mkt_quote = (\<lambda>_ _. None), mkt_positive = (\<lambda>x :: int. 0 < x), mkt_text = int_str\<rparr>
       (86400 * 1000000000 * 19724)
       [zero_instrument\<lparr>ins_id := 3, ins_symbol := ''AAPL''\<rparr>] 739240 739252) = Inr prices
     \<and> priceAt ''2024-01-02'' 3 prices = Inr None"
  (is "\<exists>prices. indexPrices (DailyPrices ?mk ?t [?i] _ _) = _ \<and> _")
proof -
  define rows where "rows = DailyPrices ?mk ?t [?i] 739240 739252"
  have d: "format_date (day_of ?t) = ''2024-01-02''" "format_date (day_of ?t) \<le> format_date 739252"
    "trim_space (ins_symbol ?i) \<noteq> []" "ins_id ?i = 3" by code_simp+
  have "rows = [(3, [\<lparr>px_date = ''2024-01-02'', px_value = [], px_source = [], px_missing = True\<rparr>])]"
    using d unfolding rows_def by (simp add: DailyPrices_def instrumentPrices_def Let_def lookup_list_def)
  moreover have "parse_date ''2024-01-02'' = Some 739252" by code_simp
  ultimately obtain prices where p: "indexPrices rows = Inr prices"
    by (simp add: indexPrices_def indexPriceRows_def)
  have "priceAt (format_date (day_of ?t)) (ins_id ?i) prices = Inr None"
    by (rule no_quote_no_price [OF _ _ d(3,2) _ p [unfolded rows_def]]) (simp_all add: no_quote_def)
  then show ?thesis using p d unfolding rows_def by auto
qed

end
