(* ===== verification/Wire.thy ===== *)
theory Wire
  imports Calendar
begin

text \<open>
  What crosses the boundary of the program: 64-bit integers in text, floating-point values, and the
  JSON values that the brokers answer with.

  A \<open>float64\<close> is a number, an infinity or not a number; the two zeros are one value. Comparisons
  with not-a-number are false, as in Go. A JSON document is the tree that the decoder reads; the
  functions that store it in a typed variable follow \<open>encoding/json\<close>: object keys match a field
  name without regard to case, later keys win, \<open>null\<close> leaves the field as it is, and a value of
  another type is an error. An object stored in a \<open>map[string]any\<close> keeps exact keys.
\<close>

section \<open>Integers in text\<close>

definition int64_min :: int where "int64_min = - (2 ^ 63)"

definition int64_max :: int where "int64_max = 2 ^ 63 - 1"

definition in_int64 :: "int \<Rightarrow> bool" where
  "in_int64 z \<longleftrightarrow> int64_min \<le> z \<and> z \<le> int64_max"

text \<open>\<open>strconv.ParseInt(s, 10, 64)\<close>: an optional sign, one digit or more, and a value in range.\<close>

definition parse_int64 :: "string \<Rightarrow> int option" where
  "parse_int64 s =
     (let neg = (s \<noteq> [] \<and> hd s = CHR ''-'');
          body = (if s \<noteq> [] \<and> (hd s = CHR ''-'' \<or> hd s = CHR ''+'') then tl s else s);
          z = (if neg then - int (digits_value body) else int (digits_value body))
      in if body \<noteq> [] \<and> all_digits body \<and> in_int64 z then Some z else None)"

lemma not_digit_sign [simp]: "\<not> is_digit (CHR ''-'')" "\<not> is_digit (CHR ''+'')"
  by (simp_all add: is_digit_def)

lemma nat_str_no_sign: "hd (nat_str n) \<noteq> CHR ''-''" "hd (nat_str n) \<noteq> CHR ''+''"
  using nat_str_digits [of n] nat_str_nonempty [of n] not_digit_sign
  by (metis hd_in_set list.pred_set)+

lemma parse_int_str [simp]: "in_int64 z \<Longrightarrow> parse_int64 (int_str z) = Some z"
  by (auto simp: parse_int64_def int_str_def Let_def nat_str_no_sign)

lemma parse_int64_range: "parse_int64 s = Some z \<Longrightarrow> in_int64 z"
  by (auto simp: parse_int64_def Let_def split: if_splits)

section \<open>Quoted text\<close>

text \<open>The verb \<open>%q\<close>. Bytes from 128 on belong to printable characters of UTF-8 text and are kept.\<close>

definition hex_char :: "nat \<Rightarrow> char" where
  "hex_char d = (if d < 10 then char_of (48 + d) else char_of (87 + d))"

definition quote_char :: "char \<Rightarrow> string" where
  "quote_char c = (let n = of_char c :: nat; slash = CHR 0x5C in
     if n = 34 \<or> n = 92 then [slash, c]
     else if n = 7 then [slash, CHR ''a''] else if n = 8 then [slash, CHR ''b'']
     else if n = 9 then [slash, CHR ''t''] else if n = 10 then [slash, CHR ''n'']
     else if n = 11 then [slash, CHR ''v''] else if n = 12 then [slash, CHR ''f'']
     else if n = 13 then [slash, CHR ''r'']
     else if n < 32 \<or> n = 127 then [slash, CHR ''x'', hex_char (n div 16), hex_char (n mod 16)]
     else [c])"

definition go_quote :: "string \<Rightarrow> string" where
  "go_quote s = [CHR 0x22] @ concat (map quote_char s) @ [CHR 0x22]"

section \<open>Floating-point values\<close>

datatype gofloat = FNaN | PosInf | NegInf | Num rat

fun f_less :: "gofloat \<Rightarrow> gofloat \<Rightarrow> bool" where
  "f_less (Num a) (Num b) \<longleftrightarrow> a < b"
| "f_less NegInf (Num _) \<longleftrightarrow> True"
| "f_less NegInf PosInf \<longleftrightarrow> True"
| "f_less (Num _) PosInf \<longleftrightarrow> True"
| "f_less _ _ \<longleftrightarrow> False"

fun f_eq :: "gofloat \<Rightarrow> gofloat \<Rightarrow> bool" where
  "f_eq FNaN _ \<longleftrightarrow> False"
| "f_eq a b \<longleftrightarrow> a = b"

definition f_leq :: "gofloat \<Rightarrow> gofloat \<Rightarrow> bool" where
  "f_leq a b \<longleftrightarrow> f_less a b \<or> f_eq a b"

abbreviation f_zero :: gofloat where "f_zero \<equiv> Num 0"

definition f_pos :: "gofloat \<Rightarrow> bool" where "f_pos a \<longleftrightarrow> f_less f_zero a"

fun f_finite :: "gofloat \<Rightarrow> bool" where
  "f_finite (Num _) \<longleftrightarrow> True"
| "f_finite _ \<longleftrightarrow> False"

lemma f_pos_simps [simp]:
  "f_pos (Num a) \<longleftrightarrow> 0 < a" "f_pos PosInf" "\<not> f_pos NegInf" "\<not> f_pos FNaN"
  by (simp_all add: f_pos_def)

lemma f_leq_simps [simp]:
  "f_leq (Num a) (Num b) \<longleftrightarrow> a \<le> b" "\<not> f_leq FNaN y" "\<not> f_leq x FNaN"
  by (cases x; cases y; auto simp: f_leq_def)+

lemma f_eq_Num [simp]: "f_eq (Num a) y \<longleftrightarrow> y = Num a" "f_eq x (Num a) \<longleftrightarrow> x = Num a"
  by (cases x; auto)+

lemma f_finite_iff: "f_finite x \<longleftrightarrow> (\<exists>a. x = Num a)"
  by (cases x) auto

lemma f_eq_finite: "f_finite x \<Longrightarrow> f_eq x y \<longleftrightarrow> x = y"
  by (auto simp: f_finite_iff)

text \<open>Conversions to \<open>int64\<close> and back. Outside the range of \<open>int64\<close> the language leaves the result
  open: it is the argument \<open>wild\<close>.\<close>

fun f_to_int64 :: "(gofloat \<Rightarrow> int) \<Rightarrow> gofloat \<Rightarrow> int" where
  "f_to_int64 wild (Num a) =
     (let z = (if a < 0 then - \<lfloor>- a\<rfloor> else \<lfloor>a\<rfloor>) in if in_int64 z then z else wild (Num a))"
| "f_to_int64 wild x = wild x"

definition whole :: "(gofloat \<Rightarrow> int) \<Rightarrow> gofloat \<Rightarrow> bool" where
  "whole wild x \<longleftrightarrow> f_eq x (Num (of_int (f_to_int64 wild x)))"

lemma whole_int: "whole wild x \<Longrightarrow> \<exists>z :: int. x = Num (of_int z)"
  by (auto simp: whole_def)

lemma int_whole: "in_int64 z \<Longrightarrow> whole wild (Num (of_int z))"
  by (simp add: whole_def)

text \<open>Rounding to the nearest \<open>float64\<close>, ties to an even significand: 53 bits, no exponent below
  \<open>-1074\<close>, and infinity from \<open>2^1024\<close> on.\<close>

fun bit_len :: "nat \<Rightarrow> nat" where
  "bit_len n = (if n = 0 then 0 else Suc (bit_len (n div 2)))"

declare bit_len.simps [simp del]

definition pow2 :: "int \<Rightarrow> rat" where
  "pow2 e = (if 0 \<le> e then 2 ^ nat e else 1 / 2 ^ nat (- e))"

definition half_even :: "rat \<Rightarrow> int" where
  "half_even x = (let f = \<lfloor>x\<rfloor>; d = x - of_int f in
     if d < 1 / 2 then f else if 1 / 2 < d then f + 1 else if even f then f else f + 1)"

definition float_exp :: "rat \<Rightarrow> int" where
  "float_exp x = (let (n, d) = quotient_of x; e = int (bit_len (nat n)) - int (bit_len (nat d)) - 53
     in max (- 1074) (if x < pow2 (e + 53) then e else e + 1))"

definition round64 :: "rat \<Rightarrow> gofloat" where
  "round64 x = (if x = 0 then Num 0 else
     (let e = float_exp \<bar>x\<bar>; v = of_int (half_even (\<bar>x\<bar> / pow2 e)) * pow2 e
      in if v < 2 ^ 1024 then Num (if x < 0 then - v else v) else if x < 0 then NegInf else PosInf))"

fun f_neg :: "gofloat \<Rightarrow> gofloat" where
  "f_neg (Num a) = Num (- a)"
| "f_neg PosInf = NegInf"
| "f_neg NegInf = PosInf"
| "f_neg FNaN = FNaN"

fun f_add :: "gofloat \<Rightarrow> gofloat \<Rightarrow> gofloat" where
  "f_add (Num a) (Num b) = round64 (a + b)"
| "f_add FNaN _ = FNaN"
| "f_add _ FNaN = FNaN"
| "f_add PosInf NegInf = FNaN"
| "f_add NegInf PosInf = FNaN"
| "f_add (Num _) y = y"
| "f_add x _ = x"

definition f_sub :: "gofloat \<Rightarrow> gofloat \<Rightarrow> gofloat" where
  "f_sub a b = f_add a (f_neg b)"

definition f_sign :: "gofloat \<Rightarrow> int" where
  "f_sign x = (if f_pos x then 1 else if f_less x f_zero then - 1 else 0)"

fun f_mul :: "gofloat \<Rightarrow> gofloat \<Rightarrow> gofloat" where
  "f_mul (Num a) (Num b) = round64 (a * b)"
| "f_mul FNaN _ = FNaN"
| "f_mul _ FNaN = FNaN"
| "f_mul x y = (let z = f_sign x * f_sign y in if z = 0 then FNaN else if 0 < z then PosInf else NegInf)"

text \<open>The verb \<open>%.2f\<close>: two decimals of the exact value, ties to even.\<close>

definition fixed2 :: "gofloat \<Rightarrow> string" where
  "fixed2 x = (case x of
     Num v \<Rightarrow> (let m = nat (half_even (\<bar>v\<bar> * 100))
        in (if v < 0 then ''-'' else []) @ nat_str (m div 100) @ ''.'' @ pad 2 (m mod 100))
   | PosInf \<Rightarrow> ''+Inf'' | NegInf \<Rightarrow> ''-Inf'' | FNaN \<Rightarrow> ''NaN'')"

text \<open>The shortest decimal that reads back as the same value, in the formats \<open>'f'\<close> and \<open>'e'\<close> with
  precision \<open>-1\<close>. The significand \<open>m\<close> has \<open>n\<close> digits and unit \<open>10^(k - n)\<close>, where \<open>v\<close> lies between
  \<open>10^(k - 1)\<close> and \<open>10^k\<close>.\<close>

definition pow10 :: "int \<Rightarrow> rat" where
  "pow10 e = (if 0 \<le> e then 10 ^ nat e else 1 / 10 ^ nat (- e))"

definition dec_exp :: "rat \<Rightarrow> int" where
  "dec_exp v = (if 1 \<le> v then int (length (nat_str (nat \<lfloor>v\<rfloor>)))
     else (case find (\<lambda>j. 1 \<le> v * 10 ^ j) [1..<400] of Some j \<Rightarrow> 1 - int j | None \<Rightarrow> 0))"

definition short_digits :: "rat \<Rightarrow> nat \<Rightarrow> nat option" where
  "short_digits v n =
     (let u = pow10 (dec_exp v - int n); lo = nat \<lfloor>v / u\<rfloor>; hi = Suc lo;
          l = (round64 (of_nat lo * u) = Num v); h = (round64 (of_nat hi * u) = Num v)
      in if l \<and> h then (if v - of_nat lo * u \<le> of_nat hi * u - v then Some lo else Some hi)
         else if l then Some lo else if h then Some hi else None)"

definition shortest :: "rat \<Rightarrow> nat \<times> nat" where
  "shortest v = (case find (\<lambda>n. short_digits v n \<noteq> None) [1..<18] of
     Some n \<Rightarrow> (n, the (short_digits v n)) | None \<Rightarrow> (17, 0))"

definition format_f :: "gofloat \<Rightarrow> string" where
  "format_f x = (case x of
     Num v \<Rightarrow> if v = 0 then ''0'' else
       (let (n, m) = shortest \<bar>v\<bar>; k = dec_exp \<bar>v\<bar> - int n;
            t = (if 0 \<le> k then nat_str m @ replicate (nat k) (CHR ''0'')
                 else nat_str (m div 10 ^ nat (- k)) @ ''.'' @ pad (nat (- k)) (m mod 10 ^ nat (- k)))
        in (if v < 0 then ''-'' else []) @ t)
   | PosInf \<Rightarrow> ''+Inf'' | NegInf \<Rightarrow> ''-Inf'' | FNaN \<Rightarrow> ''NaN'')"

text \<open>A number in a JSON document: scientific notation below \<open>1e-6\<close> and from \<open>1e21\<close> on.\<close>

definition format_json :: "rat \<Rightarrow> string" where
  "format_json v = (if v \<noteq> 0 \<and> (\<bar>v\<bar> < pow10 (- 6) \<or> pow10 21 \<le> \<bar>v\<bar>) then
     (let (n, m) = shortest \<bar>v\<bar>; d = nat_str m; e = dec_exp \<bar>v\<bar> - 1
      in (if v < 0 then ''-'' else []) @ take 1 d @ (if 1 < length d then ''.'' @ drop 1 d else []) @ ''e'' @
         (if e < 0 then int_str e else ''+'' @ pad_int 2 e))
     else format_f (Num v))"

text \<open>The verb \<open>%v\<close> of a float: scientific notation below \<open>1e-4\<close> and from \<open>1e21\<close> on.\<close>

definition format_v :: "gofloat \<Rightarrow> string" where
  "format_v x = (case x of
     Num v \<Rightarrow> if v \<noteq> 0 \<and> (\<bar>v\<bar> < pow10 (- 4) \<or> pow10 21 \<le> \<bar>v\<bar>) then
       (let (n, m) = shortest \<bar>v\<bar>; d = nat_str m; e = dec_exp \<bar>v\<bar> - 1
        in (if v < 0 then ''-'' else []) @ take 1 d @ (if 1 < length d then ''.'' @ drop 1 d else []) @ ''e'' @
           (if e < 0 then ''-'' else ''+'') @ pad_int 2 \<bar>e\<bar>)
       else format_f x
   | _ \<Rightarrow> format_f x)"

section \<open>Floating-point text\<close>

text \<open>\<open>strconv.ParseFloat(s, 64)\<close>: the value and whether the call succeeded. A syntax error gives zero,
  a value out of range an infinity. Decimal and hexadecimal notation, and underscores between digits,
  are read as Go literals.\<close>

definition hex_value :: "char \<Rightarrow> nat" where
  "hex_value c = (if is_digit c then digit_value c else (of_char (lower_char c) :: nat) - 87)"

definition is_hex :: "char \<Rightarrow> bool" where
  "is_hex c \<longleftrightarrow> is_digit c \<or> (let n = (of_char (lower_char c) :: nat) in 97 \<le> n \<and> n \<le> 102)"

record mantissa =
  man_digits :: nat
  man_point :: bool
  man_scale :: nat
  man_seen :: bool
  man_under :: bool

fun read_mantissa :: "nat \<Rightarrow> mantissa \<Rightarrow> string \<Rightarrow> mantissa \<times> string" where
  "read_mantissa base m [] = (m, [])"
| "read_mantissa base m (c # s) =
     (if c = CHR ''_'' then read_mantissa base (m\<lparr>man_under := True\<rparr>) s
      else if c = CHR ''.'' then
        (if man_point m then (m, c # s) else read_mantissa base (m\<lparr>man_point := True\<rparr>) s)
      else if is_digit c \<or> base = 16 \<and> is_hex c then
        read_mantissa base (m\<lparr>man_digits := base * man_digits m + hex_value c, man_seen := True,
          man_scale := (if man_point m then Suc (man_scale m) else man_scale m)\<rparr>) s
      else (m, c # s))"

fun read_exponent :: "nat \<Rightarrow> bool \<Rightarrow> string \<Rightarrow> nat \<times> bool \<times> string" where
  "read_exponent e u [] = (e, u, [])"
| "read_exponent e u (c # s) =
     (if c = CHR ''_'' then read_exponent e True s
      else if is_digit c then read_exponent (if e < 10000 then 10 * e + digit_value c else e) u s
      else (e, u, c # s))"

fun under_ok :: "bool \<Rightarrow> char \<Rightarrow> string \<Rightarrow> bool" where
  "under_ok hex saw [] \<longleftrightarrow> saw \<noteq> CHR ''_''"
| "under_ok hex saw (c # s) \<longleftrightarrow>
     (if is_digit c \<or> hex \<and> is_hex c then under_ok hex (CHR ''0'') s
      else if c = CHR ''_'' then saw = CHR ''0'' \<and> under_ok hex (CHR ''_'') s
      else saw \<noteq> CHR ''_'' \<and> under_ok hex (CHR ''!'') s)"

definition based :: "string \<Rightarrow> char list \<Rightarrow> bool" where
  "based s ks \<longleftrightarrow> 2 \<le> length s \<and> s ! 0 = CHR ''0'' \<and> lower_char (s ! 1) \<in> set ks"

definition underscore_ok :: "string \<Rightarrow> bool" where
  "underscore_ok s = (if based s ''box'' then under_ok (based s ''x'') (CHR ''0'') (drop 2 s)
     else under_ok False (CHR ''^'') s)"

definition special_float :: "bool \<Rightarrow> bool \<Rightarrow> string \<Rightarrow> gofloat option" where
  "special_float signed neg t =
     (if to_lower t \<in> {''inf'', ''infinity''} then Some (if neg then NegInf else PosInf)
      else if \<not> signed \<and> to_lower t = ''nan'' then Some FNaN else None)"

definition parse_float :: "string \<Rightarrow> gofloat \<times> bool" where
  "parse_float s =
     (let neg = (s \<noteq> [] \<and> hd s = CHR ''-''); signed = (s \<noteq> [] \<and> (hd s = CHR ''-'' \<or> hd s = CHR ''+''));
          t = (if signed then tl s else s);
          hex = (based t ''x'' \<and> 2 < length t); base = (if hex then 16 else 10);
          (m, r) = read_mantissa base \<lparr>man_digits = 0, man_point = False, man_scale = 0, man_seen = False, man_under = False\<rparr>
                     (if hex then drop 2 t else t);
          has = (r \<noteq> [] \<and> lower_char (hd r) = (if hex then CHR ''p'' else CHR ''e''));
          r1 = tl r; eneg = (r1 \<noteq> [] \<and> hd r1 = CHR ''-'');
          r2 = (if r1 \<noteq> [] \<and> (hd r1 = CHR ''-'' \<or> hd r1 = CHR ''+'') then tl r1 else r1);
          (e, u, rest) = (if has then read_exponent 0 (man_under m) r2 else (0, man_under m, r));
          z = (if eneg then - int e else int e);
          v = (if hex then of_nat (man_digits m) * pow2 (z - 4 * int (man_scale m))
               else (let k = z - int (man_scale m)
                     in if 0 \<le> k then of_nat (man_digits m) * 10 ^ nat k else of_nat (man_digits m) / 10 ^ nat (- k)));
          f = round64 (if neg then - v else v)
      in case special_float signed neg t of
           Some x \<Rightarrow> (x, True)
         | None \<Rightarrow>
             if \<not> man_seen m \<or> has \<and> (r2 = [] \<or> \<not> is_digit (hd r2)) \<or> \<not> has \<and> hex \<or> rest \<noteq> [] \<or>
                (u \<and> \<not> underscore_ok t)
             then (Num 0, False) else (f, f_finite f))"

section \<open>URLs and times\<close>

definition unreserved :: "char \<Rightarrow> bool" where
  "unreserved c \<longleftrightarrow> (let n = (of_char c :: nat) in 65 \<le> n \<and> n \<le> 90 \<or> 97 \<le> n \<and> n \<le> 122 \<or> 48 \<le> n \<and> n \<le> 57) \<or> c \<in> set ''-_.~''"

definition upper_hex :: "nat \<Rightarrow> char" where
  "upper_hex d = (if d < 10 then char_of (48 + d) else char_of (55 + d))"

definition percent :: "char \<Rightarrow> string" where
  "percent c = [CHR ''%'', upper_hex (of_char c div 16), upper_hex (of_char c mod 16)]"

definition path_escape :: "string \<Rightarrow> string" where
  "path_escape s = concat (map (\<lambda>c. if unreserved c \<or> c \<in> set ''$&+=:@'' then [c] else percent c) s)"

lemma upper_hex_inj: "a < 16 \<Longrightarrow> b < 16 \<Longrightarrow> upper_hex a = upper_hex b \<Longrightarrow> a = b"
  by (auto simp: upper_hex_def split: if_splits dest!: arg_cong [where f = "of_char :: char \<Rightarrow> nat"])

lemma percent_inj: "percent c = percent d \<Longrightarrow> c = d"
proof -
  assume "percent c = percent d"
  then have "upper_hex (of_char c div 16) = upper_hex (of_char d div 16)" "upper_hex (of_char c mod 16) = upper_hex (of_char d mod 16)"
    by (simp_all add: percent_def)
  moreover have "of_char x div 16 < (16 :: nat)" for x :: char
    using mod_less_divisor [of 256 "of_char x :: nat"] by (simp add: less_mult_imp_div_less)
  ultimately have "of_char c div 16 = (of_char d div 16 :: nat)" "of_char c mod 16 = (of_char d mod 16 :: nat)"
    by (auto intro: upper_hex_inj)
  then have "of_char c = (of_char d :: nat)" by (metis mod_mult_div_eq)
  then show "c = d" by (metis char_of_char)
qed

lemma path_escape_inj: "path_escape s = path_escape t \<Longrightarrow> s = t"
proof (induction s arbitrary: t)
  case Nil
  then show ?case by (cases t) (auto simp: path_escape_def percent_def split: if_splits)
next
  case (Cons c s)
  let ?e = "\<lambda>c. if unreserved c \<or> c \<in> set ''$&+=:@'' then [c] else percent c"
  obtain d u where t: "t = d # u" using Cons.prems by (cases t) (auto simp: path_escape_def percent_def split: if_splits)
  have "\<not> (unreserved (CHR ''%'') \<or> CHR ''%'' \<in> set ''$&+=:@'')" by (simp add: unreserved_def)
  then have "c = d" "path_escape s = path_escape u"
    using Cons.prems t percent_inj [of c d] by (auto simp: path_escape_def percent_def split: if_splits)
  with Cons.IH t show ?case by simp
qed

definition query_escape :: "string \<Rightarrow> string" where
  "query_escape s = concat (map (\<lambda>c. if unreserved c then [c] else if c = CHR '' '' then ''+'' else percent c) s)"

text \<open>The two text forms of an instant: \<open>RFC3339\<close> to the second and \<open>RFC3339Nano\<close> with the fraction,
  trailing zeros removed. Both begin with the text of the second.\<close>

definition second_of :: "instant \<Rightarrow> int" where
  "second_of t = t div ns_per_second"

definition second_text :: "instant \<Rightarrow> string" where
  "second_text t = (let q = (t mod ns_per_day) div ns_per_second in
     format_date (day_of t) @ ''T'' @ pad_int 2 (q div 3600) @ '':'' @ pad_int 2 (q div 60 mod 60) @ '':'' @ pad_int 2 (q mod 60))"

definition rfc3339 :: "instant \<Rightarrow> string" where
  "rfc3339 t = second_text t @ ''Z''"

definition rfc3339_nano :: "instant \<Rightarrow> string" where
  "rfc3339_nano t = (let ds = pad 9 (nat (t mod ns_per_second)); frac = rev (dropWhile (\<lambda>c. c = CHR ''0'') (rev ds))
     in second_text t @ (if frac = [] then [] else ''.'' @ frac) @ ''Z'')"

lemma append_less_iff:
  "length x = length x' \<Longrightarrow> x @ y < x' @ (y' :: string) \<longleftrightarrow> x < x' \<or> x = x' \<and> y < y'"
  by (induction x x' rule: list_induct2) auto

lemma pad2:
  assumes "0 \<le> a" "a < 100"
  shows "length (pad_int 2 a) = 2" "all_digits (pad_int 2 a)" "digits_value (pad_int 2 a) = nat a"
proof -
  have "nat a < 10 ^ 2" using assms by simp
  note pad_facts [OF zero_less_numeral this]
  then show "length (pad_int 2 a) = 2" "all_digits (pad_int 2 a)" "digits_value (pad_int 2 a) = nat a"
    using assms by (simp_all add: pad_int_def)
qed

lemma pad2_less:
  assumes "0 \<le> a" "a < 100" "0 \<le> b" "b < 100"
  shows "pad_int 2 a < pad_int 2 b \<longleftrightarrow> a < b" "pad_int 2 a = pad_int 2 b \<longleftrightarrow> a = b"
proof -
  show l: "pad_int 2 a < pad_int 2 b \<longleftrightarrow> a < b"
    using digits_less_iff [of "pad_int 2 a" "pad_int 2 b"] pad2 [OF assms(1,2)] pad2 [OF assms(3,4)] assms by auto
  show "pad_int 2 a = pad_int 2 b \<longleftrightarrow> a = b"
    using pad2(3) [OF assms(1,2)] pad2(3) [OF assms(3,4)] assms by auto
qed

lemma format_date_length: "four_digit n \<Longrightarrow> length (format_date n) = 10"
  by (rule format_date_parts) auto

lemma second_parts:
  fixes t :: instant
  defines "q \<equiv> (t mod ns_per_day) div ns_per_second"
  shows "second_of t = (((day_of t - unix_epoch_day) * 24 + q div 3600) * 60 + q div 60 mod 60) * 60 + q mod 60"
    "0 \<le> q div 3600" "q div 3600 < 24" "0 \<le> q div 60 mod 60" "q div 60 mod 60 < 60" "0 \<le> q mod 60" "q mod 60 < 60"
proof -
  define x where "x = second_of t"
  have n: "ns_per_day = ns_per_second * 86400" "0 < ns_per_second" by (simp_all add: ns_per_day_def ns_per_second_def)
  have "t mod ns_per_day = ns_per_second * (x mod 86400) + t mod ns_per_second"
    unfolding n(1) x_def second_of_def by (rule zmod_zmult2_eq) simp
  then have q: "q = x mod 86400"
    using n(2) by (simp add: q_def)
  have "t div ns_per_day = x div 86400"
    unfolding n(1) x_def second_of_def by (rule zdiv_zmult2_eq) simp
  then have d: "day_of t - unix_epoch_day = x div 86400" by (simp add: day_of_def)
  define r where "r = x mod 86400"
  have r: "0 \<le> r" "r < 86400" by (simp_all add: r_def)
  have h: "r div 3600 = r div 60 div 60" using zdiv_zmult2_eq [of 60 r 60] by simp
  have "x = x div 86400 * 86400 + r" "r = r div 60 * 60 + r mod 60" "r div 60 = r div 3600 * 60 + r div 60 mod 60"
    unfolding h by (simp_all add: r_def)
  then have "x = (((x div 86400) * 24 + x mod 86400 div 3600) * 60 + x mod 86400 div 60 mod 60) * 60 + x mod 86400 mod 60"
    unfolding r_def [symmetric] by algebra
  then show "second_of t = (((day_of t - unix_epoch_day) * 24 + q div 3600) * 60 + q div 60 mod 60) * 60 + q mod 60"
    unfolding d q x_def [symmetric] .
  note e = div_mult_mod_eq [of r 3600] pos_mod_bound [of 3600 r, simplified] pos_mod_sign [of 3600 r, simplified]
  show "0 \<le> q div 3600" "q div 3600 < 24"
    using r e unfolding q r_def [symmetric] by linarith+
  show "0 \<le> q div 60 mod 60" "q div 60 mod 60 < 60" "0 \<le> q mod 60" "q mod 60 < 60"
    by simp_all
qed

lemma digit_order:
  fixes p q r s k :: int
  assumes "0 \<le> r" "r < k" "0 \<le> s" "s < k" "k = 60 \<or> k = 24"
  shows "p * k + r < q * k + s \<longleftrightarrow> p < q \<or> p = q \<and> r < s" "p * k + r = q * k + s \<longleftrightarrow> p = q \<and> r = s"
proof -
  from assms(5) show "p * k + r < q * k + s \<longleftrightarrow> p < q \<or> p = q \<and> r < s"
    using assms(1-4) by (elim disjE) (simp_all, linarith+)
  have "p = q" if "p * k + r = q * k + s"
  proof (rule order.antisym)
    show "p \<le> q" "q \<le> p" using assms that by (elim disjE; hypsubst; linarith)+
  qed
  then show "p * k + r = q * k + s \<longleftrightarrow> p = q \<and> r = s" by auto
qed

lemma second_text_order:
  assumes "four_digit (day_of a)" "four_digit (day_of b)"
  shows "second_text a < second_text b \<longleftrightarrow> second_of a < second_of b" "second_text a = second_text b \<longleftrightarrow> second_of a = second_of b"
    "length (second_text a) = length (second_text b)"
proof -
  define q where "q t = (t mod ns_per_day) div ns_per_second" for t :: instant
  note P = second_parts [folded q_def]
  have t: "second_text t = format_date (day_of t) @ ''T'' @ pad_int 2 (q t div 3600) @ '':'' @ pad_int 2 (q t div 60 mod 60) @ '':'' @ pad_int 2 (q t mod 60)" for t
    by (simp add: second_text_def q_def Let_def)
  have r: "q t div 60 mod 60 < 100" "q t mod 60 < 100" "q t div 3600 < 100" for t using P(3,5,7) [of t] by linarith+
  note r = r P(2,4,6)
  have fl: "length (format_date (day_of a)) = length (format_date (day_of b))"
    using format_date_length assms by simp
  have fd: "format_date (day_of a) < format_date (day_of b) \<longleftrightarrow> day_of a < day_of b"
    "format_date (day_of a) = format_date (day_of b) \<longleftrightarrow> day_of a = day_of b"
    using format_date_less_iff [OF assms] format_date_inj [OF assms] by auto
  have dd: "day_of a - unix_epoch_day < day_of b - unix_epoch_day \<longleftrightarrow> day_of a < day_of b"
    "day_of a - unix_epoch_day = day_of b - unix_epoch_day \<longleftrightarrow> day_of a = day_of b" by auto
  note o = digit_order [OF P(6,7) P(6,7) disjI1 [OF refl]] digit_order [OF P(4,5) P(4,5) disjI1 [OF refl]]
    digit_order [OF P(2,3) P(2,3) disjI2 [OF refl]]
  have s: "second_of a < second_of b \<longleftrightarrow> day_of a < day_of b \<or> day_of a = day_of b \<and> (q a div 3600 < q b div 3600 \<or> q a div 3600 = q b div 3600 \<and>
     (q a div 60 mod 60 < q b div 60 mod 60 \<or> q a div 60 mod 60 = q b div 60 mod 60 \<and> q a mod 60 < q b mod 60))"
    unfolding P(1) [of a] P(1) [of b] o dd by blast
  have e: "second_of a = second_of b \<longleftrightarrow> day_of a = day_of b \<and> q a div 3600 = q b div 3600 \<and>
     q a div 60 mod 60 = q b div 60 mod 60 \<and> q a mod 60 = q b mod 60"
    unfolding P(1) [of a] P(1) [of b] o dd by blast
  show "second_text a < second_text b \<longleftrightarrow> second_of a < second_of b"
    unfolding s t append_less_iff [OF fl] fd
    by (simp add: append_less_iff pad2(1) pad2_less r)
  show "second_text a = second_text b \<longleftrightarrow> second_of a = second_of b"
    unfolding e t using fl fd by (simp add: pad2(1) pad2_less r)
  show "length (second_text a) = length (second_text b)" unfolding t using fl by (simp add: pad2(1) r)
qed

lemma stamp_order:
  assumes "four_digit (day_of a)" "four_digit (day_of b)"
  shows "rfc3339 a < rfc3339 b \<longleftrightarrow> second_of a < second_of b"
    "second_of a < second_of b \<Longrightarrow> rfc3339 a < rfc3339_nano b"
    "second_of a \<le> second_of b \<Longrightarrow> rfc3339 a \<le> rfc3339 b"
proof -
  note S = second_text_order [OF assms]
  show l: "rfc3339 a < rfc3339 b \<longleftrightarrow> second_of a < second_of b"
    unfolding rfc3339_def append_less_iff [OF S(3)] by (simp add: S)
  show "second_of a < second_of b \<Longrightarrow> rfc3339 a < rfc3339_nano b"
    unfolding rfc3339_def rfc3339_nano_def Let_def append_less_iff [OF S(3)] by (simp add: S)
  assume "second_of a \<le> second_of b"
  then consider "second_of a < second_of b" | "second_of a = second_of b" by linarith
  then show "rfc3339 a \<le> rfc3339 b"
  proof cases
    case 1
    with l show ?thesis by simp
  next
    case 2
    then have "rfc3339 a = rfc3339 b" using S(2) by (simp add: rfc3339_def)
    then show ?thesis by simp
  qed
qed

section \<open>JSON\<close>

datatype json = JNull | JBool bool | JNum string | JStr string | JArr "json list" | JObj "(string \<times> json) list"

text \<open>\<open>fmt.Sprint\<close> of a decoded value whose numbers are kept as text.\<close>

fun sprint :: "json \<Rightarrow> string" where
  "sprint JNull = ''<nil>''"
| "sprint (JBool b) = (if b then ''true'' else ''false'')"
| "sprint (JNum n) = n"
| "sprint (JStr s) = s"
| "sprint (JArr xs) = ''['' @ join '' '' (map sprint xs) @ '']''"
| "sprint (JObj kvs) = (let es = map (\<lambda>(k, v). (k, sprint v)) kvs in
     ''map['' @ join '' '' (map (\<lambda>k. k @ '':'' @ the (map_of (rev es) k)) (sort (remdups (map fst es)))) @ '']'')"

text \<open>A document read without keeping numbers as text: every number is a float, and one out of range
  makes the decoding fail.\<close>

fun floated :: "json \<Rightarrow> json option" where
  "floated (JNum n) = (case parse_float n of (x, ok) \<Rightarrow> if ok then Some (JNum (format_v x)) else None)"
| "floated (JArr xs) = map_option JArr (those (map floated xs))"
| "floated (JObj kvs) = map_option JObj (those (map (\<lambda>(k, v). map_option (Pair k) (floated v)) kvs))"
| "floated j = Some j"

definition obj_get :: "(string \<times> json) list \<Rightarrow> string \<Rightarrow> json" where
  "obj_get kvs k = (case map_of (rev kvs) k of None \<Rightarrow> JNull | Some v \<Rightarrow> v)"

definition textValue :: "json \<Rightarrow> string" where
  "textValue v = (if v = JNull then [] else trim_space (sprint v))"

text \<open>Fields of a struct. The result of a field with an ill-typed value is \<open>None\<close>.\<close>

definition field_values :: "string \<Rightarrow> (string \<times> json) list \<Rightarrow> json list" where
  "field_values name kvs = map snd (filter (\<lambda>(k, _). equal_fold k name) kvs)"

definition str_field :: "string \<Rightarrow> (string \<times> json) list \<Rightarrow> string option" where
  "str_field name kvs = foldl (\<lambda>acc v. case v of JNull \<Rightarrow> acc | JStr s \<Rightarrow> map_option (\<lambda>_. s) acc | _ \<Rightarrow> None)
     (Some []) (field_values name kvs)"

definition bool_field :: "string \<Rightarrow> (string \<times> json) list \<Rightarrow> bool option" where
  "bool_field name kvs = foldl (\<lambda>acc v. case v of JNull \<Rightarrow> acc | JBool b \<Rightarrow> map_option (\<lambda>_. b) acc | _ \<Rightarrow> None)
     (Some False) (field_values name kvs)"

definition firstNonEmpty :: "string list \<Rightarrow> string" where
  "firstNonEmpty xs = (case find (\<lambda>x. trim_space x \<noteq> []) xs of Some x \<Rightarrow> x | None \<Rightarrow> [])"

section \<open>HTTP\<close>

text \<open>A request to a broker and what comes of it: the request cannot be built, no answer arrives, or an
  answer with its status, its status line, the headers that matter (the authentication challenges and
  the location), its body, the first JSON value the body decodes to, and whether that value is all
  there is. A remote service answers as a function of everything sent to it so far.\<close>

record http_request =
  rq_method :: string
  rq_url :: string
  rq_body :: "json option"

record http_answer =
  an_status :: int
  an_line :: string
  an_challenges :: "string list"
  an_location :: string
  an_body :: string
  an_json :: "json option"
  an_alone :: bool

datatype http_outcome = Unbuilt string | NoAnswer string | Answer http_answer

type_synonym remote = "http_request list \<Rightarrow> http_outcome"

definition json_answer :: "json \<Rightarrow> http_outcome" where
  "json_answer j = Answer \<lparr>an_status = 200, an_line = ''200 OK'', an_challenges = [], an_location = [], an_body = [],
     an_json = Some j, an_alone = True\<rparr>"

end
