(* ===== verification/Trading.thy ===== *)
theory Trading
  imports Wire "HOL-Library.Word"
begin

unbundle bit_operations_syntax

text \<open>
  Orders, as every broker adapter sees them: the order request and its validation
  (\<open>internal/broker/trading.go\<close>), the session state that guards submissions
  (\<open>order_session.go\<close>), the interactive workflow (\<open>order_workflow.go\<close>, \<open>order_quote.go\<close>) and the
  trading service that routes a call to the connection's adapter.

  The session state lives behind a mutex and its methods are atomic, so each is a function on the
  state. What runs between them, in any number of concurrent submissions, is the step relation
  \<open>gate_step\<close>: a submission begins, transmits and finishes, and other calls may come in between.
\<close>

section \<open>Data\<close>

datatype go_error = OrderError string string | ApiError int string | PlainError string

fun error_text :: "go_error \<Rightarrow> string" where
  "error_text (OrderError c m) = m"
| "error_text (ApiError n m) = m"
| "error_text (PlainError m) = m"

abbreviation NewOrderError :: "string \<Rightarrow> string \<Rightarrow> go_error" where
  "NewOrderError \<equiv> OrderError"

record instrument_ref =
  in_con_id :: int
  in_symbol :: string
  in_name :: string
  in_sec_type :: string
  in_exchange :: string
  in_currency :: string

record order_request =
  or_account_id :: string
  or_symbol :: string
  or_instrument_id :: string
  or_asset_class :: string
  or_side :: string
  or_position_effect :: string
  or_order_type :: string
  or_quantity :: gofloat
  or_notional :: gofloat
  or_limit_price :: gofloat
  or_stop_price :: gofloat
  or_trail_price :: gofloat
  or_trail_percent :: gofloat
  or_time_in_force :: string
  or_extended_hours :: bool
  or_client_order_id :: string
  or_currency :: string

record order_confirmation =
  oc_reply_id :: string
  oc_messages :: "string list"
  oc_message_ids :: "string list"

record order =
  od_id :: string
  od_client_order_id :: string
  od_account_id :: string
  od_symbol :: string
  od_instrument_id :: string
  od_asset_class :: string
  od_side :: string
  od_order_type :: string
  od_quantity :: gofloat
  od_filled_quantity :: gofloat
  od_limit_price :: gofloat
  od_stop_price :: gofloat
  od_average_fill_price :: gofloat
  od_time_in_force :: string
  od_status :: string
  od_submitted_at :: string
  od_updated_at :: string
  od_raw_status :: string
  od_currency :: string
  od_confirmation :: "order_confirmation option"

record order_query =
  oq_fresh :: bool
  oq_account_id :: string
  oq_status :: string
  oq_limit :: int

record order_impact =
  oi_current :: string
  oi_change :: string
  oi_after :: string

record order_preview =
  op_amount :: string
  op_commission :: string
  op_total :: string
  op_equity :: order_impact
  op_initial_margin :: order_impact
  op_maintenance_margin :: order_impact
  op_position :: order_impact
  op_warnings :: "string list"

record trading_account =
  ta_id :: string
  ta_name :: string
  ta_is_paper :: "bool option"
  ta_supports_fractions :: bool
  ta_allow_customer_time :: bool

record order_attempt_state =
  oa_request :: order_request
  oa_order :: order
  oa_error :: string
  oa_code :: string

record order_quote =
  ob_con_id :: int
  ob_last :: "gofloat option"
  ob_bid :: "gofloat option"
  ob_ask :: "gofloat option"
  ob_change :: "gofloat option"
  ob_change_pct :: "gofloat option"
  ob_prior_close :: "gofloat option"
  ob_last_kind :: string
  ob_availability :: string
  ob_updated_at :: string

definition zero_request :: order_request where
  "zero_request = \<lparr>or_account_id = [], or_symbol = [], or_instrument_id = [], or_asset_class = [], or_side = [],
     or_position_effect = [], or_order_type = [], or_quantity = f_zero, or_notional = f_zero,
     or_limit_price = f_zero, or_stop_price = f_zero, or_trail_price = f_zero, or_trail_percent = f_zero,
     or_time_in_force = [], or_extended_hours = False, or_client_order_id = [], or_currency = []\<rparr>"

definition zero_order :: order where
  "zero_order = \<lparr>od_id = [], od_client_order_id = [], od_account_id = [], od_symbol = [], od_instrument_id = [],
     od_asset_class = [], od_side = [], od_order_type = [], od_quantity = f_zero, od_filled_quantity = f_zero,
     od_limit_price = f_zero, od_stop_price = f_zero, od_average_fill_price = f_zero, od_time_in_force = [],
     od_status = [], od_submitted_at = [], od_updated_at = [], od_raw_status = [], od_currency = [],
     od_confirmation = None\<rparr>"

definition zero_instrument_ref :: instrument_ref where
  "zero_instrument_ref = \<lparr>in_con_id = 0, in_symbol = [], in_name = [], in_sec_type = [], in_exchange = [], in_currency = []\<rparr>"

definition zero_attempt :: order_attempt_state where
  "zero_attempt = \<lparr>oa_request = zero_request, oa_order = zero_order, oa_error = [], oa_code = []\<rparr>"

definition zero_preview :: order_preview where
  "zero_preview = (let z = \<lparr>oi_current = [], oi_change = [], oi_after = []\<rparr> in
     \<lparr>op_amount = [], op_commission = [], op_total = [], op_equity = z, op_initial_margin = z,
      op_maintenance_margin = z, op_position = z, op_warnings = []\<rparr>)"

definition zero_quote :: order_quote where
  "zero_quote = \<lparr>ob_con_id = 0, ob_last = None, ob_bid = None, ob_ask = None, ob_change = None, ob_change_pct = None,
     ob_prior_close = None, ob_last_kind = [], ob_availability = [], ob_updated_at = []\<rparr>"

text \<open>Go's \<open>==\<close> on two requests: field by field, with the comparison of floating-point values.\<close>

definition same_request :: "order_request \<Rightarrow> order_request \<Rightarrow> bool" where
  "same_request a b \<longleftrightarrow> or_account_id a = or_account_id b \<and> or_symbol a = or_symbol b \<and>
     or_instrument_id a = or_instrument_id b \<and> or_asset_class a = or_asset_class b \<and> or_side a = or_side b \<and>
     or_position_effect a = or_position_effect b \<and> or_order_type a = or_order_type b \<and>
     f_eq (or_quantity a) (or_quantity b) \<and> f_eq (or_notional a) (or_notional b) \<and>
     f_eq (or_limit_price a) (or_limit_price b) \<and> f_eq (or_stop_price a) (or_stop_price b) \<and>
     f_eq (or_trail_price a) (or_trail_price b) \<and> f_eq (or_trail_percent a) (or_trail_percent b) \<and>
     or_time_in_force a = or_time_in_force b \<and> or_extended_hours a = or_extended_hours b \<and>
     or_client_order_id a = or_client_order_id b \<and> or_currency a = or_currency b"

section \<open>Validation\<close>

definition request_numbers :: "order_request \<Rightarrow> gofloat list" where
  "request_numbers r = [or_quantity r, or_notional r, or_limit_price r, or_stop_price r, or_trail_price r, or_trail_percent r]"

definition order_type_error :: "order_request \<Rightarrow> string option" where
  "order_type_error r =
     (if or_order_type r = ''market'' then None
      else if or_order_type r = ''limit'' then
        (if f_leq (or_limit_price r) f_zero then Some ''limit_price is required'' else None)
      else if or_order_type r = ''stop'' then
        (if f_leq (or_stop_price r) f_zero then Some ''stop_price is required'' else None)
      else if or_order_type r = ''stop_limit'' then
        (if f_leq (or_stop_price r) f_zero \<or> f_leq (or_limit_price r) f_zero
         then Some ''stop_price and limit_price are required'' else None)
      else if or_order_type r = ''trailing_stop'' then
        (if f_pos (or_trail_price r) = f_pos (or_trail_percent r)
         then Some ''exactly one trailing value is required'' else None)
      else Some (''unsupported order_type '' @ go_quote (or_order_type r)))"

definition ValidateOrder :: "order_request \<Rightarrow> string option" where
  "ValidateOrder r =
     (if \<exists>v\<in>set (request_numbers r). \<not> f_finite v \<or> f_less v f_zero
      then Some ''order quantities and prices must be finite, non-negative numbers''
      else if trim_space (or_account_id r) = [] then Some ''account_id is required''
      else if trim_space (or_symbol r) = [] \<and> trim_space (or_instrument_id r) = []
      then Some ''symbol or instrument_id is required''
      else if or_side r \<noteq> ''buy'' \<and> or_side r \<noteq> ''sell'' then Some ''side must be buy or sell''
      else if f_pos (or_quantity r) = f_pos (or_notional r)
      then Some ''exactly one of quantity or notional is required''
      else case order_type_error r of
        Some e \<Rightarrow> Some e
      | None \<Rightarrow> if trim_space (or_time_in_force r) = [] then Some ''time_in_force is required'' else None)"

definition id_char :: "char \<Rightarrow> bool" where
  "id_char c \<longleftrightarrow> (let n = of_char c :: nat in 65 \<le> n \<and> n \<le> 90 \<or> 97 \<le> n \<and> n \<le> 122 \<or> 48 \<le> n \<and> n \<le> 57 \<or>
     c = CHR ''_'' \<or> c = CHR ''-'')"

definition client_order_id_ok :: "string \<Rightarrow> bool" where
  "client_order_id_ok s \<longleftrightarrow> 1 \<le> length s \<and> length s \<le> 64 \<and> list_all id_char s"

definition ValidateClientOrderID :: "string \<Rightarrow> go_error option" where
  "ValidateClientOrderID v = (if client_order_id_ok v then None
     else Some (NewOrderError ''invalid_order'' (''client_order_id must use 1'' @ [CHR 0xE2, CHR 0x80, CHR 0x93] @
       ''64 letters, numbers, hyphens or underscores'')))"

section \<open>The order session\<close>

record order_session =
  os_instruments :: "int \<rightharpoonup> instrument_ref"
  os_attempts :: "string \<rightharpoonup> order_attempt_state"
  os_previews :: "string \<rightharpoonup> (order_request \<times> instant)"

definition new_session :: order_session where
  "new_session = \<lparr>os_instruments = Map.empty, os_attempts = Map.empty, os_previews = Map.empty\<rparr>"

text \<open>The 64-bit FNV-1a hash, which wraps around at every multiplication.\<close>

definition fnv1a :: "string \<Rightarrow> 64 word" where
  "fnv1a s = foldl (\<lambda>h c. (h XOR word_of_nat (of_char c)) * 1099511628211) 14695981039346656037 s"

definition con_id_of :: "string \<Rightarrow> int" where
  "con_id_of symbol = (let i = uint (fnv1a symbol AND (push_bit 53 1 - 1)) in if i = 0 then 1 else i)"

definition RememberInstrument :: "instrument_ref \<Rightarrow> order_session \<Rightarrow> order_session \<times> instrument_ref" where
  "RememberInstrument i s =
     (let i' = i\<lparr>in_con_id := con_id_of (in_symbol i)\<rparr>
      in (s\<lparr>os_instruments := (os_instruments s)(in_con_id i' \<mapsto> i')\<rparr>, i'))"

definition Instrument :: "string \<Rightarrow> order_session \<Rightarrow> go_error + instrument_ref" where
  "Instrument i s =
     (case parse_int64 i of
        None \<Rightarrow> Inl (NewOrderError ''invalid_order'' ''select a broker instrument before submitting'')
      | Some n \<Rightarrow>
          if n \<le> 0 then Inl (NewOrderError ''invalid_order'' ''select a broker instrument before submitting'')
          else (case os_instruments s n of
              None \<Rightarrow> Inl (NewOrderError ''invalid_order'' ''instrument selection expired; search again'')
            | Some ins \<Rightarrow> Inr ins))"

definition preview_lifetime :: int where
  "preview_lifetime = 600 * ns_per_second"

definition Begin :: "instant \<Rightarrow> order_request \<Rightarrow> order_session \<Rightarrow>
    order_session \<times> (go_error + order_attempt_state \<times> bool)" where
  "Begin now req s =
     (if or_client_order_id req = [] then (s, Inl (NewOrderError ''invalid_order'' ''client_order_id is required''))
      else case os_attempts s (or_client_order_id req) of
        Some old \<Rightarrow>
          if \<not> same_request (oa_request old) req
          then (s, Inl (NewOrderError ''duplicate_order'' ''client_order_id belongs to another order''))
          else (s, Inr (old, True))
      | None \<Rightarrow>
          (case os_previews s (or_client_order_id req) of
             Some (r, shown) \<Rightarrow>
               if \<not> same_request r req \<or> now - shown > preview_lifetime
               then (s, Inl (NewOrderError ''invalid_order'' ''order preview expired or changed; preview again before submitting''))
               else (s\<lparr>os_attempts := (os_attempts s)(or_client_order_id req \<mapsto>
                        \<lparr>oa_request = req, oa_order = zero_order,
                         oa_error = ''submission is in progress; check broker status before trying again'',
                         oa_code = ''order_outcome_unknown''\<rparr>),
                      os_previews := (os_previews s)(or_client_order_id req := None)\<rparr>,
                     Inr (zero_attempt, False))
           | None \<Rightarrow> (s, Inl (NewOrderError ''invalid_order'' ''order preview expired or changed; preview again before submitting''))))"

definition RememberPreview :: "instant \<Rightarrow> order_request \<Rightarrow> order_session \<Rightarrow> order_session" where
  "RememberPreview now req s =
     (if or_client_order_id req = [] then s
      else s\<lparr>os_previews := (os_previews s)(or_client_order_id req \<mapsto> (req, now))\<rparr>)"

fun finished_attempt :: "order_request \<Rightarrow> order \<Rightarrow> go_error option \<Rightarrow> order_attempt_state" where
  "finished_attempt req ord None = \<lparr>oa_request = req, oa_order = ord, oa_error = [], oa_code = []\<rparr>"
| "finished_attempt req ord (Some e) = \<lparr>oa_request = req, oa_order = ord, oa_error = error_text e,
     oa_code = (case e of OrderError c _ \<Rightarrow> c | _ \<Rightarrow> ''order_outcome_unknown'')\<rparr>"

definition Finish :: "order_request \<Rightarrow> order \<Rightarrow> go_error option \<Rightarrow> order_session \<Rightarrow> order_session" where
  "Finish req ord err s =
     s\<lparr>os_attempts := (os_attempts s)(or_client_order_id req \<mapsto> finished_attempt req ord err)\<rparr>"

definition Attempt :: "string \<Rightarrow> string \<Rightarrow> order_session \<Rightarrow> go_error + order_attempt_state" where
  "Attempt account client s =
     (case os_attempts s client of
        None \<Rightarrow> Inl (PlainError ''order attempt not found; reconcile with broker before resubmitting'')
      | Some a \<Rightarrow> if or_account_id (oa_request a) \<noteq> account
          then Inl (PlainError ''order attempt not found; reconcile with broker before resubmitting'') else Inr a)"

section \<open>The trading service\<close>

text \<open>A provider is an object of type \<open>'p\<close> that acts on a world of type \<open>'w\<close>. The optional interfaces
  are the ones that a type assertion finds: the interactive workflow and the order quotes.\<close>

type_synonym ('w, 'a) call = "'w \<Rightarrow> 'w \<times> (go_error + 'a)"

definition cret :: "'a \<Rightarrow> ('w, 'a) call" where
  "cret x w = (w, Inr x)"

definition cfail :: "go_error \<Rightarrow> ('w, 'a) call" where
  "cfail e w = (w, Inl e)"

definition cbind :: "('w, 'a) call \<Rightarrow> ('a \<Rightarrow> ('w, 'b) call) \<Rightarrow> ('w, 'b) call" where
  "cbind f g w = (case f w of (w', Inl e) \<Rightarrow> (w', Inl e) | (w', Inr x) \<Rightarrow> g x w')"

definition clift :: "('w \<Rightarrow> go_error + 'a) \<Rightarrow> ('w, 'a) call" where
  "clift f w = (w, f w)"

definition cguard :: "bool \<Rightarrow> go_error \<Rightarrow> ('w, unit) call" where
  "cguard ok e w = (w, if ok then Inr () else Inl e)"

lemma call_simps [simp]:
  "cret x w = (w, Inr x)" "cfail e w = (w, Inl e)" "clift f w = (w, f w)"
  "cguard ok e w = (w, if ok then Inr () else Inl e)"
  by (simp_all add: cret_def cfail_def clift_def cguard_def)

record 'w order_workflow_provider =
  wf_order_attempt :: "string \<Rightarrow> string \<Rightarrow> ('w, order_attempt_state) call"
  wf_trading_accounts :: "('w, trading_account list) call"
  wf_search_instruments :: "string \<Rightarrow> ('w, instrument_ref list) call"
  wf_order_instrument :: "string \<Rightarrow> ('w, instrument_ref) call"
  wf_preview_order :: "order_request \<Rightarrow> ('w, order_preview) call"
  wf_reply_order :: "string \<Rightarrow> string \<Rightarrow> bool \<Rightarrow> ('w, order) call"

record 'w trading_provider =
  tp_place_order :: "order_request \<Rightarrow> ('w, order) call"
  tp_get_order :: "string \<Rightarrow> string \<Rightarrow> ('w, order) call"
  tp_list_orders :: "order_query \<Rightarrow> ('w, order list) call"
  tp_cancel_order :: "string \<Rightarrow> string \<Rightarrow> ('w, unit) call"
  tp_workflow :: "'w order_workflow_provider option"
  tp_quotes :: "(string \<Rightarrow> ('w, order_quote) call) option"

type_synonym 'w trading_service = "int \<rightharpoonup> 'w trading_provider"

definition NewTradingService :: "'w trading_service" where
  "NewTradingService = Map.empty"

definition Replace :: "'w trading_service \<Rightarrow> 'w trading_service \<Rightarrow> 'w trading_service" where
  "Replace providers s = providers"

definition providerLocked :: "'w trading_service \<Rightarrow> int \<Rightarrow> go_error + 'w trading_provider" where
  "providerLocked s i = (case s i of
     None \<Rightarrow> Inl (PlainError (''trading connection '' @ int_str i @ '' is unavailable''))
   | Some p \<Rightarrow> Inr p)"

definition workflowLocked :: "'w trading_service \<Rightarrow> int \<Rightarrow> go_error + 'w order_workflow_provider" where
  "workflowLocked s i = rbind (providerLocked s i) (\<lambda>p. case tp_workflow p of
     None \<Rightarrow> Inl (PlainError ''this connection does not support interactive order entry'')
   | Some w \<Rightarrow> Inr w)"

definition on_provider :: "go_error + 'p \<Rightarrow> ('p \<Rightarrow> ('w, 'a) call) \<Rightarrow> ('w, 'a) call" where
  "on_provider found f w = (case found of Inl e \<Rightarrow> (w, Inl e) | Inr p \<Rightarrow> f p w)"

definition PlaceOrder :: "'w trading_service \<Rightarrow> int \<Rightarrow> order_request \<Rightarrow> ('w, order) call" where
  "PlaceOrder s i r = on_provider (providerLocked s i) (\<lambda>p. tp_place_order p r)"

definition GetOrder :: "'w trading_service \<Rightarrow> int \<Rightarrow> string \<Rightarrow> string \<Rightarrow> ('w, order) call" where
  "GetOrder s i account ord = on_provider (providerLocked s i) (\<lambda>p. tp_get_order p account ord)"

definition ListOrders :: "'w trading_service \<Rightarrow> int \<Rightarrow> order_query \<Rightarrow> ('w, order list) call" where
  "ListOrders s i q = on_provider (providerLocked s i) (\<lambda>p. tp_list_orders p q)"

definition CancelOrder :: "'w trading_service \<Rightarrow> int \<Rightarrow> string \<Rightarrow> string \<Rightarrow> ('w, unit) call" where
  "CancelOrder s i account ord = on_provider (providerLocked s i) (\<lambda>p. tp_cancel_order p account ord)"

definition TradingAccounts :: "'w trading_service \<Rightarrow> int \<Rightarrow> ('w, trading_account list) call" where
  "TradingAccounts s i = on_provider (workflowLocked s i) wf_trading_accounts"

definition SearchOrderInstruments :: "'w trading_service \<Rightarrow> int \<Rightarrow> string \<Rightarrow> ('w, instrument_ref list) call" where
  "SearchOrderInstruments s i q = on_provider (workflowLocked s i) (\<lambda>p. wf_search_instruments p q)"

definition OrderInstrument :: "'w trading_service \<Rightarrow> int \<Rightarrow> string \<Rightarrow> ('w, instrument_ref) call" where
  "OrderInstrument s i con = on_provider (workflowLocked s i) (\<lambda>p. wf_order_instrument p con)"

definition PreviewOrder :: "'w trading_service \<Rightarrow> int \<Rightarrow> order_request \<Rightarrow> ('w, order_preview) call" where
  "PreviewOrder s i r = on_provider (workflowLocked s i) (\<lambda>p. wf_preview_order p r)"

definition ReplyOrder :: "'w trading_service \<Rightarrow> int \<Rightarrow> string \<Rightarrow> string \<Rightarrow> bool \<Rightarrow> ('w, order) call" where
  "ReplyOrder s i account reply confirmed =
     on_provider (workflowLocked s i) (\<lambda>p. wf_reply_order p account reply confirmed)"

definition OrderAttempt :: "'w trading_service \<Rightarrow> int \<Rightarrow> string \<Rightarrow> string \<Rightarrow> ('w, order_attempt_state) call" where
  "OrderAttempt s i account client = on_provider (workflowLocked s i) (\<lambda>p. wf_order_attempt p account client)"

definition OrderQuote :: "'w trading_service \<Rightarrow> int \<Rightarrow> string \<Rightarrow> ('w, order_quote) call" where
  "OrderQuote s i con = on_provider (rbind (providerLocked s i) (\<lambda>p. case tp_quotes p of
     None \<Rightarrow> Inl (PlainError ''this connection does not support order quotes'') | Some q \<Rightarrow> Inr q)) (\<lambda>q. q con)"

section \<open>Shared by the adapters\<close>

named_theorems quiet \<open>calls that leave submissions alone\<close>

text \<open>Decoding the answers. \<open>null\<close> leaves a zero value. The error of a failed decoding keeps the words of
  the program and leaves out those of the decoder.\<close>

definition obj_entries :: "json \<Rightarrow> (string \<times> json) list option" where
  "obj_entries j = (case j of JObj kvs \<Rightarrow> Some kvs | JNull \<Rightarrow> Some [] | _ \<Rightarrow> None)"

definition strs_of :: "(string \<times> json) list \<Rightarrow> string list \<Rightarrow> string list option" where
  "strs_of kvs names = those (map (\<lambda>n. str_field n kvs) names)"

definition bools_of :: "(string \<times> json) list \<Rightarrow> string list \<Rightarrow> bool list option" where
  "bools_of kvs names = those (map (\<lambda>n. bool_field n kvs) names)"

definition decoded :: "string \<Rightarrow> (json \<Rightarrow> 'a option) \<Rightarrow> json option \<Rightarrow> go_error + 'a" where
  "decoded msg dec body = (case Option.bind body dec of None \<Rightarrow> Inl (PlainError msg) | Some x \<Rightarrow> Inr x)"

abbreviation invalid :: "string \<Rightarrow> go_error" where
  "invalid \<equiv> NewOrderError ''invalid_order''"

definition f_nonzero :: "gofloat \<Rightarrow> bool" where
  "f_nonzero x \<longleftrightarrow> \<not> f_eq x f_zero"

text \<open>The error of a call, and the order that the deferred \<open>Finish\<close> records with it.\<close>

definition outcome_order :: "go_error + order \<Rightarrow> order" where
  "outcome_order res = (case res of Inl _ \<Rightarrow> zero_order | Inr ord \<Rightarrow> ord)"

definition outcome_error :: "go_error + order \<Rightarrow> go_error option" where
  "outcome_error res = (case res of Inl e \<Rightarrow> Some e | Inr _ \<Rightarrow> None)"

text \<open>A repeated request returns the recorded order together with the recorded error; the pair is one
  result here, the error when there is one.\<close>

definition replayed :: "order_attempt_state \<Rightarrow> go_error + order" where
  "replayed a = (if oa_code a \<noteq> [] then Inl (NewOrderError (oa_code a) (oa_error a)) else Inr (oa_order a))"

definition posts :: "http_request list \<Rightarrow> http_request list" where
  "posts lg = filter (\<lambda>q. rq_method q = ''POST'') lg"

definition body_key :: "http_request \<Rightarrow> string" where
  "body_key q = (case rq_body q of
     Some (JObj kvs) \<Rightarrow> (case obj_get kvs ''client_order_id'' of JStr s \<Rightarrow> s | _ \<Rightarrow> []) | _ \<Rightarrow> [])"

section \<open>Submissions in flight\<close>

text \<open>One session and every submission that runs on it. A submission that \<open>Begin\<close> let through is
  first \<open>Begun\<close>, becomes \<open>Sent\<close> when its request leaves for the broker, and ends with \<open>Finish\<close>.
  Submissions interleave freely with each other and with previews.\<close>

datatype phase = Begun | Sent

record submissions =
  sb_session :: order_session
  sb_running :: "(order_request \<times> phase) list"
  sb_sent :: "order_request list"

definition no_submissions :: submissions where
  "no_submissions = \<lparr>sb_session = new_session, sb_running = [], sb_sent = []\<rparr>"

inductive gate_step :: "submissions \<Rightarrow> submissions \<Rightarrow> bool" where
  remember: "gate_step g (g\<lparr>sb_session := fst (RememberInstrument i (sb_session g))\<rparr>)"
| preview: "gate_step g (g\<lparr>sb_session := RememberPreview now req (sb_session g)\<rparr>)"
| proceed: "Begin now req (sb_session g) = (s, Inr (a, False)) \<Longrightarrow>
    gate_step g (g\<lparr>sb_session := s, sb_running := (req, Begun) # sb_running g\<rparr>)"
| turned_away: "Begin now req (sb_session g) = (s, Inl e) \<or> Begin now req (sb_session g) = (s, Inr (a, True)) \<Longrightarrow>
    gate_step g (g\<lparr>sb_session := s\<rparr>)"
| transmit: "sb_running g = as @ (req, Begun) # bs \<Longrightarrow>
    gate_step g (g\<lparr>sb_running := as @ (req, Sent) # bs, sb_sent := req # sb_sent g\<rparr>)"
| finish: "sb_running g = as @ (req, ph) # bs \<Longrightarrow>
    gate_step g (g\<lparr>sb_session := Finish req ord err (sb_session g), sb_running := as @ bs\<rparr>)"

inductive gate_reach :: "submissions \<Rightarrow> bool" where
  start: "gate_reach no_submissions"
| step: "gate_reach g \<Longrightarrow> gate_step g g' \<Longrightarrow> gate_reach g'"

section \<open>Facts about requests and instruments\<close>

text \<open>An order that passes validation, read as a type: non-negative finite numbers, a side, exactly
  one of a quantity and an amount, and the prices that its type needs.\<close>

definition order_typed :: "order_request \<Rightarrow> bool" where
  "order_typed r \<longleftrightarrow>
     (\<exists>q n l st tp tc. [or_quantity r, or_notional r, or_limit_price r, or_stop_price r, or_trail_price r, or_trail_percent r]
          = map Num [q, n, l, st, tp, tc] \<and> 0 \<le> q \<and> 0 \<le> n \<and> 0 \<le> l \<and> 0 \<le> st \<and> 0 \<le> tp \<and> 0 \<le> tc \<and>
        (0 < q \<and> n = 0 \<or> q = 0 \<and> 0 < n) \<and>
        (or_order_type r = ''market'' \<or> or_order_type r = ''limit'' \<and> 0 < l \<or> or_order_type r = ''stop'' \<and> 0 < st \<or>
         or_order_type r = ''stop_limit'' \<and> 0 < st \<and> 0 < l \<or>
         or_order_type r = ''trailing_stop'' \<and> (0 < tp \<and> tc = 0 \<or> tp = 0 \<and> 0 < tc))) \<and>
     trim_space (or_account_id r) \<noteq> [] \<and> (trim_space (or_symbol r) \<noteq> [] \<or> trim_space (or_instrument_id r) \<noteq> []) \<and>
     or_side r \<in> {''buy'', ''sell''} \<and> trim_space (or_time_in_force r) \<noteq> []"

lemma number_ok: "f_finite x \<and> \<not> f_less x f_zero \<longleftrightarrow> (\<exists>a\<ge>0. x = Num a)"
  by (cases x) auto

lemma request_numbers_ok:
  "(\<exists>v\<in>set (request_numbers r). \<not> f_finite v \<or> f_less v f_zero) \<longleftrightarrow>
   \<not> (\<forall>v\<in>set (request_numbers r). \<exists>a\<ge>0. v = Num a)"
  using number_ok by auto

lemma same_request_refl: "\<forall>v\<in>set (request_numbers r). f_finite v \<Longrightarrow> same_request r r"
  by (simp add: same_request_def request_numbers_def f_eq_finite)

lemma same_request_finite:
  "\<forall>v\<in>set (request_numbers r). f_finite v \<Longrightarrow> same_request r q \<longleftrightarrow> r = q"
  by (cases r; cases q) (auto simp: same_request_def request_numbers_def f_eq_finite)

lemma f_eq_imp: "f_eq x y \<Longrightarrow> x = y"
  by (cases x) auto

lemma same_request_imp: "same_request r q \<Longrightarrow> r = q"
  by (cases r; cases q) (auto simp: same_request_def dest!: f_eq_imp)

lemma con_id_mask: "push_bit 53 1 - 1 = (mask 53 :: 64 word)"
  by (simp add: mask_eq_decr_exp)

lemma con_id_range: "1 \<le> con_id_of s" "con_id_of s < 2 ^ 53"
proof -
  have e: "uint (fnv1a s AND mask 53) = take_bit 53 (uint (fnv1a s))"
    by (simp flip: take_bit_eq_mask add: unsigned_take_bit_eq)
  have l: "take_bit 53 (uint (fnv1a s)) < 2 ^ 53" by (rule take_bit_int_less_exp)
  have "1 \<le> take_bit 53 (uint (fnv1a s))" if "take_bit 53 (uint (fnv1a s)) \<noteq> 0"
    using take_bit_nonnegative [of 53 "uint (fnv1a s)"] that by linarith
  with l show "1 \<le> con_id_of s" "con_id_of s < 2 ^ 53"
    unfolding con_id_of_def con_id_mask e Let_def by auto
qed

lemma con_id_int64 [simp]: "in_int64 (con_id_of s)"
  using con_id_range [of s] by (simp add: in_int64_def int64_min_def int64_max_def)

section \<open>Facts about the gate\<close>

lemma begin_proceeds_iff:
  "Begin now req s = (s', Inr (a, False)) \<longleftrightarrow>
     or_client_order_id req \<noteq> [] \<and> os_attempts s (or_client_order_id req) = None \<and>
     (\<exists>shown. os_previews s (or_client_order_id req) = Some (req, shown) \<and> same_request req req \<and>
        now - shown \<le> preview_lifetime) \<and>
     s' = s\<lparr>os_attempts := (os_attempts s)(or_client_order_id req \<mapsto>
                        \<lparr>oa_request = req, oa_order = zero_order,
                         oa_error = ''submission is in progress; check broker status before trying again'',
                         oa_code = ''order_outcome_unknown''\<rparr>),
                      os_previews := (os_previews s)(or_client_order_id req := None)\<rparr> \<and> a = zero_attempt"
  by (auto simp: Begin_def split: option.splits if_splits dest: same_request_imp)

lemma begin_turned_away:
  "Begin now req s = (s', Inl e) \<Longrightarrow> s' = s"
  "Begin now req s = (s', Inr (a, True)) \<Longrightarrow>
     s' = s \<and> os_attempts s (or_client_order_id req) = Some a \<and> oa_request a = req"
  by (auto simp: Begin_def split: option.splits if_splits dest: same_request_imp)

lemma begin_unchanged: "Begin now req s = (s', b) \<Longrightarrow> (\<nexists>a. b = Inr (a, False)) \<Longrightarrow> s' = s"
  by (auto simp: Begin_def split: option.splits if_splits)

lemma begin_attempts:
  "os_attempts (fst (Begin now req s)) k = os_attempts s k \<or> k = or_client_order_id req \<and> os_attempts s k = None"
  by (auto simp: Begin_def split: option.splits if_splits)

lemma session_attempts [simp]:
  "os_attempts (fst (RememberInstrument i s)) = os_attempts s"
  "os_attempts (RememberPreview now req s) = os_attempts s"
  "os_attempts (Finish req ord err s) = (os_attempts s)(or_client_order_id req \<mapsto> finished_attempt req ord err)"
  by (simp_all add: RememberInstrument_def RememberPreview_def Finish_def Let_def)

lemma finished_request [simp]: "oa_request (finished_attempt req ord err) = req"
  by (cases err) auto

definition gate_ids :: "submissions \<Rightarrow> string list" where
  "gate_ids g = map (or_client_order_id \<circ> fst) (sb_running g)"

definition gate_inv :: "submissions \<Rightarrow> bool" where
  "gate_inv g \<longleftrightarrow> distinct (gate_ids g) \<and> distinct (map or_client_order_id (sb_sent g)) \<and>
     (\<forall>r \<in> fst ` set (sb_running g) \<union> set (sb_sent g).
        \<exists>a. os_attempts (sb_session g) (or_client_order_id r) = Some a \<and> oa_request a = r) \<and>
     (\<forall>r \<in> set (sb_sent g). (r, Begun) \<notin> set (sb_running g))"

lemma gate_inv_start: "gate_inv no_submissions"
  by (simp add: gate_inv_def no_submissions_def gate_ids_def)

lemma gate_inv_session:
  assumes "gate_inv g" "\<And>k a. os_attempts (sb_session g) k = Some a \<Longrightarrow> os_attempts s k = Some a"
  shows "gate_inv (g\<lparr>sb_session := s\<rparr>)"
proof -
  have "gate_ids (g\<lparr>sb_session := s\<rparr>) = gate_ids g" by (simp add: gate_ids_def)
  then show ?thesis using assms by (simp add: gate_inv_def) meson
qed

lemma gate_inv_known:
  assumes "gate_inv g" "r \<in> fst ` set (sb_running g) \<union> set (sb_sent g)"
  shows "\<exists>a. os_attempts (sb_session g) (or_client_order_id r) = Some a \<and> oa_request a = r"
  using assms by (simp add: gate_inv_def)

lemma gate_inv_inj:
  assumes "gate_inv g" "r \<in> fst ` set (sb_running g) \<union> set (sb_sent g)"
    "q \<in> fst ` set (sb_running g) \<union> set (sb_sent g)" "or_client_order_id r = or_client_order_id q"
  shows "r = q"
proof -
  obtain a b where "os_attempts (sb_session g) (or_client_order_id r) = Some a" "oa_request a = r"
    "os_attempts (sb_session g) (or_client_order_id q) = Some b" "oa_request b = q"
    using gate_inv_known [OF assms(1,2)] gate_inv_known [OF assms(1,3)] by blast
  with assms(4) show ?thesis by simp
qed

lemma gate_inv_proceed:
  assumes proceed: "Begin now req (sb_session g) = (s, Inr (a, False))" "gate_inv g"
  shows "gate_inv (g\<lparr>sb_session := s, sb_running := (req, Begun) # sb_running g\<rparr>)"
proof -
  note p = proceed(1) [unfolded begin_proceeds_iff]
  have fresh: "or_client_order_id req \<notin> or_client_order_id ` (fst ` set (sb_running g) \<union> set (sb_sent g))"
    using gate_inv_known [OF proceed(2)] p by force
  then have new: "req \<notin> fst ` set (sb_running g)" "\<forall>r\<in>set (sb_sent g). r \<noteq> req" by blast+
  have "\<exists>a. os_attempts s (or_client_order_id r) = Some a \<and> oa_request a = r"
    if "r \<in> insert req (fst ` set (sb_running g) \<union> set (sb_sent g))" for r
  proof (cases "r = req")
    case True
    then show ?thesis using p by simp
  next
    case False
    then have r: "r \<in> fst ` set (sb_running g) \<union> set (sb_sent g)" using that by blast
    then have "or_client_order_id r \<noteq> or_client_order_id req" using fresh by (metis imageI)
    then show ?thesis using gate_inv_known [OF proceed(2) r] p by simp
  qed
  then show ?thesis using proceed(2) fresh new
    by (simp add: gate_inv_def gate_ids_def image_Un image_image)
qed

lemma gate_inv_transmit:
  assumes transmit: "sb_running g = as @ (req, Begun) # bs" "gate_inv g"
  shows "gate_inv (g\<lparr>sb_running := as @ (req, Sent) # bs, sb_sent := req # sb_sent g\<rparr>)"
proof -
  have b: "(req, Begun) \<in> set (sb_running g)" using transmit(1) by simp
  then have m: "req \<in> fst ` set (sb_running g) \<union> set (sb_sent g)" by force
  have d: "or_client_order_id req \<notin> or_client_order_id ` set (sb_sent g)"
  proof
    assume "or_client_order_id req \<in> or_client_order_id ` set (sb_sent g)"
    then obtain q where q: "q \<in> set (sb_sent g)" "or_client_order_id req = or_client_order_id q" by blast
    with gate_inv_inj [OF transmit(2) m, of q] have "req \<in> set (sb_sent g)" by blast
    then show False using transmit(2) b unfolding gate_inv_def by blast
  qed
  have r: "req \<notin> fst ` set as" "req \<notin> fst ` set bs"
    using transmit unfolding gate_inv_def gate_ids_def by (auto simp: image_iff)
  let ?g = "g\<lparr>sb_running := as @ (req, Sent) # bs, sb_sent := req # sb_sent g\<rparr>"
  have "gate_ids ?g = gate_ids g" using transmit(1) by (simp add: gate_ids_def)
  then have 1: "distinct (gate_ids ?g)" "distinct (map or_client_order_id (sb_sent ?g))"
    using transmit(2) d unfolding gate_inv_def by simp_all
  have u: "fst ` set (sb_running ?g) \<union> set (sb_sent ?g) = fst ` set (sb_running g) \<union> set (sb_sent g)"
    using transmit(1) by auto
  have 2: "\<forall>r \<in> fst ` set (sb_running ?g) \<union> set (sb_sent ?g).
      \<exists>a. os_attempts (sb_session ?g) (or_client_order_id r) = Some a \<and> oa_request a = r"
    unfolding u using gate_inv_known [OF transmit(2)] by simp
  have "(q, Begun) \<notin> set (sb_running ?g)" if "q \<in> set (sb_sent ?g)" for q
  proof (cases "q = req")
    case True
    then show ?thesis using r by (auto simp: image_iff)
  next
    case False
    then have "q \<in> set (sb_sent g)" using that by simp
    then have "(q, Begun) \<notin> set (sb_running g)" using transmit(2) unfolding gate_inv_def by blast
    then show ?thesis using transmit(1) by simp
  qed
  with 1 2 show ?thesis unfolding gate_inv_def by blast
qed

lemma gate_inv_finish:
  assumes finish: "sb_running g = as @ (req, ph) # bs" "gate_inv g"
  shows "gate_inv (g\<lparr>sb_session := Finish req ord err (sb_session g), sb_running := as @ bs\<rparr>)"
proof -
  have m: "req \<in> fst ` set (sb_running g) \<union> set (sb_sent g)" using finish(1) by force
  have u: "fst ` set (as @ bs) \<union> set (sb_sent g) \<subseteq> fst ` set (sb_running g) \<union> set (sb_sent g)"
    using finish(1) by auto
  have 1: "\<exists>a. os_attempts (Finish req ord err (sb_session g)) (or_client_order_id r) = Some a \<and> oa_request a = r"
    if "r \<in> fst ` set (as @ bs) \<union> set (sb_sent g)" for r
  proof (cases "or_client_order_id r = or_client_order_id req")
    case True
    then have "r = req" using gate_inv_inj [OF finish(2) subsetD [OF u that] m] by simp
    then show ?thesis by simp
  next
    case False
    then show ?thesis using gate_inv_known [OF finish(2) subsetD [OF u that]] by simp
  qed
  have 2: "distinct (map (or_client_order_id \<circ> fst) (as @ bs))" "distinct (map or_client_order_id (sb_sent g))"
    using finish unfolding gate_inv_def gate_ids_def by auto
  have 3: "\<forall>r\<in>set (sb_sent g). (r, Begun) \<notin> set (as @ bs)"
    using finish unfolding gate_inv_def by simp
  from 1 2 3 show ?thesis by (simp add: gate_inv_def gate_ids_def)
qed

lemma gate_inv_step: "gate_step g g' \<Longrightarrow> gate_inv g \<Longrightarrow> gate_inv g'"
proof (induction rule: gate_step.induct)
  case (remember g i)
  then show ?case by (simp add: gate_inv_session)
next
  case (preview g now req)
  then show ?case by (simp add: gate_inv_session)
next
  case (turned_away now req g s e a)
  then have "s = sb_session g" using begin_turned_away by blast
  then show ?case using turned_away by simp
next
  case (proceed now req g s a)
  then show ?case by (rule gate_inv_proceed)
next
  case (transmit g as req bs)
  then show ?case by (rule gate_inv_transmit)
next
  case (finish g as req ph bs ord err)
  then show ?case by (rule gate_inv_finish)
qed

lemma gate_reach_inv: "gate_reach g \<Longrightarrow> gate_inv g"
  by (induction rule: gate_reach.induct) (auto intro: gate_inv_start gate_inv_step)

lemma gate_step_keeps:
  assumes "gate_step g g'" "os_attempts (sb_session g) k = Some a" "k \<notin> set (gate_ids g)"
  shows "os_attempts (sb_session g') k = Some a \<and> k \<notin> set (gate_ids g')"
  using assms
proof (induction rule: gate_step.induct)
  case (turned_away now req g s e b)
  then have "s = sb_session g" using begin_turned_away by blast
  then show ?case using turned_away by (simp add: gate_ids_def)
next
  case (proceed now req g s b)
  note p = proceed(1) [unfolded begin_proceeds_iff]
  then have "k \<noteq> or_client_order_id req" using proceed(2) by auto
  then show ?case using proceed(2,3) p by (simp add: gate_ids_def)
qed (auto simp: gate_ids_def)

section \<open>Clients of a gate\<close>

text \<open>What a call leaves unchanged.\<close>

definition keeps :: "('w \<Rightarrow> 'v) \<Rightarrow> ('w, 'a) call \<Rightarrow> bool" where
  "keeps view f \<longleftrightarrow> (\<forall>w. view (fst (f w)) = view w)"

lemma keepsD: "keeps view f \<Longrightarrow> f w = (w', r) \<Longrightarrow> view w' = view w"
  unfolding keeps_def by (metis fst_conv)

lemma keeps_simps [simp]: "keeps view (cret x)" "keeps view (cfail e)" "keeps view (clift f)"
  by (simp_all add: keeps_def)

lemma keeps_cbind_result:
  "keeps view f \<Longrightarrow> (\<And>x w w'. f w = (w', Inr x) \<Longrightarrow> keeps view (g x)) \<Longrightarrow> keeps view (cbind f g)"
  unfolding keeps_def cbind_def by (auto split: prod.splits sum.splits) (metis fst_conv)+

lemma keeps_cbind: "keeps view f \<Longrightarrow> (\<And>x. keeps view (g x)) \<Longrightarrow> keeps view (cbind f g)"
  by (rule keeps_cbind_result)

text \<open>The calls that reach an adapter from outside, whatever the broker, and the contract of an adapter
  that guards its submissions: placing an order transmits nothing, or transmits it under an id that
  was not known and is known from then on; no other call transmits an order or forgets an id.\<close>

datatype client_call =
  CallAccounts
| CallSearch string
| CallInstrument string
| CallQuote instant string
| CallPreview instant order_request
| CallPlace instant order_request
| CallReply instant string string bool
| CallAttempt string string
| CallGet instant string string
| CallList instant order_query
| CallCancel instant string string

fun placing :: "client_call \<Rightarrow> order_request option" where
  "placing (CallPlace _ r) = Some r"
| "placing _ = None"

locale order_client =
  fixes run :: "client_call \<Rightarrow> 's \<Rightarrow> 's"
    and sent :: "'s \<Rightarrow> string list"
    and known :: "'s \<Rightarrow> string set"
  assumes other_calls: "placing q = None \<Longrightarrow> sent (run q s) = sent s \<and> known s \<subseteq> known (run q s)"
    and place_order: "placing q = Some r \<Longrightarrow>
      sent (run q s) = sent s \<and> known s \<subseteq> known (run q s) \<or>
      or_client_order_id r \<notin> known s \<and> sent (run q s) = sent s @ [or_client_order_id r] \<and>
        known (run q s) = insert (or_client_order_id r) (known s)"
begin

lemma run_cases:
  "sent (run q s) = sent s \<and> known s \<subseteq> known (run q s) \<or>
   (\<exists>r. placing q = Some r \<and> or_client_order_id r \<notin> known s \<and> sent (run q s) = sent s @ [or_client_order_id r] \<and>
      known (run q s) = insert (or_client_order_id r) (known s))"
  using other_calls [of q s] place_order [of q _ s] by (cases "placing q") blast+

lemma run_step:
  assumes "distinct (sent s) \<and> set (sent s) \<subseteq> known s"
  shows "distinct (sent (run q s)) \<and> set (sent (run q s)) \<subseteq> known (run q s)"
  using run_cases [of q s] assms by auto

lemma sent_once:
  assumes "distinct (sent s)" "set (sent s) \<subseteq> known s"
  shows "distinct (sent (foldl (\<lambda>s q. run q s) s qs)) \<and>
    set (sent (foldl (\<lambda>s q. run q s) s qs)) \<subseteq> known (foldl (\<lambda>s q. run q s) s qs)"
  using assms
proof (induction qs arbitrary: s)
  case (Cons q qs)
  then show ?case using run_step [of s q] by simp
qed simp

lemma known_grows: "known s \<subseteq> known (foldl (\<lambda>s q. run q s) s qs)"
proof (induction qs arbitrary: s)
  case (Cons q qs)
  have "known s \<subseteq> known (run q s)" using run_cases [of q s] by auto
  with Cons [of "run q s"] show ?case by simp
qed simp

lemma sent_prefix: "prefix (sent s) (sent (foldl (\<lambda>s q. run q s) s qs))"
proof (induction qs rule: rev_induct)
  case (snoc p ps)
  then show ?case using run_cases [of p "foldl (\<lambda>s q. run q s) s ps"] by (auto intro: prefix_order.trans)
qed simp

lemma sent_requests:
  "sent (foldl (\<lambda>s q. run q s) s qs) = sent s @ ids \<Longrightarrow>
   set ids \<subseteq> set (map or_client_order_id (List.map_filter placing qs))"
proof (induction qs arbitrary: s ids)
  case (Cons q qs)
  obtain ids' where i: "sent (foldl (\<lambda>s q. run q s) (run q s) qs) = sent (run q s) @ ids'"
    using sent_prefix [of "run q s" qs] by (auto elim: prefixE)
  note ih = Cons.IH [OF i]
  have "ids = ids' \<or> (\<exists>r. placing q = Some r \<and> ids = or_client_order_id r # ids')"
    using run_cases [of q s] Cons.prems i by auto
  then show ?case using ih by (auto simp: List.map_filter_simps split: option.splits)
qed simp

end

section \<open>Properties\<close>

text \<open>C9: an order that passes validation is well typed, and comparing it with another request as
  Go does is then plain equality. Every well-typed order passes.\<close>

theorem validate_order_typed:
  "(ValidateOrder r = None \<longleftrightarrow> order_typed r)
   \<and> (ValidateOrder r = None \<longrightarrow> (\<forall>q. same_request r q \<longleftrightarrow> r = q))"
proof
  show e: "ValidateOrder r = None \<longleftrightarrow> order_typed r"
  proof (cases "\<forall>v\<in>set (request_numbers r). \<exists>a\<ge>0. v = Num a")
    case True
    then obtain q n l st tp tc where v: "or_quantity r = Num q" "or_notional r = Num n" "or_limit_price r = Num l"
      "or_stop_price r = Num st" "or_trail_price r = Num tp" "or_trail_percent r = Num tc"
      and p: "0 \<le> q" "0 \<le> n" "0 \<le> l" "0 \<le> st" "0 \<le> tp" "0 \<le> tc"
      unfolding request_numbers_def by auto
    have ne: "ValidateOrder r = None \<longleftrightarrow> trim_space (or_account_id r) \<noteq> [] \<and>
        (trim_space (or_symbol r) \<noteq> [] \<or> trim_space (or_instrument_id r) \<noteq> []) \<and> or_side r \<in> {''buy'', ''sell''} \<and>
        (0 < q) \<noteq> (0 < n) \<and> order_type_error r = None \<and> trim_space (or_time_in_force r) \<noteq> []"
      unfolding ValidateOrder_def request_numbers_ok using True v by (auto split: option.splits)
    have t: "order_type_error r = None \<longleftrightarrow> or_order_type r = ''market'' \<or> or_order_type r = ''limit'' \<and> 0 < l \<or>
        or_order_type r = ''stop'' \<and> 0 < st \<or> or_order_type r = ''stop_limit'' \<and> 0 < st \<and> 0 < l \<or>
        or_order_type r = ''trailing_stop'' \<and> (0 < tp \<and> tc = 0 \<or> tp = 0 \<and> 0 < tc)"
      using p v by (auto simp: order_type_error_def)
    show ?thesis unfolding ne t order_typed_def using v p by auto
  next
    case False
    then have "ValidateOrder r \<noteq> None" unfolding ValidateOrder_def request_numbers_ok by simp
    moreover have "\<not> order_typed r" using False unfolding order_typed_def request_numbers_def by force
    ultimately show ?thesis by simp
  qed
  show "ValidateOrder r = None \<longrightarrow> (\<forall>q. same_request r q \<longleftrightarrow> r = q)"
    unfolding e using same_request_finite [of r] by (auto simp: order_typed_def request_numbers_def)
qed

definition example_order :: order_request where
  "example_order = zero_request\<lparr>or_account_id := ''U1'', or_symbol := ''AAPL'', or_instrument_id := ''265598'',
     or_asset_class := ''equity'', or_side := ''buy'', or_order_type := ''limit'', or_quantity := Num 3,
     or_limit_price := Num (301 / 2), or_time_in_force := ''day'', or_client_order_id := ''c-1'', or_currency := ''USD''\<rparr>"

theorem validate_order_typed_witness:
  "same_request example_order (example_order\<lparr>or_quantity := Num 4\<rparr>) \<longleftrightarrow>
     example_order = example_order\<lparr>or_quantity := Num 4\<rparr>"
proof -
  have "ValidateOrder example_order = None" by code_simp
  then show ?thesis using validate_order_typed [of example_order] by blast
qed

text \<open>C10: whatever previews, submissions and completions interleave on one session, no client order
  id is ever transmitted twice, what was transmitted under an id is the request recorded for it, and
  no further call of \<open>Begin\<close> under that id is let through, whatever its request and time.\<close>

theorem sent_at_most_once:
  assumes "gate_reach g"
  shows "distinct (map or_client_order_id (sb_sent g))
    \<and> (\<forall>r\<in>set (sb_sent g). \<exists>a. os_attempts (sb_session g) (or_client_order_id r) = Some a \<and> oa_request a = r)
    \<and> (\<forall>r\<in>set (sb_sent g). \<forall>now req s a. or_client_order_id req = or_client_order_id r \<longrightarrow>
          Begin now req (sb_session g) \<noteq> (s, Inr (a, False)))"
proof -
  note i = gate_reach_inv [OF assms]
  have k: "\<exists>a. os_attempts (sb_session g) (or_client_order_id r) = Some a \<and> oa_request a = r"
    if "r \<in> set (sb_sent g)" for r using gate_inv_known [OF i] that by blast
  have "Begin now req (sb_session g) \<noteq> (s, Inr (a, False))"
    if "r \<in> set (sb_sent g)" "or_client_order_id req = or_client_order_id r" for r now req s a
    unfolding begin_proceeds_iff using k [OF that(1)] that(2) by auto
  with i k show ?thesis unfolding gate_inv_def by blast
qed

definition example_session :: order_session where
  "example_session = RememberPreview 100 example_order new_session"

lemma example_begins:
  "\<exists>s. Begin 200 example_order example_session = (s, Inr (zero_attempt, False))"
proof -
  have "same_request example_order example_order" by (simp add: same_request_def example_order_def zero_request_def)
  moreover have "or_client_order_id example_order \<noteq> []" by (simp add: example_order_def)
  moreover have "os_attempts example_session (or_client_order_id example_order) = None"
    "os_previews example_session (or_client_order_id example_order) = Some (example_order, 100)"
    by (simp_all add: example_session_def new_session_def RememberPreview_def example_order_def)
  moreover have "200 - 100 \<le> preview_lifetime" by (simp add: preview_lifetime_def ns_per_second_def)
  ultimately show ?thesis unfolding begin_proceeds_iff by blast
qed

lemma example_sent: "\<exists>g. gate_reach g \<and> sb_sent g = [example_order] \<and> sb_running g = [(example_order, Sent)]"
proof -
  have a: "gate_reach (no_submissions\<lparr>sb_session := example_session\<rparr>)"
    using gate_reach.step [OF gate_reach.start gate_step.preview [of no_submissions 100 example_order]]
    by (simp add: example_session_def no_submissions_def)
  obtain s where s: "Begin 200 example_order example_session = (s, Inr (zero_attempt, False))"
    using example_begins by blast
  have b: "gate_reach (no_submissions\<lparr>sb_session := s, sb_running := [(example_order, Begun)]\<rparr>)"
    using gate_reach.step [OF a gate_step.proceed [of 200 example_order _ s zero_attempt]] s
    by (simp add: no_submissions_def)
  show ?thesis
    using gate_reach.step [OF b gate_step.transmit [of _ "[]" example_order "[]"]]
    by (intro exI conjI) (auto simp: no_submissions_def)
qed

theorem sent_at_most_once_witness:
  "\<exists>g. gate_reach g \<and> sb_sent g = [example_order] \<and>
     (\<exists>a. os_attempts (sb_session g) ''c-1'' = Some a \<and> oa_request a = example_order)"
proof -
  obtain g where g: "gate_reach g" "sb_sent g = [example_order]" using example_sent by blast
  have "or_client_order_id example_order = ''c-1''" by (simp add: example_order_def)
  with sent_at_most_once [OF g(1)] g show ?thesis by auto
qed

text \<open>an outcome is final. Once a submission has finished, nothing that any caller does on the
  session changes what is recorded for its id, and every repetition of the request gets exactly that
  record back.\<close>

theorem outcome_is_final:
  assumes "gate_reach g" "gate_step\<^sup>*\<^sup>* g g'" "os_attempts (sb_session g) k = Some a"
    "k \<notin> or_client_order_id ` fst ` set (sb_running g)"
  shows "os_attempts (sb_session g') k = Some a
    \<and> Attempt (or_account_id (oa_request a)) k (sb_session g') = Inr a
    \<and> (\<forall>now. k \<noteq> [] \<and> or_client_order_id (oa_request a) = k \<and> (\<forall>v\<in>set (request_numbers (oa_request a)). f_finite v) \<longrightarrow>
         Begin now (oa_request a) (sb_session g') = (sb_session g', Inr (a, True)))"
proof -
  have "k \<notin> set (gate_ids g)" using assms(4) by (simp add: gate_ids_def image_image)
  with assms(2,3) have "os_attempts (sb_session g') k = Some a \<and> k \<notin> set (gate_ids g')"
    by (induction rule: rtranclp_induct) (auto dest: gate_step_keeps)
  then show ?thesis by (simp add: Attempt_def Begin_def same_request_refl)
qed

theorem outcome_is_final_witness:
  "\<exists>g. gate_reach g \<and> Attempt ''U1'' ''c-1'' (sb_session g) = Inr (finished_attempt example_order zero_order None)"
proof -
  obtain g where g: "gate_reach g" "sb_running g = [(example_order, Sent)]" using example_sent by blast
  define h where "h = g\<lparr>sb_session := Finish example_order zero_order None (sb_session g), sb_running := []\<rparr>"
  have r: "gate_reach h"
    using gate_reach.step [OF g(1) gate_step.finish [of g "[]" example_order Sent "[]" zero_order None]] g(2)
    by (simp add: h_def)
  have h: "os_attempts (sb_session h) ''c-1'' = Some (finished_attempt example_order zero_order None)"
    "sb_running h = []" "or_account_id example_order = ''U1''"
    by (simp_all add: h_def example_order_def)
  have "''c-1'' \<notin> or_client_order_id ` fst ` set (sb_running h)" by (simp add: h(2))
  from outcome_is_final [OF r rtranclp.rtrancl_refl h(1) this] h(3) r show ?thesis by auto
qed

text \<open>A remembered instrument gets an id that a JavaScript number carries exactly, and the text of
  that id finds it again; every other selection of the session stays as it was.\<close>

theorem remembered_instrument_found:
  assumes "RememberInstrument i s = (s', i')"
  shows "1 \<le> in_con_id i' \<and> in_con_id i' < 2 ^ 53 \<and> i' = i\<lparr>in_con_id := in_con_id i'\<rparr>
    \<and> Instrument (int_str (in_con_id i')) s' = Inr i'
    \<and> (\<forall>t. parse_int64 t \<noteq> Some (in_con_id i') \<longrightarrow> Instrument t s' = Instrument t s)
    \<and> os_attempts s' = os_attempts s \<and> os_previews s' = os_previews s"
proof -
  have i: "i' = i\<lparr>in_con_id := con_id_of (in_symbol i)\<rparr>"
    "s' = s\<lparr>os_instruments := (os_instruments s)(con_id_of (in_symbol i) \<mapsto> i')\<rparr>"
    using assms by (auto simp: RememberInstrument_def Let_def)
  have "Instrument t s' = Instrument t s" if "parse_int64 t \<noteq> Some (in_con_id i')" for t
    using that i by (auto simp: Instrument_def split: option.splits)
  moreover have "Instrument (int_str (in_con_id i')) s' = Inr i'"
    using i con_id_range(1) [of "in_symbol i"] by (simp add: Instrument_def)
  ultimately show ?thesis using i con_id_range by simp
qed

theorem remembered_instrument_found_witness:
  "in_con_id (snd (RememberInstrument (zero_instrument_ref\<lparr>in_symbol := ''A''\<rparr>) new_session)) < 2 ^ 53
   \<and> in_symbol (snd (RememberInstrument (zero_instrument_ref\<lparr>in_symbol := ''A''\<rparr>) new_session)) = ''A''"
proof -
  let ?r = "RememberInstrument (zero_instrument_ref\<lparr>in_symbol := ''A''\<rparr>) new_session"
  have "in_symbol (snd ?r) = ''A''" by (simp add: RememberInstrument_def Let_def)
  with remembered_instrument_found [of _ _ "fst ?r" "snd ?r"] show ?thesis by simp
qed

end
