(* ===== verification/Alpaca.thy ===== *)
theory Alpaca
  imports Trading
begin

text \<open>
  The Alpaca adapter's trading side: the HTTP client (\<open>internal/broker/alpaca/client.go\<close>), the account
  it trades (\<open>accounts.go\<close>), the order workflow (\<open>order_workflow.go\<close>) and the orders (\<open>orders.go\<close>).

  The client's state holds its configuration, the order session and the log of the HTTP requests that
  left it. Alpaca itself is the argument \<open>remote\<close>. The host name of the base URL is part of the
  state, as \<open>net/url\<close> reads it.
\<close>

section \<open>The client\<close>

record alpaca =
  al_api_key :: string
  al_api_secret :: string
  al_base_url :: string
  al_host :: "string option"
  al_orders :: order_session
  al_log :: "http_request list"

record alpaca_account =
  aa_id :: string
  aa_account_number :: string
  aa_status :: string
  aa_currency :: string
  aa_cash :: string
  aa_portfolio_value :: string
  aa_equity :: string
  aa_long_market_value :: string
  aa_short_market_value :: string
  aa_buying_power :: string
  aa_last_equity :: string
  aa_trading_blocked :: bool
  aa_account_blocked :: bool
  aa_trade_suspended_by_user :: bool

record trading_asset =
  as_id :: string
  as_symbol :: string
  as_name :: string
  as_exchange :: string
  as_class :: string
  as_status :: string
  as_tradable :: bool
  as_fractionable :: bool

record alpaca_order =
  ao_id :: string
  ao_client_order_id :: string
  ao_symbol :: string
  ao_asset_class :: string
  ao_side :: string
  ao_type :: string
  ao_time_in_force :: string
  ao_status :: string
  ao_qty :: string
  ao_filled_qty :: string
  ao_limit_price :: string
  ao_stop_price :: string
  ao_filled_avg_price :: string
  ao_submitted_at :: string
  ao_updated_at :: string

definition officialEnvironment :: "alpaca \<Rightarrow> string" where
  "officialEnvironment c = (case al_host c of None \<Rightarrow> []
   | Some h \<Rightarrow> if to_lower h = ''paper-api.alpaca.markets'' then ''paper''
       else if to_lower h = ''api.alpaca.markets'' then ''live'' else [])"

definition Configured :: "alpaca \<Rightarrow> bool" where
  "Configured c \<longleftrightarrow> al_api_key c \<noteq> [] \<and> al_api_secret c \<noteq> []"

definition baseURL :: "alpaca \<Rightarrow> string" where
  "baseURL c = (if al_base_url c \<noteq> [] then al_base_url c else ''https://paper-api.alpaca.markets'')"

definition trim_slash :: "string \<Rightarrow> string" where
  "trim_slash p = (if p \<noteq> [] \<and> hd p = CHR ''/'' then tl p else p)"

definition alpacaDo :: "remote \<Rightarrow> string \<Rightarrow> string \<Rightarrow> json option \<Rightarrow> (alpaca, json option) call" where
  "alpacaDo remote verb path body c =
     (if \<not> Configured c then (c, Inl (PlainError ''alpaca: api_key and api_secret are required''))
      else let p = trim_slash path;
               lg = al_log c @ [\<lparr>rq_method = verb, rq_url = baseURL c @ ''/v2/'' @ p, rq_body = body\<rparr>]
        in case remote lg of
             Unbuilt m \<Rightarrow> (c, Inl (PlainError (''alpaca: build request: '' @ m)))
           | NoAnswer m \<Rightarrow> (c\<lparr>al_log := lg\<rparr>, Inl (PlainError (''alpaca: request '' @ p @ '': '' @ m)))
           | Answer a \<Rightarrow> (c\<lparr>al_log := lg\<rparr>,
               if an_status a < 200 \<or> an_status a \<ge> 300 then
                 (let payload = trim_space (take 4096 (an_body a)); msg = (if payload = [] then an_line a else payload)
                  in Inl (ApiError (an_status a) (''alpaca: '' @ verb @ '' '' @ p @ '': '' @ msg)))
               else Inr (an_json a)))"

definition decode_account :: "json \<Rightarrow> alpaca_account option" where
  "decode_account j = Option.bind (obj_entries j) (\<lambda>kvs.
     Option.bind (strs_of kvs [''id'', ''account_number'', ''status'', ''currency'', ''cash'', ''portfolio_value'', ''equity'',
       ''long_market_value'', ''short_market_value'', ''buying_power'', ''last_equity'']) (\<lambda>s.
     Option.bind (bools_of kvs [''trading_blocked'', ''account_blocked'', ''trade_suspended_by_user'']) (\<lambda>b.
     Some \<lparr>aa_id = s ! 0, aa_account_number = s ! 1, aa_status = s ! 2, aa_currency = s ! 3, aa_cash = s ! 4,
       aa_portfolio_value = s ! 5, aa_equity = s ! 6, aa_long_market_value = s ! 7, aa_short_market_value = s ! 8,
       aa_buying_power = s ! 9, aa_last_equity = s ! 10, aa_trading_blocked = b ! 0, aa_account_blocked = b ! 1,
       aa_trade_suspended_by_user = b ! 2\<rparr>)))"

definition decode_asset :: "json \<Rightarrow> trading_asset option" where
  "decode_asset j = Option.bind (obj_entries j) (\<lambda>kvs.
     Option.bind (strs_of kvs [''id'', ''symbol'', ''name'', ''exchange'', ''class'', ''status'']) (\<lambda>s.
     Option.bind (bools_of kvs [''tradable'', ''fractionable'']) (\<lambda>b.
     Some \<lparr>as_id = s ! 0, as_symbol = s ! 1, as_name = s ! 2, as_exchange = s ! 3, as_class = s ! 4,
       as_status = s ! 5, as_tradable = b ! 0, as_fractionable = b ! 1\<rparr>)))"

definition decode_order :: "json \<Rightarrow> alpaca_order option" where
  "decode_order j = Option.bind (obj_entries j) (\<lambda>kvs.
     Option.bind (strs_of kvs [''id'', ''client_order_id'', ''symbol'', ''asset_class'', ''side'', ''type'', ''time_in_force'',
       ''status'', ''qty'', ''filled_qty'', ''limit_price'', ''stop_price'', ''filled_avg_price'', ''submitted_at'', ''updated_at'']) (\<lambda>s.
     Some \<lparr>ao_id = s ! 0, ao_client_order_id = s ! 1, ao_symbol = s ! 2, ao_asset_class = s ! 3, ao_side = s ! 4,
       ao_type = s ! 5, ao_time_in_force = s ! 6, ao_status = s ! 7, ao_qty = s ! 8, ao_filled_qty = s ! 9,
       ao_limit_price = s ! 10, ao_stop_price = s ! 11, ao_filled_avg_price = s ! 12, ao_submitted_at = s ! 13,
       ao_updated_at = s ! 14\<rparr>))"

definition fetchAccount :: "remote \<Rightarrow> (alpaca, alpaca_account) call" where
  "fetchAccount remote = cbind (alpacaDo remote ''GET'' ''account'' None)
     (\<lambda>body. clift (\<lambda>_. decoded ''alpaca: decode account'' decode_account body))"

definition alpacaAccountID :: "alpaca_account \<Rightarrow> string" where
  "alpacaAccountID a = firstNonEmpty [aa_account_number a, aa_id a]"

definition findAccount :: "remote \<Rightarrow> string \<Rightarrow> (alpaca, alpaca_account) call" where
  "findAccount remote i = cbind (fetchAccount remote) (\<lambda>a.
     if alpacaAccountID a \<noteq> i then cfail (PlainError (''alpaca: account '' @ i @ '' not found'')) else cret a)"

definition parseDecimal :: "string \<Rightarrow> gofloat \<times> bool" where
  "parseDecimal v = (let t = trim_space v in if t = [] then (Num 0, True) else parse_float t)"

definition parseDecimalOrZero :: "string \<Rightarrow> gofloat" where
  "parseDecimalOrZero v = (case parseDecimal v of (x, ok) \<Rightarrow> if ok then x else Num 0)"

section \<open>The order workflow\<close>

definition alpacaTradingAccounts :: "remote \<Rightarrow> (alpaca, trading_account list) call" where
  "alpacaTradingAccounts remote = cbind (fetchAccount remote) (\<lambda>a c.
     (c, let i = alpacaAccountID a; env = officialEnvironment c in
        if i = [] then Inl (NewOrderError ''invalid_order'' ''Alpaca account has no identifier'')
        else if \<not> equal_fold (aa_status a) ''ACTIVE'' \<or> aa_trading_blocked a \<or> aa_account_blocked a \<or> aa_trade_suspended_by_user a
        then Inr []
        else Inr [\<lparr>ta_id = i, ta_name = i,
          ta_is_paper = (if env = ''paper'' then Some True else if env = ''live'' then Some False else None),
          ta_supports_fractions = True, ta_allow_customer_time = False\<rparr>]))"

definition symbol_char :: "char \<Rightarrow> bool" where
  "symbol_char c \<longleftrightarrow> (let n = (of_char c :: nat) in 65 \<le> n \<and> n \<le> 90 \<or> 48 \<le> n \<and> n \<le> 57) \<or> c = CHR ''.'' \<or> c = CHR ''-''"

definition equity_symbol :: "string \<Rightarrow> bool" where
  "equity_symbol s \<longleftrightarrow> s \<noteq> [] \<and> length s \<le> 15 \<and> (let n = (of_char (hd s) :: nat) in 65 \<le> n \<and> n \<le> 90) \<and> list_all symbol_char (tl s)"

definition tradingAsset :: "remote \<Rightarrow> string \<Rightarrow> (alpaca, trading_asset) call" where
  "tradingAsset remote symbol =
     (let sym = to_upper (trim_space symbol) in
      if \<not> equity_symbol sym then cfail (NewOrderError ''invalid_order'' ''enter a valid US stock or ETF symbol'')
      else cbind (alpacaDo remote ''GET'' (''assets/'' @ path_escape sym) None) (\<lambda>body.
        cbind (clift (\<lambda>_. decoded ''alpaca: decode trading asset'' decode_asset body)) (\<lambda>a.
        if \<not> equal_fold (as_symbol a) sym \<or> \<not> equal_fold (as_status a) ''active'' \<or> \<not> as_tradable a \<or>
           (as_class a \<noteq> ''us_equity'' \<and> as_class a \<noteq> ''equity'')
        then cfail (NewOrderError ''invalid_order'' ''selected asset is not an active tradable US stock or ETF'')
        else cret a)))"

definition alpacaSearch :: "remote \<Rightarrow> string \<Rightarrow> (alpaca, instrument_ref list) call" where
  "alpacaSearch remote query =
     (let q = to_upper (trim_space query) in
      if q = [] then cret []
      else cbind (tradingAsset remote q) (\<lambda>a c.
        let (s, i) = RememberInstrument \<lparr>in_con_id = 0, in_symbol = as_symbol a, in_name = as_name a, in_sec_type = ''STK'',
              in_exchange = as_exchange a, in_currency = ''USD''\<rparr> (al_orders c)
        in (c\<lparr>al_orders := s\<rparr>, Inr [i])))"

definition alpacaOrderInstrument :: "string \<Rightarrow> (alpaca, instrument_ref) call" where
  "alpacaOrderInstrument i = clift (\<lambda>c. Instrument i (al_orders c))"

definition alpacaOrderQuote :: "instant \<Rightarrow> string \<Rightarrow> (alpaca, order_quote) call" where
  "alpacaOrderQuote now i = cbind (alpacaOrderInstrument i) (\<lambda>ins.
     cret (zero_quote\<lparr>ob_con_id := in_con_id ins, ob_availability := ''unavailable'', ob_updated_at := rfc3339 now\<rparr>))"

definition order_mode_error :: "(gofloat \<Rightarrow> int) \<Rightarrow> trading_asset \<Rightarrow> order_request \<Rightarrow> string option" where
  "order_mode_error wild asset r =
     (if f_nonzero (or_notional r) \<or> or_position_effect r \<noteq> [] \<or> f_nonzero (or_trail_price r) \<or> f_nonzero (or_trail_percent r)
      then Some ''this order mode is not available''
      else if or_order_type r \<notin> {''market'', ''limit'', ''stop'', ''stop_limit''} then Some ''unsupported order type''
      else if or_time_in_force r \<noteq> ''day'' \<and> or_time_in_force r \<noteq> ''gtc'' \<and>
        \<not> (or_time_in_force r = ''ioc'' \<and> or_order_type r = ''limit'') then Some ''unsupported time in force''
      else if or_extended_hours r \<and> (or_order_type r \<noteq> ''limit'' \<or> or_time_in_force r = ''ioc'')
      then Some ''extended hours requires a DAY or GTC limit order''
      else if \<not> whole wild (or_quantity r) \<and> (\<not> as_fractionable asset \<or> or_order_type r \<noteq> ''market'' \<or> or_time_in_force r \<noteq> ''day'')
      then Some ''fractional quantity is unavailable for this asset or order type''
      else None)"

definition validateTradingOrder :: "remote \<Rightarrow> (gofloat \<Rightarrow> int) \<Rightarrow> order_request \<Rightarrow> (alpaca, trading_asset) call" where
  "validateTradingOrder remote wild r =
     (case ValidateOrder r of
        Some e \<Rightarrow> cfail (invalid e)
      | None \<Rightarrow> (case ValidateClientOrderID (or_client_order_id r) of
          Some e \<Rightarrow> cfail e
        | None \<Rightarrow> cbind (alpacaOrderInstrument (or_instrument_id r)) (\<lambda>ins.
            if \<not> equal_fold (in_symbol ins) (or_symbol r) \<or> or_asset_class r \<noteq> ''equity'' \<or> \<not> equal_fold (or_currency r) ''USD''
            then cfail (invalid ''selected instrument does not match order details'')
            else cbind (alpacaTradingAccounts remote) (\<lambda>accounts.
              if length accounts \<noteq> 1 \<or> ta_id (accounts ! 0) \<noteq> or_account_id r
              then cfail (invalid ''Alpaca account is not available for trading'')
              else cbind (tradingAsset remote (in_symbol ins)) (\<lambda>asset.
                case order_mode_error wild asset r of Some e \<Rightarrow> cfail (invalid e) | None \<Rightarrow> cret asset)))))"

definition alpacaPreviewOrder :: "remote \<Rightarrow> (gofloat \<Rightarrow> int) \<Rightarrow> instant \<Rightarrow> order_request \<Rightarrow> (alpaca, order_preview) call" where
  "alpacaPreviewOrder remote wild now r = cbind (validateTradingOrder remote wild r) (\<lambda>_ c.
     let warning = ''Alpaca '' @ [CHR 0xE4, CHR 0xB8, CHR 0x8D, CHR 0xE6, CHR 0x8F, CHR 0x90, CHR 0xE4, CHR 0xBE, CHR 0x9B, CHR 0xE6, CHR 0xAD, CHR 0xA4, CHR 0xE7, CHR 0xB1, CHR 0xBB, CHR 0xE8, CHR 0xAE, CHR 0xA2, CHR 0xE5, CHR 0x8D, CHR 0x95, CHR 0xE7, CHR 0x9A, CHR 0x84, CHR 0xE5, CHR 0x88, CHR 0xB8, CHR 0xE5, CHR 0x95, CHR 0x86, CHR 0xE9, CHR 0xA2, CHR 0x84, CHR 0xE4, CHR 0xBC, CHR 0xB0, CHR 0xE8, CHR 0xB4, CHR 0xB9, CHR 0xE7, CHR 0x94, CHR 0xA8, CHR 0xEF, CHR 0xBC, CHR 0x9B, CHR 0xE6, CHR 0x8F, CHR 0x90, CHR 0xE4, CHR 0xBA, CHR 0xA4, CHR 0xE5, CHR 0x89, CHR 0x8D, CHR 0xE6, CHR 0x97, CHR 0xA0, CHR 0xE6, CHR 0xB3, CHR 0x95, CHR 0xE7, CHR 0xA1, CHR 0xAE, CHR 0xE8, CHR 0xAE, CHR 0xA4, CHR 0xE6, CHR 0x9C, CHR 0x80, CHR 0xE7, CHR 0xBB, CHR 0x88, CHR 0xE6, CHR 0x88, CHR 0x90, CHR 0xE4, CHR 0xBA, CHR 0xA4, CHR 0xE4, CHR 0xBB, CHR 0xB7, CHR 0xE3, CHR 0x80, CHR 0x82];
         market_warning = [CHR 0xE5, CHR 0xB8, CHR 0x82, CHR 0xE4, CHR 0xBB, CHR 0xB7, CHR 0xE5, CHR 0x8D, CHR 0x95, CHR 0xE5, CHR 0x8F, CHR 0xAF, CHR 0xE8, CHR 0x83, CHR 0xBD, CHR 0xE4, CHR 0xBB, CHR 0xA5, CHR 0xE4, CHR 0xB8, CHR 0x8D, CHR 0xE5, CHR 0x90, CHR 0x8C, CHR 0xE4, CHR 0xBA, CHR 0x8E, CHR 0xE5, CHR 0xBD, CHR 0x93, CHR 0xE5, CHR 0x89, CHR 0x8D, CHR 0xE8, CHR 0xA1, CHR 0x8C, CHR 0xE6, CHR 0x83, CHR 0x85, CHR 0xE7, CHR 0x9A, CHR 0x84, CHR 0xE4, CHR 0xBB, CHR 0xB7, CHR 0xE6, CHR 0xA0, CHR 0xBC, CHR 0xE6, CHR 0x88, CHR 0x90, CHR 0xE4, CHR 0xBA, CHR 0xA4, CHR 0xE3, CHR 0x80, CHR 0x82];
         p = zero_preview\<lparr>op_warnings := [warning]\<rparr>;
         p' = (if or_order_type r = ''market'' then p\<lparr>op_warnings := op_warnings p @ [market_warning]\<rparr>
               else if f_pos (or_limit_price r) then p\<lparr>op_amount := fixed2 (f_mul (or_quantity r) (or_limit_price r)) @
                 '' USD'' @ [CHR 0xEF, CHR 0xBC, CHR 0x88, CHR 0xE6, CHR 0x95, CHR 0xB0, CHR 0xE9, CHR 0x87, CHR 0x8F] @ '' '' @ [CHR 0xC3, CHR 0x97] @ '' '' @ [CHR 0xE9, CHR 0x99, CHR 0x90, CHR 0xE4, CHR 0xBB, CHR 0xB7, CHR 0xEF, CHR 0xBC, CHR 0x8C, CHR 0xE6, CHR 0x9C, CHR 0xAA, CHR 0xE5, CHR 0x90, CHR 0xAB, CHR 0xE8, CHR 0xB4, CHR 0xB9, CHR 0xE7, CHR 0x94, CHR 0xA8, CHR 0xEF, CHR 0xBC, CHR 0x89]\<rparr>
               else p)
     in (c\<lparr>al_orders := RememberPreview now r (al_orders c)\<rparr>, Inr p'))"

definition alpacaReplyOrder :: "string \<Rightarrow> string \<Rightarrow> bool \<Rightarrow> (alpaca, order) call" where
  "alpacaReplyOrder account reply confirmed = cfail (invalid ''Alpaca does not use broker risk reply IDs'')"

definition alpacaOrderAttempt :: "string \<Rightarrow> string \<Rightarrow> (alpaca, order_attempt_state) call" where
  "alpacaOrderAttempt account client = clift (\<lambda>c. Attempt account client (al_orders c))"

section \<open>Orders\<close>

definition normalizeStatus :: "string \<Rightarrow> string" where
  "normalizeStatus s = (let l = to_lower s in
     if l \<in> {''new'', ''accepted'', ''pending_new'', ''accepted_for_bidding'', ''partially_filled'', ''pending_replace''} then ''open''
     else if l = ''pending_cancel'' then ''pending_cancel''
     else if l = ''filled'' then ''filled''
     else if l \<in> {''canceled'', ''expired'', ''replaced''} then ''canceled''
     else if l \<in> {''rejected'', ''suspended'', ''stopped''} then ''rejected''
     else l)"

definition normalizeAlpacaOrder :: "string \<Rightarrow> alpaca_order \<Rightarrow> order" where
  "normalizeAlpacaOrder account w = zero_order\<lparr>od_id := ao_id w, od_client_order_id := ao_client_order_id w,
     od_account_id := account, od_symbol := ao_symbol w, od_asset_class := ao_asset_class w, od_side := ao_side w,
     od_order_type := ao_type w, od_quantity := parseDecimalOrZero (ao_qty w),
     od_filled_quantity := parseDecimalOrZero (ao_filled_qty w), od_limit_price := parseDecimalOrZero (ao_limit_price w),
     od_stop_price := parseDecimalOrZero (ao_stop_price w), od_average_fill_price := parseDecimalOrZero (ao_filled_avg_price w),
     od_time_in_force := ao_time_in_force w, od_status := normalizeStatus (ao_status w), od_raw_status := ao_status w,
     od_submitted_at := ao_submitted_at w, od_updated_at := ao_updated_at w\<rparr>"

definition optionalPrice :: "string \<Rightarrow> gofloat \<Rightarrow> (string \<times> json) list" where
  "optionalPrice key v = (if f_pos v then [(key, JStr (format_f v))] else [])"

text \<open>The body of the request, with its keys in the order in which they are set.\<close>

definition order_payload :: "order_request \<Rightarrow> (string \<times> json) list" where
  "order_payload r = [(''symbol'', JStr (to_upper (or_symbol r))), (''side'', JStr (or_side r)), (''type'', JStr (or_order_type r)),
       (''time_in_force'', JStr (or_time_in_force r))] @
     (if f_pos (or_quantity r) then [(''qty'', JStr (format_f (or_quantity r)))]
      else [(''notional'', JStr (format_f (or_notional r)))]) @
     optionalPrice ''limit_price'' (or_limit_price r) @ optionalPrice ''stop_price'' (or_stop_price r) @
     optionalPrice ''trail_price'' (or_trail_price r) @ optionalPrice ''trail_percent'' (or_trail_percent r) @
     (if or_client_order_id r \<noteq> [] then [(''client_order_id'', JStr (or_client_order_id r))] else []) @
     (if or_extended_hours r then [(''extended_hours'', JBool True)] else [])"

text \<open>The part of \<open>PlaceOrder\<close> between \<open>Begin\<close> and \<open>Finish\<close>: it sends the order once.\<close>

definition submit :: "remote \<Rightarrow> order_request \<Rightarrow> (alpaca, order) call" where
  "submit remote r c =
     (case alpacaDo remote ''POST'' ''orders'' (Some (JObj (order_payload r))) c of
        (c', Inl (ApiError n m)) \<Rightarrow>
          (c', Inl (if 400 \<le> n \<and> n < 500 \<and> n \<noteq> 429 then NewOrderError ''order_rejected'' m else ApiError n m))
      | (c', Inl e) \<Rightarrow> (c', Inl e)
      | (c', Inr body) \<Rightarrow> (c', rbind (decoded ''alpaca: decode order'' decode_order body) (\<lambda>raw.
          if ao_id raw = [] then Inl (NewOrderError ''order_outcome_unknown''
            ''Alpaca returned no order ID; inspect broker orders before submitting again'')
          else Inr (normalizeAlpacaOrder (or_account_id r) raw))))"

definition alpacaPlaceOrder :: "remote \<Rightarrow> (gofloat \<Rightarrow> int) \<Rightarrow> instant \<Rightarrow> order_request \<Rightarrow> (alpaca, order) call" where
  "alpacaPlaceOrder remote wild now r = cbind (validateTradingOrder remote wild r) (\<lambda>_ c.
     case Begin now r (al_orders c) of
       (s, Inl e) \<Rightarrow> (c\<lparr>al_orders := s\<rparr>, Inl e)
     | (s, Inr (previous, True)) \<Rightarrow> (c\<lparr>al_orders := s\<rparr>, replayed previous)
     | (s, Inr (_, False)) \<Rightarrow>
         (case submit remote r (c\<lparr>al_orders := s\<rparr>) of
            (c', res) \<Rightarrow> (c'\<lparr>al_orders := Finish r (outcome_order res) (outcome_error res) (al_orders c')\<rparr>, res)))"

definition alpacaGetOrder :: "remote \<Rightarrow> string \<Rightarrow> string \<Rightarrow> (alpaca, order) call" where
  "alpacaGetOrder remote account i = cbind (findAccount remote account) (\<lambda>_.
     cbind (alpacaDo remote ''GET'' (''orders/'' @ path_escape i) None) (\<lambda>body.
     clift (\<lambda>_. rbind (decoded ''alpaca: decode order'' decode_order body) (\<lambda>raw. Inr (normalizeAlpacaOrder account raw)))))"

definition decode_orders :: "json \<Rightarrow> alpaca_order list option" where
  "decode_orders j = (case j of JArr xs \<Rightarrow> those (map decode_order xs) | JNull \<Rightarrow> Some [] | _ \<Rightarrow> None)"

definition alpacaListOrders :: "remote \<Rightarrow> order_query \<Rightarrow> (alpaca, order list) call" where
  "alpacaListOrders remote q = cbind (findAccount remote (oq_account_id q)) (\<lambda>_.
     let values = (if oq_limit q > 0 then [''limit='' @ int_str (oq_limit q)] else []) @
                  (if oq_status q \<noteq> [] then [''status='' @ query_escape (oq_status q)] else []);
         path = (if values = [] then ''orders'' else ''orders?'' @ join ''&'' values)
     in cbind (alpacaDo remote ''GET'' path None) (\<lambda>body.
        clift (\<lambda>_. rbind (decoded ''alpaca: decode orders'' decode_orders body)
          (\<lambda>raw. Inr (map (normalizeAlpacaOrder (oq_account_id q)) raw)))))"

definition alpacaCancelOrder :: "remote \<Rightarrow> string \<Rightarrow> string \<Rightarrow> (alpaca, unit) call" where
  "alpacaCancelOrder remote account i = cbind (alpacaGetOrder remote account i) (\<lambda>ord.
     if od_id ord \<noteq> i \<or> od_status ord \<noteq> ''open'' then cfail (invalid ''order is not open for cancellation'')
     else cbind (alpacaDo remote ''DELETE'' (''orders/'' @ path_escape i) None) (\<lambda>_. cret ()))"

section \<open>Calls from outside\<close>

fun alpaca_run :: "remote \<Rightarrow> (gofloat \<Rightarrow> int) \<Rightarrow> client_call \<Rightarrow> alpaca \<Rightarrow> alpaca" where
  "alpaca_run remote wild CallAccounts c = fst (alpacaTradingAccounts remote c)"
| "alpaca_run remote wild (CallSearch q) c = fst (alpacaSearch remote q c)"
| "alpaca_run remote wild (CallInstrument i) c = fst (alpacaOrderInstrument i c)"
| "alpaca_run remote wild (CallQuote now i) c = fst (alpacaOrderQuote now i c)"
| "alpaca_run remote wild (CallPreview now r) c = fst (alpacaPreviewOrder remote wild now r c)"
| "alpaca_run remote wild (CallPlace now r) c = fst (alpacaPlaceOrder remote wild now r c)"
| "alpaca_run remote wild (CallReply now account reply ok) c = fst (alpacaReplyOrder account reply ok c)"
| "alpaca_run remote wild (CallAttempt account client) c = fst (alpacaOrderAttempt account client c)"
| "alpaca_run remote wild (CallGet now account i) c = fst (alpacaGetOrder remote account i c)"
| "alpaca_run remote wild (CallList now q) c = fst (alpacaListOrders remote q c)"
| "alpaca_run remote wild (CallCancel now account i) c = fst (alpacaCancelOrder remote account i c)"

definition alpaca_sent :: "alpaca \<Rightarrow> string list" where
  "alpaca_sent c = map body_key (posts (al_log c))"

definition alpaca_known :: "alpaca \<Rightarrow> string set" where
  "alpaca_known c = dom (os_attempts (al_orders c))"

text \<open>The part of the state that submissions depend on: the orders sent, the attempts known and the
  previews shown. Only previewing and placing an order change it.\<close>

definition alpaca_view ::
    "alpaca \<Rightarrow> http_request list \<times> (string \<rightharpoonup> order_attempt_state) \<times> (string \<rightharpoonup> order_request \<times> instant)" where
  "alpaca_view c = (posts (al_log c), os_attempts (al_orders c), os_previews (al_orders c))"

lemma alpacaDo_effect:
  "fst (alpacaDo remote verb path body c) = c \<or>
   fst (alpacaDo remote verb path body c) = c\<lparr>al_log := al_log c @
     [\<lparr>rq_method = verb, rq_url = baseURL c @ ''/v2/'' @ trim_slash path, rq_body = body\<rparr>]\<rparr>"
  by (simp add: alpacaDo_def Let_def split: http_outcome.split)

lemma alpacaDo_orders: "alpacaDo remote verb path body c = (c', r) \<Longrightarrow> al_orders c' = al_orders c"
  using alpacaDo_effect [of remote verb path body c] by auto

lemma alpacaDo_quiet [quiet]: "verb \<noteq> ''POST'' \<Longrightarrow> keeps alpaca_view (alpacaDo remote verb path body)"
  unfolding keeps_def
proof (intro allI)
  fix c assume v: "verb \<noteq> ''POST''"
  show "alpaca_view (fst (alpacaDo remote verb path body c)) = alpaca_view c"
    using alpacaDo_effect [of remote verb path body c] v by (auto simp: alpaca_view_def posts_def)
qed

lemma alpacaDo_post:
  assumes "alpacaDo remote ''POST'' path body c = (c', r)"
  shows "posts (al_log c') = posts (al_log c) \<or>
    (\<exists>q. posts (al_log c') = posts (al_log c) @ [q] \<and> rq_body q = body)"
  using alpacaDo_effect [of remote "''POST''" path body c] assms by (auto simp: posts_def)

lemma fetchAccount_quiet [quiet]: "keeps alpaca_view (fetchAccount remote)"
  unfolding fetchAccount_def by (intro keeps_cbind quiet) simp_all

lemma findAccount_quiet [quiet]: "keeps alpaca_view (findAccount remote i)"
  unfolding findAccount_def by (intro keeps_cbind quiet) simp_all

lemma alpaca_accounts_quiet [quiet]: "keeps alpaca_view (alpacaTradingAccounts remote)"
  unfolding alpacaTradingAccounts_def by (intro keeps_cbind quiet) (simp add: keeps_def)

lemma alpaca_asset_quiet [quiet]: "keeps alpaca_view (tradingAsset remote s)"
  unfolding tradingAsset_def Let_def by (auto intro!: keeps_cbind quiet)

lemma alpaca_search_quiet [quiet]: "keeps alpaca_view (alpacaSearch remote q)"
proof -
  have "keeps alpaca_view (\<lambda>c. let (s, i) = RememberInstrument j (al_orders c) in (c\<lparr>al_orders := s\<rparr>, Inr [i]))" for j
    by (simp add: keeps_def alpaca_view_def RememberInstrument_def Let_def)
  then show ?thesis unfolding alpacaSearch_def Let_def by (auto intro!: keeps_cbind quiet)
qed

lemma alpaca_instrument_quiet [quiet]: "keeps alpaca_view (alpacaOrderInstrument i)"
  by (simp add: alpacaOrderInstrument_def)

lemma alpaca_quote_quiet [quiet]: "keeps alpaca_view (alpacaOrderQuote now i)"
  unfolding alpacaOrderQuote_def by (intro keeps_cbind quiet) simp

lemma alpaca_validate_quiet [quiet]: "keeps alpaca_view (validateTradingOrder remote wild r)"
  unfolding validateTradingOrder_def by (auto intro!: keeps_cbind quiet split: option.splits)

lemma alpaca_preview_effect:
  assumes "alpacaPreviewOrder remote wild now r c = (c', res)"
  shows "posts (al_log c') = posts (al_log c) \<and> os_attempts (al_orders c') = os_attempts (al_orders c) \<and>
    (os_previews (al_orders c') = os_previews (al_orders c) \<or>
     os_previews (al_orders c') = (os_previews (al_orders c))(or_client_order_id r \<mapsto> (r, now)))"
proof -
  obtain d v where d: "validateTradingOrder remote wild r c = (d, v)" by fastforce
  have k: "alpaca_view d = alpaca_view c" by (rule keepsD [OF alpaca_validate_quiet d])
  have "c' = d \<or> c' = d\<lparr>al_orders := RememberPreview now r (al_orders d)\<rparr>"
    using assms d by (auto simp: alpacaPreviewOrder_def cbind_def Let_def split: sum.splits)
  then show ?thesis using k by (auto simp: alpaca_view_def RememberPreview_def)
qed

lemma alpaca_get_quiet [quiet]: "keeps alpaca_view (alpacaGetOrder remote account i)"
  unfolding alpacaGetOrder_def by (intro keeps_cbind quiet) simp_all

lemma alpaca_list_quiet [quiet]: "keeps alpaca_view (alpacaListOrders remote q)"
  unfolding alpacaListOrders_def Let_def by (intro keeps_cbind quiet) simp_all

lemma alpaca_cancel_quiet [quiet]: "keeps alpaca_view (alpacaCancelOrder remote account i)"
  unfolding alpacaCancelOrder_def by (auto intro!: keeps_cbind quiet)

lemma validated_order:
  assumes "validateTradingOrder remote wild r c = (c', Inr asset)"
  shows "ValidateOrder r = None" "client_order_id_ok (or_client_order_id r)" "order_mode_error wild asset r = None"
proof -
  from assms show 1: "ValidateOrder r = None"
    by (cases "ValidateOrder r") (auto simp: validateTradingOrder_def)
  from assms 1 show 2: "client_order_id_ok (or_client_order_id r)"
    by (auto simp: validateTradingOrder_def ValidateClientOrderID_def split: if_splits)
  from assms 1 2 show "order_mode_error wild asset r = None"
    by (auto simp: validateTradingOrder_def ValidateClientOrderID_def cbind_def split: if_splits prod.splits sum.splits option.splits)
qed

lemma payload_key: "or_client_order_id r \<noteq> [] \<Longrightarrow> obj_get (order_payload r) ''client_order_id'' = JStr (or_client_order_id r)"
  by (simp add: order_payload_def obj_get_def optionalPrice_def)

lemma alpaca_submit_effect:
  assumes "submit remote r c = (c', res)"
  shows "al_orders c' = al_orders c \<and> (posts (al_log c') = posts (al_log c) \<or>
    (\<exists>q. posts (al_log c') = posts (al_log c) @ [q] \<and> rq_body q = Some (JObj (order_payload r))))"
proof -
  obtain d x where d: "alpacaDo remote ''POST'' ''orders'' (Some (JObj (order_payload r))) c = (d, x)" by fastforce
  then have "c' = d" using assms by (auto simp: submit_def split: sum.splits go_error.splits)
  with alpacaDo_orders [OF d] alpacaDo_post [OF d] show ?thesis by blast
qed

lemma alpaca_place_effect:
  assumes "alpacaPlaceOrder remote wild now r c = (c', res)"
  shows "alpaca_view c' = alpaca_view c \<or>
    ValidateOrder r = None \<and> os_attempts (al_orders c) (or_client_order_id r) = None \<and> or_client_order_id r \<noteq> [] \<and>
    (\<exists>shown. os_previews (al_orders c) (or_client_order_id r) = Some (r, shown) \<and> now - shown \<le> preview_lifetime) \<and>
    os_previews (al_orders c') = (os_previews (al_orders c))(or_client_order_id r := None) \<and>
    os_attempts (al_orders c') = (os_attempts (al_orders c))
       (or_client_order_id r \<mapsto> finished_attempt r (outcome_order res) (outcome_error res)) \<and>
    (posts (al_log c') = posts (al_log c) \<or>
      (\<exists>q. posts (al_log c') = posts (al_log c) @ [q] \<and> rq_body q = Some (JObj (order_payload r))))"
proof -
  obtain d v where d: "validateTradingOrder remote wild r c = (d, v)" by fastforce
  have k: "alpaca_view d = alpaca_view c" by (rule keepsD [OF alpaca_validate_quiet d])
  show ?thesis
  proof (cases v)
    case (Inl e)
    then have "c' = d" using assms d by (simp add: alpacaPlaceOrder_def cbind_def)
    then show ?thesis using k by simp
  next
    case (Inr asset)
    note ok = validated_order [OF d [unfolded Inr]]
    obtain s b where b: "Begin now r (al_orders d) = (s, b)" by fastforce
    show ?thesis
    proof (cases "\<exists>a. b = Inr (a, False)")
      case True
      then obtain a where a: "b = Inr (a, False)" by blast
      note p = b [unfolded a begin_proceeds_iff]
      obtain e x where e: "submit remote r (d\<lparr>al_orders := s\<rparr>) = (e, x)" by fastforce
      have r: "c' = e\<lparr>al_orders := Finish r (outcome_order x) (outcome_error x) (al_orders e)\<rparr>" "res = x"
        using assms d Inr b a e by (auto simp: alpacaPlaceOrder_def cbind_def)
      note f = alpaca_submit_effect [OF e]
      have v: "os_attempts (al_orders d) = os_attempts (al_orders c)" "posts (al_log d) = posts (al_log c)"
        "os_previews (al_orders d) = os_previews (al_orders c)"
        using k by (simp_all add: alpaca_view_def)
      have "os_attempts (al_orders c') = (os_attempts (al_orders c))
          (or_client_order_id r \<mapsto> finished_attempt r (outcome_order res) (outcome_error res))"
        using f p r v(1) by simp
      moreover have "posts (al_log c') = posts (al_log c) \<or>
          (\<exists>q. posts (al_log c') = posts (al_log c) @ [q] \<and> rq_body q = Some (JObj (order_payload r)))"
        using f r v(2) by simp
      moreover have "os_attempts (al_orders c) (or_client_order_id r) = None" "or_client_order_id r \<noteq> []"
        using p v(1) by simp_all
      moreover have "\<exists>shown. os_previews (al_orders c) (or_client_order_id r) = Some (r, shown) \<and> now - shown \<le> preview_lifetime"
        using p v(3) by auto
      moreover have "os_previews (al_orders c') = (os_previews (al_orders c))(or_client_order_id r := None)"
        using f p r v(3) by (simp add: Finish_def)
      ultimately show ?thesis using ok(1) by blast
    next
      case False
      then have "s = al_orders d" using begin_unchanged [OF b] by blast
      then have "c' = d" using assms d Inr b False
        by (auto simp: alpacaPlaceOrder_def cbind_def split: sum.splits bool.splits)
      then show ?thesis using k by simp
    qed
  qed
qed

lemma alpaca_run_other:
  assumes "placing q = None"
  shows "alpaca_view (alpaca_run remote wild q c) = alpaca_view c \<or> (\<exists>now r. q = CallPreview now r)"
proof -
  have k: "alpaca_view (fst (f c)) = alpaca_view c" if "keeps alpaca_view f" for f :: "(alpaca, 'x) call"
    using that by (simp add: keeps_def)
  show ?thesis using assms
    by (cases q) (auto intro!: k quiet simp: alpacaReplyOrder_def alpacaOrderAttempt_def)
qed

lemma alpaca_run_preview:
  "posts (al_log (alpaca_run remote wild (CallPreview now r) c)) = posts (al_log c)"
  "os_attempts (al_orders (alpaca_run remote wild (CallPreview now r) c)) = os_attempts (al_orders c)"
  "os_previews (al_orders (alpaca_run remote wild (CallPreview now r) c)) k = Some x \<Longrightarrow>
     os_previews (al_orders c) k = Some x \<or> x = (r, now)"
  using alpaca_preview_effect [of remote wild now r c] by (cases "alpacaPreviewOrder remote wild now r c"; auto split: if_splits)+

lemma alpaca_view_sent: "alpaca_view c = alpaca_view d \<Longrightarrow> alpaca_sent c = alpaca_sent d \<and> alpaca_known c = alpaca_known d"
  by (simp add: alpaca_view_def alpaca_sent_def alpaca_known_def)

interpretation alpaca_gate: order_client "alpaca_run remote wild" alpaca_sent alpaca_known
proof
  fix q s assume "placing q = None"
  from alpaca_run_other [OF this, of remote wild s]
  show "alpaca_sent (alpaca_run remote wild q s) = alpaca_sent s \<and> alpaca_known s \<subseteq> alpaca_known (alpaca_run remote wild q s)"
    unfolding alpaca_sent_def alpaca_known_def using alpaca_run_preview(1,2) [of remote wild _ _ s]
    by (elim disjE exE) (simp_all add: alpaca_view_def)
next
  fix q r s assume "placing q = Some r"
  then obtain now where q: "q = CallPlace now r" by (cases q) auto
  obtain c' res where p: "alpacaPlaceOrder remote wild now r s = (c', res)" by fastforce
  then have c: "alpaca_run remote wild q s = c'" by (simp add: q)
  from alpaca_place_effect [OF p]
  show "alpaca_sent (alpaca_run remote wild q s) = alpaca_sent s \<and> alpaca_known s \<subseteq> alpaca_known (alpaca_run remote wild q s) \<or>
    or_client_order_id r \<notin> alpaca_known s \<and> alpaca_sent (alpaca_run remote wild q s) = alpaca_sent s @ [or_client_order_id r] \<and>
    alpaca_known (alpaca_run remote wild q s) = insert (or_client_order_id r) (alpaca_known s)"
    (is "?A \<or> ?B") unfolding c
  proof (elim disjE conjE exE)
    assume "alpaca_view c' = alpaca_view s"
    from alpaca_view_sent [OF this] show "alpaca_sent c' = alpaca_sent s \<and> alpaca_known s \<subseteq> alpaca_known c' \<or>
      or_client_order_id r \<notin> alpaca_known s \<and> alpaca_sent c' = alpaca_sent s @ [or_client_order_id r] \<and>
      alpaca_known c' = insert (or_client_order_id r) (alpaca_known s)" by simp
  qed (auto simp: alpaca_sent_def alpaca_known_def body_key_def payload_key)
qed

section \<open>Properties\<close>

definition new_alpaca :: "string \<Rightarrow> string \<Rightarrow> string \<Rightarrow> string option \<Rightarrow> alpaca" where
  "new_alpaca key secret base host = \<lparr>al_api_key = key, al_api_secret = secret, al_base_url = base, al_host = host,
     al_orders = new_session, al_log = []\<rparr>"

lemma new_alpaca_fresh: "alpaca_sent (new_alpaca key secret base host) = []"
  by (simp add: alpaca_sent_def new_alpaca_def posts_def)

definition alpaca_runs :: "remote \<Rightarrow> (gofloat \<Rightarrow> int) \<Rightarrow> client_call list \<Rightarrow> alpaca \<Rightarrow> alpaca" where
  "alpaca_runs remote wild calls c = foldl (\<lambda>c q. alpaca_run remote wild q c) c calls"

text \<open>Every preview that the session holds was asked for, and every order sent was placed, validated,
  and shown as a preview at most ten minutes before.\<close>

definition asked_for :: "client_call list \<Rightarrow> http_request \<Rightarrow> bool" where
  "asked_for calls q \<longleftrightarrow> (\<exists>now shown r. CallPlace now r \<in> set calls \<and> CallPreview shown r \<in> set calls \<and>
     now - shown \<le> 600 * ns_per_second \<and> ValidateOrder r = None \<and> rq_body q = Some (JObj (order_payload r)))"

definition alpaca_inv :: "client_call list \<Rightarrow> alpaca \<Rightarrow> bool" where
  "alpaca_inv calls c \<longleftrightarrow> (\<forall>q\<in>set (posts (al_log c)). asked_for calls q) \<and>
     (\<forall>k r t. os_previews (al_orders c) k = Some (r, t) \<longrightarrow> CallPreview t r \<in> set calls)"

lemma asked_for_more: "asked_for calls q \<Longrightarrow> asked_for (calls @ [x]) q"
  unfolding asked_for_def by auto

lemma alpaca_inv_same: "alpaca_inv calls c \<Longrightarrow> alpaca_view c' = alpaca_view c \<Longrightarrow> alpaca_inv (calls @ [x]) c'"
  unfolding alpaca_inv_def alpaca_view_def by (auto intro: asked_for_more)

lemma alpaca_inv_place:
  assumes "alpaca_inv calls c" "alpacaPlaceOrder remote wild now r c = (c', res)"
  shows "alpaca_inv (calls @ [CallPlace now r]) c'"
proof (cases "alpaca_view c' = alpaca_view c")
  case True
  then show ?thesis by (rule alpaca_inv_same [OF assms(1)])
next
  case False
  with alpaca_place_effect [OF assms(2)] obtain shown where e: "ValidateOrder r = None"
    "os_previews (al_orders c) (or_client_order_id r) = Some (r, shown)" "now - shown \<le> preview_lifetime"
    "os_previews (al_orders c') = (os_previews (al_orders c))(or_client_order_id r := None)"
    "posts (al_log c') = posts (al_log c) \<or>
      (\<exists>q. posts (al_log c') = posts (al_log c) @ [q] \<and> rq_body q = Some (JObj (order_payload r)))" by blast
  have "CallPreview shown r \<in> set calls" using assms(1) e(2) unfolding alpaca_inv_def by blast
  then have "asked_for (calls @ [CallPlace now r]) q" if "rq_body q = Some (JObj (order_payload r))" for q
    using that e(1,3) unfolding asked_for_def preview_lifetime_def by auto
  then show ?thesis using assms(1) e(4,5) unfolding alpaca_inv_def by (auto intro: asked_for_more split: if_splits)
qed

lemma alpaca_inv_run:
  assumes "alpaca_inv calls c"
  shows "alpaca_inv (calls @ [q]) (alpaca_run remote wild q c)"
proof (cases "placing q")
  case None
  show ?thesis using alpaca_run_other [OF None, of remote wild c]
  proof (elim disjE exE)
    assume "alpaca_view (alpaca_run remote wild q c) = alpaca_view c"
    then show ?thesis by (rule alpaca_inv_same [OF assms])
  next
    fix now r assume q: "q = CallPreview now r"
    have "CallPreview t x \<in> set (calls @ [q])"
      if "os_previews (al_orders (alpaca_run remote wild q c)) k = Some (x, t)" for k x t
      using alpaca_run_preview(3) [OF that [unfolded q]] assms unfolding alpaca_inv_def q by auto
    then show ?thesis using assms unfolding alpaca_inv_def q alpaca_run_preview(1) by (auto intro: asked_for_more)
  qed
next
  case (Some r)
  then obtain now where q: "q = CallPlace now r" by (cases q) auto
  obtain c' res where p: "alpacaPlaceOrder remote wild now r c = (c', res)" by fastforce
  from alpaca_inv_place [OF assms p] p show ?thesis by (simp add: q)
qed

lemma alpaca_inv_runs: "alpaca_inv calls (alpaca_runs remote wild calls (new_alpaca key secret base host))"
proof (induction calls rule: rev_induct)
  case Nil
  show ?case by (simp add: alpaca_inv_def alpaca_runs_def new_alpaca_def posts_def new_session_def)
next
  case (snoc q calls)
  from alpaca_inv_run [OF this, of q remote wild] show ?case by (simp add: alpaca_runs_def)
qed


text \<open>An example: one account, one stock, and an order that has just been shown.\<close>

definition example_remote :: remote where
  "example_remote qs = (let q = last qs in
     if rq_method q = ''POST'' then json_answer (JObj [(''id'', JStr ''o-1''), (''status'', JStr ''new'')])
     else if suffix ''/account'' (rq_url q)
     then json_answer (JObj [(''account_number'', JStr ''U1''), (''status'', JStr ''ACTIVE'')])
     else json_answer (JObj [(''symbol'', JStr ''AAPL''), (''status'', JStr ''active''), (''class'', JStr ''us_equity''), (''tradable'', JBool True)]))"

definition example_account :: alpaca_account where
  "example_account = \<lparr>aa_id = [], aa_account_number = ''U1'', aa_status = ''ACTIVE'', aa_currency = [], aa_cash = [],
     aa_portfolio_value = [], aa_equity = [], aa_long_market_value = [], aa_short_market_value = [], aa_buying_power = [],
     aa_last_equity = [], aa_trading_blocked = False, aa_account_blocked = False, aa_trade_suspended_by_user = False\<rparr>"

definition example_asset :: trading_asset where
  "example_asset = \<lparr>as_id = [], as_symbol = ''AAPL'', as_name = [], as_exchange = [], as_class = ''us_equity'', as_status = ''active'',
     as_tradable = True, as_fractionable = False\<rparr>"

definition example_instrument :: instrument_ref where
  "example_instrument = zero_instrument_ref\<lparr>in_symbol := ''AAPL'', in_con_id := 265598\<rparr>"

definition example_alpaca :: alpaca where
  "example_alpaca = (new_alpaca ''k'' ''s'' [] None)\<lparr>al_orders := example_session\<lparr>os_instruments := [265598 \<mapsto> example_instrument]\<rparr>\<rparr>"

lemma example_decoded:
  "decode_account (JObj [(''account_number'', JStr ''U1''), (''status'', JStr ''ACTIVE'')]) = Some example_account"
  "decode_asset (JObj [(''symbol'', JStr ''AAPL''), (''status'', JStr ''active''), (''class'', JStr ''us_equity''), (''tradable'', JBool True)])
     = Some example_asset"
  "alpacaAccountID example_account = ''U1''" "equal_fold (aa_status example_account) ''ACTIVE''"
  "to_upper (trim_space ''AAPL'') = ''AAPL''" "equity_symbol ''AAPL''" "path_escape ''AAPL'' = ''AAPL''"
  "equal_fold (as_symbol example_asset) ''AAPL''" "equal_fold (as_status example_asset) ''active''"
  by code_simp+

lemma example_checks:
  "ValidateOrder example_order = None" "ValidateClientOrderID (or_client_order_id example_order) = None"
  "order_mode_error (\<lambda>_. 0) example_asset example_order = None"
  "equal_fold ''AAPL'' (or_symbol example_order)" "or_asset_class example_order = ''equity''"
  "equal_fold (or_currency example_order) ''USD''" "or_account_id example_order = ''U1''"
  "parse_int64 (or_instrument_id example_order) = Some 265598"
  by code_simp+

lemma example_state [simp]: "Configured example_alpaca" "baseURL example_alpaca = ''https://paper-api.alpaca.markets''" "al_log example_alpaca = []"
  by (simp_all add: example_alpaca_def new_alpaca_def Configured_def baseURL_def)

abbreviation (input) asked :: "string \<Rightarrow> alpaca \<Rightarrow> alpaca" where
  "asked path c \<equiv> c\<lparr>al_log := al_log c @ [\<lparr>rq_method = ''GET'', rq_url = baseURL c @ ''/v2/'' @ path, rq_body = None\<rparr>]\<rparr>"

lemma client_log [simp]: "Configured (c\<lparr>al_log := l\<rparr>) = Configured c" "baseURL (c\<lparr>al_log := l\<rparr>) = baseURL c"
  by (simp_all add: Configured_def baseURL_def)

lemma example_fetch:
  assumes "Configured c" "baseURL c = ''https://paper-api.alpaca.markets''"
  shows "fetchAccount example_remote c = (asked ''account'' c, Inr example_account)"
  using assms by (simp add: fetchAccount_def cbind_def alpacaDo_def example_remote_def json_answer_def trim_slash_def decoded_def example_decoded suffix_def)

lemma example_tradable:
  assumes "Configured c" "baseURL c = ''https://paper-api.alpaca.markets''"
  shows "tradingAsset example_remote ''AAPL'' c = (asked ''assets/AAPL'' c, Inr example_asset)"
proof -
  have "as_tradable example_asset" "as_class example_asset = ''us_equity''" by (simp_all add: example_asset_def)
  with assms show ?thesis
    by (simp add: tradingAsset_def cbind_def alpacaDo_def example_remote_def json_answer_def trim_slash_def decoded_def example_decoded suffix_def Let_def)
qed

lemma example_validated:
  "\<exists>d. validateTradingOrder example_remote (\<lambda>_. 0) example_order example_alpaca = (d, Inr example_asset) \<and>
     al_orders d = al_orders example_alpaca \<and> Configured d"
proof -
  have i: "Instrument (or_instrument_id example_order) (al_orders example_alpaca) = Inr example_instrument"
    by (simp add: Instrument_def example_checks example_alpaca_def)
  have "\<not> aa_trading_blocked example_account" "\<not> aa_account_blocked example_account" "\<not> aa_trade_suspended_by_user example_account"
    "in_symbol example_instrument = ''AAPL''"
    by (simp_all add: example_account_def example_instrument_def)
  then show ?thesis
    by (simp add: validateTradingOrder_def example_checks alpacaOrderInstrument_def cbind_def i alpacaTradingAccounts_def
        example_fetch example_tradable example_decoded Let_def)
qed

text \<open>C12: an order that validates and that the session lets through is sent, exactly once and with its
  own payload, and what comes of it is on record when the call returns.\<close>

theorem alpaca_transmits:
  assumes "validateTradingOrder remote wild r c = (d, Inr asset)" "Begin now r (al_orders d) = (s, Inr (a, False))"
    "Configured d" "\<And>q m. rq_method q = ''POST'' \<Longrightarrow> remote (al_log d @ [q]) \<noteq> Unbuilt m"
  shows "\<exists>c' res q. alpacaPlaceOrder remote wild now r c = (c', res)
    \<and> posts (al_log c') = posts (al_log c) @ [q] \<and> rq_body q = Some (JObj (order_payload r)) \<and> body_key q = or_client_order_id r
    \<and> rq_url q = baseURL d @ ''/v2/orders''
    \<and> os_attempts (al_orders c') (or_client_order_id r) = Some (finished_attempt r (outcome_order res) (outcome_error res))"
proof -
  define q where "q = \<lparr>rq_method = ''POST'', rq_url = baseURL d @ ''/v2/orders'', rq_body = Some (JObj (order_payload r))\<rparr>"
  obtain e x where e: "submit remote r (d\<lparr>al_orders := s\<rparr>) = (e, x)" by fastforce
  have "remote (al_log d @ [q]) \<noteq> Unbuilt m" for m using assms(4) by (simp add: q_def)
  then have "al_log (fst (alpacaDo remote ''POST'' ''orders'' (Some (JObj (order_payload r))) (d\<lparr>al_orders := s\<rparr>))) = al_log d @ [q]"
    using assms(3) by (cases "remote (al_log d @ [q])") (auto simp: alpacaDo_def Let_def q_def trim_slash_def Configured_def baseURL_def)
  then have l: "al_log e = al_log d @ [q]"
    using e by (auto simp: submit_def split: prod.splits sum.splits go_error.splits)
  have p: "alpacaPlaceOrder remote wild now r c =
      (e\<lparr>al_orders := Finish r (outcome_order x) (outcome_error x) (al_orders e)\<rparr>, x)"
    using assms(1,2) e by (simp add: alpacaPlaceOrder_def cbind_def)
  have "posts (al_log d) = posts (al_log c)"
    using keepsD [OF alpaca_validate_quiet assms(1)] by (simp add: alpaca_view_def)
  then have "posts (al_log e) = posts (al_log c) @ [q]" by (simp add: l posts_def q_def)
  moreover have "or_client_order_id r \<noteq> []" using assms(2) unfolding begin_proceeds_iff by simp
  ultimately show ?thesis
    by (intro exI [of _ "e\<lparr>al_orders := Finish r (outcome_order x) (outcome_error x) (al_orders e)\<rparr>"] exI [of _ x] exI [of _ q])
      (simp add: p q_def body_key_def payload_key)
qed

theorem alpaca_transmits_witness:
  "\<exists>c' res q. alpacaPlaceOrder example_remote (\<lambda>_. 0) 200 example_order example_alpaca = (c', res) \<and>
     posts (al_log c') = [q] \<and> body_key q = ''c-1''"
proof -
  obtain d where d: "validateTradingOrder example_remote (\<lambda>_. 0) example_order example_alpaca = (d, Inr example_asset)"
    "al_orders d = al_orders example_alpaca" "Configured d" using example_validated by blast
  obtain s where "Begin 200 example_order example_session = (s, Inr (zero_attempt, False))" using example_begins by blast
  then obtain s' where b: "Begin 200 example_order (al_orders d) = (s', Inr (zero_attempt, False))"
    unfolding d(2) begin_proceeds_iff by (auto simp: example_alpaca_def)
  have "rq_method q = ''POST'' \<Longrightarrow> example_remote (al_log d @ [q]) \<noteq> Unbuilt m" for q m by (simp add: example_remote_def json_answer_def)
  from alpaca_transmits [OF d(1) b d(3) this] show ?thesis by (simp add: posts_def) (simp add: example_order_def, blast)
qed


end
