(* ===== verification/Ibkr_Orders.thy ===== *)
theory Ibkr_Orders
  imports Trading
begin

text \<open>
  The IBKR adapter's trading side (\<open>internal/broker/ibkr/\<close>): the order workflow with its confirmations
  (\<open>order_workflow.go\<close>), listing and cancelling orders (\<open>orders.go\<close>), order quotes
  (\<open>order_quote.go\<close>) and the live order and execution state behind the event stream
  (\<open>trading_events.go\<close>).

  The state of the client holds the workflow state (attempts, replies, the pending confirmation), the
  live order rows and executions, and the log of the HTTP requests that left it. The gateway is the
  argument \<open>remote\<close>. The pending confirmation is a pointer to one of the attempts: it is the key of
  that attempt here, and an assignment through the pointer updates the attempt. The mutex of the
  workflow is held for the whole of each call, so a call is one step.
\<close>

section \<open>State\<close>

record order_attempt =
  at_request :: order_request
  at_order :: order
  at_err :: "go_error option"

record reply_attempt =
  ra_account :: string
  ra_confirmed :: bool
  ra_order :: order
  ra_err :: "go_error option"

type_synonym fields = "(string \<times> json) list"

record live_order_row =
  lr_fields :: fields
  lr_at :: instant

record execution_seen =
  es_hash :: string
  es_at :: instant

record ibkr =
  ib_gateway_url :: string
  ib_gateway_token :: string
  ib_flex_token :: string
  ib_attempts :: "(string \<times> order_attempt) list"
  ib_replies :: "string \<rightharpoonup> reply_attempt"
  ib_pending :: "string option"
  ib_rows :: "(string \<times> live_order_row) list"
  ib_executions :: "(string \<times> execution_seen) list"
  ib_ready_at :: "instant option"
  ib_log :: "http_request list"

record trading_event =
  te_account_id :: string
  te_order :: "order option"
  te_execution_id :: string
  te_refresh :: bool

definition BaseURL :: "ibkr \<Rightarrow> string" where
  "BaseURL c = trim_right_char (CHR ''/'') (ib_gateway_url c)"

section \<open>Requests to the gateway\<close>

definition contains :: "string \<Rightarrow> string \<Rightarrow> bool" where
  "contains s part \<longleftrightarrow> sublist part s"

definition gatewayProxyRejected :: "http_answer \<Rightarrow> bool" where
  "gatewayProxyRejected a \<longleftrightarrow> an_status a = 401 \<and> (\<exists>ch\<in>set (an_challenges a).
     let c = to_lower (trim_space ch) in c = ''bearer'' \<or> prefix ''bearer '' c \<or> contains c ''ibkr gateway'')"

definition gatewayUnauthorizedError :: "http_answer \<Rightarrow> string \<Rightarrow> go_error" where
  "gatewayUnauthorizedError a path = PlainError (''ibkr: '' @ path @
     (if gatewayProxyRejected a
      then '': gateway proxy authentication failed (HTTP 401); check the selected instance'' @ [CHR 0x27] @ ''s Gateway Proxy Token (gateway_token) and gateway URL''
      else '': '' @ ''gateway session unavailable (HTTP 401); sign in to the configured Gateway instance and check its IBKR session status''))"

function replace_all :: "string \<Rightarrow> string \<Rightarrow> string \<Rightarrow> string" where
  "replace_all old new s =
     (if s = [] then [] else if old \<noteq> [] \<and> prefix old s then new @ replace_all old new (drop (length old) s)
      else hd s # replace_all old new (tl s))"
  by auto

termination
  by (relation "measure (\<lambda>(old, new, s). length s)") (auto simp: neq_Nil_conv)

declare replace_all.simps [simp del]

definition safeOrderText :: "ibkr \<Rightarrow> string \<Rightarrow> string" where
  "safeOrderText c s = take 4096 (foldl (\<lambda>t secret. if secret \<noteq> [] then replace_all secret ''[redacted]'' t else t) s
     [ib_gateway_token c, ib_flex_token c, ib_gateway_url c])"

definition path_only :: "string \<Rightarrow> string" where
  "path_only p = hd (split_on (CHR ''?'') p)"

text \<open>A mutating request. \<open>decode\<close> is how the answer is stored in the caller's variable.\<close>

definition orderRequest :: "remote \<Rightarrow> string \<Rightarrow> string \<Rightarrow> json option \<Rightarrow> (json \<Rightarrow> 'a option) \<Rightarrow> (ibkr, 'a) call" where
  "orderRequest remote verb path body decode c =
     (let lg = ib_log c @ [\<lparr>rq_method = verb, rq_url = BaseURL c @ ''/v1/api'' @ path, rq_body = body\<rparr>];
          c' = c\<lparr>ib_log := lg\<rparr>; unknown = NewOrderError ''order_outcome_unknown''
      in case remote lg of
           Unbuilt _ \<Rightarrow> (c, Inl (PlainError ''ibkr: invalid order request''))
         | NoAnswer _ \<Rightarrow> (c', Inl (unknown ''IBKR request outcome is unknown; check orders before submitting again''))
         | Answer a \<Rightarrow> (c',
             if an_status a = 401 then Inl (gatewayUnauthorizedError a (path_only path))
             else if length (an_body a) > 1048576 then Inl (unknown ''IBKR response could not be read; check order status'')
             else if an_status a < 200 \<or> an_status a \<ge> 300
             then Inl (unknown (''IBKR order request returned HTTP '' @ int_str (an_status a) @ ''; check order status before retrying''))
             else case an_json a of
               None \<Rightarrow> Inl (unknown ''IBKR returned an invalid response; check order status'')
             | Some j \<Rightarrow>
                 if \<not> an_alone a then Inl (unknown ''IBKR returned trailing response data; check order status'')
                 else let err = (case j of JObj kvs \<Rightarrow> textValue (obj_get kvs ''error'') | _ \<Rightarrow> []) in
                   if err \<noteq> [] then Inl (NewOrderError ''order_rejected'' (safeOrderText c err))
                   else case decode j of
                     None \<Rightarrow> Inl (unknown ''IBKR returned an unexpected response; check order status'')
                   | Some x \<Rightarrow> Inr x))"

definition getTradingJSON :: "remote \<Rightarrow> string \<Rightarrow> (json \<Rightarrow> 'a option) \<Rightarrow> (ibkr, 'a) call" where
  "getTradingJSON remote path decode c =
     (let lg = ib_log c @ [\<lparr>rq_method = ''GET'', rq_url = BaseURL c @ ''/v1/api'' @ path, rq_body = None\<rparr>]; c' = c\<lparr>ib_log := lg\<rparr>
      in case remote lg of
           Unbuilt _ \<Rightarrow> (c, Inl (PlainError ''ibkr: invalid trading request''))
         | NoAnswer _ \<Rightarrow> (c', Inl (PlainError ''ibkr: trading request failed''))
         | Answer a \<Rightarrow> (c',
             if an_status a = 401 then Inl (gatewayUnauthorizedError a (path_only path))
             else if an_status a \<noteq> 200 then Inl (PlainError ''ibkr: trading request unsuccessful'')
             else if length (an_body a) > 8388608 then Inl (PlainError ''ibkr: invalid trading response size'')
             else case Option.bind (an_json a) decode of
               None \<Rightarrow> Inl (PlainError ''ibkr: invalid trading response'')
             | Some x \<Rightarrow> if \<not> an_alone a then Inl (PlainError ''ibkr: invalid trailing trading response'') else Inr x))"

section \<open>Accounts and instruments\<close>

text \<open>The answer about accounts: the ids (none at all when the list is absent), their aliases, the paper
  flag and two properties of each account.\<close>

record accounts_answer =
  ac_ids :: "string list option"
  ac_aliases :: "(string \<times> string) list"
  ac_paper :: "bool option"
  ac_props :: "(string \<times> bool \<times> bool) list"

definition non_null :: "string \<Rightarrow> fields \<Rightarrow> json list" where
  "non_null name kvs = filter (\<lambda>v. v \<noteq> JNull) (field_values name kvs)"

fun str_or_null :: "json \<Rightarrow> string option" where
  "str_or_null (JStr s) = Some s"
| "str_or_null JNull = Some []"
| "str_or_null _ = None"

definition strings_of :: "json \<Rightarrow> string list option" where
  "strings_of v = (case v of JArr xs \<Rightarrow> those (map str_or_null xs) | _ \<Rightarrow> None)"

definition ids_field :: "fields \<Rightarrow> string list option option" where
  "ids_field kvs = foldl (\<lambda>acc v. Option.bind acc (\<lambda>_. map_option Some (strings_of v))) (Some None) (non_null ''accounts'' kvs)"

definition entries_of :: "(json \<Rightarrow> 'a option) \<Rightarrow> json \<Rightarrow> (string \<times> 'a) list option" where
  "entries_of dec v = (case v of
     JObj es \<Rightarrow> those (map (\<lambda>(k, x). map_option (Pair k) (dec x)) es) | _ \<Rightarrow> None)"

definition map_field :: "string \<Rightarrow> (json \<Rightarrow> 'a option) \<Rightarrow> fields \<Rightarrow> (string \<times> 'a) list option" where
  "map_field name dec kvs = map_option concat (those (map (entries_of dec) (non_null name kvs)))"

definition props_of :: "json \<Rightarrow> (bool \<times> bool) option" where
  "props_of j = Option.bind (obj_entries j) (\<lambda>kvs.
     Option.bind (bool_field ''supportsFractions'' kvs) (\<lambda>f.
     Option.bind (bool_field ''allowCustomerTime'' kvs) (\<lambda>t. Some (f, t))))"

definition paper_field :: "fields \<Rightarrow> bool option option" where
  "paper_field kvs = foldl (\<lambda>acc v. case v of JNull \<Rightarrow> map_option (\<lambda>_. None) acc
     | JBool b \<Rightarrow> map_option (\<lambda>_. Some b) acc | _ \<Rightarrow> None) (Some None) (field_values ''isPaper'' kvs)"

definition decode_accounts :: "json \<Rightarrow> accounts_answer option" where
  "decode_accounts j = Option.bind (obj_entries j) (\<lambda>kvs.
     Option.bind (ids_field kvs) (\<lambda>ids.
     Option.bind (map_field ''aliases'' str_or_null kvs) (\<lambda>names.
     Option.bind (paper_field kvs) (\<lambda>paper.
     Option.bind (map_field ''acctProps'' props_of kvs) (\<lambda>props.
     Some \<lparr>ac_ids = ids, ac_aliases = names, ac_paper = paper, ac_props = props\<rparr>)))))"

definition lookup_or :: "'b \<Rightarrow> ('a \<times> 'b) list \<Rightarrow> 'a \<Rightarrow> 'b" where
  "lookup_or d es k = (case map_of (rev es) k of None \<Rightarrow> d | Some x \<Rightarrow> x)"

definition ibkrTradingAccounts :: "remote \<Rightarrow> (ibkr, trading_account list) call" where
  "ibkrTradingAccounts remote = cbind (getTradingJSON remote ''/iserver/accounts'' decode_accounts) (\<lambda>raw.
     case ac_ids raw of
       None \<Rightarrow> cfail (PlainError ''ibkr: brokerage session is not ready; sign in to Gateway'')
     | Some ids \<Rightarrow> cret (map (\<lambda>i. \<lparr>ta_id = i, ta_name = firstNonEmpty [lookup_or [] (ac_aliases raw) i, i],
         ta_is_paper = ac_paper raw, ta_supports_fractions = fst (lookup_or (False, False) (ac_props raw) i),
         ta_allow_customer_time = snd (lookup_or (False, False) (ac_props raw) i)\<rparr>) ids))"

definition tradingAccount :: "remote \<Rightarrow> string \<Rightarrow> (ibkr, trading_account) call" where
  "tradingAccount remote i =
     (if trim_space i = [] then cfail (invalid ''account_id is required'')
      else cbind (ibkrTradingAccounts remote) (\<lambda>accounts.
        case find (\<lambda>a. ta_id a = i) accounts of
          Some a \<Rightarrow> cret a
        | None \<Rightarrow> cfail (invalid ''selected account is not available for trading on this Gateway'')))"

definition list_of :: "(json \<Rightarrow> 'a option) \<Rightarrow> json \<Rightarrow> 'a list option" where
  "list_of dec j = (case j of JArr xs \<Rightarrow> those (map dec xs) | JNull \<Rightarrow> Some [] | _ \<Rightarrow> None)"

definition sections_field :: "fields \<Rightarrow> string list option" where
  "sections_field kvs = foldl (\<lambda>acc v. Option.bind acc (\<lambda>_.
     list_of (\<lambda>x. Option.bind (obj_entries x) (str_field ''secType'')) v)) (Some []) (non_null ''sections'' kvs)"

definition any_field :: "string \<Rightarrow> fields \<Rightarrow> json" where
  "any_field name kvs = (case field_values name kvs of [] \<Rightarrow> JNull | vs \<Rightarrow> last vs)"

text \<open>A row of the contract search, with its conid, texts and section types.\<close>

definition decode_search_row :: "json \<Rightarrow> (json \<times> string list \<times> string list) option" where
  "decode_search_row j = Option.bind (obj_entries j) (\<lambda>kvs.
     Option.bind (strs_of kvs [''symbol'', ''companyName'', ''companyHeader'', ''description'', ''listingExchange'', ''secType'', ''currency'']) (\<lambda>s.
     Option.bind (sections_field kvs) (\<lambda>secs. Some (any_field ''conid'' kvs, s, secs))))"

definition search_instrument :: "json \<times> string list \<times> string list \<Rightarrow> instrument_ref option" where
  "search_instrument row = (case row of (con, s, secs) \<Rightarrow>
     let stock = (s ! 5 = ''STK'' \<or> ''STK'' \<in> set secs) in
     case parse_int64 (textValue con) of
       None \<Rightarrow> None
     | Some n \<Rightarrow> if \<not> stock \<or> n \<le> 0 then None
         else Some \<lparr>in_con_id = n, in_symbol = s ! 0, in_name = firstNonEmpty [s ! 1, s ! 2], in_sec_type = ''STK'',
           in_exchange = firstNonEmpty [s ! 4, s ! 3], in_currency = s ! 6\<rparr>)"

definition ibkrSearch :: "remote \<Rightarrow> string \<Rightarrow> (ibkr, instrument_ref list) call" where
  "ibkrSearch remote query =
     (let q = trim_space query in
      if q = [] then cret []
      else cbind (getTradingJSON remote (''/iserver/secdef/search?secType=STK&symbol='' @ query_escape q) (list_of decode_search_row))
        (\<lambda>rows. cret (List.map_filter search_instrument rows)))"

definition ibkrOrderInstrument :: "remote \<Rightarrow> string \<Rightarrow> (ibkr, instrument_ref) call" where
  "ibkrOrderInstrument remote i = (case parse_int64 i of
     None \<Rightarrow> cfail (invalid ''instrument_id must be a positive numeric conid'')
   | Some con \<Rightarrow>
      if con \<le> 0 then cfail (invalid ''instrument_id must be a positive numeric conid'')
      else cbind (getTradingJSON remote (''/iserver/contract/'' @ int_str con @ ''/info'') obj_entries) (\<lambda>raw.
        let txt = (\<lambda>k. textValue (obj_get raw k)); kind = txt ''instrument_type'' in
        if kind = [] then cfail (PlainError (''IBKR '' @ [CHR 0xE5, CHR 0x90, CHR 0x88, CHR 0xE7, CHR 0xBA, CHR 0xA6, CHR 0xE8, CHR 0xAF, CHR 0xA6, CHR 0xE6, CHR 0x83, CHR 0x85, CHR 0xE7, CHR 0xBC, CHR 0xBA, CHR 0xE5, CHR 0xB0, CHR 0x91, CHR 0xE8, CHR 0xAF, CHR 0x81, CHR 0xE5, CHR 0x88, CHR 0xB8, CHR 0xE7, CHR 0xB1, CHR 0xBB, CHR 0xE5, CHR 0x9E, CHR 0x8B, CHR 0xEF, CHR 0xBC, CHR 0x8C, CHR 0xE8, CHR 0xAF, CHR 0xB7, CHR 0xE9, CHR 0x87, CHR 0x8D, CHR 0xE6, CHR 0x96, CHR 0xB0, CHR 0xE9, CHR 0x80, CHR 0x89, CHR 0xE6, CHR 0x8B, CHR 0xA9, CHR 0xE5, CHR 0x90, CHR 0x88, CHR 0xE7, CHR 0xBA, CHR 0xA6]))
        else if kind \<noteq> ''STK'' then cfail (invalid ([CHR 0xE5, CHR 0xBD, CHR 0x93, CHR 0xE5, CHR 0x89, CHR 0x8D, CHR 0xE4, CHR 0xBB, CHR 0x85, CHR 0xE6, CHR 0x94, CHR 0xAF, CHR 0xE6, CHR 0x8C, CHR 0x81] @ '' IBKR '' @ [CHR 0xE8, CHR 0x82, CHR 0xA1, CHR 0xE7, CHR 0xA5, CHR 0xA8, CHR 0xE5, CHR 0x92, CHR 0x8C] @ '' ETF'' @ [CHR 0xEF, CHR 0xBC, CHR 0x8C, CHR 0xE8, CHR 0xAF, CHR 0xA5, CHR 0xE5, CHR 0x90, CHR 0x88, CHR 0xE7, CHR 0xBA, CHR 0xA6, CHR 0xE7, CHR 0xB1, CHR 0xBB, CHR 0xE5, CHR 0x9E, CHR 0x8B, CHR 0xE4, CHR 0xB8, CHR 0xBA] @ '' '' @ kind))
        else if parse_int64 (txt ''con_id'') \<noteq> Some con then cfail (PlainError (''IBKR '' @ [CHR 0xE8, CHR 0xBF, CHR 0x94, CHR 0xE5, CHR 0x9B, CHR 0x9E, CHR 0xE7, CHR 0x9A, CHR 0x84, CHR 0xE5, CHR 0x90, CHR 0x88, CHR 0xE7, CHR 0xBA, CHR 0xA6, CHR 0xE7, CHR 0xBC, CHR 0x96, CHR 0xE5, CHR 0x8F, CHR 0xB7, CHR 0xE4, CHR 0xB8, CHR 0x8E, CHR 0xE6, CHR 0x89, CHR 0x80, CHR 0xE9, CHR 0x80, CHR 0x89, CHR 0xE5, CHR 0x90, CHR 0x88, CHR 0xE7, CHR 0xBA, CHR 0xA6, CHR 0xE4, CHR 0xB8, CHR 0x8D, CHR 0xE4, CHR 0xB8, CHR 0x80, CHR 0xE8, CHR 0x87, CHR 0xB4, CHR 0xEF, CHR 0xBC, CHR 0x8C, CHR 0xE8, CHR 0xAF, CHR 0xB7, CHR 0xE9, CHR 0x87, CHR 0x8D, CHR 0xE6, CHR 0x96, CHR 0xB0, CHR 0xE9, CHR 0x80, CHR 0x89, CHR 0xE6, CHR 0x8B, CHR 0xA9, CHR 0xE5, CHR 0x90, CHR 0x88, CHR 0xE7, CHR 0xBA, CHR 0xA6]))
        else if txt ''symbol'' = [] \<or> txt ''currency'' = [] then cfail (PlainError ''ibkr: contract details are incomplete'')
        else cret \<lparr>in_con_id = con, in_symbol = txt ''symbol'',
          in_name = firstNonEmpty [txt ''company_name'', txt ''instrument_name'', txt ''symbol''], in_sec_type = kind,
          in_exchange = firstNonEmpty [txt ''listing_exchange'', txt ''exchange''], in_currency = txt ''currency''\<rparr>))"

section \<open>The order workflow\<close>

definition ibkrOrderType :: "string \<Rightarrow> string" where
  "ibkrOrderType v = lookup_or [] [(''market'', ''MKT''), (''limit'', ''LMT''), (''stop'', ''STP''), (''stop_limit'', ''STP LMT'')] v"

definition json_num :: "gofloat \<Rightarrow> json" where
  "json_num x = (case x of Num v \<Rightarrow> JNum (format_json v) | _ \<Rightarrow> JNull)"

definition ibkr_mode_error :: "order_request \<Rightarrow> string option" where
  "ibkr_mode_error r =
     (if f_nonzero (or_notional r) then Some ''IBKR order entry requires a share quantity''
      else if or_order_type r \<notin> {''market'', ''limit'', ''stop'', ''stop_limit''} then Some ''unsupported IBKR order type''
      else if or_time_in_force r \<notin> {''day'', ''gtc'', ''ioc''} then Some ''unsupported IBKR time in force''
      else if or_time_in_force r = ''ioc'' \<and> or_order_type r \<noteq> ''limit'' then Some ''IOC is supported only for limit orders''
      else if or_extended_hours r \<and> or_order_type r \<noteq> ''limit'' then Some ''extended hours is supported only for limit orders''
      else if or_order_type r = ''market'' \<and> (f_nonzero (or_limit_price r) \<or> f_nonzero (or_stop_price r)) \<or>
        or_order_type r = ''limit'' \<and> f_nonzero (or_stop_price r) \<or> or_order_type r = ''stop'' \<and> f_nonzero (or_limit_price r) \<or>
        f_nonzero (or_trail_price r) \<or> f_nonzero (or_trail_percent r)
      then Some ''unexpected price fields for this order type''
      else if or_asset_class r \<noteq> [] \<and> or_asset_class r \<noteq> ''equity'' then Some ''only equity orders are supported''
      else if or_position_effect r \<noteq> [] then Some ''position_effect is not supported for stock orders''
      else if \<not> client_order_id_ok (or_client_order_id r)
      then Some ''client_order_id must contain 1-64 letters, digits, underscores or hyphens''
      else None)"

definition ibkr_payload_fields :: "int \<Rightarrow> order_request \<Rightarrow> fields" where
  "ibkr_payload_fields con r =
     [(''acctId'', JStr (or_account_id r)), (''conid'', JNum (int_str con)), (''side'', JStr (to_upper (or_side r))),
      (''orderType'', JStr (ibkrOrderType (or_order_type r))), (''quantity'', json_num (or_quantity r)),
      (''tif'', JStr (to_upper (or_time_in_force r))), (''cOID'', JStr (or_client_order_id r)),
      (''outsideRTH'', JBool (or_extended_hours r))] @
     (if or_order_type r = ''limit'' then [(''price'', json_num (or_limit_price r))]
      else if or_order_type r = ''stop'' then [(''price'', json_num (or_stop_price r))]
      else if or_order_type r = ''stop_limit''
      then [(''price'', json_num (or_limit_price r)), (''auxPrice'', json_num (or_stop_price r))] else [])"

definition ibkrOrderPayload :: "order_request \<Rightarrow> go_error + fields" where
  "ibkrOrderPayload r =
     (case ValidateOrder r of Some e \<Rightarrow> Inl (invalid e) | None \<Rightarrow>
       (case ibkr_mode_error r of Some e \<Rightarrow> Inl (invalid e) | None \<Rightarrow>
         (case parse_int64 (or_instrument_id r) of
            None \<Rightarrow> Inl (invalid ''instrument_id must be a positive numeric conid'')
          | Some con \<Rightarrow> if con \<le> 0 then Inl (invalid ''instrument_id must be a positive numeric conid'')
              else Inr (ibkr_payload_fields con r))))"

fun f_trunc :: "gofloat \<Rightarrow> gofloat" where
  "f_trunc (Num a) = Num (of_int (if a < 0 then - \<lfloor>- a\<rfloor> else \<lfloor>a\<rfloor>))"
| "f_trunc x = x"

definition prepareOrder :: "remote \<Rightarrow> order_request \<Rightarrow> (ibkr, json) call" where
  "prepareOrder remote r = cbind (clift (\<lambda>_. ibkrOrderPayload r)) (\<lambda>payload.
     cbind (tradingAccount remote (or_account_id r)) (\<lambda>account.
     if \<not> f_eq (or_quantity r) (f_trunc (or_quantity r)) \<and> \<not> ta_supports_fractions account
     then cfail (invalid ''this IBKR account does not support fractional shares'')
     else cbind (ibkrOrderInstrument remote (or_instrument_id r)) (\<lambda>ins.
       if or_symbol r \<noteq> [] \<and> \<not> equal_fold (or_symbol r) (in_symbol ins)
       then cfail (invalid ''symbol does not match the selected IBKR contract'')
       else if or_currency r \<noteq> [] \<and> or_currency r \<noteq> in_currency ins
       then cfail (invalid ''currency does not match the selected IBKR contract'')
       else if ta_allow_customer_time account
       then cfail (invalid ''accounts requiring a manual order timestamp are not supported by this order ticket'')
       else cret (JObj [(''orders'', JArr [JObj payload])]))))"

definition orderMessages :: "ibkr \<Rightarrow> json \<Rightarrow> string list" where
  "orderMessages c v = (case v of
     JArr xs \<Rightarrow> map (safeOrderText c) (filter (\<lambda>t. t \<noteq> []) (map textValue xs))
   | _ \<Rightarrow> (let t = textValue v in if t = [] then [] else [safeOrderText c t]))"

definition lenient_str :: "string \<Rightarrow> fields \<Rightarrow> string" where
  "lenient_str name kvs = foldl (\<lambda>acc v. case v of JStr s \<Rightarrow> s | _ \<Rightarrow> acc) [] (field_values name kvs)"

definition order_impact_of :: "json \<Rightarrow> order_impact" where
  "order_impact_of j = (let kvs = (case j of JObj kvs \<Rightarrow> kvs | _ \<Rightarrow> []) in
     \<lparr>oi_current = lenient_str ''current'' kvs, oi_change = lenient_str ''change'' kvs, oi_after = lenient_str ''after'' kvs\<rparr>)"

definition whatif_preview :: "ibkr \<Rightarrow> fields \<Rightarrow> go_error + order_preview" where
  "whatif_preview c raw =
     (case Option.bind (map_of (rev raw) ''amount'') (\<lambda>j. Option.bind (obj_entries j) (\<lambda>kvs. strs_of kvs [''amount'', ''commission'', ''total''])) of
        None \<Rightarrow> Inl (PlainError ''ibkr: preview is unavailable; no order was submitted'')
      | Some s \<Rightarrow> Inr \<lparr>op_amount = s ! 0, op_commission = s ! 1, op_total = s ! 2,
          op_equity = order_impact_of (obj_get raw ''equity''), op_initial_margin = order_impact_of (obj_get raw ''initial''),
          op_maintenance_margin = order_impact_of (obj_get raw ''maintenance''), op_position = order_impact_of (obj_get raw ''position''),
          op_warnings = orderMessages c (case floated (obj_get raw ''warn'') of Some j \<Rightarrow> j | None \<Rightarrow> JNull)\<rparr>)"

abbreviation confirmation_pending :: go_error where
  "confirmation_pending \<equiv> NewOrderError ''confirmation_pending'' ''resolve the pending IBKR order confirmation first''"

definition ibkrPreviewOrder :: "remote \<Rightarrow> order_request \<Rightarrow> (ibkr, order_preview) call" where
  "ibkrPreviewOrder remote r c =
     (if ib_pending c \<noteq> None then (c, Inl confirmation_pending)
      else cbind (prepareOrder remote r) (\<lambda>body.
        cbind (getTradingJSON remote (''/iserver/marketdata/snapshot?conids='' @ query_escape (or_instrument_id r) @ ''&fields=31,84,86'') Some) (\<lambda>_.
        cbind (orderRequest remote ''POST'' (''/iserver/account/'' @ path_escape (or_account_id r) @ ''/orders/whatif'') (Some body) obj_entries) (\<lambda>raw.
        clift (\<lambda>c. whatif_preview c raw)))) c)"

definition orderFromRequest :: "order_request \<Rightarrow> order" where
  "orderFromRequest r = zero_order\<lparr>od_client_order_id := or_client_order_id r, od_account_id := or_account_id r,
     od_currency := or_currency r, od_symbol := or_symbol r, od_instrument_id := or_instrument_id r,
     od_asset_class := or_asset_class r, od_side := or_side r, od_order_type := or_order_type r,
     od_quantity := or_quantity r, od_limit_price := or_limit_price r, od_stop_price := or_stop_price r,
     od_time_in_force := or_time_in_force r\<rparr>"

definition normalizeIBKRStatus :: "string \<Rightarrow> string" where
  "normalizeIBKRStatus s = (let k = to_lower (replace_all '' '' [] s) in
     if k \<in> {''submitted'', ''presubmitted'', ''pendingsubmit'', ''partiallyfilled''} then ''open''
     else if k = ''pendingcancel'' then ''pending_cancel''
     else if k = ''filled'' then ''filled''
     else if k \<in> {''cancelled'', ''canceled'', ''apicancelled''} then ''canceled''
     else if k \<in> {''inactive'', ''rejected''} then ''rejected''
     else to_lower s)"

definition rows_of :: "json \<Rightarrow> fields list option" where
  "rows_of j = list_of obj_entries j"

definition parseOrderResponse :: "ibkr \<Rightarrow> instant \<Rightarrow> order_request \<Rightarrow> json \<Rightarrow> go_error + order" where
  "parseOrderResponse c now r data = (case rows_of data of
     Some [row] \<Rightarrow>
       (let txt = (\<lambda>k. textValue (obj_get row k)); ord = orderFromRequest r; i = firstNonEmpty [txt ''order_id'', txt ''orderId''] in
        if txt ''error'' \<noteq> [] then Inl (NewOrderError ''order_rejected'' (safeOrderText c (txt ''error'')))
        else if i \<noteq> [] then
          (let raw = firstNonEmpty [txt ''order_status'', txt ''status'']; st = normalizeIBKRStatus raw
           in Inr (ord\<lparr>od_id := i, od_raw_status := raw, od_status := (if st = [] then ''unknown'' else st), od_submitted_at := rfc3339 now\<rparr>))
        else if txt ''id'' \<noteq> [] then
          (let ms = orderMessages c (obj_get row ''message'') in
           if ms = [] then Inl (NewOrderError ''order_outcome_unknown'' ''IBKR confirmation did not contain a message; check the order in Gateway'')
           else Inr (ord\<lparr>od_status := ''confirmation_required'', od_confirmation := Some \<lparr>oc_reply_id = txt ''id'', oc_messages = ms,
             oc_message_ids = orderMessages c (obj_get row ''messageIds'')\<rparr>\<rparr>))
        else Inl (NewOrderError ''order_outcome_unknown'' ''IBKR did not return an order ID; check orders before submitting again''))
   | _ \<Rightarrow> Inl (NewOrderError ''order_outcome_unknown'' ''IBKR returned an unexpected order response; check orders before submitting again''))"

definition invalidateOrderCache :: "ibkr \<Rightarrow> ibkr" where
  "invalidateOrderCache c = c\<lparr>ib_ready_at := None\<rparr>"

text \<open>The pair of an order and an error, as a result.\<close>

definition attempt_result :: "order \<Rightarrow> go_error option \<Rightarrow> go_error + order" where
  "attempt_result ord err = (case err of Some e \<Rightarrow> Inl e | None \<Rightarrow> Inr ord)"

text \<open>The submission itself, once the request is prepared: the attempt is on record before the request
  leaves, and its outcome when the call returns.\<close>

definition record_attempt :: "order_request \<Rightarrow> order \<Rightarrow> go_error option \<Rightarrow> ibkr \<Rightarrow> ibkr" where
  "record_attempt r ord err c = c\<lparr>ib_attempts := AList.update (or_client_order_id r)
     \<lparr>at_request = r, at_order = ord, at_err = err\<rparr> (ib_attempts c)\<rparr>"

definition send_order :: "remote \<Rightarrow> instant \<Rightarrow> order_request \<Rightarrow> json \<Rightarrow> (ibkr, order) call" where
  "send_order remote now r body c =
     (case orderRequest remote ''POST'' (''/iserver/account/'' @ path_escape (or_account_id r) @ ''/orders'') (Some body) Some
             (record_attempt r zero_order None c) of
        (c', res) \<Rightarrow>
          (let out = rbind res (parseOrderResponse c' now r); ord = outcome_order out;
               c1 = record_attempt r ord (outcome_error out) c';
               c2 = (if od_confirmation ord \<noteq> None then c1\<lparr>ib_pending := Some (or_client_order_id r)\<rparr> else c1)
           in (invalidateOrderCache c2, out)))"

definition ibkrPlaceOrder :: "remote \<Rightarrow> instant \<Rightarrow> order_request \<Rightarrow> (ibkr, order) call" where
  "ibkrPlaceOrder remote now r c =
     (case ibkrOrderPayload r of Inl e \<Rightarrow> (c, Inl e) | Inr _ \<Rightarrow>
       (case map_of (ib_attempts c) (or_client_order_id r) of
          Some prior \<Rightarrow> (c,
            if \<not> same_request (at_request prior) r
            then Inl (NewOrderError ''duplicate_order'' ''client_order_id was already used with different order details'')
            else attempt_result (at_order prior) (at_err prior))
        | None \<Rightarrow>
            if ib_pending c \<noteq> None then (c, Inl confirmation_pending)
            else if length (ib_attempts c) \<ge> 10000 then (c, Inl (PlainError ''ibkr: order entry session capacity reached''))
            else cbind (prepareOrder remote r) (send_order remote now r) c))"

definition pending_attempt :: "ibkr \<Rightarrow> order_attempt option" where
  "pending_attempt c = Option.bind (ib_pending c) (map_of (ib_attempts c))"

definition awaits :: "string \<Rightarrow> string \<Rightarrow> order_attempt \<Rightarrow> bool" where
  "awaits account reply a \<longleftrightarrow> or_account_id (at_request a) = account \<and>
     (\<exists>k. od_confirmation (at_order a) = Some k \<and> oc_reply_id k = reply)"

definition ibkrReplyOrder :: "remote \<Rightarrow> instant \<Rightarrow> string \<Rightarrow> string \<Rightarrow> bool \<Rightarrow> (ibkr, order) call" where
  "ibkrReplyOrder remote now account reply confirmed c =
     (case ib_replies c reply of
        Some prior \<Rightarrow> (c,
          if ra_account prior \<noteq> account \<or> ra_confirmed prior \<noteq> confirmed
          then Inl (invalid ''reply was already resolved with another decision'')
          else attempt_result (ra_order prior) (ra_err prior))
      | None \<Rightarrow> (case pending_attempt c of
          None \<Rightarrow> (c, Inl (invalid ''confirmation does not belong to this account or is no longer active''))
        | Some a \<Rightarrow>
            if \<not> awaits account reply a
            then (c, Inl (invalid ''confirmation does not belong to this account or is no longer active''))
            else (case orderRequest remote ''POST'' (''/iserver/reply/'' @ path_escape reply) (Some (JObj [(''confirmed'', JBool confirmed)])) Some c of
              (c', res) \<Rightarrow>
                (let out = rbind res (\<lambda>data. if confirmed then parseOrderResponse c' now (at_request a) data
                             else Inr ((orderFromRequest (at_request a))\<lparr>od_status := ''not_submitted''\<rparr>));
                     ord = outcome_order out; err = outcome_error out;
                     c1 = c'\<lparr>ib_replies := (ib_replies c')(reply \<mapsto> \<lparr>ra_account = account, ra_confirmed = confirmed, ra_order = ord, ra_err = err\<rparr>)\<rparr>;
                     c2 = record_attempt (at_request a) ord err c1;
                     c3 = (if err \<noteq> None \<or> od_confirmation ord = None then c2\<lparr>ib_pending := None\<rparr> else c2)
                 in (invalidateOrderCache c3, out)))))"

definition ibkrOrderAttempt :: "string \<Rightarrow> string \<Rightarrow> (ibkr, order_attempt_state) call" where
  "ibkrOrderAttempt account client = clift (\<lambda>c. case map_of (ib_attempts c) client of
     None \<Rightarrow> Inl (NewOrderError ''order_outcome_unknown''
       ''order attempt is unavailable in this service session; check IBKR before submitting again'')
   | Some a \<Rightarrow>
       if or_account_id (at_request a) \<noteq> account
       then Inl (NewOrderError ''order_outcome_unknown''
         ''order attempt is unavailable in this service session; check IBKR before submitting again'')
       else Inr \<lparr>oa_request = at_request a, oa_order = at_order a,
         oa_error = (case at_err a of Some e \<Rightarrow> error_text e | None \<Rightarrow> []),
         oa_code = (case at_err a of Some (OrderError k _) \<Rightarrow> k | _ \<Rightarrow> [])\<rparr>)"

section \<open>Orders\<close>

definition floatValue :: "string \<Rightarrow> gofloat" where
  "floatValue s = fst (parse_float s)"

definition normalizeIBKROrder :: "string \<Rightarrow> fields \<Rightarrow> order" where
  "normalizeIBKROrder account m =
     (let txt = (\<lambda>k. textValue (obj_get m k)); pick = (\<lambda>a b. firstNonEmpty [txt a, txt b]);
          raw = pick ''status'' ''order_status''; kind = pick ''orderType'' ''order_type'';
          t = lookup_or [] [(''MKT'', ''market''), (''LMT'', ''limit''), (''STP'', ''stop''), (''STP LMT'', ''stop_limit''),
                (''STOP_LIMIT'', ''stop_limit''), (''TRAIL'', ''trailing_stop'')] (to_upper kind);
          orderType = (if t = [] then to_lower kind else t);
          sd = to_lower (txt ''side'');
          num = (\<lambda>k. floatValue (txt k))
      in zero_order\<lparr>od_id := pick ''orderId'' ''order_id'', od_account_id := account, od_currency := txt ''currency'',
           od_client_order_id := pick ''order_ref'' ''cOID'', od_symbol := pick ''ticker'' ''symbol'',
           od_instrument_id := txt ''conid'',
           od_side := (if sd = ''b'' then ''buy'' else if sd = ''s'' then ''sell'' else sd), od_order_type := orderType,
           od_quantity := floatValue (pick ''totalSize'' ''total_size''),
           od_filled_quantity := floatValue (pick ''filledQuantity'' ''cum_fill''),
           od_average_fill_price := floatValue (pick ''avgPrice'' ''avg_price''),
           od_time_in_force := to_lower (pick ''timeInForce'' ''tif''), od_status := normalizeIBKRStatus raw, od_raw_status := raw,
           od_limit_price := (if orderType = ''limit'' \<or> orderType = ''stop_limit'' then num ''price'' else f_zero),
           od_stop_price := (if orderType = ''stop'' then num ''price''
             else if orderType = ''stop_limit'' then num ''auxPrice'' else f_zero)\<rparr>)"

definition matchesOrderStatus :: "string \<Rightarrow> string \<Rightarrow> bool" where
  "matchesOrderStatus flt status =
     (if flt = [] \<or> flt = ''all'' then True
      else if flt = ''open'' then status = ''open'' \<or> status = ''pending_cancel''
      else if flt = ''closed'' then status \<in> {''filled'', ''canceled'', ''rejected'', ''expired''}
      else status = flt)"

definition limited :: "int \<Rightarrow> 'a list \<Rightarrow> 'a list" where
  "limited n xs = (if n > 0 then take (nat n) xs else xs)"

definition cachedOrders :: "instant \<Rightarrow> order_query \<Rightarrow> ibkr \<Rightarrow> order list option" where
  "cachedOrders now q c = (case ib_ready_at c of
     None \<Rightarrow> None
   | Some t \<Rightarrow>
       if now - t > 60 * ns_per_second then None
       else Some (limited (oq_limit q) (filter
         (\<lambda>ord. (oq_account_id q = [] \<or> od_account_id ord = oq_account_id q) \<and> matchesOrderStatus (oq_status q) (od_status ord))
         (map (\<lambda>key. let fs = lr_fields (the (map_of (ib_rows c) key)) in normalizeIBKROrder (textValue (obj_get fs ''acct'')) fs)
           (sort (map fst (ib_rows c)))))))"

text \<open>The snapshot of orders: absent rows, or a snapshot flag that says so, mean that it is pending.\<close>

definition decode_snapshot :: "json \<Rightarrow> (fields list option \<times> bool option) option" where
  "decode_snapshot j = Option.bind (obj_entries j) (\<lambda>kvs.
     Option.bind (foldl (\<lambda>acc v. Option.bind acc (\<lambda>_. map_option Some (rows_of v))) (Some None) (non_null ''orders'' kvs)) (\<lambda>rows.
     Option.bind (foldl (\<lambda>acc v. case v of JNull \<Rightarrow> map_option (\<lambda>_. None) acc | JBool b \<Rightarrow> map_option (\<lambda>_. Some b) acc | _ \<Rightarrow> None)
        (Some None) (field_values ''snapshot'' kvs)) (\<lambda>snap. Some (rows, snap))))"

definition fetchOrderRows :: "remote \<Rightarrow> bool \<Rightarrow> (ibkr, fields list) call" where
  "fetchOrderRows remote force =
     cbind (getTradingJSON remote (if force then ''/iserver/account/orders?force=true'' else ''/iserver/account/orders'') decode_snapshot)
       (\<lambda>raw. case raw of
          (Some rows, snap) \<Rightarrow> if snap = Some False then cfail (PlainError ''ibkr: orders snapshot pending'') else cret rows
        | (None, _) \<Rightarrow> cfail (PlainError ''ibkr: orders snapshot pending''))"

definition row_account :: "fields \<Rightarrow> string" where
  "row_account m = firstNonEmpty [textValue (obj_get m ''acct''), textValue (obj_get m ''account'')]"

definition listed_orders :: "remote \<Rightarrow> order_query \<Rightarrow> (ibkr, order list) call" where
  "listed_orders remote q = cbind (ibkrTradingAccounts remote) (\<lambda>_. cbind (fetchOrderRows remote False) (\<lambda>rows. cret (limited (oq_limit q)
     (filter (\<lambda>ord. matchesOrderStatus (oq_status q) (od_status ord))
       (map (\<lambda>m. normalizeIBKROrder (row_account m) m)
         (filter (\<lambda>m. oq_account_id q = [] \<or> row_account m = oq_account_id q) rows))))))"

definition ibkrListOrders :: "remote \<Rightarrow> instant \<Rightarrow> order_query \<Rightarrow> (ibkr, order list) call" where
  "ibkrListOrders remote now q c = (case cachedOrders now q c of
     Some os \<Rightarrow> if \<not> oq_fresh q then (c, Inr os) else listed_orders remote q c
   | None \<Rightarrow> listed_orders remote q c)"

definition all_orders :: "string \<Rightarrow> order_query" where
  "all_orders account = \<lparr>oq_fresh = True, oq_account_id = account, oq_status = ''all'', oq_limit = 0\<rparr>"

definition ibkrGetOrder :: "remote \<Rightarrow> instant \<Rightarrow> string \<Rightarrow> string \<Rightarrow> (ibkr, order) call" where
  "ibkrGetOrder remote now account i = cbind (ibkrListOrders remote now (all_orders account)) (\<lambda>orders.
     case find (\<lambda>ord. od_id ord = i) orders of
       Some ord \<Rightarrow> cret ord
     | None \<Rightarrow> cfail (PlainError ''ibkr: order not found in current session for this account''))"

definition cancellable :: "order \<Rightarrow> bool" where
  "cancellable ord \<longleftrightarrow> od_status ord = ''open'' \<or> od_status ord = ''pending_cancel''"

definition ibkrCancelOrder :: "remote \<Rightarrow> instant \<Rightarrow> string \<Rightarrow> string \<Rightarrow> (ibkr, unit) call" where
  "ibkrCancelOrder remote now account i c =
     (if ib_pending c \<noteq> None then (c, Inl confirmation_pending)
      else if (case parse_int64 i of None \<Rightarrow> True | Some n \<Rightarrow> n \<le> 0) then (c, Inl (invalid ''order_id must be a positive integer''))
      else cbind (tradingAccount remote account) (\<lambda>_.
        cbind (ibkrListOrders remote now (all_orders account)) (\<lambda>orders.
        let mine = filter (\<lambda>ord. od_id ord = i) orders in
        if \<exists>ord\<in>set mine. \<not> cancellable ord then cfail (invalid ''order is no longer open'')
        else if mine = [] then cfail (invalid ''order was not found in the selected account'')
        else cbind (orderRequest remote ''DELETE'' (''/iserver/account/'' @ path_escape account @ ''/order/'' @ path_escape i) None obj_entries) (\<lambda>result.
          if \<not> equal_fold (textValue (obj_get result ''msg'')) ''Request was submitted''
          then cfail (NewOrderError ''order_outcome_unknown'' ''IBKR cancellation result is unknown; refresh order status'')
          else (\<lambda>c. (invalidateOrderCache c, Inr ()))))) c)"

section \<open>Order quotes\<close>

definition trim_suffix_char :: "char \<Rightarrow> string \<Rightarrow> string" where
  "trim_suffix_char d s = (if s \<noteq> [] \<and> last s = d then butlast s else s)"

definition orderQuoteNumber :: "string \<Rightarrow> bool \<Rightarrow> gofloat option" where
  "orderQuoteNumber t positive =
     (case parse_float (trim_suffix_char (CHR ''%'') (replace_all '','' [] t)) of (x, ok) \<Rightarrow>
        if \<not> ok \<or> \<not> f_finite x \<or> (positive \<and> f_leq x f_zero) then None else Some x)"

definition normalizeOrderQuote :: "int \<Rightarrow> fields \<Rightarrow> order_quote" where
  "normalizeOrderQuote con raw =
     (let txt = (\<lambda>k. textValue (obj_get raw k));
          (kind1, last1) = (let l = txt ''31'' in if prefix ''C'' l then (''close'', trim_space (tl l)) else (''last'', l));
          (kind, lst) = (if prefix ''H'' last1 then (''halted'', trim_space (tl last1)) else (kind1, last1));
          q = zero_quote\<lparr>ob_con_id := con, ob_last_kind := kind, ob_availability := txt ''6509'',
            ob_last := orderQuoteNumber lst True, ob_bid := orderQuoteNumber (txt ''84'') True, ob_ask := orderQuoteNumber (txt ''86'') True,
            ob_change := orderQuoteNumber (txt ''82'') False, ob_change_pct := orderQuoteNumber (txt ''83'') False,
            ob_prior_close := orderQuoteNumber (txt ''7741'') True\<rparr>
      in case parse_int64 (txt ''_updated'') of
           Some u \<Rightarrow> if u > 0 then q\<lparr>ob_updated_at := rfc3339_nano (u * 1000000)\<rparr> else q
         | None \<Rightarrow> q)"

definition quote_ready :: "order_quote \<Rightarrow> bool" where
  "quote_ready q \<longleftrightarrow> ob_last q \<noteq> None \<or> ob_bid q \<noteq> None \<or> ob_ask q \<noteq> None \<or> prefix ''N'' (ob_availability q)"

definition quote_from_rows :: "int \<Rightarrow> order_quote \<Rightarrow> fields list \<Rightarrow> order_quote" where
  "quote_from_rows con q rows = (case find (\<lambda>m. parse_int64 (textValue (obj_get m ''conid'')) = Some con) rows of
     Some m \<Rightarrow> normalizeOrderQuote con m | None \<Rightarrow> q)"

text \<open>One reading of the snapshot, and the two readings that a call makes at most.\<close>

definition read_quote :: "remote \<Rightarrow> int \<Rightarrow> order_quote \<Rightarrow> (ibkr, order_quote) call" where
  "read_quote remote con q = cbind (getTradingJSON remote
     (''/iserver/marketdata/snapshot?conids='' @ int_str con @ ''&fields=31,84,86,82,83,6509,7741'') rows_of)
     (\<lambda>rows. cret (quote_from_rows con q rows))"

definition ibkrOrderQuote :: "remote \<Rightarrow> string \<Rightarrow> (ibkr, order_quote) call" where
  "ibkrOrderQuote remote i c = (case parse_int64 i of
     None \<Rightarrow> (c, Inl (invalid ''instrument_id must be a positive numeric conid''))
   | Some con \<Rightarrow>
       if con \<le> 0 then (c, Inl (invalid ''instrument_id must be a positive numeric conid''))
       else if ib_pending c \<noteq> None then (c, Inl confirmation_pending)
       else cbind (ibkrTradingAccounts remote) (\<lambda>_.
         cbind (read_quote remote con (zero_quote\<lparr>ob_con_id := con, ob_last_kind := ''last''\<rparr>)) (\<lambda>q.
         if quote_ready q then cret q else read_quote remote con q)) c)"

section \<open>Live orders and executions\<close>

definition same_order :: "order \<Rightarrow> order \<Rightarrow> bool" where
  "same_order a b \<longleftrightarrow> f_eq (od_quantity a) (od_quantity b) \<and> f_eq (od_filled_quantity a) (od_filled_quantity b) \<and>
     f_eq (od_limit_price a) (od_limit_price b) \<and> f_eq (od_stop_price a) (od_stop_price b) \<and>
     f_eq (od_average_fill_price a) (od_average_fill_price b) \<and> a = b"

definition merge_row :: "fields \<Rightarrow> fields \<Rightarrow> fields" where
  "merge_row old row = foldl (\<lambda>m (k, v). if v \<noteq> JNull then AList.update k v m else m) old (filter (\<lambda>(k, v). obj_get row k = v) row)"

definition order_refresh :: "order \<Rightarrow> order \<Rightarrow> bool" where
  "order_refresh before after \<longleftrightarrow> \<not> f_eq (od_filled_quantity after) (od_filled_quantity before) \<or>
     od_status after = ''filled'' \<and> od_status before \<noteq> ''filled'' \<or> od_status after = ''canceled'' \<and> od_status before \<noteq> ''canceled''"

definition row_key :: "fields \<Rightarrow> string" where
  "row_key row = textValue (obj_get row ''acct'') @ ''/'' @ textValue (obj_get row ''orderId'')"

definition apply_order_row :: "instant \<Rightarrow> instant \<Rightarrow> bool \<Rightarrow> (string \<times> live_order_row) list \<times> trading_event list \<Rightarrow> fields \<Rightarrow>
    (string \<times> live_order_row) list \<times> trading_event list" where
  "apply_order_row now started snapshot acc row = (case acc of (rows, events) \<Rightarrow>
     let account = textValue (obj_get row ''acct''); i = textValue (obj_get row ''orderId''); old = map_of rows (row_key row);
         fields = (case old of Some r \<Rightarrow> lr_fields r | None \<Rightarrow> []) in
     if account = [] \<or> i = [] then acc
     else if snapshot \<and> (case old of Some r \<Rightarrow> lr_at r > started | None \<Rightarrow> False) then acc
     else if old = None \<and> length rows \<ge> 10000 then acc
     else let before = normalizeIBKROrder account fields; merged = merge_row fields row; after = normalizeIBKROrder account merged in
       (AList.update (row_key row) \<lparr>lr_fields = merged, lr_at = now\<rparr> rows,
        if old = None \<or> \<not> same_order before after
        then events @ [\<lparr>te_account_id = account, te_order = Some after, te_execution_id = [], te_refresh = order_refresh before after\<rparr>]
        else events))"

definition applyOrderRows :: "instant \<Rightarrow> instant \<Rightarrow> bool \<Rightarrow> fields list \<Rightarrow> ibkr \<Rightarrow> ibkr \<times> trading_event list" where
  "applyOrderRows now started snapshot rows c =
     (let kept = filter (\<lambda>(k, r). \<not> (now - lr_at r > 24 * 3600 * ns_per_second)) (ib_rows c);
          (rows', events) = foldl (apply_order_row now started snapshot) (kept, []) rows
      in (c\<lparr>ib_rows := rows', ib_ready_at := (if snapshot then Some now else ib_ready_at c)\<rparr>, events))"

definition economics :: "fields \<Rightarrow> string list" where
  "economics row = map (\<lambda>k. textValue (obj_get row k)) [''size'', ''price'', ''side'', ''conid'', ''trade_time_r'']"

definition execution_account :: "fields \<Rightarrow> string" where
  "execution_account row = firstNonEmpty [textValue (obj_get row ''accountCode''), textValue (obj_get row ''account'')]"

definition execution_key :: "fields \<Rightarrow> string" where
  "execution_key row = execution_account row @ ''/'' @ textValue (obj_get row ''execution_id'')"

text \<open>\<open>digest\<close> is the SHA-256 hash of the encoded economics.\<close>

definition apply_execution_row :: "(string list \<Rightarrow> string) \<Rightarrow> instant \<Rightarrow> (string \<times> execution_seen) list \<times> trading_event list \<Rightarrow> fields \<Rightarrow>
    (string \<times> execution_seen) list \<times> trading_event list" where
  "apply_execution_row digest now acc row = (case acc of (seen, events) \<Rightarrow>
     let account = execution_account row; i = textValue (obj_get row ''execution_id''); h = digest (economics row) in
     if account = [] \<or> i = [] then acc
     else if (case map_of seen (execution_key row) of Some e \<Rightarrow> es_hash e = h | None \<Rightarrow> False) then acc
     else (AList.update (execution_key row) \<lparr>es_hash = h, es_at = now\<rparr> (if length seen \<ge> 50000 then [] else seen),
           events @ [\<lparr>te_account_id = account, te_order = None, te_execution_id = i, te_refresh = True\<rparr>]))"

definition tradingRows :: "json option \<Rightarrow> go_error + fields list" where
  "tradingRows data = (case data of
     Some (JArr xs) \<Rightarrow> (case rows_of (JArr xs) of Some rows \<Rightarrow> Inr rows | None \<Rightarrow> Inl (PlainError ''ibkr: invalid trading rows''))
   | _ \<Rightarrow> Inl (PlainError ''ibkr: invalid trading rows''))"

definition applyExecutionRows :: "(string list \<Rightarrow> string) \<Rightarrow> instant \<Rightarrow> json option \<Rightarrow> (ibkr, trading_event list) call" where
  "applyExecutionRows digest now data c = (case tradingRows data of
     Inl e \<Rightarrow> (c, Inl e)
   | Inr rows \<Rightarrow>
       (let kept = filter (\<lambda>(k, e). \<not> (now - es_at e > 7 * 24 * 3600 * ns_per_second)) (ib_executions c);
            (seen, events) = foldl (apply_execution_row digest now) (kept, []) rows
        in (c\<lparr>ib_executions := seen\<rparr>, Inr events)))"

definition stream_lost :: "fields \<Rightarrow> bool" where
  "stream_lost kvs \<longleftrightarrow>
     (case (foldl (\<lambda>acc v. case v of JNull \<Rightarrow> map_option (\<lambda>_. None) acc | JBool b \<Rightarrow> map_option (\<lambda>_. Some b) acc | _ \<Rightarrow> None)
        (Some None) (field_values ''authenticated'' kvs), bool_field ''competing'' kvs) of
        (Some authed, Some competing) \<Rightarrow> authed = Some False \<or> competing | _ \<Rightarrow> False)"

definition consumeTradingMessage :: "(string list \<Rightarrow> string) \<Rightarrow> instant \<Rightarrow> json option \<Rightarrow> (ibkr, trading_event list) call" where
  "consumeTradingMessage digest now data =
     (case Option.bind data (\<lambda>j. Option.bind (obj_entries j) (\<lambda>kvs. map_option (\<lambda>t. (t, kvs)) (str_field ''topic'' kvs))) of
        None \<Rightarrow> cfail (PlainError ''ibkr: invalid stream message'')
      | Some (topic, kvs) \<Rightarrow>
          (let args = (case field_values ''args'' kvs of [] \<Rightarrow> None | vs \<Rightarrow> Some (last vs)) in
           if topic = ''sor'' then cbind (clift (\<lambda>_. tradingRows args)) (\<lambda>rows c. case applyOrderRows now now False rows c of (c', evs) \<Rightarrow> (c', Inr evs))
           else if topic = ''str'' then applyExecutionRows digest now args
           else if topic = ''sts'' \<and> (case args of Some j \<Rightarrow> (case obj_entries j of Some f \<Rightarrow> stream_lost f | None \<Rightarrow> False) | None \<Rightarrow> False)
           then cfail (PlainError ''ibkr: stream authentication lost'')
           else cret []))"

section \<open>Calls from outside\<close>

fun ibkr_run :: "remote \<Rightarrow> client_call \<Rightarrow> ibkr \<Rightarrow> ibkr" where
  "ibkr_run remote CallAccounts c = fst (ibkrTradingAccounts remote c)"
| "ibkr_run remote (CallSearch q) c = fst (ibkrSearch remote q c)"
| "ibkr_run remote (CallInstrument i) c = fst (ibkrOrderInstrument remote i c)"
| "ibkr_run remote (CallQuote now i) c = fst (ibkrOrderQuote remote i c)"
| "ibkr_run remote (CallPreview now r) c = fst (ibkrPreviewOrder remote r c)"
| "ibkr_run remote (CallPlace now r) c = fst (ibkrPlaceOrder remote now r c)"
| "ibkr_run remote (CallReply now account reply ok) c = fst (ibkrReplyOrder remote now account reply ok c)"
| "ibkr_run remote (CallAttempt account client) c = fst (ibkrOrderAttempt account client c)"
| "ibkr_run remote (CallGet now account i) c = fst (ibkrGetOrder remote now account i c)"
| "ibkr_run remote (CallList now q) c = fst (ibkrListOrders remote now q c)"
| "ibkr_run remote (CallCancel now account i) c = fst (ibkrCancelOrder remote now account i c)"

text \<open>The orders and the replies among the requests in a log.\<close>

definition ends_with :: "string \<Rightarrow> string \<Rightarrow> bool" where
  "ends_with u s \<longleftrightarrow> take (length s) (rev u) = rev s"

fun submitted_fields :: "json option \<Rightarrow> fields option" where
  "submitted_fields (Some (JObj [(k, JArr [JObj fs])])) = (if k = ''orders'' then Some fs else None)"
| "submitted_fields _ = None"

definition is_submission :: "http_request \<Rightarrow> bool" where
  "is_submission q \<longleftrightarrow> rq_method q = ''POST'' \<and> submitted_fields (rq_body q) \<noteq> None \<and> ends_with (rq_url q) ''/orders''"

fun is_reply_body :: "json option \<Rightarrow> bool" where
  "is_reply_body (Some (JObj [(k, JBool _)])) \<longleftrightarrow> k = ''confirmed''"
| "is_reply_body _ \<longleftrightarrow> False"

definition submission_key :: "http_request \<Rightarrow> string" where
  "submission_key q = (case submitted_fields (rq_body q) of
     Some fs \<Rightarrow> (case obj_get fs ''cOID'' of JStr s \<Rightarrow> s | _ \<Rightarrow> []) | None \<Rightarrow> [])"

definition ibkr_sent :: "ibkr \<Rightarrow> string list" where
  "ibkr_sent c = map submission_key (filter is_submission (ib_log c))"

definition reply_urls :: "ibkr \<Rightarrow> string list" where
  "reply_urls c = map rq_url (filter (\<lambda>q. is_reply_body (rq_body q)) (ib_log c))"

definition ibkr_known :: "ibkr \<Rightarrow> string set" where
  "ibkr_known c = dom (map_of (ib_attempts c))"

text \<open>The part of the state that submissions and replies depend on.\<close>

definition ibkr_view :: "ibkr \<Rightarrow> _" where
  "ibkr_view c = (ibkr_sent c, reply_urls c, ib_attempts c, ib_replies c, ib_pending c, BaseURL c)"

definition harmless :: "http_request \<Rightarrow> bool" where
  "harmless q \<longleftrightarrow> \<not> is_submission q \<and> \<not> is_reply_body (rq_body q)"

lemma view_log: "harmless q \<Longrightarrow> ibkr_view (c\<lparr>ib_log := ib_log c @ [q]\<rparr>) = ibkr_view c"
  by (simp add: ibkr_view_def ibkr_sent_def reply_urls_def BaseURL_def harmless_def)

lemma getTradingJSON_quiet [quiet]: "keeps ibkr_view (getTradingJSON remote path dec)"
proof -
  have "harmless \<lparr>rq_method = ''GET'', rq_url = u, rq_body = None\<rparr>" for u
    by (simp add: harmless_def is_submission_def)
  then show ?thesis unfolding keeps_def getTradingJSON_def Let_def by (simp add: view_log split: http_outcome.split)
qed

lemma orderRequest_effect:
  "fst (orderRequest remote verb path body dec c) = c \<or>
   fst (orderRequest remote verb path body dec c) = c\<lparr>ib_log := ib_log c @
     [\<lparr>rq_method = verb, rq_url = BaseURL c @ ''/v1/api'' @ path, rq_body = body\<rparr>]\<rparr>"
  unfolding orderRequest_def Let_def by (simp split: http_outcome.split)

lemma ibkr_accounts_quiet [quiet]: "keeps ibkr_view (ibkrTradingAccounts remote)"
  unfolding ibkrTradingAccounts_def by (auto intro!: keeps_cbind quiet split: option.splits)

lemma ibkr_account_quiet [quiet]: "keeps ibkr_view (tradingAccount remote i)"
  unfolding tradingAccount_def by (auto intro!: keeps_cbind quiet split: option.splits)

lemma ibkr_search_quiet [quiet]: "keeps ibkr_view (ibkrSearch remote q)"
  unfolding ibkrSearch_def Let_def by (auto intro!: keeps_cbind quiet)

lemma ibkr_instrument_quiet [quiet]: "keeps ibkr_view (ibkrOrderInstrument remote i)"
  unfolding ibkrOrderInstrument_def Let_def by (auto intro!: keeps_cbind quiet split: option.splits)

lemma ibkr_prepare_quiet [quiet]: "keeps ibkr_view (prepareOrder remote r)"
  unfolding prepareOrder_def by (auto intro!: keeps_cbind quiet)

lemma ibkr_rows_quiet [quiet]: "keeps ibkr_view (fetchOrderRows remote force)"
  unfolding fetchOrderRows_def by (auto intro!: keeps_cbind quiet split: option.splits)

lemma ibkr_listed_quiet [quiet]: "keeps ibkr_view (listed_orders remote q)"
  unfolding listed_orders_def by (auto intro!: keeps_cbind quiet)

lemma ibkr_list_quiet [quiet]: "keeps ibkr_view (ibkrListOrders remote now q)"
  using ibkr_listed_quiet [of remote q] by (simp add: keeps_def ibkrListOrders_def split: option.split)

lemma ibkr_get_quiet [quiet]: "keeps ibkr_view (ibkrGetOrder remote now account i)"
  unfolding ibkrGetOrder_def by (auto intro!: keeps_cbind quiet split: option.splits)

lemma orderRequest_quiet:
  assumes "\<And>u. harmless \<lparr>rq_method = verb, rq_url = u @ ''/v1/api'' @ path, rq_body = body\<rparr>"
  shows "keeps ibkr_view (orderRequest remote verb path body dec)"
  unfolding keeps_def
proof
  fix c
  show "ibkr_view (fst (orderRequest remote verb path body dec c)) = ibkr_view c"
    using orderRequest_effect [of remote verb path body dec c] assms [of "BaseURL c"] view_log by auto
qed

lemma view_cache [simp]: "ibkr_view (invalidateOrderCache c) = ibkr_view c"
  by (simp add: ibkr_view_def invalidateOrderCache_def ibkr_sent_def reply_urls_def BaseURL_def)

lemma ibkr_cancel_quiet [quiet]: "keeps ibkr_view (ibkrCancelOrder remote now account i)"
proof -
  have 1: "harmless \<lparr>rq_method = ''DELETE'', rq_url = u, rq_body = None\<rparr>" for u
    by (simp add: harmless_def is_submission_def)
  have 2: "keeps ibkr_view (\<lambda>c. (invalidateOrderCache c, Inr ()))" by (simp add: keeps_def)
  have "keeps ibkr_view (cbind (tradingAccount remote account) (\<lambda>_.
        cbind (ibkrListOrders remote now (all_orders account)) (\<lambda>orders.
        let mine = filter (\<lambda>ord. od_id ord = i) orders in
        if \<exists>ord\<in>set mine. \<not> cancellable ord then cfail (invalid ''order is no longer open'')
        else if mine = [] then cfail (invalid ''order was not found in the selected account'')
        else cbind (orderRequest remote ''DELETE'' (''/iserver/account/'' @ path_escape account @ ''/order/'' @ path_escape i) None obj_entries) (\<lambda>result.
          if \<not> equal_fold (textValue (obj_get result ''msg'')) ''Request was submitted''
          then cfail (NewOrderError ''order_outcome_unknown'' ''IBKR cancellation result is unknown; refresh order status'')
          else (\<lambda>c. (invalidateOrderCache c, Inr ()))))))"
    using 2 by (auto intro!: keeps_cbind quiet orderRequest_quiet 1 simp: Let_def)
  then show ?thesis by (simp add: keeps_def ibkrCancelOrder_def)
qed

lemma ibkr_quote_quiet [quiet]: "keeps ibkr_view (ibkrOrderQuote remote i)"
proof -
  have r: "keeps ibkr_view (read_quote remote con q)" for con q
    unfolding read_quote_def by (auto intro!: keeps_cbind quiet)
  have "keeps ibkr_view (cbind (ibkrTradingAccounts remote) (\<lambda>_.
         cbind (read_quote remote con (zero_quote\<lparr>ob_con_id := con, ob_last_kind := ''last''\<rparr>)) (\<lambda>q.
         if quote_ready q then cret q else read_quote remote con q)))" for con
    by (auto intro!: keeps_cbind quiet r)
  then show ?thesis by (simp add: keeps_def ibkrOrderQuote_def split: option.split)
qed

lemma prepared_body:
  assumes "prepareOrder remote r c = (d, Inr body)"
  shows "\<exists>con. parse_int64 (or_instrument_id r) = Some con \<and> 0 < con \<and> body = JObj [(''orders'', JArr [JObj (ibkr_payload_fields con r)])] \<and>
    ValidateOrder r = None \<and> ibkr_mode_error r = None"
  using assms
  by (auto simp: prepareOrder_def cbind_def ibkrOrderPayload_def split: prod.splits sum.splits option.splits if_splits)

lemma ibkr_preview_quiet [quiet]: "keeps ibkr_view (ibkrPreviewOrder remote r)"
proof -
  have 1: "harmless \<lparr>rq_method = ''POST'', rq_url = u @ ''/v1/api'' @ ''/iserver/account/'' @ v @ ''/orders/whatif'', rq_body = Some b\<rparr>"
    if "\<not> is_reply_body (Some b)" for u v b
    using that by (simp add: harmless_def is_submission_def ends_with_def)
  have "keeps ibkr_view (cbind (prepareOrder remote r) (\<lambda>body.
        cbind (getTradingJSON remote (''/iserver/marketdata/snapshot?conids='' @ query_escape (or_instrument_id r) @ ''&fields=31,84,86'') Some) (\<lambda>_.
        cbind (orderRequest remote ''POST'' (''/iserver/account/'' @ path_escape (or_account_id r) @ ''/orders/whatif'') (Some body) obj_entries) (\<lambda>raw.
        clift (\<lambda>c. whatif_preview c raw)))))"
  proof (rule keeps_cbind_result [OF ibkr_prepare_quiet])
    fix body c d assume "prepareOrder remote r c = (d, Inr body)"
    then have "\<not> is_reply_body (Some body)" using prepared_body by fastforce
    then show "keeps ibkr_view (cbind (getTradingJSON remote (''/iserver/marketdata/snapshot?conids='' @ query_escape (or_instrument_id r) @ ''&fields=31,84,86'') Some) (\<lambda>_.
        cbind (orderRequest remote ''POST'' (''/iserver/account/'' @ path_escape (or_account_id r) @ ''/orders/whatif'') (Some body) obj_entries) (\<lambda>raw.
        clift (\<lambda>c. whatif_preview c raw))))"
      using 1 by (intro keeps_cbind quiet orderRequest_quiet) simp_all
  qed
  then show ?thesis by (simp add: keeps_def ibkrPreviewOrder_def)
qed

lemma payload_coid: "obj_get (ibkr_payload_fields con r) ''cOID'' = JStr (or_client_order_id r)"
  by (simp add: ibkr_payload_fields_def obj_get_def)

lemma view_attempt:
  "ibkr_sent (record_attempt r ord err c) = ibkr_sent c" "reply_urls (record_attempt r ord err c) = reply_urls c"
  "ib_replies (record_attempt r ord err c) = ib_replies c" "ib_pending (record_attempt r ord err c) = ib_pending c"
  "BaseURL (record_attempt r ord err c) = BaseURL c" "ib_log (record_attempt r ord err c) = ib_log c"
  "ibkr_known (record_attempt r ord err c) = insert (or_client_order_id r) (ibkr_known c)"
  by (simp_all add: record_attempt_def ibkr_sent_def reply_urls_def BaseURL_def ibkr_known_def)

lemma ibkr_send_effect:
  assumes "send_order remote now r body c = (c', res)" "body = JObj [(''orders'', JArr [JObj (ibkr_payload_fields con r)])]"
  shows "(ibkr_sent c' = ibkr_sent c \<or> ibkr_sent c' = ibkr_sent c @ [or_client_order_id r]) \<and> reply_urls c' = reply_urls c \<and>
    ib_replies c' = ib_replies c \<and> BaseURL c' = BaseURL c \<and>
    map_of (ib_attempts c') = (map_of (ib_attempts c))(or_client_order_id r \<mapsto>
       \<lparr>at_request = r, at_order = outcome_order res, at_err = outcome_error res\<rparr>) \<and>
    ib_pending c' = (if od_confirmation (outcome_order res) \<noteq> None then Some (or_client_order_id r) else ib_pending c)"
proof -
  define d where "d = record_attempt r zero_order None c"
  define p where "p = ''/iserver/account/'' @ path_escape (or_account_id r) @ ''/orders''"
  obtain e x where e: "orderRequest remote ''POST'' p (Some body) Some d = (e, x)" by fastforce
  define q where "q = \<lparr>rq_method = ''POST'', rq_url = BaseURL d @ ''/v1/api'' @ p, rq_body = Some body\<rparr>"
  have q: "is_submission q" "submission_key q = or_client_order_id r" "\<not> is_reply_body (rq_body q)"
    by (simp_all add: q_def p_def is_submission_def assms(2) ends_with_def submission_key_def payload_coid)
  have c: "e = d \<or> e = d\<lparr>ib_log := ib_log d @ [q]\<rparr>"
    using orderRequest_effect [of remote "''POST''" p "Some body" Some d] e by (simp add: q_def)
  have r: "c' = invalidateOrderCache (let c1 = record_attempt r (outcome_order res) (outcome_error res) e in
      if od_confirmation (outcome_order res) \<noteq> None then c1\<lparr>ib_pending := Some (or_client_order_id r)\<rparr> else c1)"
    using assms(1) e unfolding send_order_def d_def p_def by (auto simp: Let_def)
  show ?thesis using c unfolding r Let_def
    by (auto simp: d_def q invalidateOrderCache_def record_attempt_def ibkr_sent_def reply_urls_def BaseURL_def)
qed

lemma view_eq:
  assumes "ibkr_view c = ibkr_view d"
  shows "ibkr_sent c = ibkr_sent d" "reply_urls c = reply_urls d" "ib_attempts c = ib_attempts d" "ib_replies c = ib_replies d"
    "ib_pending c = ib_pending d" "BaseURL c = BaseURL d" "ibkr_known c = ibkr_known d"
  using assms by (simp_all add: ibkr_view_def ibkr_known_def)

lemma ibkr_place_effect:
  assumes "ibkrPlaceOrder remote now r c = (c', res)"
  shows "ibkr_view c' = ibkr_view c \<or>
    ib_pending c = None \<and> or_client_order_id r \<notin> ibkr_known c \<and> ValidateOrder r = None \<and> ibkr_mode_error r = None \<and>
    (ibkr_sent c' = ibkr_sent c \<or> ibkr_sent c' = ibkr_sent c @ [or_client_order_id r]) \<and> reply_urls c' = reply_urls c \<and>
    ib_replies c' = ib_replies c \<and> BaseURL c' = BaseURL c \<and>
    map_of (ib_attempts c') = (map_of (ib_attempts c))(or_client_order_id r \<mapsto>
       \<lparr>at_request = r, at_order = outcome_order res, at_err = outcome_error res\<rparr>) \<and>
    ib_pending c' = (if od_confirmation (outcome_order res) \<noteq> None then Some (or_client_order_id r) else None)"
proof (cases "c' = c")
  case False
  then have n: "map_of (ib_attempts c) (or_client_order_id r) = None" "ib_pending c = None"
    and b: "cbind (prepareOrder remote r) (send_order remote now r) c = (c', res)"
    using assms by (auto simp: ibkrPlaceOrder_def split: sum.splits option.splits if_splits)
  obtain d v where d: "prepareOrder remote r c = (d, v)" by fastforce
  have k: "ibkr_view d = ibkr_view c" by (rule keepsD [OF ibkr_prepare_quiet d])
  show ?thesis
  proof (cases v)
    case (Inl e)
    then have "c' = d" using b d by (simp add: cbind_def)
    then show ?thesis using k by simp
  next
    case (Inr body)
    from prepared_body [OF d [unfolded Inr]] obtain con where
      con: "body = JObj [(''orders'', JArr [JObj (ibkr_payload_fields con r)])]" "ValidateOrder r = None" "ibkr_mode_error r = None" by blast
    have "send_order remote now r body d = (c', res)" using b d Inr by (simp add: cbind_def)
    from ibkr_send_effect [OF this con(1)] have "(ibkr_sent c' = ibkr_sent c \<or> ibkr_sent c' = ibkr_sent c @ [or_client_order_id r]) \<and> reply_urls c' = reply_urls c \<and>
      ib_replies c' = ib_replies c \<and> BaseURL c' = BaseURL c \<and>
      map_of (ib_attempts c') = (map_of (ib_attempts c))(or_client_order_id r \<mapsto>
         \<lparr>at_request = r, at_order = outcome_order res, at_err = outcome_error res\<rparr>) \<and>
      ib_pending c' = (if od_confirmation (outcome_order res) \<noteq> None then Some (or_client_order_id r) else None)"
      unfolding view_eq [OF k] n(2) .
    moreover have "or_client_order_id r \<notin> ibkr_known c" using n(1) by (simp add: ibkr_known_def domIff)
    ultimately show ?thesis using n(2) con(2,3) by blast
  qed
qed simp

lemma ibkr_reply_effect:
  assumes "ibkrReplyOrder remote now account reply confirmed c = (c', res)"
  shows "c' = c \<or> (\<exists>a. ib_replies c reply = None \<and> pending_attempt c = Some a \<and> awaits account reply a \<and>
    ibkr_sent c' = ibkr_sent c \<and> (reply_urls c' = reply_urls c \<or>
      reply_urls c' = reply_urls c @ [BaseURL c @ ''/v1/api/iserver/reply/'' @ path_escape reply]) \<and>
    ib_replies c' = (ib_replies c)(reply \<mapsto> \<lparr>ra_account = account, ra_confirmed = confirmed, ra_order = outcome_order res, ra_err = outcome_error res\<rparr>) \<and>
    BaseURL c' = BaseURL c \<and>
    map_of (ib_attempts c') = (map_of (ib_attempts c))(or_client_order_id (at_request a) \<mapsto>
       \<lparr>at_request = at_request a, at_order = outcome_order res, at_err = outcome_error res\<rparr>) \<and>
    ib_pending c' = (if outcome_error res \<noteq> None \<or> od_confirmation (outcome_order res) = None then None else ib_pending c))"
proof (cases "c' = c")
  case False
  then obtain a where a: "ib_replies c reply = None" "pending_attempt c = Some a" "awaits account reply a"
    using assms by (auto simp: ibkrReplyOrder_def split: option.splits if_splits)
  define body where "body = Some (JObj [(''confirmed'', JBool confirmed)])"
  define p where "p = ''/iserver/reply/'' @ path_escape reply"
  obtain e x where e: "orderRequest remote ''POST'' p body Some c = (e, x)" by fastforce
  define q where "q = \<lparr>rq_method = ''POST'', rq_url = BaseURL c @ ''/v1/api'' @ p, rq_body = body\<rparr>"
  have q: "\<not> is_submission q" "is_reply_body (rq_body q)" "rq_url q = BaseURL c @ ''/v1/api/iserver/reply/'' @ path_escape reply"
    by (simp_all add: q_def p_def body_def is_submission_def)
  have l: "e = c \<or> e = c\<lparr>ib_log := ib_log c @ [q]\<rparr>"
    using orderRequest_effect [of remote "''POST''" p body Some c] e by (simp add: q_def)
  have r: "c' = invalidateOrderCache (let c1 = e\<lparr>ib_replies := (ib_replies e)(reply \<mapsto>
        \<lparr>ra_account = account, ra_confirmed = confirmed, ra_order = outcome_order res, ra_err = outcome_error res\<rparr>)\<rparr>;
      c2 = record_attempt (at_request a) (outcome_order res) (outcome_error res) c1
     in if outcome_error res \<noteq> None \<or> od_confirmation (outcome_order res) = None then c2\<lparr>ib_pending := None\<rparr> else c2)"
    using assms e a unfolding ibkrReplyOrder_def p_def body_def by (auto simp: Let_def)
  have "ibkr_sent c' = ibkr_sent c" "BaseURL c' = BaseURL c"
    "reply_urls c' = reply_urls c \<or> reply_urls c' = reply_urls c @ [BaseURL c @ ''/v1/api/iserver/reply/'' @ path_escape reply]"
    "ib_replies c' = (ib_replies c)(reply \<mapsto> \<lparr>ra_account = account, ra_confirmed = confirmed, ra_order = outcome_order res, ra_err = outcome_error res\<rparr>)"
    "map_of (ib_attempts c') = (map_of (ib_attempts c))(or_client_order_id (at_request a) \<mapsto>
       \<lparr>at_request = at_request a, at_order = outcome_order res, at_err = outcome_error res\<rparr>)"
    "ib_pending c' = (if outcome_error res \<noteq> None \<or> od_confirmation (outcome_order res) = None then None else ib_pending c)"
    using l unfolding r Let_def
    by (auto simp: q invalidateOrderCache_def record_attempt_def ibkr_sent_def reply_urls_def BaseURL_def)
  with a show ?thesis by blast
qed simp

lemma ibkr_run_quiet:
  assumes "placing q = None" "\<nexists>now account reply ok. q = CallReply now account reply ok"
  shows "ibkr_view (ibkr_run remote q c) = ibkr_view c"
proof -
  have k: "ibkr_view (fst (f c)) = ibkr_view c" if "keeps ibkr_view f" for f :: "(ibkr, 'x) call"
    using that by (simp add: keeps_def)
  show ?thesis using assms by (cases q) (auto intro!: k quiet simp: ibkrOrderAttempt_def)
qed

interpretation ibkr_gate: order_client "ibkr_run remote" ibkr_sent ibkr_known
proof
  fix q s assume q: "placing q = None"
  show "ibkr_sent (ibkr_run remote q s) = ibkr_sent s \<and> ibkr_known s \<subseteq> ibkr_known (ibkr_run remote q s)"
  proof (cases "\<exists>now account reply ok. q = CallReply now account reply ok")
    case True
    then obtain now account reply ok where q: "q = CallReply now account reply ok" by blast
    obtain c' res where p: "ibkrReplyOrder remote now account reply ok s = (c', res)" by fastforce
    from ibkr_reply_effect [OF p] p show ?thesis by (auto simp: q ibkr_known_def)
  next
    case False
    then show ?thesis using view_eq [OF ibkr_run_quiet [OF q False]] by simp
  qed
next
  fix q r s assume "placing q = Some r"
  then obtain now where q: "q = CallPlace now r" by (cases q) auto
  obtain c' res where p: "ibkrPlaceOrder remote now r s = (c', res)" by fastforce
  then have c: "ibkr_run remote q s = c'" by (simp add: q)
  from ibkr_place_effect [OF p]
  show "ibkr_sent (ibkr_run remote q s) = ibkr_sent s \<and> ibkr_known s \<subseteq> ibkr_known (ibkr_run remote q s) \<or>
    or_client_order_id r \<notin> ibkr_known s \<and> ibkr_sent (ibkr_run remote q s) = ibkr_sent s @ [or_client_order_id r] \<and>
    ibkr_known (ibkr_run remote q s) = insert (or_client_order_id r) (ibkr_known s)"
    unfolding c by (elim disjE conjE) (auto dest: view_eq simp: ibkr_known_def)
qed

section \<open>Properties\<close>

definition new_ibkr :: "string \<Rightarrow> string \<Rightarrow> string \<Rightarrow> ibkr" where
  "new_ibkr url token flex = \<lparr>ib_gateway_url = url, ib_gateway_token = token, ib_flex_token = flex, ib_attempts = [],
     ib_replies = Map.empty, ib_pending = None, ib_rows = [], ib_executions = [], ib_ready_at = None, ib_log = []\<rparr>"

definition ibkr_runs :: "remote \<Rightarrow> client_call list \<Rightarrow> ibkr \<Rightarrow> ibkr" where
  "ibkr_runs remote calls c = foldl (\<lambda>c q. ibkr_run remote q c) c calls"

text \<open>Attempts are filed under their own id, a pending confirmation is one of them and awaits an answer,
  and every reply sent is on record.\<close>

definition reply_url :: "ibkr \<Rightarrow> string \<Rightarrow> string" where
  "reply_url c reply = BaseURL c @ ''/v1/api/iserver/reply/'' @ path_escape reply"

definition ibkr_ok :: "ibkr \<Rightarrow> bool" where
  "ibkr_ok c \<longleftrightarrow> (\<forall>k a. map_of (ib_attempts c) k = Some a \<longrightarrow> or_client_order_id (at_request a) = k) \<and>
     (\<forall>k. ib_pending c = Some k \<longrightarrow> (\<exists>a. map_of (ib_attempts c) k = Some a \<and> od_confirmation (at_order a) \<noteq> None)) \<and>
     distinct (reply_urls c) \<and> set (reply_urls c) \<subseteq> reply_url c ` dom (ib_replies c)"

lemma ibkr_ok_view: "ibkr_ok c \<Longrightarrow> ibkr_view d = ibkr_view c \<Longrightarrow> ibkr_ok d"
  unfolding ibkr_ok_def reply_url_def by (simp add: view_eq [of d c])

lemma reply_url_inj: "reply_url c r = reply_url c s \<Longrightarrow> r = s"
  unfolding reply_url_def by (auto dest: path_escape_inj)

lemma ibkr_ok_reply:
  assumes "ibkr_ok c" "ibkrReplyOrder remote now account reply ok c = (c', res)"
  shows "ibkr_ok c'"
proof (cases "c' = c")
  case False
  with ibkr_reply_effect [OF assms(2)] obtain a where a: "ib_replies c reply = None" "pending_attempt c = Some a" "awaits account reply a"
    "reply_urls c' = reply_urls c \<or> reply_urls c' = reply_urls c @ [BaseURL c @ ''/v1/api/iserver/reply/'' @ path_escape reply]"
    "ib_replies c' = (ib_replies c)(reply \<mapsto> \<lparr>ra_account = account, ra_confirmed = ok, ra_order = outcome_order res, ra_err = outcome_error res\<rparr>)"
    "BaseURL c' = BaseURL c"
    "map_of (ib_attempts c') = (map_of (ib_attempts c))(or_client_order_id (at_request a) \<mapsto>
       \<lparr>at_request = at_request a, at_order = outcome_order res, at_err = outcome_error res\<rparr>)"
    "ib_pending c' = (if outcome_error res \<noteq> None \<or> od_confirmation (outcome_order res) = None then None else ib_pending c)"
    by blast
  obtain k where k: "ib_pending c = Some k" "map_of (ib_attempts c) k = Some a"
    using a(2) by (auto simp: pending_attempt_def bind_eq_Some_conv)
  have i: "or_client_order_id (at_request a) = k" using assms(1) k(2) unfolding ibkr_ok_def by blast
  have u: "reply_url c' = reply_url c" by (simp add: reply_url_def a(6) fun_eq_iff)
  have "reply_url c reply \<notin> set (reply_urls c)"
  proof
    assume "reply_url c reply \<in> set (reply_urls c)"
    then obtain s where s: "s \<in> dom (ib_replies c)" "reply_url c reply = reply_url c s"
      using assms(1) unfolding ibkr_ok_def by blast
    from reply_url_inj [OF s(2)] s(1) a(1) show False by auto
  qed
  moreover have "distinct (reply_urls c)" "set (reply_urls c) \<subseteq> reply_url c ` dom (ib_replies c)"
    using assms(1) unfolding ibkr_ok_def by blast+
  moreover note a(4) [folded reply_url_def]
  ultimately have r: "distinct (reply_urls c')" "set (reply_urls c') \<subseteq> reply_url c' ` dom (ib_replies c')"
    unfolding u a(5) by auto
  have "\<forall>j b. map_of (ib_attempts c') j = Some b \<longrightarrow> or_client_order_id (at_request b) = j"
    using assms(1) unfolding a(7) ibkr_ok_def by auto
  moreover have "\<forall>j. ib_pending c' = Some j \<longrightarrow> (\<exists>b. map_of (ib_attempts c') j = Some b \<and> od_confirmation (at_order b) \<noteq> None)"
    unfolding a(7,8) using k i by auto
  ultimately show ?thesis using r unfolding ibkr_ok_def by blast
qed (use assms(1) in simp)

lemma ibkr_ok_place:
  assumes "ibkr_ok c" "ibkrPlaceOrder remote now r c = (c', res)"
  shows "ibkr_ok c'"
  using ibkr_place_effect [OF assms(2)]
proof (elim disjE)
  assume "ibkr_view c' = ibkr_view c"
  with assms(1) show ?thesis by (rule ibkr_ok_view)
next
  assume p: "ib_pending c = None \<and> or_client_order_id r \<notin> ibkr_known c \<and> ValidateOrder r = None \<and> ibkr_mode_error r = None \<and>
    (ibkr_sent c' = ibkr_sent c \<or> ibkr_sent c' = ibkr_sent c @ [or_client_order_id r]) \<and> reply_urls c' = reply_urls c \<and>
    ib_replies c' = ib_replies c \<and> BaseURL c' = BaseURL c \<and>
    map_of (ib_attempts c') = (map_of (ib_attempts c))(or_client_order_id r \<mapsto>
       \<lparr>at_request = r, at_order = outcome_order res, at_err = outcome_error res\<rparr>) \<and>
    ib_pending c' = (if od_confirmation (outcome_order res) \<noteq> None then Some (or_client_order_id r) else None)"
  then have u: "reply_url c' = reply_url c" by (simp add: reply_url_def fun_eq_iff)
  show ?thesis using assms(1) p unfolding ibkr_ok_def u by auto
qed

lemma ibkr_ok_run: "ibkr_ok c \<Longrightarrow> ibkr_ok (ibkr_run remote q c)"
proof (cases "placing q")
  case None
  assume ok: "ibkr_ok c"
  show ?thesis
  proof (cases "\<exists>now account reply ok. q = CallReply now account reply ok")
    case True
    then show ?thesis using ibkr_ok_reply [OF ok prod.collapse [symmetric]] by auto
  next
    case False
    show ?thesis by (rule ibkr_ok_view [OF ok ibkr_run_quiet [OF None False]])
  qed
next
  case (Some r)
  assume ok: "ibkr_ok c"
  from Some obtain now where "q = CallPlace now r" by (cases q) auto
  then show ?thesis using ibkr_ok_place [OF ok prod.collapse [symmetric]] by simp
qed

lemma ibkr_ok_runs: "ibkr_ok (ibkr_runs remote calls (new_ibkr url token flex))"
proof -
  have "ibkr_ok (new_ibkr url token flex)" by (simp add: ibkr_ok_def new_ibkr_def reply_urls_def)
  then show ?thesis
    unfolding ibkr_runs_def by (induction calls rule: rev_induct) (simp_all add: ibkr_ok_run)
qed



text \<open>while a confirmation is pending, nothing else of the order workflow reaches the gateway: a preview,
  a quote, a cancellation and a new order are refused and change nothing; a known order is answered from
  the record, and an answer is accepted only for the awaited reply of the same account.\<close>

theorem pending_blocks:
  assumes "ib_pending c = Some k"
  shows "ibkrPreviewOrder remote r c = (c, Inl confirmation_pending)
    \<and> ibkrCancelOrder remote now account i c = (c, Inl confirmation_pending)
    \<and> (\<exists>e. ibkrOrderQuote remote i c = (c, Inl e))
    \<and> fst (ibkrPlaceOrder remote now r c) = c
    \<and> (map_of (ib_attempts c) (or_client_order_id r) = None \<longrightarrow> isl (snd (ibkrPlaceOrder remote now r c)))
    \<and> (fst (ibkrReplyOrder remote now account reply ok c) \<noteq> c \<longrightarrow>
         (\<exists>a. pending_attempt c = Some a \<and> awaits account reply a) \<and> ib_replies c reply = None)"
proof -
  have "fst (ibkrPlaceOrder remote now r c) = c"
    using assms by (simp add: ibkrPlaceOrder_def split: sum.split option.split)
  moreover have "isl (snd (ibkrPlaceOrder remote now r c))" if "map_of (ib_attempts c) (or_client_order_id r) = None"
    using assms that by (simp add: ibkrPlaceOrder_def split: sum.split)
  moreover have "\<exists>e. ibkrOrderQuote remote i c = (c, Inl e)"
    using assms by (simp add: ibkrOrderQuote_def split: option.split)
  moreover have "(\<exists>a. pending_attempt c = Some a \<and> awaits account reply a) \<and> ib_replies c reply = None"
    if "fst (ibkrReplyOrder remote now account reply ok c) \<noteq> c"
    using ibkr_reply_effect [OF prod.collapse [symmetric], of remote now account reply ok c] that by blast
  ultimately show ?thesis using assms by (simp add: ibkrPreviewOrder_def ibkrCancelOrder_def)
qed

theorem pending_blocks_witness:
  "ibkrPreviewOrder (\<lambda>_. NoAnswer []) example_order ((new_ibkr [] [] [])\<lparr>ib_pending := Some ''c-1''\<rparr>) =
     ((new_ibkr [] [] [])\<lparr>ib_pending := Some ''c-1''\<rparr>, Inl confirmation_pending)"
proof -
  have "ib_pending ((new_ibkr [] [] [])\<lparr>ib_pending := Some ''c-1''\<rparr>) = Some ''c-1''" by simp
  from pending_blocks [OF this, of "\<lambda>_. NoAnswer []" example_order] show ?thesis by blast
qed

section \<open>Properties of the event stream\<close>

definition execution_valid :: "fields \<Rightarrow> bool" where
  "execution_valid row \<longleftrightarrow> execution_account row \<noteq> [] \<and> textValue (obj_get row ''execution_id'') \<noteq> []"

definition reported :: "(string list \<Rightarrow> string) \<Rightarrow> (string \<times> execution_seen) list \<Rightarrow> fields \<Rightarrow> bool" where
  "reported digest seen row \<longleftrightarrow> (execution_valid row \<longrightarrow>
     (\<exists>e. map_of seen (execution_key row) = Some e \<and> es_hash e = digest (economics row)))"

lemma length_update_le: "length (AList.update k v m) \<le> Suc (length m)"
  by (induction m) auto

lemma execution_skip:
  "reported digest seen row \<Longrightarrow> apply_execution_row digest now (seen, evs) row = (seen, evs)"
  by (auto simp: apply_execution_row_def reported_def execution_valid_def Let_def)

lemma execution_new:
  assumes "\<not> reported digest seen row" "length seen < 50000"
  shows "\<exists>e. apply_execution_row digest now (seen, evs) row =
    (AList.update (execution_key row) \<lparr>es_hash = digest (economics row), es_at = now\<rparr> seen, evs @ [e]) \<and>
    te_refresh e \<and> te_execution_id e = textValue (obj_get row ''execution_id'')"
  using assms by (auto simp: apply_execution_row_def reported_def execution_valid_def Let_def split: option.splits)

lemma execution_step:
  assumes "length seen < 50000" "apply_execution_row digest now (seen, evs) row = (seen', evs')"
  shows "reported digest seen' row" "length seen' \<le> Suc (length seen)"
    "reported digest seen q \<Longrightarrow> execution_key q = execution_key row \<Longrightarrow> digest (economics q) = digest (economics row) \<Longrightarrow> reported digest seen' q"
    "reported digest seen q \<Longrightarrow> execution_key q \<noteq> execution_key row \<Longrightarrow> reported digest seen' q"
proof -
  have s: "seen' = seen \<and> reported digest seen row \<or>
      seen' = AList.update (execution_key row) \<lparr>es_hash = digest (economics row), es_at = now\<rparr> seen"
    using execution_skip [of digest seen row now evs] execution_new [OF _ assms(1), of digest row now evs] assms(2)
    by (cases "reported digest seen row") auto
  then show "reported digest seen' row" by (auto simp: reported_def)
  show "length seen' \<le> Suc (length seen)" using s
    by (auto simp: length_update_le intro: le_SucI)
  show "reported digest seen' q" if "reported digest seen q" "execution_key q = execution_key row"
      "digest (economics q) = digest (economics row)"
    using s that by (auto simp: reported_def)
  show "reported digest seen' q" if "reported digest seen q" "execution_key q \<noteq> execution_key row"
    using s that by (auto simp: reported_def)
qed

text \<open>Rows that name one execution twice agree about it.\<close>

definition consistent :: "(string list \<Rightarrow> string) \<Rightarrow> fields list \<Rightarrow> bool" where
  "consistent digest rows \<longleftrightarrow> (\<forall>q\<in>set rows. \<forall>r\<in>set rows. execution_key q = execution_key r \<longrightarrow>
     digest (economics q) = digest (economics r))"

lemma consistentD:
  "consistent digest rows \<Longrightarrow> q \<in> set rows \<Longrightarrow> r \<in> set rows \<Longrightarrow> execution_key q = execution_key r \<Longrightarrow>
   digest (economics q) = digest (economics r)"
  unfolding consistent_def by blast

lemma executions_fold:
  assumes "length seen + length rows \<le> 50000" "set rows \<subseteq> set all" "consistent digest all"
    "foldl (apply_execution_row digest now) (seen, evs) rows = (seen', evs')"
  shows "(\<forall>r\<in>set rows. reported digest seen' r) \<and> (\<forall>q\<in>set all. reported digest seen q \<longrightarrow> reported digest seen' q)"
  using assms
proof (induction rows arbitrary: seen evs)
  case (Cons row rows)
  obtain s1 e1 where st: "apply_execution_row digest now (seen, evs) row = (s1, e1)" by fastforce
  have l: "length seen < 50000" using Cons.prems by simp
  note step = execution_step [OF l st]
  have f: "foldl (apply_execution_row digest now) (s1, e1) rows = (seen', evs')"
    using Cons.prems st by simp
  have len: "length s1 + length rows \<le> 50000" using step(2) Cons.prems by simp
  have keep: "reported digest s1 q" if "q \<in> set all" "reported digest seen q" for q
  proof (cases "execution_key q = execution_key row")
    case True
    have "row \<in> set all" using Cons.prems(2) by simp
    from consistentD [OF Cons.prems(3) that(1) this True] True show ?thesis by (intro step(3) [OF that(2)])
  next
    case False
    then show ?thesis by (rule step(4) [OF that(2)])
  qed
  have "set rows \<subseteq> set all" "row \<in> set all" using Cons.prems by auto
  note ih = Cons.IH [OF len this(1) Cons.prems(3) f]
  have "reported digest seen' row" using ih step(1) \<open>row \<in> set all\<close> by blast
  then have "\<forall>r\<in>set (row # rows). reported digest seen' r" using ih by simp
  moreover have "\<forall>q\<in>set all. reported digest seen q \<longrightarrow> reported digest seen' q" using ih keep by blast
  ultimately show ?case by blast
qed auto

lemma executions_known:
  "\<forall>r\<in>set rows. reported digest seen r \<Longrightarrow> foldl (apply_execution_row digest now) (seen, evs) rows = (seen, evs)"
  by (induction rows) (simp_all add: execution_skip)

definition execution_lifetime :: int where
  "execution_lifetime = 7 * 24 * 3600 * ns_per_second"

text \<open>C14: an execution is reported once. When the same rows arrive again while the session remembers them,
  no event is emitted and nothing changes, whatever the time and the transport they arrive by.\<close>

theorem executions_reported_once:
  assumes "applyExecutionRows digest now data c = (c', Inr evs)" "tradingRows data = Inr rows"
    "length (ib_executions c) + length rows \<le> 50000" "consistent digest rows"
    "\<forall>e\<in>set (ib_executions c'). later - es_at (snd e) \<le> execution_lifetime"
  shows "applyExecutionRows digest later data c' = (c', Inr [])"
proof -
  let ?kept = "filter (\<lambda>(k, e). \<not> (now - es_at e > 7 * 24 * 3600 * ns_per_second)) (ib_executions c)"
  obtain seen where f: "foldl (apply_execution_row digest now) (?kept, []) rows = (seen, evs)"
    and c': "c' = c\<lparr>ib_executions := seen\<rparr>"
    using assms(1,2) by (auto simp: applyExecutionRows_def split: prod.splits)
  have "length ?kept + length rows \<le> 50000" using assms(3) length_filter_le order_trans
    by (metis (no_types, lifting) add_le_mono1)
  note all = executions_fold [OF this subset_refl assms(4) f, THEN conjunct1]
  have "filter (\<lambda>(k, e). \<not> (later - es_at e > 7 * 24 * 3600 * ns_per_second)) (ib_executions c') = ib_executions c'"
    using assms(5) by (auto simp: filter_id_conv execution_lifetime_def)
  then show ?thesis
    using executions_known [OF all] assms(2) by (simp add: applyExecutionRows_def c')
qed

theorem executions_reported_once_witness:
  "\<exists>c' evs. applyExecutionRows concat 5 (Some (JArr [JObj [(''account'', JStr ''U1''), (''execution_id'', JStr ''x'')]]))
       (new_ibkr [] [] []) = (c', Inr evs) \<and> length evs = 1 \<and>
     applyExecutionRows concat 9 (Some (JArr [JObj [(''account'', JStr ''U1''), (''execution_id'', JStr ''x'')]])) c' = (c', Inr [])"
  (is "\<exists>c' evs. applyExecutionRows _ _ ?d ?c = _ \<and> _")
proof -
  let ?row = "[(''account'', JStr ''U1''), (''execution_id'', JStr ''x'')]"
  have v: "tradingRows ?d = Inr [?row]" by (simp add: tradingRows_def rows_of_def list_of_def obj_entries_def)
  have x: "execution_account ?row = ''U1''" "textValue (obj_get ?row ''execution_id'') = ''x''" by code_simp+
  define e where "e = \<lparr>es_hash = concat (economics ?row), es_at = 5\<rparr>"
  have a: "applyExecutionRows concat 5 ?d ?c = (?c\<lparr>ib_executions := [(execution_key ?row, e)]\<rparr>,
      Inr [\<lparr>te_account_id = ''U1'', te_order = None, te_execution_id = ''x'', te_refresh = True\<rparr>])"
    unfolding applyExecutionRows_def v by (simp add: apply_execution_row_def x new_ibkr_def e_def Let_def)
  have l: "\<forall>e\<in>set (ib_executions (?c\<lparr>ib_executions := [(execution_key ?row, e)]\<rparr>)). 9 - es_at (snd e) \<le> execution_lifetime"
    by (simp add: e_def execution_lifetime_def ns_per_second_def)
  have "length (ib_executions ?c) + length [?row] \<le> 50000" "consistent concat [?row]"
    by (simp_all add: new_ibkr_def consistent_def)
  from executions_reported_once [OF a v this l] a show ?thesis by auto
qed

end
