(* ===== verification/Json.thy ===== *)
theory Json
  imports Wire
begin

text \<open>
  The two other uses of \<open>encoding/json\<close>: \<open>json.Valid\<close>, the scanner's grammar with its bound of 10000 nested values,
  and the text of a string in \<open>json.Marshal\<close>: \<open>"\<close>, \<open>\\<close> and control bytes escaped, the characters
  \<open><\<close>, \<open>>\<close>, \<open>&\<close>, U+2028 and U+2029 as \<open>\u\<close> escapes, and a byte that is not UTF-8 as U+FFFD.
\<close>

section \<open>Validity\<close>

definition json_space :: "char \<Rightarrow> bool" where
  "json_space c \<longleftrightarrow> c \<in> {CHR '' '', CHR 0x09, CHR 0x0A, CHR 0x0D}"

definition ws :: "string \<Rightarrow> string" where
  "ws s = dropWhile json_space s"

text \<open>Skips one character out of a set.\<close>

definition starts_in :: "string \<Rightarrow> string \<Rightarrow> bool" where
  "starts_in cs s \<longleftrightarrow> s \<noteq> [] \<and> hd s \<in> set cs"

definition digits1 :: "string \<Rightarrow> string option" where
  "digits1 s = (if s \<noteq> [] \<and> is_digit (hd s) then Some (dropWhile is_digit s) else None)"

definition json_number :: "string \<Rightarrow> string option" where
  "json_number s =
     (let s = if starts_in ''-'' s then tl s else s in
      case (if starts_in ''0'' s then Some (tl s) else digits1 s) of None \<Rightarrow> None | Some s \<Rightarrow>
      case (if starts_in ''.'' s then digits1 (tl s) else Some s) of None \<Rightarrow> None | Some s \<Rightarrow>
      if starts_in ''eE'' s then (let s = tl s in digits1 (if starts_in ''+-'' s then tl s else s)) else Some s)"

text \<open>The rest of a string after its opening quote.\<close>

fun json_string :: "string \<Rightarrow> string option" where
  "json_string [] = None"
| "json_string (c # r) =
     (if c = CHR 0x22 then Some r
      else if of_char c < (32 :: nat) then None
      else if c \<noteq> CHR 0x5C then json_string r
      else (case r of
          [] \<Rightarrow> None
        | e # q \<Rightarrow>
            if e \<in> set ''bfnrt/'' \<union> {CHR 0x5C, CHR 0x22} then json_string q
            else if e = CHR ''u'' then
              (case q of a # b # c # d # q' \<Rightarrow> if is_hex a \<and> is_hex b \<and> is_hex c \<and> is_hex d then json_string q' else None | _ \<Rightarrow> None)
            else None))"

definition json_literal :: "string \<Rightarrow> string \<Rightarrow> string option" where
  "json_literal w s = (if take (length w) s = w then Some (drop (length w) s) else None)"

text \<open>The rest of the text after one value, the first argument the fuel and the second the nesting that is left.
  Between two calls that read no character there is one that reads at least one, so twice the length of the
  text is fuel enough.\<close>

fun json_value :: "nat \<Rightarrow> nat \<Rightarrow> string \<Rightarrow> string option"
  and json_members :: "nat \<Rightarrow> nat \<Rightarrow> string \<Rightarrow> string option"
  and json_elements :: "nat \<Rightarrow> nat \<Rightarrow> string \<Rightarrow> string option" where
  "json_value 0 d s = None"
| "json_value (Suc n) d s =
     (let s = ws s in
      if starts_in [CHR 0x22] s then json_string (tl s)
      else if starts_in ''{'' s then
        (if d = 0 then None else if starts_in ''}'' (ws (tl s)) then Some (tl (ws (tl s))) else json_members n (d - 1) (tl s))
      else if starts_in ''['' s then
        (if d = 0 then None else if starts_in '']'' (ws (tl s)) then Some (tl (ws (tl s))) else json_elements n (d - 1) (tl s))
      else if starts_in ''t'' s then json_literal ''true'' s
      else if starts_in ''f'' s then json_literal ''false'' s
      else if starts_in ''n'' s then json_literal ''null'' s
      else json_number s)"
| "json_members 0 d s = None"
| "json_members (Suc n) d s =
     (if \<not> starts_in [CHR 0x22] (ws s) then None
      else case json_string (tl (ws s)) of None \<Rightarrow> None | Some s \<Rightarrow>
      if \<not> starts_in '':'' (ws s) then None
      else case json_value n d (tl (ws s)) of None \<Rightarrow> None | Some s \<Rightarrow>
      if starts_in '','' (ws s) then json_members n d (tl (ws s))
      else if starts_in ''}'' (ws s) then Some (tl (ws s)) else None)"
| "json_elements 0 d s = None"
| "json_elements (Suc n) d s =
     (case json_value n d s of None \<Rightarrow> None | Some s \<Rightarrow>
      if starts_in '','' (ws s) then json_elements n d (tl (ws s))
      else if starts_in '']'' (ws s) then Some (tl (ws s)) else None)"

definition json_valid :: "string \<Rightarrow> bool" where
  "json_valid s = (case json_value (2 * length s + 2) 10000 s of None \<Rightarrow> False | Some r \<Rightarrow> ws r = [])"

section \<open>Strings\<close>

definition continuation :: "char \<Rightarrow> bool" where
  "continuation c \<longleftrightarrow> 128 \<le> (of_char c :: nat) \<and> of_char c < (192 :: nat)"

text \<open>The length of the UTF-8 sequence at the front of a text of at least one byte, 0 where there is none.\<close>

definition rune_length :: "string \<Rightarrow> nat" where
  "rune_length s = (let b = (\<lambda>i. if i < length s then of_char (s ! i) else (0 :: nat)); k = (\<lambda>i. i < length s \<and> continuation (s ! i)) in
     if b 0 < 128 then 1
     else if 194 \<le> b 0 \<and> b 0 < 224 \<and> k 1 then 2
     else if 224 \<le> b 0 \<and> b 0 < 240 \<and> k 1 \<and> k 2 \<and> (b 0 = 224 \<longrightarrow> 160 \<le> b 1) \<and> (b 0 = 237 \<longrightarrow> b 1 < 160) then 3
     else if 240 \<le> b 0 \<and> b 0 < 245 \<and> k 1 \<and> k 2 \<and> k 3 \<and> (b 0 = 240 \<longrightarrow> 144 \<le> b 1) \<and> (b 0 = 244 \<longrightarrow> b 1 < 144) then 4
     else 0)"

definition json_escape :: "char \<Rightarrow> string" where
  "json_escape c =
     (if c \<in> {CHR 0x22, CHR 0x5C} then [CHR 0x5C, c]
      else if c = CHR 0x08 then [CHR 0x5C, CHR ''b''] else if c = CHR 0x0C then [CHR 0x5C, CHR ''f'']
      else if c = CHR 0x0A then [CHR 0x5C, CHR ''n''] else if c = CHR 0x0D then [CHR 0x5C, CHR ''r'']
      else if c = CHR 0x09 then [CHR 0x5C, CHR ''t'']
      else if of_char c < (32 :: nat) \<or> c \<in> set ''<>&'' then
        [CHR 0x5C, CHR ''u'', CHR ''0'', CHR ''0'', hex_char (of_char c div 16), hex_char (of_char c mod 16)]
      else [c])"

fun json_body :: "string \<Rightarrow> string" where
  "json_body [] = []"
| "json_body (c # s) =
     (let k = rune_length (c # s); r = take k (c # s) in
      (if k = 0 then CHR 0x5C # ''ufffd''
       else if k = 1 then json_escape c
       else if r = [CHR 0xE2, CHR 0x80, CHR 0xA8] then CHR 0x5C # ''u2028''
       else if r = [CHR 0xE2, CHR 0x80, CHR 0xA9] then CHR 0x5C # ''u2029''
       else r) @ json_body (drop (k - 1) s))"

definition json_quote :: "string \<Rightarrow> string" where
  "json_quote s = CHR 0x22 # json_body s @ [CHR 0x22]"

text \<open>A struct: the fields in order, one that is marked \<open>omitempty\<close> only where its text is given.\<close>

definition json_object :: "(string \<times> string option) list \<Rightarrow> string" where
  "json_object fs = ''{'' @ join '','' (map (\<lambda>(k, v). json_quote k @ '':'' @ the v) (filter (\<lambda>(k, v). v \<noteq> None) fs)) @ ''}''"

definition json_array :: "string list \<Rightarrow> string" where
  "json_array xs = ''['' @ join '','' xs @ '']''"

definition omit_empty :: "string \<Rightarrow> string option" where
  "omit_empty s = (if s = [] then None else Some (json_quote s))"

definition omit_zero :: "int \<Rightarrow> string option" where
  "omit_zero n = (if n = 0 then None else Some (int_str n))"

end
