(* ===== verification/History_Jobs.thy ===== *)
theory History_Jobs
  imports Activity Json Sha "HOL-Library.Multiset"
begin

text \<open>
  The tables of the activity history and the job queue kept in them
  (\<open>internal/store/activity_jobs.go\<close>, the head of \<open>activity_records.go\<close>).

  The database is a record of tables, a table a list of rows. A statement is a function on the tables,
  a transaction a function whose failure leaves the tables it was given. A column that stores JSON holds the
  value that was encoded. Every operation takes the instant \<open>t\<close> at which it runs: the readings of the
  clock within one operation are taken as equal. The primary key of a new row is the argument \<open>uid\<close>, the
  answer of the UUID generator; a key already present violates the primary key. Rows that a query orders by
  equal keys come in the order of the table, which the database leaves open: the operation \<open>OpReorder\<close>
  puts the rows of a table in any other order.
\<close>

section \<open>Data\<close>

record history_request =
  req_use_query_period :: bool
  req_account_ids :: "int list"
  req_connection_id :: int
  req_source :: string
  req_from :: string
  req_to :: string
  req_import_id :: string

record history_counts =
  cnt_records :: int
  cnt_added :: int
  cnt_updated :: int
  cnt_duplicates :: int
  cnt_unsupported :: int
  cnt_conflicts :: int

definition zero_counts :: history_counts where
  "zero_counts = \<lparr>cnt_records = 0, cnt_added = 0, cnt_updated = 0, cnt_duplicates = 0, cnt_unsupported = 0, cnt_conflicts = 0\<rparr>"

record history_coverage =
  cov_id :: string
  cov_account_id :: int
  cov_source :: string
  cov_data_type :: string
  cov_scope_key :: string
  cov_from :: string
  cov_to :: string
  cov_fetch_status :: string
  cov_normalize_status :: string
  cov_reconcile_status :: string
  cov_last_checked_at :: string

record history_job =
  job_id :: string
  job_status :: string
  job_phase :: string
  job_lease_owner :: string
  job_lease_generation :: int
  job_lease_until :: string
  job_attempt :: int
  job_request :: history_request
  job_counts :: history_counts
  job_coverage :: "history_coverage list"
  job_error :: string
  job_created_at :: string
  job_updated_at :: string

text \<open>A row of \<open>broker_history_jobs\<close> has three columns more than the struct that is read from it.\<close>

record job_row = history_job +
  row_connection :: "int option"
  row_source :: string
  row_next_attempt :: string

record history_import =
  hi_id :: string
  hi_status :: string
  hi_record_count :: int
  hi_accounts :: "string list"
  hi_counts :: history_counts
  hi_warnings :: "string list"
  hi_from :: string
  hi_to :: string
  hi_records :: "raw_record list"
  hi_coverage :: "history_coverage list"
  hi_snapshots :: "reconciliation_snapshot list"
  hi_created_by :: int
  hi_expires_at :: string

text \<open>A row of \<open>broker_history_imports\<close>. The preview is the struct without the fields that are not encoded.\<close>

record import_row =
  im_id :: string
  im_created_by :: int
  im_file_hash :: string
  im_status :: string
  im_records :: "raw_record list"
  im_preview :: history_import
  im_evidence :: "history_coverage list"
  im_snapshots :: "reconciliation_snapshot list"
  im_job_id :: "string option"
  im_created_at :: string
  im_expires_at :: string

record account_row =
  acc_id :: int
  acc_provider :: string
  acc_provider_account_id :: string
  acc_display_name :: string
  acc_archived_at :: string
  acc_generation :: int

record raw_row =
  rr_id :: string
  rr_account :: int
  rr_source :: string
  rr_namespace :: string
  rr_record_type :: string
  rr_key :: string
  rr_payload_hash :: string
  rr_payload :: string
  rr_normalized :: raw_record
  rr_source_updated_at :: string
  rr_status :: string
  rr_rule_version :: string
  rr_created_at :: string

record observation =
  ob_raw :: string
  ob_job :: string
  ob_observed_at :: string
  ob_outcome :: string

record coverage_row = history_coverage +
  cr_job :: string

record history_db =
  db_jobs :: "job_row list"
  db_imports :: "import_row list"
  db_accounts :: "account_row list"
  db_connections :: "int list"
  db_account_connections :: "(int \<times> int) list"
  db_raw :: "raw_row list"
  db_observations :: "observation list"
  db_coverage :: "coverage_row list"

abbreviation ErrHistoryLeaseLost :: string where "ErrHistoryLeaseLost \<equiv> ''history_lease_lost''"
abbreviation ErrNotFound :: string where "ErrNotFound \<equiv> ''store: not found''"
abbreviation ErrForbidden :: string where "ErrForbidden \<equiv> ''store: forbidden''"
abbreviation ErrReference :: string where "ErrReference \<equiv> ''FOREIGN KEY constraint failed''"
abbreviation ErrConstraint :: string where "ErrConstraint \<equiv> ''UNIQUE constraint failed''"

text \<open>A call on the database returns a result and the tables; a failed transaction leaves them.\<close>

type_synonym ('d, 'a) call = "'d \<Rightarrow> 'a result \<times> 'd"

definition transaction :: "('d \<Rightarrow> ('a \<times> 'd) result) \<Rightarrow> ('d, 'a) call" where
  "transaction body db = (case body db of Inl e \<Rightarrow> (Inl e, db) | Inr (x, db') \<Rightarrow> (Inr x, db'))"

lemma transaction_failed: "fst (transaction body db) = Inl e \<Longrightarrow> snd (transaction body db) = db"
  by (auto simp: transaction_def split: sum.splits prod.splits)

section \<open>Dates and keys\<close>

definition ValidateHistoryDates :: "string \<Rightarrow> string \<Rightarrow> string option" where
  "ValidateHistoryDates from to =
     (if \<exists>s\<in>set [from, to]. s \<noteq> [] \<and> parse_date s = None then Some ''invalid_history_date''
      else if from \<noteq> [] \<and> to \<noteq> [] \<and> to < from then Some ''invalid_history_range''
      else None)"

definition historyInt :: "int \<Rightarrow> int option" where
  "historyInt n = (if n = 0 then None else Some n)"

definition nowRFC3339 :: "instant \<Rightarrow> string" where
  "nowRFC3339 t = rfc3339 t"

definition historyHash :: "string \<Rightarrow> string" where
  "historyHash v = sha256 v"

fun containsHistoryID :: "int list \<Rightarrow> int \<Rightarrow> bool" where
  "containsHistoryID [] n = False"
| "containsHistoryID (i # is) n = (if i = n then True else containsHistoryID is n)"

lemma containsHistoryID_iff [simp]: "containsHistoryID ids n \<longleftrightarrow> n \<in> set ids"
  by (induction ids n rule: containsHistoryID.induct) auto

definition minutes :: "int \<Rightarrow> int" where
  "minutes n = n * 60 * ns_per_second"

text \<open>The row with the least \<open>created_at\<close>.\<close>

definition oldest :: "job_row list \<Rightarrow> job_row option" where
  "oldest rows = (case sort_key job_created_at rows of [] \<Rightarrow> None | r # _ \<Rightarrow> Some r)"

lemma oldest_None: "oldest rows = None \<longleftrightarrow> rows = []"
proof -
  have "sort_key job_created_at rows = [] \<longleftrightarrow> rows = []"
    by (metis length_0_conv length_sort)
  then show ?thesis by (auto simp: oldest_def split: list.splits)
qed

lemma oldest_Some:
  assumes "oldest rows = Some r"
  shows "r \<in> set rows" "\<And>x. x \<in> set rows \<Longrightarrow> job_created_at r \<le> job_created_at x"
proof -
  obtain rest where r: "sort_key job_created_at rows = r # rest"
    using assms by (auto simp: oldest_def split: list.splits)
  have s: "set (r # rest) = set rows" using arg_cong [OF r, of set] by simp
  then show "r \<in> set rows" by auto
  have "sorted (map job_created_at (r # rest))" using sorted_sort_key [of job_created_at rows] r by simp
  then show "job_created_at r \<le> job_created_at x" if "x \<in> set rows" for x using that s by auto
qed

section \<open>Jobs\<close>

definition find_job :: "string \<Rightarrow> job_row list \<Rightarrow> job_row option" where
  "find_job i rows = find (\<lambda>r. job_id r = i) rows"

definition scanHistoryJob :: "job_row option \<Rightarrow> history_job result" where
  "scanHistoryJob r = (case r of None \<Rightarrow> Inl ErrNotFound | Some x \<Rightarrow> Inr (history_job.truncate x))"

definition active :: "string \<Rightarrow> bool" where
  "active status \<longleftrightarrow> status \<in> {''queued'', ''running'', ''retry_wait''}"

lemma sorted_remdups_adj: "sorted xs \<Longrightarrow> sorted (remdups_adj xs) \<and> distinct (remdups_adj xs)"
  by (induction xs rule: remdups_adj.induct) auto

lemma normal_ids_unique: "set xs = set ys \<Longrightarrow> remdups_adj (sort xs) = remdups_adj (sort (ys :: int list))"
  using sorted_remdups_adj [of "sort xs"] sorted_remdups_adj [of "sort ys"] by (intro sorted_distinct_set_unique) auto

text \<open>The account ids of a request, sorted and without repetitions.\<close>

definition normal_ids :: "int list \<Rightarrow> int list result" where
  "normal_ids ids = (if \<exists>i\<in>set ids. i \<le> 0 then Inl ''invalid_account_ids'' else Inr (remdups_adj (sort ids)))"

definition new_job :: "string \<Rightarrow> instant \<Rightarrow> history_request \<Rightarrow> job_row" where
  "new_job uid t r = \<lparr>job_id = uid, job_status = ''queued'', job_phase = ''fetch'', job_lease_owner = [], job_lease_generation = 0,
     job_lease_until = [], job_attempt = 0, job_request = r, job_counts = zero_counts, job_coverage = [], job_error = [],
     job_created_at = nowRFC3339 t, job_updated_at = nowRFC3339 t, row_connection = historyInt (req_connection_id r),
     row_source = req_source r, row_next_attempt = []\<rparr>"

definition createHistoryJobTx :: "string \<Rightarrow> instant \<Rightarrow> history_request \<Rightarrow> 'a history_db_scheme \<Rightarrow> (history_job \<times> 'a history_db_scheme) result" where
  "createHistoryJobTx uid t r db = rbind (normal_ids (req_account_ids r)) (\<lambda>ids.
     let r = r\<lparr>req_account_ids := ids\<rparr> in
     case oldest (filter (\<lambda>j. job_request j = r \<and> active (job_status j)) (db_jobs db)) of
       Some j \<Rightarrow> rbind (scanHistoryJob (find_job (job_id j) (db_jobs db))) (\<lambda>j. Inr (j, db))
     | None \<Rightarrow>
         if uid \<in> job_id ` set (db_jobs db) then Inl ErrConstraint
         else if req_connection_id r \<notin> {0} \<union> set (db_connections db) then Inl ErrReference
         else Inr (history_job.truncate (new_job uid t r), db\<lparr>db_jobs := db_jobs db @ [new_job uid t r]\<rparr>))"

definition CreateHistoryJob :: "string \<Rightarrow> instant \<Rightarrow> history_request \<Rightarrow> ('a history_db_scheme, history_job) call" where
  "CreateHistoryJob uid t r db =
     (case ValidateHistoryDates (req_from r) (req_to r) of
        Some e \<Rightarrow> (Inl e, db)
      | None \<Rightarrow>
          if req_source r \<notin> {''gateway'', ''flex'', ''xml'', ''schwab'', ''alpaca''} then (Inl ''invalid_history_source'', db)
          else transaction (createHistoryJobTx uid t r) db)"

definition GetHistoryJob :: "string \<Rightarrow> 'a history_db_scheme \<Rightarrow> history_job result" where
  "GetHistoryJob i db = scanHistoryJob (find_job i (db_jobs db))"

text \<open>A job is live at the text \<open>now\<close> while it runs under a lease that is not over; the lease stamps are compared as texts.\<close>

definition live :: "string \<Rightarrow> job_row \<Rightarrow> bool" where
  "live now j \<longleftrightarrow> job_status j = ''running'' \<and> now < job_lease_until j"

definition same_scope :: "job_row \<Rightarrow> job_row \<Rightarrow> bool" where
  "same_scope i j \<longleftrightarrow> row_source i = row_source j \<and> row_connection i = row_connection j"

definition claimable :: "string \<Rightarrow> job_row list \<Rightarrow> job_row \<Rightarrow> bool" where
  "claimable now rows j \<longleftrightarrow>
     (job_status j \<in> {''queued'', ''retry_wait''} \<and> row_next_attempt j \<le> now \<or> job_status j = ''running'' \<and> job_lease_until j < now)
     \<and> \<not> (\<exists>busy\<in>set rows. job_id busy \<noteq> job_id j \<and> live now busy \<and> same_scope busy j)"

definition expire_imports :: "string \<Rightarrow> import_row list \<Rightarrow> import_row list" where
  "expire_imports now = map (\<lambda>r. if im_status r \<in> {''preview'', ''needs_action''} \<and> im_expires_at r < now
     then r\<lparr>im_records := [], im_evidence := [], im_snapshots := [], im_status := ''expired''\<rparr> else r)"

definition update_job :: "string \<Rightarrow> (job_row \<Rightarrow> job_row) \<Rightarrow> job_row list \<Rightarrow> job_row list" where
  "update_job i f = map (\<lambda>r. if job_id r = i then f r else r)"

definition claimed :: "string \<Rightarrow> instant \<Rightarrow> job_row \<Rightarrow> job_row" where
  "claimed owner t r = r\<lparr>job_status := ''running'', job_lease_owner := owner, job_lease_generation := job_lease_generation r + 1,
     job_lease_until := rfc3339_nano (t + minutes 2), job_attempt := job_attempt r + 1, job_updated_at := nowRFC3339 t\<rparr>"

definition ClaimHistoryJob :: "string \<Rightarrow> instant \<Rightarrow> ('a history_db_scheme, history_job) call" where
  "ClaimHistoryJob owner t db =
     (if owner = [] then (Inl ''worker_owner_required'', db)
      else let now = nowRFC3339 t; db = db\<lparr>db_imports := expire_imports now (db_imports db)\<rparr>
        in case oldest (filter (claimable now (db_jobs db)) (db_jobs db)) of
             None \<Rightarrow> (scanHistoryJob None, db)
           | Some j \<Rightarrow> let rows = update_job (job_id j) (claimed owner t) (db_jobs db)
               in (scanHistoryJob (find_job (job_id j) rows), db\<lparr>db_jobs := rows\<rparr>))"

text \<open>The condition under which a worker may write: the row still runs under the lease the worker was given.\<close>

definition holds_lease :: "string \<Rightarrow> history_job \<Rightarrow> job_row \<Rightarrow> bool" where
  "holds_lease now j r \<longleftrightarrow> job_id r = job_id j \<and> live now r \<and> job_lease_owner r = job_lease_owner j
     \<and> job_lease_generation r = job_lease_generation j"

definition leased_update :: "instant \<Rightarrow> history_job \<Rightarrow> (job_row \<Rightarrow> job_row) \<Rightarrow> ('a history_db_scheme, unit) call" where
  "leased_update t j f db = (let hit = holds_lease (nowRFC3339 t) j;
       n = length (filter hit (db_jobs db)); db' = db\<lparr>db_jobs := map (\<lambda>r. if hit r then f r else r) (db_jobs db)\<rparr>
     in (if n = 1 then Inr () else Inl ErrHistoryLeaseLost, db'))"

definition RenewHistoryJob :: "instant \<Rightarrow> history_job \<Rightarrow> ('a history_db_scheme, unit) call" where
  "RenewHistoryJob t j = leased_update t j
     (\<lambda>r. r\<lparr>job_lease_until := rfc3339_nano (t + minutes 2), job_updated_at := nowRFC3339 t\<rparr>)"

text \<open>The wait before the next attempt, in the 64 bits of a duration.\<close>

definition retry_delay :: "int \<Rightarrow> int" where
  "retry_delay a = (let delay = signed_take_bit 63 (minutes (a * a)) in if minutes 60 < delay then minutes 60 else delay)"

definition FinishHistoryJob :: "instant \<Rightarrow> history_job \<Rightarrow> string \<Rightarrow> history_counts \<Rightarrow> string \<Rightarrow> ('a history_db_scheme, unit) call" where
  "FinishHistoryJob t j status counts msg db =
     (if status \<notin> {''succeeded'', ''partial'', ''retry_wait'', ''needs_action'', ''failed'', ''cancelled''} then (Inl ''invalid_job_status'', db)
      else let next = if status = ''retry_wait'' then rfc3339_nano (t + retry_delay (job_attempt j)) else []
        in leased_update t j (\<lambda>r. r\<lparr>job_status := status, job_counts := counts, job_error := msg, row_next_attempt := next,
             job_lease_until := [], job_updated_at := nowRFC3339 t\<rparr>) db)"

definition checkHistoryLease :: "instant \<Rightarrow> history_job \<Rightarrow> ('a history_db_scheme, unit) call" where
  "checkHistoryLease t j = leased_update t j (\<lambda>r. r\<lparr>job_updated_at := nowRFC3339 t\<rparr>)"

text \<open>Work inside a transaction that begins by checking the lease.\<close>

definition under_lease :: "instant \<Rightarrow> history_job \<Rightarrow> ('a history_db_scheme \<Rightarrow> ('b \<times> 'a history_db_scheme) result) \<Rightarrow> ('a history_db_scheme, 'b) call" where
  "under_lease t j body = transaction (\<lambda>db. case checkHistoryLease t j db of (Inl e, _) \<Rightarrow> Inl e | (Inr _, db) \<Rightarrow> body db)"

section \<open>Evidence\<close>

text \<open>The accounts of the raw records that a job observed.\<close>

definition observed_accounts :: "string \<Rightarrow> 'a history_db_scheme \<Rightarrow> int list" where
  "observed_accounts jid db = remdups (map rr_account
     (filter (\<lambda>r. \<exists>ob\<in>set (db_observations db). ob_raw ob = rr_id r \<and> ob_job ob = jid) (db_raw db)))"

definition merge_ids :: "int list \<Rightarrow> int list \<Rightarrow> int list" where
  "merge_ids ids new = foldl (\<lambda>ids i. if containsHistoryID ids i then ids else ids @ [i]) ids new"

definition zero_coverage :: history_coverage where
  "zero_coverage = \<lparr>cov_id = [], cov_account_id = 0, cov_source = [], cov_data_type = [], cov_scope_key = [], cov_from = [], cov_to = [],
     cov_fetch_status = [], cov_normalize_status = [], cov_reconcile_status = [], cov_last_checked_at = []\<rparr>"

definition observed_proof :: "history_request \<Rightarrow> string \<Rightarrow> int \<Rightarrow> history_coverage" where
  "observed_proof r kind i = zero_coverage\<lparr>cov_account_id := i, cov_source := req_source r, cov_data_type := kind,
     cov_scope_key := ''account'', cov_from := req_from r, cov_to := req_to r, cov_fetch_status := ''observed''\<rparr>"

definition insert_proof :: "(nat \<Rightarrow> string) \<Rightarrow> instant \<Rightarrow> history_job \<Rightarrow> string \<Rightarrow> 'a history_db_scheme \<Rightarrow> nat \<times> history_coverage \<Rightarrow> 'a history_db_scheme result" where
  "insert_proof uids t j nst db = (\<lambda>(i, proof).
     case ValidateHistoryDates (cov_from proof) (cov_to proof) of Some e \<Rightarrow> Inl e | None \<Rightarrow>
     if req_account_ids (job_request j) \<noteq> [] \<and> \<not> containsHistoryID (req_account_ids (job_request j)) (cov_account_id proof) then Inl ErrForbidden
     else let fetch = if cov_fetch_status proof \<noteq> ''complete'' then ''observed'' else cov_fetch_status proof;
              reconcile = if cov_reconcile_status proof \<in> {''passed'', ''mismatch'', ''incomplete'', ''unknown''}
                then cov_reconcile_status proof else ''unknown''
       in if uids i \<in> cov_id ` set (db_coverage db) then Inl ErrConstraint
          else if cov_account_id proof \<notin> acc_id ` set (db_accounts db) then Inl ErrReference
          else Inr (db\<lparr>db_coverage := db_coverage db @ [history_coverage.extend
            (proof\<lparr>cov_id := uids i, cov_fetch_status := fetch, cov_normalize_status := nst, cov_reconcile_status := reconcile,
               cov_last_checked_at := nowRFC3339 t\<rparr>) \<lparr>cr_job = job_id j\<rparr>]\<rparr>))"

definition SaveHistoryCoverage :: "(nat \<Rightarrow> string) \<Rightarrow> instant \<Rightarrow> history_job \<Rightarrow> history_counts \<Rightarrow> ('a history_db_scheme, unit) call" where
  "SaveHistoryCoverage uids t j c = under_lease t j (\<lambda>db.
     let ids = merge_ids (req_account_ids (job_request j)) (observed_accounts (job_id j) db);
         nst = if 0 < cnt_unsupported c \<or> 0 < cnt_conflicts c then ''partial'' else ''complete'';
         kind = if req_source (job_request j) = ''gateway'' then ''trade'' else ''activities'';
         proofs = if job_coverage j = [] then map (observed_proof (job_request j) kind) ids else job_coverage j;
         db = db\<lparr>db_coverage := filter (\<lambda>r. cr_job r \<noteq> job_id j) (db_coverage db)\<rparr>
     in rbind (rfold (insert_proof uids t j nst) db (List.enumerate 0 proofs)) (\<lambda>db. Inr ((), db)))"

text \<open>The provider a record's source belongs to.\<close>

definition historyRecordProvider :: "raw_record \<Rightarrow> string result" where
  "historyRecordProvider r = (let src = to_lower (raw_source r) in
     rbind (if src \<in> {''gateway'', ''flex'', ''xml''} then Inr ''IBKR'' else if src = ''schwab'' then Inr ''SCHWAB''
            else if src = ''alpaca'' then Inr ''ALPACA'' else Inl ''history_source_not_supported'')
       (\<lambda>expected. if act_provider (raw_activity r) \<noteq> [] \<and> \<not> equal_fold (act_provider (raw_activity r)) expected
          then Inl ''history_provider_mismatch'' else Inr expected))"

definition find_account :: "string \<Rightarrow> string \<Rightarrow> 'a history_db_scheme \<Rightarrow> account_row option" where
  "find_account provider key db = find (\<lambda>a. acc_provider a = provider \<and> acc_provider_account_id a = key) (db_accounts db)"

definition raw_key_matches :: "int \<Rightarrow> raw_record \<Rightarrow> string \<Rightarrow> raw_row \<Rightarrow> bool" where
  "raw_key_matches acc r h x \<longleftrightarrow> rr_account x = acc \<and> rr_namespace x = raw_namespace r \<and> rr_record_type x = raw_record_type r
     \<and> rr_key x = raw_key r \<and> rr_payload_hash x = h"

text \<open>The insertion of a raw record: a row that is already there keeps its normal form and its status unless
  it was written by another version of the rules.\<close>

definition upsert_raw :: "string \<Rightarrow> instant \<Rightarrow> int \<Rightarrow> raw_record \<Rightarrow> string \<Rightarrow> raw_row list \<Rightarrow> raw_row list" where
  "upsert_raw uid t acc r h rows =
     (if \<exists>x\<in>set rows. raw_key_matches acc r h x
      then map (\<lambda>x. if raw_key_matches acc r h x
             then x\<lparr>rr_normalized := if rr_rule_version x \<noteq> RuleVersion then r else rr_normalized x,
                    rr_status := if rr_rule_version x \<noteq> RuleVersion then ''pending'' else rr_status x,
                    rr_rule_version := RuleVersion\<rparr> else x) rows
      else rows @ [\<lparr>rr_id = uid, rr_account = acc, rr_source = raw_source r, rr_namespace = raw_namespace r,
             rr_record_type = raw_record_type r, rr_key = raw_key r, rr_payload_hash = h, rr_payload = raw_payload r,
             rr_normalized = r, rr_source_updated_at = raw_source_updated_at r, rr_status = ''pending'',
             rr_rule_version = RuleVersion, rr_created_at = nowRFC3339 t\<rparr>])"

definition observe :: "string \<Rightarrow> string \<Rightarrow> instant \<Rightarrow> observation list \<Rightarrow> observation list" where
  "observe raw job t obs = (if \<exists>ob\<in>set obs. ob_raw ob = raw \<and> ob_job ob = job then obs
     else obs @ [\<lparr>ob_raw = raw, ob_job = job, ob_observed_at = nowRFC3339 t, ob_outcome = []\<rparr>])"

text \<open>The JSON text of a record's cost adjustments, hashed with its payload.\<close>

definition cost_json :: "cost_adjustment list \<Rightarrow> string" where
  "cost_json cs = json_array (map (\<lambda>c. json_object [
     (''instrument_id'', omit_zero (cost_instrument_id c)), (''external_instrument_id'', omit_empty (cost_external_instrument_id c)),
     (''currency'', Some (json_quote (cost_currency c))), (''basis_delta'', omit_empty (cost_basis_delta c)),
     (''basis_before'', omit_empty (cost_basis_before c)), (''basis_after'', omit_empty (cost_basis_after c)),
     (''allocation_method'', Some (json_quote (cost_allocation_method c))), (''evidence'', Some (json_quote (cost_evidence c)))]) cs)"

definition payload_hash :: "raw_record \<Rightarrow> string" where
  "payload_hash r = (let costs = act_cost_adjustments (raw_activity r) in
     if costs \<noteq> [] then historyHash (raw_payload r @ cost_json costs) else historyHash (raw_payload r))"

definition save_raw_record :: "(nat \<Rightarrow> string) \<Rightarrow> instant \<Rightarrow> history_job \<Rightarrow> 'a history_db_scheme \<Rightarrow> nat \<times> raw_record \<Rightarrow> 'a history_db_scheme result" where
  "save_raw_record uids t j db = (\<lambda>(i, r).
     rbind (historyRecordProvider r) (\<lambda>provider.
     rbind (from_option ''history_account_not_found'' (find_account provider (raw_provider_account_id r) db)) (\<lambda>a.
     rbind (require (req_account_ids (job_request j) = [] \<or> containsHistoryID (req_account_ids (job_request j)) (acc_id a)) ErrForbidden) (\<lambda>_.
     rbind (require (req_connection_id (job_request j) \<le> 0 \<or> (acc_id a, req_connection_id (job_request j)) \<in> set (db_account_connections db)) ErrForbidden) (\<lambda>_.
     rbind (require (raw_key r \<noteq> [] \<and> raw_namespace r \<noteq> []) ''history_record_identity_required'') (\<lambda>_.
     rbind (require (json_valid (raw_payload r)) ''history_invalid_payload'') (\<lambda>_.
     let match = raw_key_matches (acc_id a) r (payload_hash r) in
     rbind (require (uids i \<notin> rr_id ` set (db_raw db) \<or> (\<exists>x\<in>set (db_raw db). match x)) ErrConstraint) (\<lambda>_.
     let rows = upsert_raw (uids i) t (acc_id a) r (payload_hash r) (db_raw db) in
     rbind (from_option ErrNotFound (find match rows)) (\<lambda>x.
     Inr (db\<lparr>db_raw := rows, db_observations := observe (rr_id x) (job_id j) t (db_observations db)\<rparr>))))))))))"

definition SaveHistoryRaw :: "(nat \<Rightarrow> string) \<Rightarrow> instant \<Rightarrow> history_job \<Rightarrow> raw_record list \<Rightarrow> ('a history_db_scheme, unit) call" where
  "SaveHistoryRaw uids t j records = under_lease t j (\<lambda>db.
     rbind (rfold (save_raw_record uids t j) db (List.enumerate 0 records)) (\<lambda>db.
     Inr ((), db\<lparr>db_jobs := update_job (job_id j) (\<lambda>r. r\<lparr>job_phase := ''normalize'', job_coverage := job_coverage j,
       job_request := job_request j\<rparr>) (db_jobs db)\<rparr>)))"

section \<open>Imports\<close>

text \<open>The part of an import that its preview encodes.\<close>

definition preview_json :: "history_import \<Rightarrow> history_import" where
  "preview_json p = p\<lparr>hi_records := [], hi_coverage := [], hi_snapshots := [], hi_created_by := 0\<rparr>"

text \<open>One record of an import: its account, its date, its status, and whether a row with the same payload is stored.\<close>

definition import_step :: "'a history_db_scheme \<Rightarrow> history_import \<Rightarrow> raw_record \<Rightarrow> history_import" where
  "import_step db p r = (let key = raw_provider_account_id r; date = act_trade_date (raw_activity r); status = act_status (raw_activity r);
       p = (if key \<in> set (hi_accounts p) then p
            else let p = p\<lparr>hi_accounts := hi_accounts p @ [key]\<rparr> in
              if \<exists>a\<in>set (db_accounts db). acc_provider a = ''IBKR'' \<and> acc_provider_account_id a = key then p
              else p\<lparr>hi_warnings := hi_warnings p @ [''unknown_account:'' @ key], hi_status := ''needs_action''\<rparr>);
       p = (if date \<noteq> [] \<and> (hi_from p = [] \<or> date < hi_from p) then p\<lparr>hi_from := date\<rparr> else p);
       p = (if hi_to p < date then p\<lparr>hi_to := date\<rparr> else p);
       p = (if status = StatusUnsupported then p\<lparr>hi_counts := (hi_counts p)\<lparr>cnt_unsupported := cnt_unsupported (hi_counts p) + 1\<rparr>\<rparr> else p);
       p = (if status = StatusNeedsReview then p\<lparr>hi_counts := (hi_counts p)\<lparr>cnt_conflicts := cnt_conflicts (hi_counts p) + 1\<rparr>\<rparr> else p);
       stored = (\<exists>x\<in>set (db_raw db). \<exists>a\<in>set (db_accounts db). acc_id a = rr_account x \<and> acc_provider a = ''IBKR''
         \<and> acc_provider_account_id a = key \<and> rr_namespace x = raw_namespace r \<and> rr_record_type x = raw_record_type r
         \<and> rr_key x = raw_key r \<and> rr_payload_hash x = historyHash (raw_payload r))
     in if stored then p\<lparr>hi_counts := (hi_counts p)\<lparr>cnt_duplicates := cnt_duplicates (hi_counts p) + 1\<rparr>\<rparr> else p)"

definition CreateHistoryImport :: "string \<Rightarrow> instant \<Rightarrow> raw_record list \<Rightarrow> string \<Rightarrow> int \<Rightarrow> ('a history_db_scheme, history_import) call" where
  "CreateHistoryImport uid t records hash user db =
     (let p = \<lparr>hi_id = uid, hi_status = ''preview'', hi_record_count = int (length records), hi_accounts = [],
            hi_counts = zero_counts\<lparr>cnt_records := int (length records)\<rparr>, hi_warnings = [], hi_from = [], hi_to = [], hi_records = records,
            hi_coverage = [], hi_snapshots = [], hi_created_by = user, hi_expires_at = rfc3339_nano (t + minutes (24 * 60))\<rparr>;
          p = foldl (import_step db) p records;
          p = p\<lparr>hi_accounts := sort (hi_accounts p)\<rparr>;
          p = (if 0 < cnt_unsupported (hi_counts p) then p\<lparr>hi_warnings := hi_warnings p @ [''unsupported_records'']\<rparr> else p);
          p = (if 0 < cnt_conflicts (hi_counts p) then p\<lparr>hi_warnings := hi_warnings p @ [''records_need_review'']\<rparr> else p)
      in if uid \<in> im_id ` set (db_imports db) then (Inl ErrConstraint, db)
         else (Inr p, db\<lparr>db_imports := db_imports db @ [\<lparr>im_id = uid, im_created_by = user, im_file_hash = hash, im_status = hi_status p,
           im_records = records, im_preview = preview_json p, im_evidence = [], im_snapshots = [], im_job_id = None,
           im_created_at = nowRFC3339 t, im_expires_at = hi_expires_at p\<rparr>]\<rparr>))"

definition find_import :: "string \<Rightarrow> 'a history_db_scheme \<Rightarrow> import_row option" where
  "find_import i db = find (\<lambda>r. im_id r = i) (db_imports db)"

definition GetHistoryImport :: "string \<Rightarrow> 'a history_db_scheme \<Rightarrow> history_import result" where
  "GetHistoryImport i db = (case find_import i db of None \<Rightarrow> Inl ErrNotFound
     | Some r \<Rightarrow> Inr ((im_preview r)\<lparr>hi_records := im_records r, hi_coverage := im_evidence r, hi_snapshots := im_snapshots r,
         hi_status := im_status r, hi_created_by := im_created_by r\<rparr>))"

definition update_import :: "string \<Rightarrow> (import_row \<Rightarrow> import_row) \<Rightarrow> import_row list \<Rightarrow> import_row list" where
  "update_import i f = map (\<lambda>r. if im_id r = i then f r else r)"

definition SaveHistoryImportEvidence :: "string \<Rightarrow> history_coverage list \<Rightarrow> reconciliation_snapshot list \<Rightarrow> ('a history_db_scheme, unit) call" where
  "SaveHistoryImportEvidence i coverage snapshots db =
     (let hit = (\<lambda>r. im_id r = i \<and> im_status r = ''preview'')
      in (if length (filter hit (db_imports db)) = 1 then Inr () else Inl ErrNotFound,
          db\<lparr>db_imports := map (\<lambda>r. if hit r then r\<lparr>im_evidence := coverage, im_snapshots := snapshots\<rparr> else r) (db_imports db)\<rparr>))"

definition import_request :: "string \<Rightarrow> history_import \<Rightarrow> history_request" where
  "import_request i p = \<lparr>req_use_query_period = False, req_account_ids = [], req_connection_id = 0, req_source = ''xml'',
     req_from = hi_from p, req_to = hi_to p, req_import_id = i\<rparr>"

definition CommitHistoryImport :: "string \<Rightarrow> instant \<Rightarrow> string \<Rightarrow> ('a history_db_scheme, history_job) call" where
  "CommitHistoryImport uid t i = transaction (\<lambda>db.
     case find_import i db of None \<Rightarrow> Inl ErrNotFound
     | Some r \<Rightarrow> (case im_job_id r of
         Some jid \<Rightarrow> rbind (GetHistoryJob jid db) (\<lambda>j. Inr (j, db))
       | None \<Rightarrow>
           if im_expires_at r < nowRFC3339 t then Inl ''import_expired''
           else if im_status r \<noteq> ''preview'' then Inl ''import_needs_action''
           else rbind (createHistoryJobTx uid t (import_request i (im_preview r)) db) (\<lambda>(j, db).
             Inr (j, db\<lparr>db_imports := update_import i (\<lambda>r. r\<lparr>im_status := ''committed'', im_job_id := Some (job_id j)\<rparr>) (db_imports db)\<rparr>))))"

definition HistoryJobRecords :: "string \<Rightarrow> 'a history_db_scheme \<Rightarrow> raw_record list result" where
  "HistoryJobRecords i db = rbind (GetHistoryImport i db) (\<lambda>p. Inr (hi_records p))"

text \<open>Failed fetches of a connection are queued again after its configuration was saved.\<close>

definition RetryHistoryConnectionFetches :: "instant \<Rightarrow> int \<Rightarrow> ('a history_db_scheme, unit) call" where
  "RetryHistoryConnectionFetches t c db = (Inr (), db\<lparr>db_jobs := map (\<lambda>r.
     if row_connection r = Some c \<and> row_source r = ''flex'' \<and> job_phase r = ''fetch'' \<and> job_status r \<in> {''retry_wait'', ''needs_action''}
     then r\<lparr>job_status := ''queued'', job_attempt := 0, job_error := [], row_next_attempt := [], job_updated_at := nowRFC3339 t\<rparr>
     else r) (db_jobs db)\<rparr>)"

text \<open>The deletion of a connection, as the foreign keys of the tables carry it out.\<close>

definition connection_deleted :: "int \<Rightarrow> 'a history_db_scheme \<Rightarrow> 'a history_db_scheme" where
  "connection_deleted c db = db\<lparr>db_connections := filter (\<lambda>x. x \<noteq> c) (db_connections db),
     db_account_connections := filter (\<lambda>(_, x). x \<noteq> c) (db_account_connections db),
     db_jobs := map (\<lambda>r. if row_connection r = Some c then r\<lparr>row_connection := None\<rparr> else r) (db_jobs db)\<rparr>"

section \<open>Leases\<close>

text \<open>What a step of the queue may do to the leases. Every operation other than a claim maps the rows one by one and
  gives no lease to a row that has none. The flag \<open>d\<close> allows the deletion of a connection, which takes the scope from its rows.\<close>

definition lease_kept :: "string \<Rightarrow> job_row \<Rightarrow> job_row \<Rightarrow> bool" where
  "lease_kept now r r' \<longleftrightarrow> job_id r' = job_id r \<and> row_source r' = row_source r \<and> row_connection r' = row_connection r
     \<and> job_lease_generation r' = job_lease_generation r \<and> job_lease_owner r' = job_lease_owner r
     \<and> (live now r \<or> job_status r' \<noteq> ''running'' \<or> job_status r = ''running'' \<and> job_lease_until r' = job_lease_until r)"

inductive lease_step :: "bool \<Rightarrow> instant \<Rightarrow> job_row list \<Rightarrow> job_row list \<Rightarrow> bool" for d t where
  kept: "(\<And>r. r \<in> set rows \<Longrightarrow> lease_kept (nowRFC3339 t) r (g r)) \<Longrightarrow> lease_step d t rows (map g rows)"
| created: "job_id r \<notin> job_id ` set rows \<Longrightarrow> job_status r = ''queued'' \<Longrightarrow> lease_step d t rows (rows @ [r])"
| taken: "j \<in> set rows \<Longrightarrow> claimable (nowRFC3339 t) rows j \<Longrightarrow> lease_step d t rows (update_job (job_id j) (claimed owner t) rows)"
| disconnected: "d \<Longrightarrow> lease_step d t rows (map (\<lambda>r. if row_connection r = Some c then r\<lparr>row_connection := None\<rparr> else r) rows)"
| reordered: "mset rows' = mset rows \<Longrightarrow> lease_step d t rows rows'"

inductive_cases lease_stepE: "lease_step d t rows rows'"

lemma lease_kept_refl [simp]: "lease_kept now r r"
  by (auto simp: lease_kept_def)

lemma lease_step_refl [simp]: "lease_step d t rows rows"
  by (rule reordered) simp

lemma lease_step_update:
  assumes "\<And>r. r \<in> set rows \<Longrightarrow> P r \<Longrightarrow> lease_kept (nowRFC3339 t) r (f r)"
  shows "lease_step d t rows (map (\<lambda>r. if P r then f r else r) rows)"
  using assms by (intro kept) auto

text \<open>The datatype of the operations on the queue, and a run of them.\<close>

datatype job_op =
    OpCreate string history_request
  | OpClaim string
  | OpRenew history_job
  | OpFinish history_job string history_counts string
  | OpCoverage "nat \<Rightarrow> string" history_job history_counts
  | OpRaw "nat \<Rightarrow> string" history_job "raw_record list"
  | OpImport string "raw_record list" string int
  | OpEvidence string "history_coverage list" "reconciliation_snapshot list"
  | OpCommit string string
  | OpRetry int
  | OpDisconnect int
  | OpReorder "job_row list"

fun run_op :: "instant \<Rightarrow> job_op \<Rightarrow> 'a history_db_scheme \<Rightarrow> 'a history_db_scheme" where
  "run_op t (OpCreate uid r) db = snd (CreateHistoryJob uid t r db)"
| "run_op t (OpClaim owner) db = snd (ClaimHistoryJob owner t db)"
| "run_op t (OpRenew j) db = snd (RenewHistoryJob t j db)"
| "run_op t (OpFinish j status counts msg) db = snd (FinishHistoryJob t j status counts msg db)"
| "run_op t (OpCoverage uids j c) db = snd (SaveHistoryCoverage uids t j c db)"
| "run_op t (OpRaw uids j records) db = snd (SaveHistoryRaw uids t j records db)"
| "run_op t (OpImport uid records h user) db = snd (CreateHistoryImport uid t records h user db)"
| "run_op t (OpEvidence i coverage snapshots) db = snd (SaveHistoryImportEvidence i coverage snapshots db)"
| "run_op t (OpCommit uid i) db = snd (CommitHistoryImport uid t i db)"
| "run_op t (OpRetry c) db = snd (RetryHistoryConnectionFetches t c db)"
| "run_op t (OpDisconnect c) db = connection_deleted c db"
| "run_op t (OpReorder rows) db = (if mset rows = mset (db_jobs db) then db\<lparr>db_jobs := rows\<rparr> else db)"

fun run_ops :: "(instant \<times> job_op) list \<Rightarrow> 'a history_db_scheme \<Rightarrow> 'a history_db_scheme" where
  "run_ops [] db = db"
| "run_ops ((t, a) # ops) db = run_ops ops (run_op t a db)"

text \<open>The effect of each operation on the rows of the queue.\<close>

lemma leased_update_step:
  assumes "\<And>r. lease_kept (nowRFC3339 t) r (f r) \<or> \<not> live (nowRFC3339 t) r"
  shows "lease_step d t (db_jobs db) (db_jobs (snd (leased_update t j f db)))"
  unfolding leased_update_def Let_def snd_conv
  using assms by (auto simp: holds_lease_def intro!: lease_step_update)

lemma created_step: "createHistoryJobTx uid t r db = Inr (j, db') \<Longrightarrow> lease_step d t (db_jobs db) (db_jobs db')"
  by (auto simp: createHistoryJobTx_def rbind_Inr_iff Let_def new_job_def split: option.splits if_splits intro!: created)

lemma create_step: "lease_step d t (db_jobs db) (db_jobs (snd (CreateHistoryJob uid t r db)))"
  by (auto simp: CreateHistoryJob_def transaction_def split: option.splits sum.splits dest: created_step)

lemma commit_step: "lease_step d t (db_jobs db) (db_jobs (snd (CommitHistoryImport uid t i db)))"
  by (auto simp: CommitHistoryImport_def transaction_def rbind_Inr_iff split: option.splits sum.splits if_splits dest: created_step)

lemma claim_step: "lease_step d t (db_jobs db) (db_jobs (snd (ClaimHistoryJob owner t db)))"
proof (cases "oldest (filter (claimable (nowRFC3339 t) (db_jobs db)) (db_jobs db))")
  case None
  then show ?thesis by (simp add: ClaimHistoryJob_def Let_def)
next
  case (Some j)
  then have "j \<in> set (db_jobs db)" "claimable (nowRFC3339 t) (db_jobs db) j" using oldest_Some(1) by fastforce+
  with Some show ?thesis by (auto simp: ClaimHistoryJob_def Let_def intro: taken)
qed

lemma under_lease_step:
  assumes "\<And>db x db'. body db = Inr (x, db') \<Longrightarrow>
     \<exists>g. db_jobs db' = map g (db_jobs db) \<and> (\<forall>r. lease_kept (nowRFC3339 t) r (g r))"
  shows "lease_step d t (db_jobs db) (db_jobs (snd (under_lease t j body db)))"
proof (cases "fst (under_lease t j body db)")
  case (Inl e)
  then show ?thesis by (metis transaction_failed under_lease_def lease_step_refl)
next
  case (Inr x)
  let ?f = "\<lambda>r. if holds_lease (nowRFC3339 t) j r then r\<lparr>job_updated_at := nowRFC3339 t\<rparr> else r"
  obtain db1 db' where b: "checkHistoryLease t j db = (Inr (), db1)" "body db1 = Inr (x, db')" "snd (under_lease t j body db) = db'"
    using Inr by (auto simp: under_lease_def transaction_def split: sum.splits prod.splits)
  from b(1) have d: "db_jobs db1 = map ?f (db_jobs db)"
    by (auto simp: checkHistoryLease_def leased_update_def Let_def split: if_splits)
  from assms [OF b(2)] obtain g where g: "db_jobs db' = map g (db_jobs db1)" "\<forall>r. lease_kept (nowRFC3339 t) r (g r)" by auto
  have "lease_kept (nowRFC3339 t) r (g (?f r))" for r
    using g(2) [rule_format, of "?f r"] by (auto simp: lease_kept_def live_def)
  then have "lease_step d t (db_jobs db) (map (g \<circ> ?f) (db_jobs db))" by (intro kept) simp
  then show ?thesis by (simp add: b(3) g(1) d)
qed

lemma rfold_jobs:
  assumes "rfold f db xs = Inr db'" "\<And>db x db'. f db x = Inr db' \<Longrightarrow> db_jobs db' = db_jobs db"
  shows "db_jobs db' = db_jobs db"
  using assms(1) by (induction xs arbitrary: db) (auto simp: rbind_Inr_iff dest!: assms(2))

lemma insert_proof_jobs: "insert_proof uids t j nst db x = Inr db' \<Longrightarrow> db_jobs db' = db_jobs db"
  by (auto simp: insert_proof_def Let_def split: prod.splits option.splits if_splits)

lemma save_raw_jobs: "save_raw_record uids t j db x = Inr db' \<Longrightarrow> db_jobs db' = db_jobs db"
  by (auto simp: save_raw_record_def Let_def rbind_Inr_iff split: prod.splits)

lemma coverage_step: "lease_step d t (db_jobs db) (db_jobs (snd (SaveHistoryCoverage uids t j c db)))"
  unfolding SaveHistoryCoverage_def Let_def
proof (rule under_lease_step, goal_cases)
  case (1 db x db')
  then have "db_jobs db' = map (\<lambda>r. r) (db_jobs db)"
    by (auto simp: rbind_Inr_iff dest!: rfold_jobs [OF _ insert_proof_jobs])
  then show ?case by (intro exI [of _ "\<lambda>r. r"]) simp
qed

lemma raw_step: "lease_step d t (db_jobs db) (db_jobs (snd (SaveHistoryRaw uids t j records db)))"
  unfolding SaveHistoryRaw_def
proof (rule under_lease_step, goal_cases)
  case (1 db x db')
  then have "db_jobs db' = map (\<lambda>r. if job_id r = job_id j then r\<lparr>job_phase := ''normalize'', job_coverage := job_coverage j,
       job_request := job_request j\<rparr> else r) (db_jobs db)"
    by (auto simp: rbind_Inr_iff update_job_def dest!: rfold_jobs [OF _ save_raw_jobs])
  moreover have "\<forall>r. lease_kept (nowRFC3339 t) r (if job_id r = job_id j then r\<lparr>job_phase := ''normalize'', job_coverage := job_coverage j,
       job_request := job_request j\<rparr> else r)"
    by (auto simp: lease_kept_def)
  ultimately show ?case by blast
qed

lemma retry_step: "lease_step d t (db_jobs db) (db_jobs (snd (RetryHistoryConnectionFetches t c db)))"
  by (auto simp: RetryHistoryConnectionFetches_def lease_kept_def intro!: lease_step_update)

fun deletes :: "job_op \<Rightarrow> bool" where
  "deletes (OpDisconnect c) = True"
| "deletes _ = False"

lemma run_op_step:
  assumes "deletes a \<Longrightarrow> d"
  shows "lease_step d t (db_jobs db) (db_jobs (run_op t a db))"
proof (cases a)
  case OpRenew
  then show ?thesis by (auto simp: RenewHistoryJob_def lease_kept_def intro!: leased_update_step)
next
  case OpFinish
  then show ?thesis
    by (auto simp: FinishHistoryJob_def Let_def lease_kept_def intro!: leased_update_step)
next
  case (OpDisconnect c)
  with assms have d by simp
  with OpDisconnect show ?thesis by (simp add: connection_deleted_def disconnected)
next
  case OpReorder
  then show ?thesis by (auto intro: reordered)
qed (simp_all add: create_step claim_step coverage_step raw_step commit_step retry_step CreateHistoryImport_def
   SaveHistoryImportEvidence_def Let_def)

text \<open>Clock texts do not go back.\<close>

lemma now_mono: "t \<le> u \<Longrightarrow> four_digit (day_of t) \<Longrightarrow> four_digit (day_of u) \<Longrightarrow> nowRFC3339 t \<le> nowRFC3339 u"
  unfolding nowRFC3339_def by (rule stamp_order(3)) (auto simp: second_of_def ns_per_second_def zdiv_mono1)

lemma live_earlier: "live now' r \<Longrightarrow> now \<le> now' \<Longrightarrow> live now r"
  by (auto simp: live_def)

text \<open>Ids name one row. Two rows that satisfy \<open>G\<close> and have the same scope are not both live.\<close>

definition queue_ok :: "(job_row \<Rightarrow> bool) \<Rightarrow> string \<Rightarrow> job_row list \<Rightarrow> bool" where
  "queue_ok G now rows \<longleftrightarrow> distinct (map job_id rows) \<and>
     (\<forall>x\<in>set rows. \<forall>y\<in>set rows. G x \<and> G y \<and> live now x \<and> live now y \<and> same_scope x y \<longrightarrow> job_id x = job_id y)"

lemma queue_okD:
  assumes "queue_ok G now rows" "x \<in> set rows" "y \<in> set rows" "G x" "G y" "live now x" "live now y" "same_scope x y"
  shows "job_id x = job_id y"
  using assms unfolding queue_ok_def by blast

lemma queue_ok_later: "queue_ok G now rows \<Longrightarrow> now \<le> now' \<Longrightarrow> queue_ok G now' rows"
  unfolding queue_ok_def using live_earlier by blast

text \<open>The rows that keep their scope when connections are deleted.\<close>

definition guarded :: "bool \<Rightarrow> job_row \<Rightarrow> bool" where
  "guarded deletions r \<longleftrightarrow> (deletions \<longrightarrow> row_connection r \<noteq> None)"

lemma kept_live: "lease_kept now r r' \<Longrightarrow> live now r' \<Longrightarrow> live now r"
  by (auto simp: lease_kept_def live_def)

lemma update_job_ids: "(\<And>r. job_id (f r) = job_id r) \<Longrightarrow> map job_id (update_job i f rows) = map job_id rows"
  by (auto simp: update_job_def)

lemma claimed_simps [simp]:
  "job_id (claimed owner t r) = job_id r" "row_source (claimed owner t r) = row_source r" "row_connection (claimed owner t r) = row_connection r"
  "job_lease_generation (claimed owner t r) = job_lease_generation r + 1" "job_lease_owner (claimed owner t r) = owner"
  "job_created_at (claimed owner t r) = job_created_at r" "job_status (claimed owner t r) = ''running''"
  by (simp_all add: claimed_def)

lemma same_scope_sym: "same_scope x y \<Longrightarrow> same_scope y x"
  by (simp add: same_scope_def)

text \<open>A row by row change keeps the queue's invariant if it keeps the ids and makes no new pair of live rows.\<close>

lemma queue_ok_map:
  assumes "queue_ok G now rows" "\<And>x. x \<in> set rows \<Longrightarrow> job_id (f x) = job_id x"
    "\<And>x y. x \<in> set rows \<Longrightarrow> y \<in> set rows \<Longrightarrow> G (f x) \<Longrightarrow> G (f y) \<Longrightarrow> live now (f x) \<Longrightarrow> live now (f y) \<Longrightarrow>
       same_scope (f x) (f y) \<Longrightarrow> job_id x = job_id y"
  shows "queue_ok G now (map f rows)"
  unfolding queue_ok_def
proof (intro conjI ballI impI)
  have "map (job_id \<circ> f) rows = map job_id rows" using assms(2) by auto
  then show "distinct (map job_id (map f rows))" using assms(1) by (simp only: map_map queue_ok_def)
next
  fix x y
  assume "x \<in> set (map f rows)" "y \<in> set (map f rows)" and h: "G x \<and> G y \<and> live now x \<and> live now y \<and> same_scope x y"
  then obtain x' y' where m: "x' \<in> set rows" "x = f x'" "y' \<in> set rows" "y = f y'" by auto
  then have "job_id x' = job_id y'" using h assms(3) [of x' y'] by simp
  then show "job_id x = job_id y" using m assms(2) by simp
qed

lemma queue_ok_kept:
  assumes ok: "queue_ok (guarded d) (nowRFC3339 t) rows" and g: "\<And>r. r \<in> set rows \<Longrightarrow> lease_kept (nowRFC3339 t) r (g r)"
  shows "queue_ok (guarded d) (nowRFC3339 t) (map g rows)"
  using ok
proof (rule queue_ok_map)
  fix x assume "x \<in> set rows"
  then show "job_id (g x) = job_id x" using g by (simp add: lease_kept_def)
next
  fix x y
  assume m: "x \<in> set rows" "y \<in> set rows" and c: "guarded d (g x)" "guarded d (g y)" "live (nowRFC3339 t) (g x)" "live (nowRFC3339 t) (g y)" "same_scope (g x) (g y)"
  note kx = g [OF m(1)] and ky = g [OF m(2)]
  show "job_id x = job_id y"
    by (rule queue_okD [OF ok m])
      (use c kx ky kept_live [OF kx c(3)] kept_live [OF ky c(4)] in \<open>auto simp: guarded_def same_scope_def lease_kept_def\<close>)
qed

lemma queue_ok_taken:
  assumes ok: "queue_ok (guarded d) (nowRFC3339 t) rows" and j: "j \<in> set rows" "claimable (nowRFC3339 t) rows j"
  shows "queue_ok (guarded d) (nowRFC3339 t) (update_job (job_id j) (claimed owner t) rows)"
  unfolding update_job_def using ok
proof (rule queue_ok_map)
  let ?now = "nowRFC3339 t" and ?f = "\<lambda>r. if job_id r = job_id j then claimed owner t r else r"
  fix x y
  assume m: "x \<in> set rows" "y \<in> set rows"
    and c: "guarded d (?f x)" "guarded d (?f y)" "live ?now (?f x)" "live ?now (?f y)" "same_scope (?f x) (?f y)"
  have same: "x = j" if "x \<in> set rows" "job_id x = job_id j" for x
    using ok j(1) that by (auto simp: queue_ok_def distinct_map dest: inj_onD)
  have free: "\<not> (live ?now y \<and> same_scope y j)" if "y \<in> set rows" "job_id y \<noteq> job_id j" for y
    using j(2) that by (auto simp: claimable_def)
  show "job_id x = job_id y"
  proof (cases "job_id x = job_id j"; cases "job_id y = job_id j")
    assume "job_id x \<noteq> job_id j" "job_id y \<noteq> job_id j"
    then show ?thesis using c queue_okD [OF ok m] by simp
  next
    assume "job_id x = job_id j" "job_id y \<noteq> job_id j"
    then show ?thesis using c same [OF m(1)] free [OF m(2)] by (auto simp: same_scope_def)
  next
    assume "job_id x \<noteq> job_id j" "job_id y = job_id j"
    then show ?thesis using c same [OF m(2)] free [OF m(1)] by (auto simp: same_scope_def)
  qed simp
qed simp

lemma queue_ok_disconnected:
  assumes ok: "queue_ok (guarded True) now rows"
  shows "queue_ok (guarded True) now (map (\<lambda>r. if row_connection r = Some c then r\<lparr>row_connection := None\<rparr> else r) rows)"
  using assms
proof (rule queue_ok_map)
  fix x y
  let ?f = "\<lambda>r. if row_connection r = Some c then r\<lparr>row_connection := None\<rparr> else r"
  assume m: "x \<in> set rows" "y \<in> set rows" and c: "guarded True (?f x)" "guarded True (?f y)" "live now (?f x)" "live now (?f y)" "same_scope (?f x) (?f y)"
  have "?f x = x" "?f y = y" using c by (auto simp: guarded_def)
  with c show "job_id x = job_id y" using queue_okD [OF ok m] by simp
qed simp

lemma lease_step_ids: "lease_step d t rows rows' \<Longrightarrow> distinct (map job_id rows) \<Longrightarrow> distinct (map job_id rows')"
proof (induction rule: lease_step.induct)
  case (kept rows g)
  then have "map (job_id \<circ> g) rows = map job_id rows" by (auto simp: lease_kept_def)
  with kept(2) show ?case by (simp only: map_map)
next
  case (taken j rows owner)
  then show ?case by (simp add: update_job_ids)
next
  case (disconnected rows c)
  have "map (job_id \<circ> (\<lambda>r. if row_connection r = Some c then r\<lparr>row_connection := None\<rparr> else r)) rows = map job_id rows" by auto
  with disconnected(2) show ?case by (simp only: map_map)
next
  case (reordered rows' rows)
  then have "mset (map job_id rows') = mset (map job_id rows)" by simp
  with reordered show ?case by (metis mset_eq_imp_distinct_iff)
qed auto

lemma queue_ok_step:
  assumes "lease_step d t rows rows'" "queue_ok (guarded d) (nowRFC3339 t) rows"
  shows "queue_ok (guarded d) (nowRFC3339 t) rows'"
  using assms(1)
proof (cases rule: lease_step.cases)
  case (kept g)
  with assms(2) show ?thesis by (auto intro: queue_ok_kept)
next
  case (created r)
  with assms(2) show ?thesis by (auto simp: queue_ok_def live_def)
next
  case (taken j owner)
  with assms(2) show ?thesis by (auto intro: queue_ok_taken)
next
  case (disconnected c)
  with assms(2) show ?thesis by (cases d) (auto intro: queue_ok_disconnected)
next
  case reordered
  then have "set rows' = set rows" "distinct (map job_id rows')"
    using lease_step_ids [OF assms(1)] assms(2) by (auto simp: queue_ok_def dest: mset_eq_setD)
  with assms(2) show ?thesis by (simp add: queue_ok_def)
qed

lemma queue_ok_run:
  assumes "queue_ok (guarded d) (nowRFC3339 t) (db_jobs db)" "sorted (t # map fst ops @ [u])"
    "list_all (\<lambda>t. four_digit (day_of t)) (t # map fst ops @ [u])" "list_all (\<lambda>(t, a). deletes a \<longrightarrow> d) ops"
  shows "queue_ok (guarded d) (nowRFC3339 u) (db_jobs (run_ops ops db))"
  using assms
proof (induction ops arbitrary: t db)
  case Nil
  then show ?case by (auto intro: queue_ok_later now_mono)
next
  case (Cons x ops)
  obtain t' a where x: "x = (t', a)" by (cases x)
  have "queue_ok (guarded d) (nowRFC3339 t') (db_jobs db)"
    using Cons.prems x by (auto intro: queue_ok_later now_mono)
  then have "queue_ok (guarded d) (nowRFC3339 t') (db_jobs (run_op t' a db))"
    using Cons.prems(4) x by (intro queue_ok_step [OF run_op_step]) auto
  from Cons.IH [OF this] Cons.prems x show ?case by auto
qed

lemma queue_ok_start:
  assumes "db_jobs db = []" "sorted (map fst ops @ [u])" "list_all (\<lambda>t. four_digit (day_of t)) (map fst ops @ [u])"
    "list_all (\<lambda>(t, a). deletes a \<longrightarrow> d) ops"
  shows "queue_ok (guarded d) (nowRFC3339 u) (db_jobs (run_ops ops db))"
proof (cases ops)
  case Nil
  then show ?thesis using assms(1) by (simp add: queue_ok_def)
next
  case (Cons x rest)
  then have "queue_ok (guarded d) (nowRFC3339 (fst x)) (db_jobs db)" using assms(1) by (simp add: queue_ok_def)
  from queue_ok_run [OF this, of ops u] assms Cons show ?thesis by auto
qed

section \<open>Claims and stale workers\<close>

lemma find_job_distinct: "distinct (map job_id rows) \<Longrightarrow> r \<in> set rows \<Longrightarrow> find_job (job_id r) rows = Some r"
  unfolding find_job_def by (induction rows) auto

lemma find_job_fresh: "i \<notin> job_id ` set rows \<Longrightarrow> job_id r = i \<Longrightarrow> find_job i (rows @ [r]) = Some r"
  unfolding find_job_def by (induction rows) auto

lemma find_job_update: "(\<And>r. job_id (f r) = job_id r) \<Longrightarrow> find_job i (update_job i f rows) = map_option f (find_job i rows)"
  unfolding find_job_def update_job_def by (induction rows) auto

text \<open>The request of the job that \<open>CreateHistoryJob\<close> returns, old or new.\<close>

lemma created_request:
  assumes "CreateHistoryJob uid t r db = (Inr j, db')" "distinct (map job_id (db_jobs db))"
  obtains n where "normal_ids (req_account_ids r) = Inr n" "job_request j = r\<lparr>req_account_ids := n\<rparr>"
proof -
  from assms(1) have c: "createHistoryJobTx uid t r db = Inr (j, db')"
    by (auto simp: CreateHistoryJob_def transaction_def split: option.splits if_splits sum.splits)
  then obtain n where n: "normal_ids (req_account_ids r) = Inr n" by (auto simp: createHistoryJobTx_def rbind_Inr_iff)
  let ?hit = "\<lambda>x. job_request x = r\<lparr>req_account_ids := n\<rparr> \<and> active (job_status x)"
  have "job_request j = r\<lparr>req_account_ids := n\<rparr>"
  proof (cases "oldest (filter ?hit (db_jobs db))")
    case (Some x)
    then have x: "x \<in> set (db_jobs db)" "?hit x" using oldest_Some(1) by fastforce+
    with c n Some have "j = history_job.truncate x"
      by (simp add: createHistoryJobTx_def scanHistoryJob_def find_job_distinct [OF assms(2)])
    with x(2) show ?thesis by (simp add: history_job.truncate_def)
  next
    case None
    with c n have "j = history_job.truncate (new_job uid t (r\<lparr>req_account_ids := n\<rparr>))"
      by (simp add: createHistoryJobTx_def Let_def split: if_splits)
    then show ?thesis by (simp add: history_job.truncate_def new_job_def)
  qed
  with n that show ?thesis by blast
qed

lemma claim_result:
  assumes "ClaimHistoryJob owner t db = (Inr j, db')" "distinct (map job_id (db_jobs db))"
  obtains r where "oldest (filter (claimable (nowRFC3339 t) (db_jobs db)) (db_jobs db)) = Some r"
    "r \<in> set (db_jobs db)" "claimable (nowRFC3339 t) (db_jobs db) r" "j = history_job.truncate (claimed owner t r)"
    "db_jobs db' = update_job (job_id r) (claimed owner t) (db_jobs db)"
proof (cases "oldest (filter (claimable (nowRFC3339 t) (db_jobs db)) (db_jobs db))")
  case None
  with assms(1) show ?thesis by (auto simp: ClaimHistoryJob_def Let_def scanHistoryJob_def split: if_splits)
next
  case (Some r)
  then have r: "r \<in> set (db_jobs db)" "claimable (nowRFC3339 t) (db_jobs db) r" using oldest_Some(1) by fastforce+
  have "find_job (job_id r) (update_job (job_id r) (claimed owner t) (db_jobs db)) = Some (claimed owner t r)"
    by (simp add: find_job_update find_job_distinct [OF assms(2) r(1)])
  then show ?thesis using that [OF Some r] assms(1) Some
    by (auto simp: ClaimHistoryJob_def Let_def scanHistoryJob_def split: if_splits)
qed

text \<open>Every row of an id that is in the table has at least the generation \<open>g\<close>.\<close>

definition past :: "int \<Rightarrow> string \<Rightarrow> job_row list \<Rightarrow> bool" where
  "past g i rows \<longleftrightarrow> i \<in> job_id ` set rows \<and> (\<forall>r\<in>set rows. job_id r = i \<longrightarrow> g \<le> job_lease_generation r)"

lemma past_map:
  assumes "past g i rows" "\<And>r. r \<in> set rows \<Longrightarrow> job_id (f r) = job_id r \<and> job_lease_generation r \<le> job_lease_generation (f r)"
  shows "past g i (map f rows)"
  unfolding past_def
proof (intro conjI ballI impI)
  have "job_id ` set (map f rows) = job_id ` set rows" using assms(2) by (auto simp: image_image)
  then show "i \<in> job_id ` set (map f rows)" using assms(1) by (simp only: past_def)
next
  fix r assume "r \<in> set (map f rows)" "job_id r = i"
  then obtain x where x: "x \<in> set rows" "r = f x" by auto
  then have "g \<le> job_lease_generation x" using assms \<open>job_id r = i\<close> by (auto simp: past_def)
  also have "\<dots> \<le> job_lease_generation r" using assms(2) x by simp
  finally show "g \<le> job_lease_generation r" .
qed

lemma past_step: "lease_step d t rows rows' \<Longrightarrow> past g i rows \<Longrightarrow> past g i rows'"
proof (induction rule: lease_step.induct)
  case (kept rows f)
  then show ?case by (intro past_map) (auto simp: lease_kept_def)
next
  case (taken j rows owner)
  then show ?case unfolding update_job_def by (intro past_map) auto
next
  case (disconnected rows c)
  then show ?case by (intro past_map) auto
next
  case (reordered rows' rows)
  then have "set rows' = set rows" by (auto dest: mset_eq_setD)
  with reordered(2) show ?case by (simp add: past_def)
qed (auto simp: past_def)

lemma past_run: "past g i (db_jobs db) \<Longrightarrow> past g i (db_jobs (run_ops ops db))"
proof (induction ops arbitrary: db)
  case (Cons x ops)
  then show ?case by (cases x) (auto intro: past_step [OF run_op_step [where d = True]])
qed simp

lemma ids_run: "distinct (map job_id (db_jobs db)) \<Longrightarrow> distinct (map job_id (db_jobs (run_ops ops db)))"
proof (induction ops arbitrary: db)
  case (Cons x ops)
  then show ?case by (cases x) (auto intro!: Cons.IH lease_step_ids [OF run_op_step [where d = True]])
qed simp

lemma past_claim:
  assumes "ClaimHistoryJob owner t db = (Inr j, db')" "distinct (map job_id (db_jobs db))"
  shows "past (job_lease_generation j) (job_id j) (db_jobs db')"
    "past g (job_id j) (db_jobs db) \<Longrightarrow> g < job_lease_generation j"
    "distinct (map job_id (db_jobs db'))"
proof -
  obtain r where r: "r \<in> set (db_jobs db)" "j = history_job.truncate (claimed owner t r)"
    "db_jobs db' = update_job (job_id r) (claimed owner t) (db_jobs db)"
    using claim_result [OF assms] by metis
  have j: "job_id j = job_id r" "job_lease_generation j = job_lease_generation r + 1"
    by (simp_all add: r(2) history_job.truncate_def claimed_def)
  have one: "x = r" if "x \<in> set (db_jobs db)" "job_id x = job_id r" for x
    using assms(2) r(1) that by (auto simp: distinct_map dest: inj_onD)
  have "job_lease_generation x = job_lease_generation j" if h: "x \<in> set (db_jobs db')" "job_id x = job_id j" for x
  proof -
    obtain y where y: "y \<in> set (db_jobs db)" "x = (if job_id y = job_id r then claimed owner t y else y)"
      using h(1) unfolding r(3) update_job_def set_map by blast
    then have "job_id y = job_id r" using h(2) j(1) by (auto split: if_splits)
    with y one [OF y(1)] show ?thesis by (simp add: j(2))
  qed
  moreover have "job_id ` set (db_jobs db') = job_id ` set (db_jobs db)"
    using arg_cong [OF update_job_ids, of "claimed owner t" set "job_id r" "db_jobs db"] by (simp add: r(3))
  ultimately show "past (job_lease_generation j) (job_id j) (db_jobs db')"
    using r(1) by (auto simp: past_def j)
  show "past g (job_id j) (db_jobs db) \<Longrightarrow> g < job_lease_generation j"
    using r(1) by (auto simp: past_def j)
  show "distinct (map job_id (db_jobs db'))" using assms(2) by (simp add: r(3) update_job_ids)
qed

text \<open>A worker whose lease no row bears is turned away, and nothing is written.\<close>

lemma stale_update:
  assumes "\<And>r. r \<in> set (db_jobs db) \<Longrightarrow> \<not> holds_lease (nowRFC3339 t) j r"
  shows "leased_update t j f db = (Inl ErrHistoryLeaseLost, db)"
proof -
  have "filter (holds_lease (nowRFC3339 t) j) (db_jobs db) = []" using assms by (simp add: filter_empty_conv)
  moreover have "map (\<lambda>r. if holds_lease (nowRFC3339 t) j r then f r else r) (db_jobs db) = db_jobs db"
    using assms by (intro map_idI) simp
  ultimately show ?thesis by (simp add: leased_update_def Let_def)
qed

lemma stale_work:
  assumes "\<And>r. r \<in> set (db_jobs db) \<Longrightarrow> \<not> holds_lease (nowRFC3339 t) j r"
  shows "under_lease t j body db = (Inl ErrHistoryLeaseLost, db)"
proof -
  have "checkHistoryLease t j db = (Inl ErrHistoryLeaseLost, db)"
    unfolding checkHistoryLease_def by (rule stale_update [OF assms])
  then show ?thesis by (simp add: under_lease_def transaction_def)
qed

lemma past_stale: "past g (job_id j) rows \<Longrightarrow> job_lease_generation j < g \<Longrightarrow> r \<in> set rows \<Longrightarrow> \<not> holds_lease now j r"
  by (force simp: past_def holds_lease_def)

section \<open>Properties\<close>

text \<open>C15: The queue runs one job of a connection and source at a time. In every history of the queue that starts
  with no jobs and in which the clock does not go back, two jobs with the same source and the same connection that
  both run under a lease that is not over are the same job. Jobs that belong to no connection are included as long
  as no connection is deleted.\<close>

theorem one_live_job_per_scope:
  assumes "db_jobs db = []" "sorted (map fst ops @ [t])" "list_all (\<lambda>t. four_digit (day_of t)) (map fst ops @ [t])"
    and "x \<in> set (db_jobs (run_ops ops db))" "y \<in> set (db_jobs (run_ops ops db))"
    and "live (nowRFC3339 t) x" "live (nowRFC3339 t) y" "same_scope x y"
    and scope: "row_connection x \<noteq> None \<or> list_all (\<lambda>(_, a). \<not> deletes a) ops"
  shows "x = y"
proof -
  define d where "d \<longleftrightarrow> row_connection x \<noteq> None"
  have "list_all (\<lambda>(t, a). deletes a \<longrightarrow> d) ops" using scope by (auto simp: d_def list_all_iff)
  note ok = queue_ok_start [OF assms(1-3) this]
  have "job_id x = job_id y"
    using queue_okD [OF ok assms(4,5) _ _ assms(6-8)] assms(8) by (auto simp: guarded_def d_def same_scope_def)
  with ok assms(4,5) show ?thesis by (auto simp: queue_ok_def distinct_map dest: inj_onD)
qed


text \<open>Identical work is coalesced. A request for a job made right after the same request, its account ids in any order
  and with repetitions, returns the job of the first one and adds no row.\<close>

theorem identical_request_coalesced:
  assumes "CreateHistoryJob uid t r db = (Inr j, db')" "set ids = set (req_account_ids r)"
  shows "CreateHistoryJob uid' t' (r\<lparr>req_account_ids := ids\<rparr>) db' = (Inr j, db')"
proof -
  have norm_eq: "normal_ids ids = normal_ids (req_account_ids r)"
    unfolding normal_ids_def by (simp add: assms(2) normal_ids_unique [OF assms(2)])
  let ?hit = "\<lambda>n x. job_request x = r\<lparr>req_account_ids := n\<rparr> \<and> active (job_status x)"
  have v: "ValidateHistoryDates (req_from r) (req_to r) = None" "req_source r \<in> {''gateway'', ''flex'', ''xml'', ''schwab'', ''alpaca''}"
    and c: "createHistoryJobTx uid t r db = Inr (j, db')"
    using assms(1) by (auto simp: CreateHistoryJob_def transaction_def split: option.splits if_splits sum.splits)
  from c obtain n where n: "normal_ids (req_account_ids r) = Inr n" by (auto simp: createHistoryJobTx_def rbind_Inr_iff)
  have "createHistoryJobTx uid' t' (r\<lparr>req_account_ids := ids\<rparr>) db' = Inr (j, db')"
  proof (cases "oldest (filter (?hit n) (db_jobs db))")
    case (Some x)
    with c n have "scanHistoryJob (find_job (job_id x) (db_jobs db)) = Inr j" "db' = db"
      by (auto simp: createHistoryJobTx_def rbind_Inr_iff)
    with Some n show ?thesis by (simp add: createHistoryJobTx_def norm_eq)
  next
    case None
    let ?new = "new_job uid t (r\<lparr>req_account_ids := n\<rparr>)"
    from c n None have d: "uid \<notin> job_id ` set (db_jobs db)" "j = history_job.truncate ?new" "db_jobs db' = db_jobs db @ [?new]"
      by (auto simp: createHistoryJobTx_def rbind_Inr_iff Let_def split: if_splits)
    have "?hit n ?new" "job_id ?new = uid" by (simp_all add: new_job_def active_def)
    moreover have "filter (?hit n) (db_jobs db) = []" using None by (simp only: oldest_None)
    moreover have "find_job uid (db_jobs db @ [?new]) = Some ?new"
      using find_job_fresh [of uid "db_jobs db" ?new] d(1) calculation(2) by simp
    ultimately show ?thesis using n d by (simp add: createHistoryJobTx_def norm_eq oldest_def scanHistoryJob_def)
  qed
  then show ?thesis using v by (simp add: CreateHistoryJob_def transaction_def)
qed

text \<open>C17: The work of a worker that stopped is taken up again. If a job's lease is over and no other job of its scope
  is live, a claim succeeds, at the latest with this job: the job that is claimed was queued no later, its lease
  generation and its attempts are one higher than before, and it is live at the instant of the claim.\<close>

theorem expired_lease_is_recovered:
  assumes "owner \<noteq> []" "distinct (map job_id (db_jobs db))" "r \<in> set (db_jobs db)"
    and "job_status r = ''running''" "job_lease_until r < nowRFC3339 t"
    and "\<forall>x\<in>set (db_jobs db). job_id x \<noteq> job_id r \<and> same_scope x r \<longrightarrow> \<not> live (nowRFC3339 t) x"
    and "four_digit (day_of t)" "four_digit (day_of (t + minutes 2))"
  shows "\<exists>j db' x. ClaimHistoryJob owner t db = (Inr j, db') \<and> x \<in> set (db_jobs db) \<and> job_id j = job_id x \<and>
     job_created_at x \<le> job_created_at r \<and> job_lease_generation j = job_lease_generation x + 1 \<and> job_attempt j = job_attempt x + 1 \<and>
     (\<exists>y\<in>set (db_jobs db'). job_id y = job_id x \<and> live (nowRFC3339 t) y)"
proof -
  have "claimable (nowRFC3339 t) (db_jobs db) r" using assms(4-6) by (auto simp: claimable_def)
  then have r: "r \<in> set (filter (claimable (nowRFC3339 t) (db_jobs db)) (db_jobs db))" using assms(3) by simp
  then have "oldest (filter (claimable (nowRFC3339 t) (db_jobs db)) (db_jobs db)) \<noteq> None"
    unfolding oldest_None by (metis empty_iff list.set(1))
  then obtain x where x: "oldest (filter (claimable (nowRFC3339 t) (db_jobs db)) (db_jobs db)) = Some x" by blast
  have m: "x \<in> set (db_jobs db)" "job_created_at x \<le> job_created_at r"
    using oldest_Some [OF x] r by auto
  let ?rows = "update_job (job_id x) (claimed owner t) (db_jobs db)"
  have f: "find_job (job_id x) ?rows = Some (claimed owner t x)"
    by (simp add: find_job_update find_job_distinct [OF assms(2) m(1)])
  have c: "fst (ClaimHistoryJob owner t db) = Inr (history_job.truncate (claimed owner t x))"
    "db_jobs (snd (ClaimHistoryJob owner t db)) = ?rows"
    using assms(1) x f by (simp_all add: ClaimHistoryJob_def Let_def scanHistoryJob_def)
  have "second_of t < second_of (t + minutes 2)" by (simp add: second_of_def minutes_def ns_per_second_def)
  then have "live (nowRFC3339 t) (claimed owner t x)"
    unfolding live_def nowRFC3339_def claimed_def using stamp_order(2) [OF assms(7,8)] by simp
  moreover have "claimed owner t x \<in> set ?rows" using m(1) by (auto simp: update_job_def image_iff)
  ultimately have "\<exists>y\<in>set ?rows. job_id y = job_id x \<and> live (nowRFC3339 t) y"
    by (intro bexI [of _ "claimed owner t x"]) simp_all
  with c m show ?thesis
    by (intro exI [of _ "history_job.truncate (claimed owner t x)"] exI [of _ "snd (ClaimHistoryJob owner t db)"] exI [of _ x])
      (auto simp: prod_eq_iff history_job.truncate_def claimed_def)
qed

section \<open>A run of the queue\<close>

text \<open>Two gateway requests of one connection, claimed by two workers; the first worker stops and its job is claimed again after
  its lease.\<close>

definition example_db :: history_db where
  "example_db = \<lparr>db_jobs = [], db_imports = [], db_accounts = [], db_connections = [1], db_account_connections = [],
     db_raw = [], db_observations = [], db_coverage = []\<rparr>"

definition example_job_request :: "int list \<Rightarrow> history_request" where
  "example_job_request ids = \<lparr>req_use_query_period = False, req_account_ids = ids, req_connection_id = 1, req_source = ''gateway'',
     req_from = ''2024-01-01'', req_to = ''2024-01-31'', req_import_id = []\<rparr>"

definition example_start :: instant where
  "example_start = 1700000000 * ns_per_second"

definition example_ops :: "(instant \<times> job_op) list" where
  "example_ops = [(example_start, OpCreate ''a'' (example_job_request [2, 1])),
     (example_start, OpCreate ''b'' (example_job_request [3])),
     (example_start + minutes 1, OpClaim ''w1''), (example_start + minutes 1, OpClaim ''w2'')]"

definition example_queue :: history_db where
  "example_queue = run_ops example_ops example_db"

lemma example_times:
  "nowRFC3339 (example_start + minutes 2) = ''2023-11-14T22:15:20Z''" "nowRFC3339 (example_start + minutes 4) = ''2023-11-14T22:17:20Z''"
  "four_digit (day_of example_start)" "four_digit (day_of (example_start + minutes 1))" "four_digit (day_of (example_start + minutes 2))"
  "four_digit (day_of (example_start + minutes 4))" "four_digit (day_of (example_start + minutes 4 + minutes 2))"
  by code_simp+

lemma example_queue_rows:
  "map (\<lambda>r. (job_id r, job_status r, job_lease_until r, row_source r, row_connection r)) (db_jobs example_queue) =
     [(''a'', ''running'', ''2023-11-14T22:16:20Z'', ''gateway'', Some 1), (''b'', ''queued'', [], ''gateway'', Some 1)]"
  by code_simp

theorem one_live_job_per_scope_witness:
  "\<exists>x. x \<in> set (db_jobs example_queue) \<and> live (nowRFC3339 (example_start + minutes 2)) x \<and>
     x = hd (filter (same_scope x) (db_jobs example_queue)) \<and> length (filter (same_scope x) (db_jobs example_queue)) = 2"
proof -
  obtain a b where q: "db_jobs example_queue = [a, b]"
    using example_queue_rows by (auto simp: map_eq_Cons_conv)
  have l: "live (nowRFC3339 (example_start + minutes 2)) a" "row_connection a = Some 1" "same_scope a b"
    using example_queue_rows by (simp_all add: q live_def example_times same_scope_def)
  have "sorted (map fst example_ops @ [example_start + minutes 2])"
    "list_all (\<lambda>t. four_digit (day_of t)) (map fst example_ops @ [example_start + minutes 2])"
    by (simp_all add: example_ops_def example_times) (simp_all add: minutes_def ns_per_second_def)
  note s = this
  let ?y = "hd (filter (same_scope a) (db_jobs example_queue))"
  have y: "?y = a" by (simp add: q same_scope_def)
  have "a = x" if "x = a" for x
    by (rule one_live_job_per_scope [of example_db example_ops "example_start + minutes 2" a x, folded example_queue_def,
          OF _ s _ _ l(1) _ _ disjI1])
      (simp_all only: that q l example_db_def history_db.simps list.set insert_iff simp_thms same_scope_def option.distinct option.simps)
  from this [OF y] have "a = ?y" .
  with l q show ?thesis by (intro exI [of _ a]) (auto simp: same_scope_def)
qed

definition example_waiting :: history_db where
  "example_waiting = example_db\<lparr>db_jobs := [new_job ''a'' example_start (example_job_request [1, 2])]\<rparr>"

lemma example_claims:
  "map_sum id job_id (fst (ClaimHistoryJob ''w1'' (example_start + minutes 1) example_waiting)) = Inr ''a''"
  "map_sum id job_id (fst (ClaimHistoryJob ''w3'' (example_start + minutes 4) (snd (ClaimHistoryJob ''w1'' (example_start + minutes 1) example_waiting)))) = Inr ''a''"
  by code_simp+

lemma claimed_job: "map_sum id job_id (fst c) = Inr i \<Longrightarrow> \<exists>j db. c = (Inr j, db) \<and> job_id j = i"
  by (cases c; cases "fst c") auto


theorem identical_request_coalesced_witness:
  "\<exists>j db. CreateHistoryJob ''a'' example_start (example_job_request [2, 1]) example_db = (Inr j, db) \<and>
     CreateHistoryJob ''z'' (example_start + minutes 1) (example_job_request [1, 2, 1]) db = (Inr j, db) \<and> job_id j = ''a''"
proof -
  have "map_sum id job_id (fst (CreateHistoryJob ''a'' example_start (example_job_request [2, 1]) example_db)) = Inr ''a''"
    by code_simp
  then obtain j db where j: "CreateHistoryJob ''a'' example_start (example_job_request [2, 1]) example_db = (Inr j, db)" "job_id j = ''a''"
    using claimed_job by blast
  have "(example_job_request [2, 1])\<lparr>req_account_ids := [1, 2, 1]\<rparr> = example_job_request [1, 2, 1]"
    by (simp add: example_job_request_def)
  with identical_request_coalesced [OF j(1), of "[1, 2, 1]"] j show ?thesis by (auto simp: example_job_request_def)
qed

theorem expired_lease_is_recovered_witness:
  "\<exists>j db'. ClaimHistoryJob ''w3'' (example_start + minutes 4) example_queue = (Inr j, db') \<and> 0 < length (db_jobs db')"
proof -
  obtain a b where q: "db_jobs example_queue = [a, b]"
    using example_queue_rows by (auto simp: map_eq_Cons_conv)
  have "\<exists>j db' x. ClaimHistoryJob ''w3'' (example_start + minutes 4) example_queue = (Inr j, db') \<and> x \<in> set (db_jobs example_queue) \<and> job_id j = job_id x \<and>
     job_created_at x \<le> job_created_at a \<and> job_lease_generation j = job_lease_generation x + 1 \<and> job_attempt j = job_attempt x + 1 \<and>
     (\<exists>y\<in>set (db_jobs db'). job_id y = job_id x \<and> live (nowRFC3339 (example_start + minutes 4)) y)"
    by (rule expired_lease_is_recovered)
      (use example_queue_rows in \<open>simp_all add: q example_times live_def\<close>)
  then show ?thesis by (metis length_pos_if_in_set)
qed

end
