(* ===== verification/Instruments.thy ===== *)
theory Instruments
  imports History_Jobs
begin

text \<open>
  Instrument identities (\<open>internal/store/instruments.go\<close>): the canonical key of a tradable asset, and how the
  evidence of a provider is resolved to the one row that stands for it.

  The three tables are a record. A statement of SQL is a function on them; the number of a new row is an argument,
  the answer of the database, and one that is already in use violates the primary key.
\<close>

section \<open>Data\<close>

record instrument_identity =
  ii_preserve_broker_identity :: bool
  ii_provider_code :: string
  ii_external_id :: string
  ii_asset_type :: string
  ii_market :: string
  ii_symbol :: string
  ii_name :: string
  ii_exchange :: string
  ii_currency :: string

record instrument_row =
  ir_id :: int
  ir_asset_type :: string
  ir_market :: string
  ir_symbol :: string
  ir_normalized_symbol :: string
  ir_name :: string
  ir_currency :: string
  ir_status :: string
  ir_created_at :: string
  ir_updated_at :: string

record broker_instrument =
  bi_provider_code :: string
  bi_external_id :: string
  bi_instrument_id :: int
  bi_broker_symbol :: string
  bi_broker_exchange :: string
  bi_last_seen_at :: string

record instrument_db =
  idb_providers :: "string list"
  idb_instruments :: "instrument_row list"
  idb_mappings :: "broker_instrument list"

abbreviation InstrumentStatusActive :: string where "InstrumentStatusActive \<equiv> ''active''"

section \<open>Normal forms\<close>

text \<open>\<open>strings.Fields\<close>: the words between the runs of white space; the first argument is the word that is open, reversed.\<close>

function fields_from :: "string \<Rightarrow> string \<Rightarrow> string list" where
  "fields_from w s =
     (case s of [] \<Rightarrow> (if w = [] then [] else [rev w])
      | c # s' \<Rightarrow> (case find (\<lambda>p. p \<noteq> [] \<and> prefix p s) space_runes of
          None \<Rightarrow> fields_from (c # w) s'
        | Some p \<Rightarrow> (if w = [] then [] else [rev w]) @ fields_from [] (drop (length p) s)))"
  by pat_completeness auto
termination
proof (relation "measure (\<lambda>(w, s). length s)")
  fix s c s' p
  assume "s = c # s'" "find (\<lambda>p. p \<noteq> [] \<and> prefix p s) space_runes = Some p"
  then have "p \<noteq> []" "s \<noteq> []" by (auto simp: find_Some_iff)
  then show "(([], drop (length p) s), (w, s)) \<in> measure (\<lambda>(w, s). length s)" for w by (cases p; cases s) auto
qed auto

declare fields_from.simps [simp del]

definition string_fields :: "string \<Rightarrow> string list" where
  "string_fields s = fields_from [] s"

definition NormalizeInstrumentSymbol :: "string \<Rightarrow> string" where
  "NormalizeInstrumentSymbol symbol =
     (let s = map (\<lambda>c. if c = CHR ''/'' then CHR ''.'' else c) (to_upper (trim_space symbol)) in join ''.'' (string_fields s))"

definition normalizeInstrumentAssetType :: "string \<Rightarrow> string" where
  "normalizeInstrumentAssetType value = (let v = to_upper (trim_space value) in
     if v \<in> {[], ''SECURITY'', ''EQUITY'', ''US_EQUITY'', ''STOCK'', ''STK''} then ''stock''
     else if v \<in> {''OPTION'', ''OPTION_CONTRACT'', ''OPT''} then ''option''
     else if v = ''ETF'' then ''etf''
     else if v \<in> {''MUTUAL_FUND'', ''MUTUALFUND'', ''FUND''} then ''mutual_fund''
     else if v \<in> {''FIXED_INCOME'', ''BOND''} then ''bond''
     else if v \<in> {''FUT'', ''FUTURE''} then ''future''
     else if v \<in> {''CRYPTO'', ''CRYPTOCURRENCY''} then ''crypto''
     else to_lower (trim_space value))"

definition normalizeInstrumentMarket :: "string \<Rightarrow> string \<Rightarrow> string \<Rightarrow> string" where
  "normalizeInstrumentMarket market exchange currency = (let market = to_upper (trim_space market) in
     if market \<noteq> [] then market
     else if to_upper (trim_space exchange) \<in> {''NASDAQ'', ''NYSE'', ''NYSEARCA'', ''ARCA'', ''AMEX'', ''BATS'', ''IEX''} then ''US''
     else if equal_fold (trim_space currency) ''USD'' then ''US''
     else if currency \<noteq> [] then to_upper (trim_space currency)
     else ''UNKNOWN'')"

definition normalizeInstrumentIdentity :: "instrument_identity \<Rightarrow> instrument_identity result" where
  "normalizeInstrumentIdentity i =
     (let provider = to_upper (trim_space (ii_provider_code i)); ext = trim_space (ii_external_id i);
          symbol = NormalizeInstrumentSymbol (ii_symbol i); exchange = to_upper (trim_space (ii_exchange i));
          currency = to_upper (trim_space (ii_currency i))
      in if symbol = [] then Inl ''instrument symbol is required''
         else if provider = [] \<and> ext \<noteq> [] then Inl ''provider code is required with external ID''
         else Inr (i\<lparr>ii_provider_code := provider, ii_external_id := ext, ii_symbol := symbol, ii_name := trim_space (ii_name i),
           ii_exchange := exchange, ii_currency := currency, ii_asset_type := normalizeInstrumentAssetType (ii_asset_type i),
           ii_market := normalizeInstrumentMarket (ii_market i) exchange currency\<rparr>))"

section \<open>Resolution\<close>

text \<open>The database's own stamp.\<close>

definition current_timestamp :: "instant \<Rightarrow> string" where
  "current_timestamp t = map (\<lambda>c. if c = CHR ''T'' then CHR '' '' else c) (second_text t)"

definition getInstrumentByBrokerIdentityTx :: "string \<Rightarrow> string \<Rightarrow> instrument_db \<Rightarrow> instrument_row option" where
  "getInstrumentByBrokerIdentityTx provider ext db =
     (case find (\<lambda>m. bi_provider_code m = provider \<and> bi_external_id m = ext) (idb_mappings db) of
        None \<Rightarrow> None | Some m \<Rightarrow> find (\<lambda>r. ir_id r = bi_instrument_id m) (idb_instruments db))"

definition canonical_row :: "string \<Rightarrow> string \<Rightarrow> string \<Rightarrow> instrument_row \<Rightarrow> bool" where
  "canonical_row asset market symbol r \<longleftrightarrow> ir_asset_type r = asset \<and> ir_market r = market \<and> ir_normalized_symbol r = symbol"

definition getInstrumentByCanonicalKeyTx :: "string \<Rightarrow> string \<Rightarrow> string \<Rightarrow> instrument_db \<Rightarrow> instrument_row result" where
  "getInstrumentByCanonicalKeyTx asset market symbol db =
     from_option ErrNotFound (find (canonical_row asset market symbol) (idb_instruments db))"

text \<open>A name or a currency that is missing is filled in, one that is there stays.\<close>

definition complete_row :: "instant \<Rightarrow> instrument_identity \<Rightarrow> instrument_row \<Rightarrow> instrument_row" where
  "complete_row t i r = r\<lparr>ir_name := (if ir_name r = [] then ii_name i else ir_name r),
     ir_currency := (if ir_currency r = [] then ii_currency i else ir_currency r), ir_updated_at := current_timestamp t\<rparr>"

definition keeps_mapping :: "instrument_identity \<Rightarrow> instrument_row \<Rightarrow> bool" where
  "keeps_mapping i r \<longleftrightarrow> ii_provider_code i = ''IBKR'' \<and> ii_preserve_broker_identity i
     \<or> ir_asset_type r = ii_asset_type i \<and> ir_market r = ii_market i"

definition touch_mapping :: "instant \<Rightarrow> instrument_identity \<Rightarrow> int \<Rightarrow> instrument_db \<Rightarrow> instrument_db" where
  "touch_mapping t i n db = db\<lparr>
     idb_instruments := map (\<lambda>r. if ir_id r = n then complete_row t i r else r) (idb_instruments db),
     idb_mappings := map (\<lambda>m. if bi_provider_code m = ii_provider_code i \<and> bi_external_id m = ii_external_id i
       then m\<lparr>bi_broker_symbol := ii_symbol i, bi_broker_exchange := ii_exchange i, bi_last_seen_at := nowRFC3339 t\<rparr> else m) (idb_mappings db)\<rparr>"

definition upsert_instrument :: "int \<Rightarrow> instant \<Rightarrow> instrument_identity \<Rightarrow> instrument_row list \<Rightarrow> instrument_row list result" where
  "upsert_instrument n t i rows = (let hit = canonical_row (ii_asset_type i) (ii_market i) (ii_symbol i) in
     if \<exists>r\<in>set rows. hit r then Inr (map (\<lambda>r. if hit r then complete_row t i r else r) rows)
     else if n \<in> ir_id ` set rows then Inl ErrConstraint
     else Inr (rows @ [\<lparr>ir_id = n, ir_asset_type = ii_asset_type i, ir_market = ii_market i, ir_symbol = ii_symbol i,
       ir_normalized_symbol = ii_symbol i, ir_name = ii_name i, ir_currency = ii_currency i, ir_status = InstrumentStatusActive,
       ir_created_at = current_timestamp t, ir_updated_at = current_timestamp t\<rparr>]))"

definition upsert_mapping :: "instant \<Rightarrow> instrument_identity \<Rightarrow> int \<Rightarrow> broker_instrument list \<Rightarrow> broker_instrument list" where
  "upsert_mapping t i n rows = (let hit = (\<lambda>m. bi_provider_code m = ii_provider_code i \<and> bi_external_id m = ii_external_id i);
       row = \<lparr>bi_provider_code = ii_provider_code i, bi_external_id = ii_external_id i, bi_instrument_id = n,
         bi_broker_symbol = ii_symbol i, bi_broker_exchange = ii_exchange i, bi_last_seen_at = nowRFC3339 t\<rparr>
     in if \<exists>m\<in>set rows. hit m then map (\<lambda>m. if hit m then row else m) rows else rows @ [row])"

definition resolve_canonical :: "int \<Rightarrow> instant \<Rightarrow> instrument_identity \<Rightarrow> instrument_db \<Rightarrow> (instrument_row \<times> instrument_db) result" where
  "resolve_canonical n t i db =
     rbind (upsert_instrument n t i (idb_instruments db)) (\<lambda>rows.
     let db = db\<lparr>idb_instruments := rows\<rparr> in
     rbind (getInstrumentByCanonicalKeyTx (ii_asset_type i) (ii_market i) (ii_symbol i) db) (\<lambda>r.
     if ii_provider_code i \<noteq> [] \<and> ii_external_id i \<noteq> [] then
       rbind (require (ii_provider_code i \<in> set (idb_providers db)) ErrReference) (\<lambda>_.
       Inr (r, db\<lparr>idb_mappings := upsert_mapping t i (ir_id r) (idb_mappings db)\<rparr>))
     else Inr (r, db)))"

definition resolveInstrumentTx :: "int \<Rightarrow> instant \<Rightarrow> instrument_identity \<Rightarrow> instrument_db \<Rightarrow> (instrument_row \<times> instrument_db) result" where
  "resolveInstrumentTx n t i db = rbind (normalizeInstrumentIdentity i) (\<lambda>i.
     case (if ii_provider_code i \<noteq> [] \<and> ii_external_id i \<noteq> []
           then getInstrumentByBrokerIdentityTx (ii_provider_code i) (ii_external_id i) db else None) of
       Some r \<Rightarrow> (if keeps_mapping i r then Inr (r, touch_mapping t i (ir_id r) db) else resolve_canonical n t i db)
     | None \<Rightarrow> resolve_canonical n t i db)"

definition ResolveInstrument :: "int \<Rightarrow> instant \<Rightarrow> instrument_identity \<Rightarrow> (instrument_db, instrument_row) call" where
  "ResolveInstrument n t i db = (case normalizeInstrumentIdentity i of
     Inl e \<Rightarrow> (Inl e, db) | Inr i \<Rightarrow> transaction (resolveInstrumentTx n t i) db)"

definition GetInstrument :: "int \<Rightarrow> instrument_db \<Rightarrow> instrument_row result" where
  "GetInstrument n db = from_option ErrNotFound (find (\<lambda>r. ir_id r = n) (idb_instruments db))"

definition ListInstruments :: "instrument_db \<Rightarrow> instrument_row list" where
  "ListInstruments db = sort_key ir_market (sort_key ir_symbol (sort_key ir_id (idb_instruments db)))"

section \<open>One row per asset\<close>

abbreviation canonical_key :: "instrument_row \<Rightarrow> string \<times> string \<times> string" where
  "canonical_key r \<equiv> (ir_asset_type r, ir_market r, ir_normalized_symbol r)"

abbreviation mapping_key :: "broker_instrument \<Rightarrow> string \<times> string" where
  "mapping_key m \<equiv> (bi_provider_code m, bi_external_id m)"

text \<open>What the keys of the tables promise.\<close>

definition instruments_ok :: "instrument_db \<Rightarrow> bool" where
  "instruments_ok db \<longleftrightarrow> distinct (map ir_id (idb_instruments db)) \<and> distinct (map canonical_key (idb_instruments db))
     \<and> distinct (map mapping_key (idb_mappings db)) \<and> bi_instrument_id ` set (idb_mappings db) \<subseteq> ir_id ` set (idb_instruments db)"

abbreviation instrument_ids :: "instrument_db \<Rightarrow> int list" where
  "instrument_ids db \<equiv> map ir_id (idb_instruments db)"

lemma canonical_row_key: "canonical_row a m s r \<longleftrightarrow> canonical_key r = (a, m, s)"
  by (simp add: canonical_row_def)

lemma find_by_key:
  assumes "distinct (map k xs)" "x \<in> set xs"
  shows "find (\<lambda>y. k y = k x) xs = Some x"
  using assms by (induction xs) (auto simp: image_iff)

lemma same_key: "distinct (map k xs) \<Longrightarrow> x \<in> set xs \<Longrightarrow> y \<in> set xs \<Longrightarrow> k x = k y \<Longrightarrow> x = y"
  by (auto simp: distinct_map dest: inj_onD)

lemma find_by_key_None: "find (\<lambda>y. k y = v) xs = None \<longleftrightarrow> v \<notin> k ` set xs"
  by (auto simp: find_None_iff)

lemma find_by_keyD: "find (\<lambda>y. k y = v) xs = Some x \<Longrightarrow> x \<in> set xs \<and> k x = v"
  by (auto simp: find_Some_iff)

lemma map_update_keys:
  assumes "\<And>x. k (f x) = k x"
  shows "map k (map (\<lambda>x. if P x then f x else x) xs) = map k xs"
  using assms by (induction xs) auto

lemma complete_row_simps [simp]:
  "ir_id (complete_row t i r) = ir_id r" "ir_asset_type (complete_row t i r) = ir_asset_type r"
  "ir_market (complete_row t i r) = ir_market r" "ir_normalized_symbol (complete_row t i r) = ir_normalized_symbol r"
  by (simp_all add: complete_row_def)

lemma touch_mapping_keys:
  "map ir_id (idb_instruments (touch_mapping t i n db)) = map ir_id (idb_instruments db)"
  "map canonical_key (idb_instruments (touch_mapping t i n db)) = map canonical_key (idb_instruments db)"
  "map mapping_key (idb_mappings (touch_mapping t i n db)) = map mapping_key (idb_mappings db)"
  "map bi_instrument_id (idb_mappings (touch_mapping t i n db)) = map bi_instrument_id (idb_mappings db)"
  "idb_providers (touch_mapping t i n db) = idb_providers db"
  by (auto simp: touch_mapping_def)

lemma touch_mapping_ok: "instruments_ok db \<Longrightarrow> instruments_ok (touch_mapping t i n db)"
  unfolding instruments_ok_def touch_mapping_keys set_map [symmetric] by simp

lemma upsert_instrument_Inr:
  assumes "upsert_instrument n t i rows = Inr rows'" "distinct (map ir_id rows)" "distinct (map canonical_key rows)"
  shows "distinct (map ir_id rows') \<and> distinct (map canonical_key rows') \<and> set (map ir_id rows) \<subseteq> set (map ir_id rows')
    \<and> (\<exists>r\<in>set rows'. canonical_row (ii_asset_type i) (ii_market i) (ii_symbol i) r)
    \<and> ((\<exists>r\<in>set rows. canonical_row (ii_asset_type i) (ii_market i) (ii_symbol i) r) \<longrightarrow> map ir_id rows' = map ir_id rows)
    \<and> set (map ir_id rows') \<subseteq> insert n (set (map ir_id rows))"
proof (cases "\<exists>r\<in>set rows. canonical_row (ii_asset_type i) (ii_market i) (ii_symbol i) r")
  case True
  define rs where "rs = map (\<lambda>r. if canonical_row (ii_asset_type i) (ii_market i) (ii_symbol i) r then complete_row t i r else r) rows"
  have k: "map ir_id rs = map ir_id rows" "map canonical_key rs = map canonical_key rows"
    unfolding rs_def by (rule map_update_keys, simp)+
  have "rows' = rs" using assms(1) True by (simp add: upsert_instrument_def rs_def)
  moreover have "\<exists>r\<in>set rs. canonical_row (ii_asset_type i) (ii_market i) (ii_symbol i) r"
    using True arg_cong [OF k(2), of set] unfolding canonical_row_key by (metis (no_types, lifting) imageE imageI set_map)
  ultimately show ?thesis using assms(2,3) k arg_cong [OF k(1), of set] by auto
next
  case False
  then obtain r where r: "rows' = rows @ [r]" "ir_id r = n" "canonical_row (ii_asset_type i) (ii_market i) (ii_symbol i) r" "n \<notin> ir_id ` set rows"
    using assms(1) by (auto simp: upsert_instrument_def canonical_row_def split: if_splits)
  have "canonical_key r \<notin> canonical_key ` set rows" using r(3) False unfolding canonical_row_key by force
  with False r assms(2,3) show ?thesis by auto
qed

lemma upsert_mapping_ok:
  assumes "distinct (map mapping_key ms)"
  shows "distinct (map mapping_key (upsert_mapping t i n ms)) \<and>
    bi_instrument_id ` set (upsert_mapping t i n ms) \<subseteq> insert n (bi_instrument_id ` set ms) \<and>
    (\<exists>m\<in>set (upsert_mapping t i n ms). mapping_key m = (ii_provider_code i, ii_external_id i) \<and> bi_instrument_id m = n)"
proof (cases "\<exists>m\<in>set ms. bi_provider_code m = ii_provider_code i \<and> bi_external_id m = ii_external_id i")
  case True
  define row where "row = \<lparr>bi_provider_code = ii_provider_code i, bi_external_id = ii_external_id i, bi_instrument_id = n,
         bi_broker_symbol = ii_symbol i, bi_broker_exchange = ii_exchange i, bi_last_seen_at = nowRFC3339 t\<rparr>"
  define f where "f m = (if bi_provider_code m = ii_provider_code i \<and> bi_external_id m = ii_external_id i then row else m)" for m
  have u: "upsert_mapping t i n ms = map f ms" using True by (simp add: upsert_mapping_def row_def f_def)
  have k: "mapping_key (f m) = mapping_key m" for m by (simp add: f_def row_def)
  then have "map mapping_key (map f ms) = map mapping_key ms" by simp
  moreover have "bi_instrument_id ` set (map f ms) \<subseteq> insert n (bi_instrument_id ` set ms)" by (auto simp: f_def row_def)
  moreover from True obtain m where "m \<in> set ms" "f m = row" by (auto simp: f_def)
  then have "row \<in> set (map f ms)" by force
  then have "\<exists>m\<in>set (map f ms). mapping_key m = (ii_provider_code i, ii_external_id i) \<and> bi_instrument_id m = n"
    by (rule bexI [rotated]) (simp add: row_def)
  ultimately show ?thesis using assms unfolding u by metis
next
  case False
  then have u: "upsert_mapping t i n ms = ms @ [\<lparr>bi_provider_code = ii_provider_code i, bi_external_id = ii_external_id i,
      bi_instrument_id = n, bi_broker_symbol = ii_symbol i, bi_broker_exchange = ii_exchange i, bi_last_seen_at = nowRFC3339 t\<rparr>]"
    by (simp add: upsert_mapping_def Let_def)
  show ?thesis unfolding u using assms False by auto
qed

lemma resolve_canonical_Inr:
  assumes "resolve_canonical n t i db = Inr (r, db')" "instruments_ok db"
  shows "instruments_ok db' \<and> r \<in> set (idb_instruments db') \<and> canonical_row (ii_asset_type i) (ii_market i) (ii_symbol i) r
    \<and> set (instrument_ids db) \<subseteq> set (instrument_ids db') \<and> set (instrument_ids db') \<subseteq> insert n (set (instrument_ids db))
    \<and> (ii_provider_code i \<noteq> [] \<and> ii_external_id i \<noteq> [] \<longrightarrow>
        (\<exists>m\<in>set (idb_mappings db'). mapping_key m = (ii_provider_code i, ii_external_id i) \<and> bi_instrument_id m = ir_id r))"
proof -
  obtain rows where u: "upsert_instrument n t i (idb_instruments db) = Inr rows"
    and g: "find (canonical_row (ii_asset_type i) (ii_market i) (ii_symbol i)) rows = Some r"
    and d: "db' = (if ii_provider_code i \<noteq> [] \<and> ii_external_id i \<noteq> []
      then db\<lparr>idb_instruments := rows, idb_mappings := upsert_mapping t i (ir_id r) (idb_mappings db)\<rparr> else db\<lparr>idb_instruments := rows\<rparr>)"
    using assms(1) by (auto simp: resolve_canonical_def rbind_Inr_iff getInstrumentByCanonicalKeyTx_def Let_def split: if_splits)
  note o = assms(2) [unfolded instruments_ok_def]
  note ur = upsert_instrument_Inr [OF u] and um = upsert_mapping_ok [of "idb_mappings db" t i "ir_id r"]
  have r: "r \<in> set rows" "canonical_row (ii_asset_type i) (ii_market i) (ii_symbol i) r" using g by (auto simp: find_Some_iff)
  have d2: "idb_instruments db' = rows" "idb_mappings db' = (if ii_provider_code i \<noteq> [] \<and> ii_external_id i \<noteq> []
      then upsert_mapping t i (ir_id r) (idb_mappings db) else idb_mappings db)" by (simp_all add: d)
  have k: "distinct (map ir_id rows)" "distinct (map canonical_key rows)" "set (instrument_ids db) \<subseteq> set (map ir_id rows)"
    using ur o by blast+
  have "bi_instrument_id ` set (idb_mappings db') \<subseteq> insert (ir_id r) (bi_instrument_id ` set (idb_mappings db))"
    using um o by (cases "ii_provider_code i \<noteq> [] \<and> ii_external_id i \<noteq> []") (simp_all add: d2(2) subset_insertI)
  moreover have s: "bi_instrument_id ` set (idb_mappings db) \<subseteq> ir_id ` set rows"
    using order.trans [of _ "set (instrument_ids db)" "set (map ir_id rows)"] k(3) o by simp
  then have "insert (ir_id r) (bi_instrument_id ` set (idb_mappings db)) \<subseteq> ir_id ` set rows" using r(1) by simp
  ultimately have "bi_instrument_id ` set (idb_mappings db') \<subseteq> ir_id ` set rows" by (rule order.trans)
  moreover have "distinct (map mapping_key (idb_mappings db'))" using um o by (simp add: d2(2))
  ultimately have "instruments_ok db'" using k(1,2) unfolding instruments_ok_def d2(1) by blast
  then show ?thesis using ur um o r unfolding d by auto
qed

lemma mapped_instrument:
  assumes "instruments_ok db" "m \<in> set (idb_mappings db)" "mapping_key m = (p, e)"
  shows "\<exists>r\<in>set (idb_instruments db). ir_id r = bi_instrument_id m \<and> getInstrumentByBrokerIdentityTx p e db = Some r"
proof -
  have f: "find (\<lambda>x. bi_provider_code x = p \<and> bi_external_id x = e) (idb_mappings db) = Some m"
    using find_by_key [of mapping_key "idb_mappings db" m] assms by (simp add: instruments_ok_def)
  obtain r where r: "r \<in> set (idb_instruments db)" "ir_id r = bi_instrument_id m" using assms(1,2) by (auto simp: instruments_ok_def)
  have "find (\<lambda>x. ir_id x = ir_id r) (idb_instruments db) = Some r"
    using assms(1) r(1) by (intro find_by_key) (simp add: instruments_ok_def)
  with f r show ?thesis by (intro bexI [of _ r]) (simp_all add: getInstrumentByBrokerIdentityTx_def)
qed

lemma lookup_mapping:
  assumes "getInstrumentByBrokerIdentityTx p e db = Some r"
  shows "r \<in> set (idb_instruments db) \<and> (\<exists>m\<in>set (idb_mappings db). mapping_key m = (p, e) \<and> bi_instrument_id m = ir_id r)"
  using assms by (auto simp: getInstrumentByBrokerIdentityTx_def find_Some_iff split: option.splits)

text \<open>The two ways in which an identity is resolved.\<close>

lemma resolve_cases:
  assumes "resolveInstrumentTx n t i db = Inr (r, db')"
  obtains j where "normalizeInstrumentIdentity i = Inr j" "ii_provider_code j \<noteq> []" "ii_external_id j \<noteq> []"
      "getInstrumentByBrokerIdentityTx (ii_provider_code j) (ii_external_id j) db = Some r" "keeps_mapping j r"
      "db' = touch_mapping t j (ir_id r) db"
    | j where "normalizeInstrumentIdentity i = Inr j" "resolve_canonical n t j db = Inr (r, db')"
proof -
  obtain j where j: "normalizeInstrumentIdentity i = Inr j" and
    b: "(case (if ii_provider_code j \<noteq> [] \<and> ii_external_id j \<noteq> []
           then getInstrumentByBrokerIdentityTx (ii_provider_code j) (ii_external_id j) db else None) of
       Some r \<Rightarrow> (if keeps_mapping j r then Inr (r, touch_mapping t j (ir_id r) db) else resolve_canonical n t j db)
     | None \<Rightarrow> resolve_canonical n t j db) = Inr (r, db')"
    using assms unfolding resolveInstrumentTx_def rbind_Inr_iff by blast
  show thesis
  proof (cases "if ii_provider_code j \<noteq> [] \<and> ii_external_id j \<noteq> []
           then getInstrumentByBrokerIdentityTx (ii_provider_code j) (ii_external_id j) db else None")
    case None
    then show thesis using b by (intro that(2) [OF j]) simp
  next
    case (Some r0)
    show thesis
    proof (cases "keeps_mapping j r0")
      case True
      with b Some have "r = r0" "db' = touch_mapping t j (ir_id r) db" by auto
      with Some True show thesis by (intro that(1) [OF j]) (simp_all split: if_splits)
    next
      case False
      with b Some show thesis by (intro that(2) [OF j]) simp
    qed
  qed
qed

lemma resolve_kept:
  assumes "normalizeInstrumentIdentity i = Inr j" "ii_provider_code j \<noteq> []" "ii_external_id j \<noteq> []"
    "getInstrumentByBrokerIdentityTx (ii_provider_code j) (ii_external_id j) db = Some r" "keeps_mapping j r"
  shows "resolveInstrumentTx n t i db = Inr (r, touch_mapping t j (ir_id r) db)"
  using assms by (simp add: resolveInstrumentTx_def)

lemma resolve_same_key:
  assumes "normalizeInstrumentIdentity i = Inr j" "ii_provider_code j = [] \<or> ii_external_id j = []" "instruments_ok db"
    "r \<in> set (idb_instruments db)" "canonical_row (ii_asset_type j) (ii_market j) (ii_symbol j) r"
  shows "\<exists>r' db'. resolveInstrumentTx n t i db = Inr (r', db') \<and> ir_id r' = ir_id r \<and> instrument_ids db' = instrument_ids db"
proof -
  define hit where "hit = canonical_row (ii_asset_type j) (ii_market j) (ii_symbol j)"
  define rows where "rows = map (\<lambda>r. if hit r then complete_row t j r else r) (idb_instruments db)"
  have k: "map canonical_key rows = map canonical_key (idb_instruments db)" "map ir_id rows = instrument_ids db"
    unfolding rows_def by (rule map_update_keys, simp)+
  have h: "hit (complete_row t j r)" using assms(5) by (simp add: hit_def canonical_row_def)
  have m: "complete_row t j r \<in> set rows" using assms(4,5) by (force simp: rows_def hit_def)
  have "find (\<lambda>x. canonical_key x = canonical_key (complete_row t j r)) rows = Some (complete_row t j r)"
    using assms(3) k m by (intro find_by_key) (simp_all add: instruments_ok_def)
  moreover have "hit = (\<lambda>x. canonical_key x = canonical_key (complete_row t j r))"
    using h unfolding hit_def canonical_row_key by (intro ext) auto
  ultimately have f: "find hit rows = Some (complete_row t j r)" by simp
  have "upsert_instrument n t j (idb_instruments db) = Inr rows"
    using assms(4,5) by (auto simp: upsert_instrument_def rows_def hit_def Let_def)
  then have "resolve_canonical n t j db = Inr (complete_row t j r, db\<lparr>idb_instruments := rows\<rparr>)"
    using f assms(2) by (auto simp: resolve_canonical_def getInstrumentByCanonicalKeyTx_def from_option_def hit_def)
  then show ?thesis using assms(1,2) k(2) by (auto simp: resolveInstrumentTx_def)
qed

text \<open>C20: An asset is one row. Resolving an identity keeps the keys of the three tables, loses no instrument and adds at most one,
  and answers with a row of the table; the same identity resolved again, whenever and with whatever number the database would
  give a new row, finds that instrument again and adds none.\<close>

theorem resolve_instrument_stable:
  assumes "resolveInstrumentTx n t i db = Inr (r, db')" "instruments_ok db"
  shows "instruments_ok db' \<and> ir_id r \<in> set (instrument_ids db') \<and>
    set (instrument_ids db) \<subseteq> set (instrument_ids db') \<and> set (instrument_ids db') \<subseteq> insert n (set (instrument_ids db)) \<and>
    (\<exists>r' db''. resolveInstrumentTx m u i db' = Inr (r', db'') \<and> ir_id r' = ir_id r \<and> instrument_ids db'' = instrument_ids db')"
  using assms(1)
proof (cases rule: resolve_cases)
  case (1 j)
  have l: "r \<in> set (idb_instruments db)" using lookup_mapping [OF 1(4)] by simp
  obtain x where x: "x \<in> set (idb_mappings db)" "mapping_key x = (ii_provider_code j, ii_external_id j)" "bi_instrument_id x = ir_id r"
    using lookup_mapping [OF 1(4)] by blast
  have ok: "instruments_ok db'" using touch_mapping_ok [OF assms(2)] 1(6) by simp
  have ids: "instrument_ids db' = instrument_ids db" by (simp add: 1(6) touch_mapping_keys)
  define x' where "x' = x\<lparr>bi_broker_symbol := ii_symbol j, bi_broker_exchange := ii_exchange j, bi_last_seen_at := nowRFC3339 t\<rparr>"
  have "x' \<in> set (idb_mappings db')" using x(1,2) by (force simp: 1(6) touch_mapping_def x'_def)
  moreover have "mapping_key x' = (ii_provider_code j, ii_external_id j)" "bi_instrument_id x' = ir_id r" using x by (simp_all add: x'_def)
  ultimately obtain r' where r': "r' \<in> set (idb_instruments db')" "ir_id r' = ir_id r"
    "getInstrumentByBrokerIdentityTx (ii_provider_code j) (ii_external_id j) db' = Some r'"
    using mapped_instrument [OF ok] by metis
  have c: "complete_row t j r \<in> set (idb_instruments db')" using l by (force simp: 1(6) touch_mapping_def)
  have "r' = complete_row t j r" using ok r'(2) by (intro same_key [of ir_id, OF _ r'(1) c]) (simp_all add: instruments_ok_def)
  then have "keeps_mapping j r'" using 1(5) by (simp add: keeps_mapping_def)
  from resolve_kept [OF 1(1-3) r'(3) this, of m u] r'(2) ids ok l
  show ?thesis by (force simp: touch_mapping_keys)
next
  case (2 j)
  note c = resolve_canonical_Inr [OF 2(2) assms(2)]
  then have ok: "instruments_ok db'" and r: "r \<in> set (idb_instruments db')" "canonical_row (ii_asset_type j) (ii_market j) (ii_symbol j) r"
    by simp_all
  have "\<exists>r' db''. resolveInstrumentTx m u i db' = Inr (r', db'') \<and> ir_id r' = ir_id r \<and> instrument_ids db'' = instrument_ids db'"
  proof (cases "ii_provider_code j = [] \<or> ii_external_id j = []")
    case True
    then show ?thesis by (rule resolve_same_key [OF 2(1) _ ok r])
  next
    case False
    with c obtain x where x: "x \<in> set (idb_mappings db')" "mapping_key x = (ii_provider_code j, ii_external_id j)" "bi_instrument_id x = ir_id r"
      by blast
    from mapped_instrument [OF ok x(1,2)] obtain r' where r': "r' \<in> set (idb_instruments db')" "ir_id r' = ir_id r"
      "getInstrumentByBrokerIdentityTx (ii_provider_code j) (ii_external_id j) db' = Some r'" using x(3) by auto
    have "r' = r" using ok by (intro same_key [OF _ r'(1) r(1) r'(2)]) (simp add: instruments_ok_def)
    then have "keeps_mapping j r'" using r(2) by (simp add: keeps_mapping_def canonical_row_def)
    from resolve_kept [OF 2(1) _ _ r'(3) this, of m u] False r'(2) show ?thesis by (simp add: touch_mapping_keys)
  qed
  with c r(1) show ?thesis by simp
qed

definition example_identity :: instrument_identity where
  "example_identity = \<lparr>ii_preserve_broker_identity = True, ii_provider_code = ''ibkr'', ii_external_id = '' 42 '', ii_asset_type = ''STK'',
     ii_market = [], ii_symbol = ''brk/b'', ii_name = [], ii_exchange = ''nyse'', ii_currency = ''usd''\<rparr>"

definition example_instruments :: instrument_db where
  "example_instruments = \<lparr>idb_providers = [''IBKR''], idb_instruments = [], idb_mappings = []\<rparr>"

lemma example_resolved:
  "map_sum id (\<lambda>(r, db). (ir_id r, canonical_key r, instrument_ids db)) (resolveInstrumentTx 7 0 example_identity example_instruments) =
     Inr (7, (''stock'', ''US'', ''BRK.B''), [7])"
  by code_simp

theorem resolve_instrument_stable_witness:
  "\<exists>r db r' db'. resolveInstrumentTx 7 0 example_identity example_instruments = Inr (r, db) \<and> canonical_key r = (''stock'', ''US'', ''BRK.B'') \<and>
     resolveInstrumentTx 8 1 example_identity db = Inr (r', db') \<and> ir_id r' = 7 \<and> instrument_ids db' = [7]"
proof -
  obtain r db where r: "resolveInstrumentTx 7 0 example_identity example_instruments = Inr (r, db)" "ir_id r = 7"
    "canonical_key r = (''stock'', ''US'', ''BRK.B'')" "instrument_ids db = [7]"
    using example_resolved by (cases "resolveInstrumentTx 7 0 example_identity example_instruments") auto
  have "instruments_ok example_instruments" by (simp add: instruments_ok_def example_instruments_def)
  from resolve_instrument_stable [OF r(1) this, of 8 1] r show ?thesis by auto
qed

end
