(* ===== verification/History_Ledger.thy ===== *)
theory History_Ledger
  imports Instruments Calculator
begin

text \<open>
  The ledger of activities (\<open>normalizeHistoryRecord\<close> in \<open>internal/store/activity_records.go\<close>,
  \<open>activity_transfer_cost.go\<close>, the rebuild marks of \<open>performance.go\<close>): how one stored raw record becomes a new
  activity, a new revision of one, or further evidence of one.

  The tables extend those of the job queue. The keys of the rows that one call may insert are the argument
  \<open>ids\<close>, the answers of the UUID generator and of the database; a key already in use violates its primary key.
  Records come out of a column of JSON, so their texts are UTF-8; the payload column of a revision holds the value
  that was encoded, and two values are compared as the code does, by their JSON.
\<close>

section \<open>Tables\<close>

record activity_row =
  ar_id :: string
  ar_account :: int
  ar_current :: int
  ar_created_at :: string

record revision_row =
  rv_id :: string
  rv_activity :: string
  rv_no :: int
  rv_type :: string
  rv_status :: string
  rv_booking :: string
  rv_sort_key :: string
  rv_payload :: activity
  rv_priority :: int
  rv_source_updated_at :: string
  rv_rule_version :: string
  rv_created_at :: string

record leg_row =
  lr_id :: string
  lr_revision :: string
  lr_ordinal :: nat
  lr_kind :: string
  lr_component :: string
  lr_instrument :: "int option"
  lr_currency :: "string option"
  lr_quantity :: "string option"
  lr_cash :: "string option"
  lr_effective :: string
  lr_settlement :: string

record identity_row =
  ix_account :: int
  ix_namespace :: string
  ix_kind :: string
  ix_external_id :: string
  ix_activity :: string

record source_row =
  sr_revision :: string
  sr_raw :: string
  sr_role :: string
  sr_match :: string

record link_row =
  lk_id :: string
  lk_from :: string
  lk_to :: string
  lk_relation :: string
  lk_created_by :: int
  lk_created_at :: string

record order_row =
  bo_id :: string
  bo_account :: int
  bo_namespace :: string
  bo_external_id :: string
  bo_payload :: string

record fill_row =
  bf_revision :: string
  bf_order :: "string option"
  bf_execution_id :: string
  bf_quantity :: string
  bf_price :: "string option"
  bf_multiplier :: "string option"
  bf_payload :: fill

record cost_row =
  ca_id :: string
  ca_revision :: string
  ca_instrument :: "int option"
  ca_currency :: string
  ca_delta :: "string option"
  ca_before :: "string option"
  ca_after :: "string option"
  ca_method :: string
  ca_evidence :: string

text \<open>What an issue says. The column holds the value that was encoded: a revision that no order decides, with the number that was
  current and the activity that was proposed; the warnings of an activity; two snapshots and a balance between them.\<close>

datatype issue_details =
    Revision_Conflict int activity "string list"
  | Review_Warnings "string list"
  | Balance_Mismatch string string difference

record issue_row =
  is_id :: string
  is_account :: int
  is_activity :: "string option"
  is_raw :: "string option"
  is_type :: string
  is_status :: string
  is_details :: issue_details
  is_resolution :: string
  is_created_at :: string
  is_updated_at :: string

record dirty_row =
  dt_account :: int
  dt_from :: string
  dt_updated_at :: string

record ledger_db = history_db +
  db_activities :: "activity_row list"
  db_revisions :: "revision_row list"
  db_legs :: "leg_row list"
  db_identities :: "identity_row list"
  db_sources :: "source_row list"
  db_links :: "link_row list"
  db_orders :: "order_row list"
  db_fills :: "fill_row list"
  db_costs :: "cost_row list"
  db_issues :: "issue_row list"
  db_instruments :: instrument_db
  db_dirty :: "dirty_row list"

record fresh_ids =
  ni_activity :: string
  ni_revision :: string
  ni_leg :: "nat \<Rightarrow> string"
  ni_order :: string
  ni_cost :: "nat \<Rightarrow> string"
  ni_conflict :: string
  ni_issue :: string
  ni_instrument :: "nat \<Rightarrow> int"

abbreviation ErrNoRows :: string where "ErrNoRows \<equiv> ''sql: no rows in result set''"
abbreviation ErrCheck :: string where "ErrCheck \<equiv> ''CHECK constraint failed''"

definition acceptedRevisionSourcePriority :: int where
  "acceptedRevisionSourcePriority = 100"

section \<open>JSON\<close>

definition historyNullable :: "string \<Rightarrow> string option" where
  "historyNullable s = (if s = [] then None else Some s)"

definition json_strings :: "string list \<Rightarrow> string" where
  "json_strings xs = json_array (map json_quote xs)"

definition leg_json :: "leg \<Rightarrow> string" where
  "leg_json l = json_object [
     (''instrument_id'', omit_zero (leg_instrument_id l)), (''symbol'', omit_empty (leg_symbol l)),
     (''asset_type'', omit_empty (leg_asset_type l)), (''external_instrument_id'', omit_empty (leg_external_instrument_id l)),
     (''kind'', Some (json_quote (leg_kind l))), (''component'', Some (json_quote (leg_component l))),
     (''currency'', omit_empty (leg_currency l)), (''quantity_delta'', omit_empty (leg_quantity_delta l)),
     (''cash_delta'', omit_empty (leg_cash_delta l)), (''effective_date'', omit_empty (leg_effective_date l)),
     (''settlement_date'', omit_empty (leg_settlement_date l))]"

definition legs_json :: "leg list \<Rightarrow> string" where
  "legs_json ls = json_array (map leg_json ls)"

definition fill_json :: "fill \<Rightarrow> string" where
  "fill_json f = json_object [
     (''execution_id'', omit_empty (fill_execution_id f)), (''order_id'', omit_empty (fill_order_id f)),
     (''side'', Some (json_quote (fill_side f))), (''open_close'', omit_empty (fill_open_close f)),
     (''quantity'', Some (json_quote (fill_quantity f))), (''price'', omit_empty (fill_price f)),
     (''price_currency'', omit_empty (fill_price_currency f)), (''multiplier'', omit_empty (fill_multiplier f)),
     (''exchange'', omit_empty (fill_exchange f)), (''reported_net_cash'', omit_empty (fill_reported_net_cash f)),
     (''reported_realized_pnl'', omit_empty (fill_reported_realized_pnl f))]"

definition source_json :: "source \<Rightarrow> string" where
  "source_json s = json_object [
     (''raw_record_id'', omit_empty (src_raw_record_id s)), (''source'', Some (json_quote (src_source s))),
     (''namespace'', Some (json_quote (src_namespace s))), (''key'', Some (json_quote (src_key s))),
     (''role'', Some (json_quote (src_role s))), (''match_method'', omit_empty (src_match_method s))]"

definition link_json :: "link \<Rightarrow> string" where
  "link_json l = json_object [
     (''from_activity_id'', Some (json_quote (link_from_activity_id l))), (''to_activity_id'', Some (json_quote (link_to_activity_id l))),
     (''relation_type'', Some (json_quote (link_relation_type l))), (''status'', Some (json_quote (link_status l)))]"

definition activity_json :: "activity \<Rightarrow> string" where
  "activity_json a = json_object [
     (''id'', Some (json_quote (act_id a))), (''account_id'', Some (int_str (act_account_id a))),
     (''provider'', Some (json_quote (act_provider a))), (''provider_account_id'', Some (json_quote (act_provider_account_id a))),
     (''type'', Some (json_quote (act_type a))), (''subtype'', omit_empty (act_subtype a)),
     (''status'', Some (json_quote (act_status a))), (''booking_status'', Some (json_quote (act_booking_status a))),
     (''description'', Some (json_quote (act_description a))), (''trade_date'', omit_empty (act_trade_date a)),
     (''settlement_date'', omit_empty (act_settlement_date a)), (''occurred_at'', omit_empty (act_occurred_at a)),
     (''source_timezone'', omit_empty (act_source_timezone a)), (''time_precision'', Some (json_quote (act_time_precision a))),
     (''revision'', Some (int_str (act_revision a))), (''legs'', Some (legs_json (act_legs a))),
     (''fill'', map_option fill_json (act_fill a)), (''sources'', Some (json_array (map source_json (act_sources a)))),
     (''links'', if act_links a = [] then None else Some (json_array (map link_json (act_links a)))),
     (''cash_effects_by_currency'', Some (json_object (map (\<lambda>(k, v). (k, Some (json_quote v))) (sort_key fst (act_cash_effects a))))),
     (''warnings'', Some (json_strings (act_warnings a))),
     (''cost_adjustments'', if act_cost_adjustments a = [] then None else Some (cost_json (act_cost_adjustments a)))]"

section \<open>From the raw record to an activity\<close>

definition warn :: "string \<Rightarrow> activity \<Rightarrow> activity" where
  "warn w a = a\<lparr>act_status := StatusNeedsReview, act_warnings := act_warnings a @ [w]\<rparr>"

definition leg_identity :: "string \<Rightarrow> leg \<Rightarrow> instrument_identity" where
  "leg_identity provider l = \<lparr>ii_preserve_broker_identity = True, ii_provider_code = provider, ii_external_id = leg_external_instrument_id l,
     ii_asset_type = leg_asset_type l, ii_market = [], ii_symbol = leg_symbol l, ii_name = [], ii_exchange = [], ii_currency = leg_currency l\<rparr>"

text \<open>One leg: a position leg gets the instrument of its symbol. The legs done so far are those of the activity.\<close>

definition resolve_leg :: "fresh_ids \<Rightarrow> instant \<Rightarrow> string \<Rightarrow> activity \<times> instrument_db \<Rightarrow> nat \<times> leg \<Rightarrow> (activity \<times> instrument_db) result" where
  "resolve_leg ids t provider = (\<lambda>(a, db) (i, l).
     if leg_kind l \<noteq> ''position'' then Inr (a\<lparr>act_legs := act_legs a @ [l]\<rparr>, db)
     else if leg_symbol l = [] then Inr (warn ''instrument_identity_unresolved'' (a\<lparr>act_legs := act_legs a @ [l]\<rparr>), db)
     else rbind (resolveInstrumentTx (ni_instrument ids i) t (leg_identity provider l) db) (\<lambda>(r, db).
       Inr (a\<lparr>act_legs := act_legs a @ [l\<lparr>leg_instrument_id := ir_id r\<rparr>]\<rparr>, db)))"

definition resolved_leg :: "leg \<Rightarrow> bool" where
  "resolved_leg l \<longleftrightarrow> leg_kind l \<noteq> ''position'' \<or> 0 < leg_instrument_id l"

definition resolve_legs :: "fresh_ids \<Rightarrow> instant \<Rightarrow> string \<Rightarrow> activity \<Rightarrow> instrument_db \<Rightarrow> (activity \<times> instrument_db) result" where
  "resolve_legs ids t provider a db =
     rbind (rfold (resolve_leg ids t provider) (a\<lparr>act_legs := []\<rparr>, db) (List.enumerate 0 (act_legs a))) (\<lambda>(a, db).
       Inr (a\<lparr>act_legs := filter resolved_leg (act_legs a)\<rparr>, db))"

definition cost_instrument :: "leg list \<Rightarrow> cost_adjustment \<Rightarrow> cost_adjustment" where
  "cost_instrument legs c = (case find (\<lambda>l. leg_kind l = ''position'' \<and> leg_external_instrument_id l = cost_external_instrument_id c) legs of
     Some l \<Rightarrow> c\<lparr>cost_instrument_id := leg_instrument_id l\<rparr> | None \<Rightarrow> c)"

definition resolve_costs :: "activity \<Rightarrow> activity" where
  "resolve_costs a = (let cs = map (cost_instrument (act_legs a)) (act_cost_adjustments a)
     in if \<exists>c\<in>set cs. cost_instrument_id c = 0 then (warn ''cost_instrument_unresolved'' a)\<lparr>act_cost_adjustments := []\<rparr>
        else a\<lparr>act_cost_adjustments := cs\<rparr>)"

text \<open>What is kept of an activity that is not valid: no effects, and only dates that are dates.\<close>

definition quarantined :: "activity \<Rightarrow> activity" where
  "quarantined a = (let a = warn ''record_validation_failed'' a;
     a = a\<lparr>act_legs := [], act_cash_effects := [], act_fill := None, act_cost_adjustments := []\<rparr>;
     a = (if act_type a = [] then a\<lparr>act_type := ''unknown''\<rparr> else a);
     a = (if act_booking_status a \<noteq> BookingBooked \<and> act_booking_status a \<noteq> BookingProvisional
          then a\<lparr>act_booking_status := BookingProvisional\<rparr> else a);
     a = (if ValidateDate (act_trade_date a) \<noteq> None then a\<lparr>act_trade_date := []\<rparr> else a);
     a = (if ValidateDate (act_settlement_date a) \<noteq> None then a\<lparr>act_settlement_date := []\<rparr> else a)
   in a\<lparr>act_occurred_at := [], act_time_precision := ''unknown''\<rparr>)"

definition validated :: "activity \<Rightarrow> activity result" where
  "validated a = (case validate_activity a of
       (b, None) \<Rightarrow> Inr b
     | (b, Some _) \<Rightarrow> (case validate_activity (quarantined b) of
         (c, None) \<Rightarrow> Inr c | (c, Some e) \<Rightarrow> Inl (''history_quarantine_invalid: '' @ e)))"

definition derive_activity :: "fresh_ids \<Rightarrow> instant \<Rightarrow> int \<Rightarrow> raw_record \<Rightarrow> instrument_db \<Rightarrow> (activity \<times> instrument_db) result" where
  "derive_activity ids t acc r db = rbind (historyRecordProvider r) (\<lambda>provider.
     let a = (raw_activity r)\<lparr>act_account_id := acc, act_provider := provider, act_provider_account_id := raw_provider_account_id r\<rparr> in
     rbind (resolve_legs ids t provider a db) (\<lambda>(a, db). rbind (validated (resolve_costs a)) (\<lambda>a. Inr (a, db))))"

section \<open>Identity and priority\<close>

definition record_identities :: "raw_record \<Rightarrow> identity list" where
  "record_identities r =
     \<lparr>idn_namespace = raw_namespace r, idn_kind = raw_record_type r, idn_external_id = raw_key r\<rparr> # raw_identities r"

definition identity_hit :: "int \<Rightarrow> identity \<Rightarrow> identity_row \<Rightarrow> bool" where
  "identity_hit acc k x \<longleftrightarrow> ix_account x = acc \<and> ix_namespace x = idn_namespace k \<and> ix_kind x = idn_kind k
     \<and> ix_external_id x = idn_external_id k"

definition match_identity :: "int \<Rightarrow> identity_row list \<Rightarrow> string \<times> string \<Rightarrow> identity \<Rightarrow> (string \<times> string) result" where
  "match_identity acc rows = (\<lambda>(i, match) k.
     if idn_external_id k = [] then Inr (i, match)
     else case find (identity_hit acc k) rows of
         None \<Rightarrow> Inr (i, match)
       | Some x \<Rightarrow> if i \<noteq> [] \<and> i \<noteq> ix_activity x then Inl ''history_identity_conflict'' else Inr (ix_activity x, ''external_id''))"

definition find_activity :: "int \<Rightarrow> raw_record \<Rightarrow> 'a ledger_db_scheme \<Rightarrow> (string \<times> string) result" where
  "find_activity acc r db = rfold (match_identity acc (db_identities db)) ([], ''source_identity'') (record_identities r)"

definition source_priority :: "string \<Rightarrow> int" where
  "source_priority src = (if src = ''flex'' \<or> src = ''xml'' \<or> sublist ''flex'' src then 30 else 10)"

definition current_revision :: "string \<Rightarrow> 'a ledger_db_scheme \<Rightarrow> revision_row option" where
  "current_revision i db = (case find (\<lambda>x. ar_id x = i) (db_activities db) of None \<Rightarrow> None
     | Some x \<Rightarrow> find (\<lambda>v. rv_activity v = i \<and> rv_no v = ar_current x) (db_revisions db))"

definition count_rows :: "('a \<Rightarrow> bool) \<Rightarrow> 'a list \<Rightarrow> nat" where
  "count_rows P xs = length (filter P xs)"

text \<open>The revision that is current before the record, none for an activity that is new.\<close>

definition revision_no :: "revision_row option \<Rightarrow> int" where
  "revision_no old = (case old of None \<Rightarrow> 0 | Some v \<Rightarrow> rv_no v)"

definition previous_revision :: "string \<Rightarrow> 'a ledger_db_scheme \<Rightarrow> revision_row option result" where
  "previous_revision i db = (if i = [] then Inr None
     else rbind (from_option ErrNoRows (current_revision i db)) (\<lambda>v. Inr (Some v)))"

definition source_newer :: "string \<Rightarrow> string \<Rightarrow> bool" where
  "source_newer new old = (case parse_rfc3339 new of None \<Rightarrow> False
     | Some next \<Rightarrow> (case parse_rfc3339 old of None \<Rightarrow> False | Some prev \<Rightarrow> prev < next))"

definition same_content :: "activity \<Rightarrow> activity \<Rightarrow> bool" where
  "same_content a old \<longleftrightarrow> activity_json (a\<lparr>act_revision := act_revision old, act_sources := act_sources old\<rparr>) = activity_json old"

definition transferCostOnlyEnrichment :: "activity \<Rightarrow> activity \<Rightarrow> bool" where
  "transferCostOnlyEnrichment old next =
     (if act_type old \<noteq> ''security_transfer'' \<or> act_status old \<noteq> StatusEffective \<or> act_cost_adjustments old \<noteq> []
        \<or> act_cost_adjustments next = [] then False
      else if \<exists>c\<in>set (act_cost_adjustments next). cost_allocation_method c \<noteq> ''reported_transfer_lots'' \<or> cost_basis_delta c = []
        \<or> cost_evidence c = [] then False
      else let next = next\<lparr>act_revision := act_revision old, act_sources := act_sources old, act_cost_adjustments := []\<rparr>;
             old = old\<lparr>act_warnings := filter (\<lambda>w. w \<noteq> ''transferred_cost_basis_unknown'') (act_warnings old)\<rparr>
        in activity_json old = activity_json next)"

text \<open>The upgrade of the rules applies to a revision that this record alone is the principal source of.\<close>

definition rule_upgrade :: "string \<Rightarrow> revision_row option \<Rightarrow> 'a ledger_db_scheme \<Rightarrow> bool" where
  "rule_upgrade raw old db = (case old of None \<Rightarrow> False | Some v \<Rightarrow>
     0 < rv_no v \<and> rv_rule_version v \<noteq> RuleVersion \<and> rv_priority v < acceptedRevisionSourcePriority
     \<and> count_rows (\<lambda>s. sr_revision s = rv_id v \<and> sr_raw s = raw \<and> sr_role s = ''principal'') (db_sources db) = 1)"

definition manual_duplicate :: "string \<Rightarrow> 'a ledger_db_scheme \<Rightarrow> bool" where
  "manual_duplicate i db \<longleftrightarrow> (\<exists>l\<in>set (db_links db). lk_from l = i \<and> lk_relation l = ''duplicate_of'')"

text \<open>Whether the record replaces the revision \<open>v\<close>, and whether the two conflict without an order between them.\<close>

definition first_verdict :: "revision_row \<Rightarrow> activity \<Rightarrow> string \<Rightarrow> int \<Rightarrow> bool \<times> bool" where
  "first_verdict v a updated priority =
     (let newer = source_newer updated (rv_source_updated_at v); oldTime = rv_source_updated_at v; accepted = rv_priority v = acceptedRevisionSourcePriority
      in (rv_no v = 0 \<or> rv_priority v < priority \<or> priority = rv_priority v \<and> newer,
          0 < rv_no v \<and> (priority = rv_priority v \<and> \<not> newer \<or> accepted \<and> 30 \<le> priority) \<and> \<not> same_content a (rv_payload v)
          \<and> (oldTime = [] \<or> updated = [] \<or> oldTime = updated \<or> accepted \<and> newer)))"

definition ledger_verdict :: "revision_row option \<Rightarrow> activity \<Rightarrow> string \<Rightarrow> int \<Rightarrow> bool \<Rightarrow> bool \<Rightarrow> bool \<times> bool" where
  "ledger_verdict old a updated priority manual upgrade = (case old of None \<Rightarrow> (True, False) | Some v \<Rightarrow>
     let (replace, conflict) = first_verdict v a updated priority;
         (replace, conflict) = (if 0 < rv_no v \<and> rv_priority v \<noteq> acceptedRevisionSourcePriority \<and> rv_priority v \<le> priority
             \<and> transferCostOnlyEnrichment (rv_payload v) a then (True, False) else (replace, conflict));
         (replace, conflict) = (if 0 < rv_no v then if manual then (False, False) else if upgrade then (True, False) else (replace, conflict)
             else (replace, conflict))
     in (if 0 < rv_no v \<and> replace \<and> same_content a (rv_payload v) then False else replace, conflict))"

section \<open>Lookalikes\<close>

definition fingerprint :: "activity \<Rightarrow> string" where
  "fingerprint a = historyHash (legs_json (act_legs a) @ act_trade_date a @ act_type a)"

text \<open>The other activities of the account whose current revision has the type, the date and the legs of \<open>a\<close>.\<close>

definition lookalike :: "int \<Rightarrow> string \<Rightarrow> activity \<Rightarrow> activity_row \<Rightarrow> revision_row \<Rightarrow> bool" where
  "lookalike acc i a x v = (if ar_account x = acc \<and> ar_id x \<noteq> i \<and> rv_activity v = ar_id x \<and> rv_no v = ar_current x \<and> rv_type v = act_type a
       \<and> prefix (act_trade_date a) (rv_sort_key v)
     then fingerprint (rv_payload v) = fingerprint a else False)"

definition lookalikes :: "int \<Rightarrow> string \<Rightarrow> activity \<Rightarrow> 'a ledger_db_scheme \<Rightarrow> string list" where
  "lookalikes acc i a db = concat (map (\<lambda>x. map (\<lambda>_. ar_id x) (filter (lookalike acc i a x) (db_revisions db))) (db_activities db))"

definition source_family :: "string \<Rightarrow> string" where
  "source_family src = (if src = ''xml'' then ''flex'' else src)"

definition cross_source :: "string \<Rightarrow> string \<Rightarrow> 'a ledger_db_scheme \<Rightarrow> bool" where
  "cross_source family c db \<longleftrightarrow> (\<exists>x\<in>set (db_sources db). \<exists>v\<in>set (db_revisions db). \<exists>r\<in>set (db_raw db).
     rv_id v = sr_revision x \<and> rr_id r = sr_raw x \<and> rv_activity v = c \<and> sr_role x = ''principal'' \<and> source_family (rr_source r) \<noteq> family)"

definition comparable_ids :: "raw_record \<Rightarrow> string \<Rightarrow> 'a ledger_db_scheme \<Rightarrow> bool" where
  "comparable_ids r c db \<longleftrightarrow> (\<exists>k\<in>set (raw_identities r). \<exists>x\<in>set (db_identities db).
     ix_activity x = c \<and> ix_namespace x = idn_namespace k \<and> ix_kind x = idn_kind k)"

definition ambiguous_duplicate :: "int \<Rightarrow> string \<Rightarrow> activity \<Rightarrow> raw_record \<Rightarrow> 'a ledger_db_scheme \<Rightarrow> bool" where
  "ambiguous_duplicate acc i a r db = (let candidates = lookalikes acc i a db;
       weak = (\<exists>c\<in>set candidates. cross_source (source_family (raw_source r)) c db \<and> \<not> comparable_ids r c db)
     in candidates \<noteq> [] \<and> (raw_identities r = [] \<or> weak))"

section \<open>Booking a revision\<close>

text \<open>The status under which a record enters the ledger.\<close>

definition screened :: "int \<Rightarrow> string \<Rightarrow> revision_row option \<Rightarrow> raw_record \<Rightarrow> 'a ledger_db_scheme \<Rightarrow> activity \<Rightarrow> activity" where
  "screened acc i old r db a =
     (if revision_no old = 0 \<and> act_status a = StatusEffective \<and> ambiguous_duplicate acc i a r db then warn ''ambiguous_duplicate'' a else a)"

definition revision_of :: "fresh_ids \<Rightarrow> instant \<Rightarrow> raw_record \<Rightarrow> activity \<Rightarrow> revision_row" where
  "revision_of ids t r a = \<lparr>rv_id = ni_revision ids, rv_activity = act_id a, rv_no = act_revision a, rv_type = act_type a,
     rv_status = act_status a, rv_booking = act_booking_status a, rv_sort_key = act_trade_date a @ ''|'' @ act_occurred_at a,
     rv_payload = a, rv_priority = source_priority (raw_source r), rv_source_updated_at = raw_source_updated_at r,
     rv_rule_version = RuleVersion, rv_created_at = nowRFC3339 t\<rparr>"

definition insert_revision :: "revision_row \<Rightarrow> 'a ledger_db_scheme \<Rightarrow> 'a ledger_db_scheme result" where
  "insert_revision v db =
     (if rv_id v \<in> rv_id ` set (db_revisions db) \<or> (rv_activity v, rv_no v) \<in> (\<lambda>x. (rv_activity x, rv_no x)) ` set (db_revisions db) then Inl ErrConstraint
      else if rv_type v = [] \<or> rv_status v \<notin> {StatusEffective, StatusVoided, StatusNeedsReview, StatusUnsupported}
        \<or> rv_booking v \<notin> {BookingBooked, BookingProvisional} then Inl ErrCheck
      else if rv_activity v \<notin> ar_id ` set (db_activities db) then Inl ErrReference
      else Inr (db\<lparr>db_revisions := db_revisions db @ [v]\<rparr>))"

definition leg_row_of :: "string \<Rightarrow> string \<Rightarrow> nat \<Rightarrow> leg \<Rightarrow> leg_row" where
  "leg_row_of uid revision i l = \<lparr>lr_id = uid, lr_revision = revision, lr_ordinal = i, lr_kind = leg_kind l, lr_component = leg_component l,
     lr_instrument = historyInt (leg_instrument_id l), lr_currency = historyNullable (leg_currency l), lr_quantity = historyNullable (leg_quantity_delta l),
     lr_cash = historyNullable (leg_cash_delta l), lr_effective = leg_effective_date l, lr_settlement = leg_settlement_date l\<rparr>"

definition leg_row_check :: "leg_row \<Rightarrow> bool" where
  "leg_row_check l \<longleftrightarrow> lr_kind l = ''cash'' \<and> lr_currency l \<noteq> None \<and> lr_cash l \<noteq> None \<and> lr_quantity l = None
     \<or> lr_kind l = ''position'' \<and> lr_instrument l \<noteq> None \<and> lr_quantity l \<noteq> None \<and> lr_cash l = None"

definition known_instrument :: "int option \<Rightarrow> 'a ledger_db_scheme \<Rightarrow> bool" where
  "known_instrument n db \<longleftrightarrow> (case n of None \<Rightarrow> True | Some n \<Rightarrow> n \<in> set (instrument_ids (db_instruments db)))"

definition insert_leg :: "fresh_ids \<Rightarrow> 'a ledger_db_scheme \<Rightarrow> nat \<times> leg \<Rightarrow> 'a ledger_db_scheme result" where
  "insert_leg ids db = (\<lambda>(i, l). let row = leg_row_of (ni_leg ids i) (ni_revision ids) i l in
     if lr_id row \<in> lr_id ` set (db_legs db) \<or> (lr_revision row, lr_ordinal row) \<in> (\<lambda>x. (lr_revision x, lr_ordinal x)) ` set (db_legs db) then Inl ErrConstraint
     else if \<not> leg_row_check row then Inl ErrCheck
     else if \<not> known_instrument (lr_instrument row) db then Inl ErrReference
     else Inr (db\<lparr>db_legs := db_legs db @ [row]\<rparr>))"

text \<open>The order a fill belongs to, inserted when it is new.\<close>

definition fill_order :: "fresh_ids \<Rightarrow> int \<Rightarrow> string \<Rightarrow> 'a ledger_db_scheme \<Rightarrow> (string option \<times> 'a ledger_db_scheme) result" where
  "fill_order ids acc oid db = (if oid = [] then Inr (None, db)
     else let hit = (\<lambda>x. bo_account x = acc \<and> bo_namespace x = ''ibkr.order'' \<and> bo_external_id x = oid) in
       rbind (if \<exists>x\<in>set (db_orders db). hit x then Inr (db_orders db)
              else if ni_order ids \<in> bo_id ` set (db_orders db) then Inl ErrConstraint
              else Inr (db_orders db @ [\<lparr>bo_id = ni_order ids, bo_account = acc, bo_namespace = ''ibkr.order'', bo_external_id = oid,
                bo_payload = json_object [(''status'', Some (json_quote ''unknown''))]\<rparr>])) (\<lambda>orders.
       rbind (from_option ErrNoRows (find hit orders)) (\<lambda>x. Inr (Some (bo_id x), db\<lparr>db_orders := orders\<rparr>))))"

definition insert_fill :: "fresh_ids \<Rightarrow> int \<Rightarrow> activity \<Rightarrow> 'a ledger_db_scheme \<Rightarrow> 'a ledger_db_scheme result" where
  "insert_fill ids acc a db = (case act_fill a of None \<Rightarrow> Inr db
     | Some f \<Rightarrow> if fill_quantity f = [] then Inr db
         else rbind (fill_order ids acc (fill_order_id f) db) (\<lambda>(oid, db).
           if ni_revision ids \<in> bf_revision ` set (db_fills db) then Inl ErrConstraint
           else Inr (db\<lparr>db_fills := db_fills db @ [\<lparr>bf_revision = ni_revision ids, bf_order = oid, bf_execution_id = fill_execution_id f,
             bf_quantity = fill_quantity f, bf_price = historyNullable (fill_price f), bf_multiplier = historyNullable (fill_multiplier f),
             bf_payload = f\<rparr>]\<rparr>)))"

definition insert_cost :: "fresh_ids \<Rightarrow> 'a ledger_db_scheme \<Rightarrow> nat \<times> cost_adjustment \<Rightarrow> 'a ledger_db_scheme result" where
  "insert_cost ids db = (\<lambda>(i, c).
     if ni_cost ids i \<in> ca_id ` set (db_costs db) then Inl ErrConstraint
     else if \<not> known_instrument (historyInt (cost_instrument_id c)) db then Inl ErrReference
     else Inr (db\<lparr>db_costs := db_costs db @ [\<lparr>ca_id = ni_cost ids i, ca_revision = ni_revision ids, ca_instrument = historyInt (cost_instrument_id c),
       ca_currency = cost_currency c, ca_delta = historyNullable (cost_basis_delta c), ca_before = historyNullable (cost_basis_before c),
       ca_after = historyNullable (cost_basis_after c), ca_method = cost_allocation_method c, ca_evidence = cost_evidence c\<rparr>]\<rparr>))"

text \<open>A source of a revision that is already there is left as it is.\<close>

definition cite_source :: "source_row \<Rightarrow> source_row list \<Rightarrow> source_row list" where
  "cite_source s rows = (if (sr_revision s, sr_raw s) \<in> (\<lambda>x. (sr_revision x, sr_raw x)) ` set rows then rows else rows @ [s])"

definition insert_sources :: "fresh_ids \<Rightarrow> revision_row option \<Rightarrow> string \<Rightarrow> string \<Rightarrow> 'a ledger_db_scheme \<Rightarrow> 'a ledger_db_scheme result" where
  "insert_sources ids old raw match db =
     (if (ni_revision ids, raw) \<in> (\<lambda>x. (sr_revision x, sr_raw x)) ` set (db_sources db) then Inl ErrConstraint
      else let rows = db_sources db @ [\<lparr>sr_revision = ni_revision ids, sr_raw = raw, sr_role = ''principal'', sr_match = match\<rparr>];
             inherited = (case old of None \<Rightarrow> [] | Some v \<Rightarrow> if rv_no v \<le> 0 then [] else
               map (\<lambda>s. s\<lparr>sr_revision := ni_revision ids, sr_role := ''corroboration''\<rparr>) (filter (\<lambda>s. sr_revision s = rv_id v) rows))
        in Inr (db\<lparr>db_sources := foldl (\<lambda>rows s. cite_source s rows) rows inherited\<rparr>))"

section \<open>What a performance series must be rebuilt from\<close>

definition earlier :: "string \<Rightarrow> string \<Rightarrow> string" where
  "earlier earliest date = (if date \<noteq> [] \<and> (earliest = [] \<or> date < earliest) then date else earliest)"

definition earliest_of :: "string \<Rightarrow> activity \<Rightarrow> string" where
  "earliest_of earliest a =
     (let e = foldl (\<lambda>e l. earlier e (if leg_effective_date l = [] then leg_settlement_date l else leg_effective_date l)) earliest (act_legs a);
          e = foldl earlier e [act_settlement_date a, act_trade_date a]
      in if 10 \<le> length (act_occurred_at a) then (let date = take 10 (act_occurred_at a) in if e = [] \<or> date < e then date else e) else e)"

definition earliestPerformanceDate :: "activity list \<Rightarrow> string" where
  "earliestPerformanceDate items = foldl earliest_of [] items"

definition markPerformanceDirtyTx :: "instant \<Rightarrow> int \<Rightarrow> string \<Rightarrow> dirty_row list \<Rightarrow> dirty_row list" where
  "markPerformanceDirtyTx t acc from rows =
     (if from = [] then rows
      else if acc \<in> dt_account ` set rows
      then map (\<lambda>d. if dt_account d = acc then d\<lparr>dt_from := (if from < dt_from d then from else dt_from d), dt_updated_at := nowRFC3339 t\<rparr> else d) rows
      else rows @ [\<lparr>dt_account = acc, dt_from = from, dt_updated_at = nowRFC3339 t\<rparr>])"

section \<open>One record\<close>

definition book_revision :: "fresh_ids \<Rightarrow> instant \<Rightarrow> int \<Rightarrow> string \<Rightarrow> string \<Rightarrow> raw_record \<Rightarrow> revision_row option \<Rightarrow> activity \<Rightarrow>
    'a ledger_db_scheme \<Rightarrow> 'a ledger_db_scheme result" where
  "book_revision ids t acc raw match r old a db =
     (let a = a\<lparr>act_sources := []\<rparr> in
      rbind (insert_revision (revision_of ids t r a) db) (\<lambda>db.
      rbind (rfold (insert_leg ids) db (List.enumerate 0 (act_legs a))) (\<lambda>db.
      rbind (insert_fill ids acc a db) (\<lambda>db.
      rbind (rfold (insert_cost ids) db (List.enumerate 0 (act_cost_adjustments a))) (\<lambda>db.
      rbind (insert_sources ids old raw match db) (\<lambda>db.
      Inr (db\<lparr>db_activities := map (\<lambda>x. if ar_id x = act_id a then x\<lparr>ar_current := act_revision a\<rparr> else x) (db_activities db),
        db_accounts := map (\<lambda>x. if acc_id x = acc then x\<lparr>acc_generation := acc_generation x + 1\<rparr> else x) (db_accounts db),
        db_dirty := markPerformanceDirtyTx t acc (earliestPerformanceDate [case old of None \<Rightarrow> zero_activity | Some v \<Rightarrow> rv_payload v, a]) (db_dirty db)\<rparr>)))))))"

definition open_activity :: "string \<Rightarrow> string \<Rightarrow> instant \<Rightarrow> int \<Rightarrow> 'a ledger_db_scheme \<Rightarrow> (string \<times> 'a ledger_db_scheme) result" where
  "open_activity i uid t acc db =
     (if i \<noteq> [] then Inr (i, db)
      else if uid \<in> ar_id ` set (db_activities db) then Inl ErrConstraint
      else if acc \<notin> acc_id ` set (db_accounts db) then Inl ErrReference
      else Inr (uid, db\<lparr>db_activities := db_activities db @ [\<lparr>ar_id = uid, ar_account = acc, ar_current = 0, ar_created_at = nowRFC3339 t\<rparr>]\<rparr>))"

definition resolve_issues :: "instant \<Rightarrow> string \<Rightarrow> issue_row list \<Rightarrow> issue_row list" where
  "resolve_issues t raw = map (\<lambda>x. if is_raw x = Some raw \<and> is_status x = ''open''
     then x\<lparr>is_status := ''resolved'', is_resolution := ''superseded_by_'' @ RuleVersion, is_updated_at := nowRFC3339 t\<rparr> else x)"

definition add_identity :: "int \<Rightarrow> string \<Rightarrow> identity_row list \<Rightarrow> identity \<Rightarrow> identity_row list" where
  "add_identity acc i rows k = (if idn_external_id k = [] \<or> (\<exists>x\<in>set rows. identity_hit acc k x) then rows
     else rows @ [\<lparr>ix_account = acc, ix_namespace = idn_namespace k, ix_kind = idn_kind k, ix_external_id = idn_external_id k, ix_activity = i\<rparr>])"

definition open_issue :: "string \<Rightarrow> instant \<Rightarrow> int \<Rightarrow> string \<Rightarrow> string \<Rightarrow> string \<Rightarrow> issue_details \<Rightarrow> 'a ledger_db_scheme \<Rightarrow> 'a ledger_db_scheme result" where
  "open_issue uid t acc i raw kind details db =
     (if uid \<in> is_id ` set (db_issues db) then Inl ErrConstraint
      else Inr (db\<lparr>db_issues := db_issues db @ [\<lparr>is_id = uid, is_account = acc, is_activity = Some i, is_raw = Some raw, is_type = kind,
        is_status = ''open'', is_details = details, is_resolution = [], is_created_at = nowRFC3339 t, is_updated_at = nowRFC3339 t\<rparr>]\<rparr>))"

definition conflict_details :: "activity \<Rightarrow> int \<Rightarrow> issue_details" where
  "conflict_details a current = Revision_Conflict current a [''source_revision_order_unknown'']"

definition review_details :: "activity \<Rightarrow> issue_details" where
  "review_details a = Review_Warnings (act_warnings a)"

definition under_review :: "activity \<Rightarrow> bool" where
  "under_review a \<longleftrightarrow> act_status a = StatusNeedsReview \<or> act_status a = StatusUnsupported"

text \<open>The status of the raw record and the result of the observation, before the issues.\<close>

definition plain_outcome :: "revision_row option \<Rightarrow> bool \<Rightarrow> bool \<Rightarrow> activity \<Rightarrow> string \<times> string" where
  "plain_outcome old replace upgrade a =
     (if upgrade \<and> \<not> replace \<and> under_review a then (act_status a, act_status a)
      else (''done'', if \<not> replace then ''duplicate'' else if 0 < revision_no old then ''updated'' else ''added''))"

definition set_outcome :: "string \<Rightarrow> string \<Rightarrow> string \<Rightarrow> observation list \<Rightarrow> observation list" where
  "set_outcome raw job out = map (\<lambda>ob. if ob_raw ob = raw \<and> ob_job ob = job then ob\<lparr>ob_outcome := out\<rparr> else ob)"

definition set_raw_status :: "string \<Rightarrow> string \<Rightarrow> raw_row list \<Rightarrow> raw_row list" where
  "set_raw_status raw st = map (\<lambda>x. if rr_id x = raw then x\<lparr>rr_status := st\<rparr> else x)"

text \<open>The end of the transaction: the identities, the issues, the status and the outcome.\<close>

definition settle_record :: "fresh_ids \<Rightarrow> instant \<Rightarrow> history_job \<Rightarrow> int \<Rightarrow> string \<Rightarrow> raw_record \<Rightarrow> revision_row option \<Rightarrow> activity \<Rightarrow>
    bool \<Rightarrow> bool \<Rightarrow> bool \<Rightarrow> 'a ledger_db_scheme \<Rightarrow> (string \<times> 'a ledger_db_scheme) result" where
  "settle_record ids t j acc raw r old a replace conflict upgrade db =
     (let db = (if upgrade \<and> replace then db\<lparr>db_issues := resolve_issues t raw (db_issues db)\<rparr> else db);
          db = db\<lparr>db_identities := foldl (add_identity acc (act_id a)) (db_identities db) (record_identities r)\<rparr>;
          (status, out) = plain_outcome old replace upgrade a;
          (status, out) = (if conflict then (''needs_review'', ''needs_review'') else (status, out))
      in rbind (if conflict then open_issue (ni_conflict ids) t acc (act_id a) raw ''source_revision_conflict''
             (conflict_details a (case old of None \<Rightarrow> 0 | Some v \<Rightarrow> act_revision (rv_payload v))) db else Inr db) (\<lambda>db.
         let (status, out) = (if replace \<and> under_review a then (act_status a, act_status a) else (status, out)) in
         rbind (if replace \<and> under_review a then open_issue (ni_issue ids) t acc (act_id a) raw status (review_details a) db else Inr db) (\<lambda>db.
         Inr (out, db\<lparr>db_raw := set_raw_status raw status (db_raw db), db_observations := set_outcome raw (job_id j) out (db_observations db)\<rparr>))))"

text \<open>A record that is pending.\<close>

definition book_record :: "fresh_ids \<Rightarrow> instant \<Rightarrow> history_job \<Rightarrow> string \<Rightarrow> int \<Rightarrow> raw_record \<Rightarrow> 'a ledger_db_scheme \<Rightarrow> (string \<times> 'a ledger_db_scheme) result" where
  "book_record ids t j raw acc r db =
     rbind (derive_activity ids t acc r (db_instruments db)) (\<lambda>(a, instruments). let db = db\<lparr>db_instruments := instruments\<rparr> in
     rbind (find_activity acc r db) (\<lambda>(i, match).
     rbind (previous_revision i db) (\<lambda>old.
     let upgrade = rule_upgrade raw old db in
     rbind (open_activity i (ni_activity ids) t acc db) (\<lambda>(i, db).
     let a = a\<lparr>act_id := i, act_revision := revision_no old + 1\<rparr>;
         (replace, conflict) = ledger_verdict old a (raw_source_updated_at r) (source_priority (raw_source r)) (manual_duplicate i db) upgrade;
         a = (if replace then screened acc i old r db a else a)
     in rbind (if replace then book_revision ids t acc raw match r old a db
               else Inr (db\<lparr>db_sources := cite_source \<lparr>sr_revision = (case old of None \<Rightarrow> [] | Some v \<Rightarrow> rv_id v), sr_raw = raw,
                 sr_role = ''corroboration'', sr_match = match\<rparr> (db_sources db)\<rparr>))
          (settle_record ids t j acc raw r old a replace conflict upgrade)))))"

text \<open>The body of the transaction: the outcome that is already there, the status of the stored record, or the record itself.\<close>

definition normalize_record_tx :: "fresh_ids \<Rightarrow> instant \<Rightarrow> history_job \<Rightarrow> string \<Rightarrow> int \<Rightarrow> raw_record \<Rightarrow> 'a ledger_db_scheme \<Rightarrow> (string \<times> 'a ledger_db_scheme) result" where
  "normalize_record_tx ids t j raw acc r db =
     rbind (from_option ErrNoRows (find (\<lambda>x. rr_id x = raw) (db_raw db))) (\<lambda>x.
     rbind (from_option ErrNoRows (find (\<lambda>ob. ob_raw ob = raw \<and> ob_job ob = job_id j) (db_observations db))) (\<lambda>ob.
     if ob_outcome ob \<noteq> [] then Inr (ob_outcome ob, db)
     else if rr_status x \<noteq> ''pending'' then
       let out = (if rr_status x \<in> {''needs_review'', ''unsupported''} then rr_status x else ''duplicate'')
       in Inr (out, db\<lparr>db_observations := set_outcome raw (job_id j) out (db_observations db)\<rparr>)
     else book_record ids t j raw acc r db))"

definition normalizeHistoryRecord :: "fresh_ids \<Rightarrow> instant \<Rightarrow> history_job \<Rightarrow> string \<Rightarrow> int \<Rightarrow> raw_record \<Rightarrow> ('a ledger_db_scheme, string) call" where
  "normalizeHistoryRecord ids t j raw acc r = under_lease t j (normalize_record_tx ids t j raw acc r)"

section \<open>All records of a job\<close>

definition counted :: "string \<Rightarrow> history_counts \<Rightarrow> history_counts" where
  "counted out c =
     (if out = ''added'' then c\<lparr>cnt_added := cnt_added c + 1\<rparr>
      else if out = ''updated'' then c\<lparr>cnt_updated := cnt_updated c + 1\<rparr>
      else if out = ''duplicate'' then c\<lparr>cnt_duplicates := cnt_duplicates c + 1\<rparr>
      else if out = ''unsupported'' then c\<lparr>cnt_unsupported := cnt_unsupported c + 1\<rparr>
      else if out = ''needs_review'' then c\<lparr>cnt_conflicts := cnt_conflicts c + 1\<rparr> else c)"

definition observed_rows :: "string \<Rightarrow> 'a ledger_db_scheme \<Rightarrow> raw_row list" where
  "observed_rows jid db = sort_key rr_source_updated_at (sort_key rr_id
     (filter (\<lambda>r. \<exists>ob\<in>set (db_observations db). ob_raw ob = rr_id r \<and> ob_job ob = jid) (db_raw db)))"

text \<open>Every record is its own transaction; the first error ends the loop with the counts so far.\<close>

fun normalize_rows :: "(nat \<Rightarrow> fresh_ids) \<Rightarrow> (nat \<Rightarrow> instant) \<Rightarrow> history_job \<Rightarrow> nat \<Rightarrow> raw_row list \<Rightarrow> history_counts \<Rightarrow>
    'a ledger_db_scheme \<Rightarrow> (history_counts \<times> string option) \<times> 'a ledger_db_scheme" where
  "normalize_rows ids t j k [] c db = ((c, None), db)"
| "normalize_rows ids t j k (x # rows) c db = (let c = c\<lparr>cnt_records := cnt_records c + 1\<rparr> in
     case normalizeHistoryRecord (ids k) (t k) j (rr_id x) (rr_account x) (rr_normalized x) db of
       (Inl e, db) \<Rightarrow> ((c, Some e), db)
     | (Inr out, db) \<Rightarrow> normalize_rows ids t j (Suc k) rows (counted out c) db)"

definition NormalizeHistoryJob :: "(nat \<Rightarrow> fresh_ids) \<Rightarrow> (nat \<Rightarrow> instant) \<Rightarrow> history_job \<Rightarrow> 'a ledger_db_scheme \<Rightarrow>
    (history_counts \<times> string option) \<times> 'a ledger_db_scheme" where
  "NormalizeHistoryJob ids t j db = normalize_rows ids t j 0 (observed_rows (job_id j) db) zero_counts db"

end
