(* ===== verification/Ledger_Facts.thy ===== *)
theory Ledger_Facts
  imports History_Ledger
begin

text \<open>
  What the ledger of activities promises: the invariant of its tables, and what a record can and cannot change.
\<close>

section \<open>What every step leaves alone\<close>

definition leg_rows :: "fresh_ids \<Rightarrow> nat \<Rightarrow> leg list \<Rightarrow> leg_row list" where
  "leg_rows ids n ls = map (\<lambda>(i, l). leg_row_of (ni_leg ids i) (ni_revision ids) i l) (List.enumerate n ls)"

lemma insert_legs_Inr:
  "rfold (insert_leg ids) db (List.enumerate n ls) = Inr db' \<Longrightarrow> db' = db\<lparr>db_legs := db_legs db @ leg_rows ids n ls\<rparr>"
proof (induction ls arbitrary: n db)
  case (Cons l ls)
  then obtain db1 where "insert_leg ids db (n, l) = Inr db1" and r: "rfold (insert_leg ids) db1 (List.enumerate (Suc n) ls) = Inr db'"
    by (auto simp: rbind_Inr_iff)
  then have "db1 = db\<lparr>db_legs := db_legs db @ [leg_row_of (ni_leg ids n) (ni_revision ids) n l]\<rparr>"
    by (auto simp: insert_leg_def Let_def split: if_splits)
  with Cons.IH [OF r] show ?case by (simp add: leg_rows_def)
qed (simp add: leg_rows_def)

lemma same_rows:
  "\<exists>cs. db = db\<lparr>db_costs := cs\<rparr>" "\<exists>is. db = db\<lparr>db_issues := is\<rparr>" "\<exists>os. db = db\<lparr>db_orders := os\<rparr>"
  "\<exists>os fs. db = db\<lparr>db_orders := os, db_fills := fs\<rparr>"
  by (rule exI [of _ "db_costs db"], simp, rule exI [of _ "db_issues db"], simp, rule exI [of _ "db_orders db"], simp,
      rule exI [of _ "db_orders db"], rule exI [of _ "db_fills db"], simp)

lemma insert_costs_Inr:
  "rfold (insert_cost ids) db xs = Inr db' \<Longrightarrow> \<exists>cs. db' = db\<lparr>db_costs := cs\<rparr>"
proof (induction xs arbitrary: db)
  case (Cons x xs)
  then obtain db1 where "insert_cost ids db x = Inr db1" and r: "rfold (insert_cost ids) db1 xs = Inr db'"
    by (auto simp: rbind_Inr_iff)
  then obtain cs where "db1 = db\<lparr>db_costs := cs\<rparr>" by (auto simp: insert_cost_def Let_def split: if_splits prod.splits)
  with Cons.IH [OF r] show ?case by auto
qed (auto intro: same_rows)

lemma fill_order_Inr: "fill_order ids acc oid db = Inr (x, db') \<Longrightarrow> \<exists>os. db' = db\<lparr>db_orders := os\<rparr>"
  using same_rows(3) [of db] by (cases "oid = []") (auto simp: fill_order_def Let_def rbind_Inr_iff)

lemma insert_fill_Inr:
  assumes "insert_fill ids acc a db = Inr db'"
  shows "\<exists>os fs. db' = db\<lparr>db_orders := os, db_fills := fs\<rparr>"
proof (cases "\<exists>f. act_fill a = Some f \<and> fill_quantity f \<noteq> []")
  case True
  then obtain f where g: "act_fill a = Some f" "fill_quantity f \<noteq> []" by blast
  obtain x d rows where f: "fill_order ids acc (fill_order_id f) db = Inr (x, d)" and "db' = d\<lparr>db_fills := db_fills d @ rows\<rparr>"
    using assms g unfolding insert_fill_def by (cases "fill_order ids acc (fill_order_id f) db") (auto split: if_splits)
  then have d: "\<exists>fs. db' = d\<lparr>db_fills := fs\<rparr>" by blast
  from fill_order_Inr [OF f] d show ?thesis by blast
next
  case False
  then have "db' = db" using assms by (auto simp: insert_fill_def split: option.splits)
  then show ?thesis using same_rows(4) by simp
qed

lemma insert_sources_Inr: "insert_sources ids old raw match db = Inr db' \<Longrightarrow> \<exists>ss. db' = db\<lparr>db_sources := ss\<rparr>"
  by (auto simp: insert_sources_def Let_def split: if_splits)

lemma insert_revision_Inr:
  assumes "insert_revision v db = Inr db'"
  shows "db' = db\<lparr>db_revisions := db_revisions db @ [v]\<rparr>" "rv_id v \<notin> rv_id ` set (db_revisions db)"
  using assms by (auto simp: insert_revision_def split: if_splits)

text \<open>A booked revision, table by table.\<close>

lemma book_revision_frame:
  assumes "book_revision ids t acc raw match r old a db = Inr db'"
  shows "ni_revision ids \<notin> rv_id ` set (db_revisions db) \<and> (\<exists>os fs cs ss.
    db' = db\<lparr>db_revisions := db_revisions db @ [revision_of ids t r (a\<lparr>act_sources := []\<rparr>)],
      db_legs := db_legs db @ leg_rows ids 0 (act_legs a), db_orders := os, db_fills := fs, db_costs := cs, db_sources := ss,
      db_activities := map (\<lambda>x. if ar_id x = act_id a then x\<lparr>ar_current := act_revision a\<rparr> else x) (db_activities db),
      db_accounts := map (\<lambda>x. if acc_id x = acc then x\<lparr>acc_generation := acc_generation x + 1\<rparr> else x) (db_accounts db),
      db_dirty := markPerformanceDirtyTx t acc (earliestPerformanceDate
        [case old of None \<Rightarrow> zero_activity | Some v \<Rightarrow> rv_payload v, a\<lparr>act_sources := []\<rparr>]) (db_dirty db)\<rparr>)"
proof -
  define b where "b = a\<lparr>act_sources := []\<rparr>"
  have b: "act_legs b = act_legs a" "act_id b = act_id a" "act_revision b = act_revision a" by (simp_all add: b_def)
  obtain d1 d2 d3 d4 d5 where d: "insert_revision (revision_of ids t r b) db = Inr d1"
    "rfold (insert_leg ids) d1 (List.enumerate 0 (act_legs b)) = Inr d2" "insert_fill ids acc b d2 = Inr d3"
    "rfold (insert_cost ids) d3 (List.enumerate 0 (act_cost_adjustments b)) = Inr d4" "insert_sources ids old raw match d4 = Inr d5"
    and e: "db' = d5\<lparr>db_activities := map (\<lambda>x. if ar_id x = act_id b then x\<lparr>ar_current := act_revision b\<rparr> else x) (db_activities d5),
        db_accounts := map (\<lambda>x. if acc_id x = acc then x\<lparr>acc_generation := acc_generation x + 1\<rparr> else x) (db_accounts d5),
        db_dirty := markPerformanceDirtyTx t acc (earliestPerformanceDate [case old of None \<Rightarrow> zero_activity | Some v \<Rightarrow> rv_payload v, b]) (db_dirty d5)\<rparr>"
    using assms unfolding book_revision_def Let_def b_def [symmetric] rbind_Inr_iff by blast
  note i = insert_revision_Inr(1) [OF d(1)] insert_legs_Inr [OF d(2)]
  obtain os fs where i3: "d3 = d2\<lparr>db_orders := os, db_fills := fs\<rparr>" using insert_fill_Inr [OF d(3)] by blast
  obtain cs where i4: "d4 = d3\<lparr>db_costs := cs\<rparr>" using insert_costs_Inr [OF d(4)] by blast
  obtain ss where i5: "d5 = d4\<lparr>db_sources := ss\<rparr>" using insert_sources_Inr [OF d(5)] by blast
  show ?thesis using insert_revision_Inr(2) [OF d(1)]
    unfolding b_def [symmetric]
    by (intro conjI exI [of _ os] exI [of _ fs] exI [of _ cs] exI [of _ ss]) (simp_all add: revision_of_def e i5 i4 i3 i b)
qed

lemma book_revision_Inr:
  assumes "book_revision ids t acc raw match r old a db = Inr db'"
  shows "db_revisions db' = db_revisions db @ [revision_of ids t r (a\<lparr>act_sources := []\<rparr>)]"
    "ni_revision ids \<notin> rv_id ` set (db_revisions db)"
    "db_legs db' = db_legs db @ leg_rows ids 0 (act_legs a)"
    "db_activities db' = map (\<lambda>x. if ar_id x = act_id a then x\<lparr>ar_current := act_revision a\<rparr> else x) (db_activities db)"
    "db_dirty db' = markPerformanceDirtyTx t acc
       (earliestPerformanceDate [case old of None \<Rightarrow> zero_activity | Some v \<Rightarrow> rv_payload v, a\<lparr>act_sources := []\<rparr>]) (db_dirty db)"
    "db_identities db' = db_identities db" "db_links db' = db_links db" "db_raw db' = db_raw db"
    "db_observations db' = db_observations db" "db_jobs db' = db_jobs db" "db_instruments db' = db_instruments db"
    "map acc_id (db_accounts db') = map acc_id (db_accounts db)" "db_issues db' = db_issues db"
proof -
  obtain os fs cs ss where "ni_revision ids \<notin> rv_id ` set (db_revisions db)" and
    e: "db' = db\<lparr>db_revisions := db_revisions db @ [revision_of ids t r (a\<lparr>act_sources := []\<rparr>)],
      db_legs := db_legs db @ leg_rows ids 0 (act_legs a), db_orders := os, db_fills := fs, db_costs := cs, db_sources := ss,
      db_activities := map (\<lambda>x. if ar_id x = act_id a then x\<lparr>ar_current := act_revision a\<rparr> else x) (db_activities db),
      db_accounts := map (\<lambda>x. if acc_id x = acc then x\<lparr>acc_generation := acc_generation x + 1\<rparr> else x) (db_accounts db),
      db_dirty := markPerformanceDirtyTx t acc (earliestPerformanceDate
        [case old of None \<Rightarrow> zero_activity | Some v \<Rightarrow> rv_payload v, a\<lparr>act_sources := []\<rparr>]) (db_dirty db)\<rparr>"
    using book_revision_frame [OF assms] by blast
  then show "ni_revision ids \<notin> rv_id ` set (db_revisions db)"
    "db_revisions db' = db_revisions db @ [revision_of ids t r (a\<lparr>act_sources := []\<rparr>)]"
    "db_legs db' = db_legs db @ leg_rows ids 0 (act_legs a)"
    "db_activities db' = map (\<lambda>x. if ar_id x = act_id a then x\<lparr>ar_current := act_revision a\<rparr> else x) (db_activities db)"
    "db_dirty db' = markPerformanceDirtyTx t acc
       (earliestPerformanceDate [case old of None \<Rightarrow> zero_activity | Some v \<Rightarrow> rv_payload v, a\<lparr>act_sources := []\<rparr>]) (db_dirty db)"
    "db_identities db' = db_identities db" "db_links db' = db_links db" "db_raw db' = db_raw db"
    "db_observations db' = db_observations db" "db_jobs db' = db_jobs db" "db_instruments db' = db_instruments db"
    "map acc_id (db_accounts db') = map acc_id (db_accounts db)" "db_issues db' = db_issues db"
    by (simp_all add: e)
qed

lemma open_issue_Inr: "open_issue uid t acc i raw kind details db = Inr db' \<Longrightarrow> \<exists>is. db' = db\<lparr>db_issues := is\<rparr>"
  by (auto simp: open_issue_def split: if_splits)

lemma settle_record_frame:
  assumes "settle_record ids t j acc raw r old a replace conflict upgrade db = Inr (out, db')"
  shows "\<exists>issues status. db' = db\<lparr>db_issues := issues, db_identities := foldl (add_identity acc (act_id a)) (db_identities db) (record_identities r),
      db_raw := set_raw_status raw status (db_raw db), db_observations := set_outcome raw (job_id j) out (db_observations db)\<rparr>
    \<and> (status, out) = (if replace \<and> under_review a then (act_status a, act_status a)
        else if conflict then (''needs_review'', ''needs_review'') else plain_outcome old replace upgrade a)"
proof -
  define d0 where "d0 = (if upgrade \<and> replace then db\<lparr>db_issues := resolve_issues t raw (db_issues db)\<rparr> else db)"
  define d1 where "d1 = d0\<lparr>db_identities := foldl (add_identity acc (act_id a)) (db_identities d0) (record_identities r)\<rparr>"
  define so where "so = (if conflict then (''needs_review'', ''needs_review'') else plain_outcome old replace upgrade a)"
  define so2 where "so2 = (if replace \<and> under_review a then (act_status a, act_status a) else so)"
  obtain d2 d3 where d: "(if conflict then open_issue (ni_conflict ids) t acc (act_id a) raw ''source_revision_conflict''
             (conflict_details a (case old of None \<Rightarrow> 0 | Some v \<Rightarrow> act_revision (rv_payload v))) d1 else Inr d1) = Inr d2"
    "(if replace \<and> under_review a then open_issue (ni_issue ids) t acc (act_id a) raw (fst so2) (review_details a) d2 else Inr d2) = Inr d3"
    and e: "out = snd so2" "db' = d3\<lparr>db_raw := set_raw_status raw (fst so2) (db_raw d3), db_observations := set_outcome raw (job_id j) out (db_observations d3)\<rparr>"
    using assms unfolding settle_record_def Let_def d0_def [symmetric]
    unfolding d1_def [symmetric] by (cases "plain_outcome old replace upgrade a") (auto simp: rbind_Inr_iff so_def so2_def split: if_splits)
  obtain i2 where i2: "d2 = d1\<lparr>db_issues := i2\<rparr>" using d(1) same_rows(2) [of d1] by (auto split: if_splits dest: open_issue_Inr)
  obtain i3 where i3: "d3 = d2\<lparr>db_issues := i3\<rparr>" using d(2) same_rows(2) [of d2] by (auto split: if_splits dest: open_issue_Inr)
  have "\<exists>i0. d0 = db\<lparr>db_issues := i0\<rparr>" unfolding d0_def using same_rows(2) by simp blast
  then obtain i0 where i0: "d0 = db\<lparr>db_issues := i0\<rparr>" by blast
  show ?thesis
    by (intro exI [of _ i3] exI [of _ "fst so2"]) (simp add: e i3 i2 d1_def i0, simp add: so2_def so_def)
qed

section \<open>The parts of one record\<close>

lemma validate_activity_account: "act_account_id (fst (validate_activity a)) = act_account_id a"
  by (auto simp: validate_activity_def Let_def split: option.splits prod.splits sum.splits)

lemma validated_Inr:
  assumes "validated a = Inr b"
  shows "activity_ok b \<and> act_account_id b = act_account_id a"
proof -
  have q: "act_account_id (quarantined c) = act_account_id c" for c by (simp add: quarantined_def Let_def warn_def)
  obtain c where c: "validate_activity c = (b, None)" "act_account_id c = act_account_id a"
  proof (cases "validate_activity a")
    case (Pair x e)
    have x: "act_account_id x = act_account_id a" using validate_activity_account [of a] Pair by simp
    show thesis
    proof (cases e)
      case None
      with Pair assms show thesis by (intro that [of a]) (simp_all add: validated_def)
    next
      case (Some m)
      with Pair assms x show thesis
        by (intro that [of "quarantined x"]) (auto simp: validated_def q split: prod.splits option.splits)
    qed
  qed
  show ?thesis using validate_activity_ok [OF c(1)] validate_activity_account [of c] c by simp
qed

lemma derive_activity_Inr:
  assumes "derive_activity ids t acc r db = Inr (a, idb)"
  shows "activity_ok a \<and> act_account_id a = acc"
proof -
  obtain provider where p: "historyRecordProvider r = Inr provider" using assms unfolding derive_activity_def rbind_Inr_iff by blast
  define s where "s = (raw_activity r)\<lparr>act_account_id := acc, act_provider := provider, act_provider_account_id := raw_provider_account_id r\<rparr>"
  obtain b where b: "resolve_legs ids t provider s db = Inr (b, idb)" "validated (resolve_costs b) = Inr a"
    using assms unfolding derive_activity_def p rbind_simps Let_def s_def [symmetric] by (auto simp: rbind_Inr_iff)
  obtain c where c: "rfold (resolve_leg ids t provider) (s\<lparr>act_legs := []\<rparr>, db) (List.enumerate 0 (act_legs s)) = Inr (c, idb)"
    "b = c\<lparr>act_legs := filter resolved_leg (act_legs c)\<rparr>"
    using b(1) unfolding resolve_legs_def by (auto simp: rbind_Inr_iff)
  have "act_account_id (fst (c, idb)) = acc"
    by (rule rfold_invariant [OF c(1), where P = "\<lambda>x. act_account_id (fst x) = acc"])
      (auto simp: s_def resolve_leg_def warn_def rbind_Inr_iff split: if_splits)
  then have "act_account_id (resolve_costs b) = acc" by (simp add: c(2) resolve_costs_def Let_def warn_def)
  with validated_Inr [OF b(2)] show ?thesis by simp
qed

lemma match_identity_fold:
  assumes "rfold (match_identity acc rows) (i, m) ks = Inr (i', m')" "\<forall>x\<in>set rows. ix_activity x \<noteq> []"
  shows "(i \<noteq> [] \<longrightarrow> i' = i) \<and> (i' = i \<or> (\<exists>x\<in>set rows. ix_account x = acc \<and> ix_activity x = i'))
    \<and> (\<forall>k\<in>set ks. idn_external_id k \<noteq> [] \<longrightarrow> (\<forall>x. find (identity_hit acc k) rows = Some x \<longrightarrow> i' = ix_activity x))"
  using assms(1)
proof (induction ks arbitrary: i m)
  case (Cons k ks)
  then obtain i1 m1 where s: "match_identity acc rows (i, m) k = Inr (i1, m1)" "rfold (match_identity acc rows) (i1, m1) ks = Inr (i', m')"
    by (auto simp: rbind_Inr_iff)
  note ih = Cons.IH [OF s(2)]
  show ?case
  proof (cases "idn_external_id k \<noteq> [] \<and> find (identity_hit acc k) rows \<noteq> None")
    case False
    with s(1) have "i1 = i" by (auto simp: match_identity_def split: if_splits option.splits)
    with ih False show ?thesis by auto
  next
    case True
    then obtain x where x: "find (identity_hit acc k) rows = Some x" by blast
    with True s(1) have i: "i1 = ix_activity x" "i \<noteq> [] \<longrightarrow> i = ix_activity x" by (auto simp: match_identity_def split: if_splits)
    have "x \<in> set rows" "ix_account x = acc" using x by (auto simp: find_Some_iff identity_hit_def)
    with ih i assms(2) x show ?thesis by auto
  qed
qed simp

lemma find_activity_Inr:
  assumes "find_activity acc r db = Inr (i, m)" "\<forall>x\<in>set (db_identities db). ix_activity x \<noteq> []"
  shows "i = [] \<or> (\<exists>x\<in>set (db_identities db). ix_account x = acc \<and> ix_activity x = i)"
    "\<And>k x. k \<in> set (record_identities r) \<Longrightarrow> idn_external_id k \<noteq> [] \<Longrightarrow> find (identity_hit acc k) (db_identities db) = Some x \<Longrightarrow> i = ix_activity x"
  using match_identity_fold [OF assms(1) [unfolded find_activity_def] assms(2)] by auto

lemma previous_revision_Inr:
  assumes "previous_revision i db = Inr old"
  shows "i = [] \<and> old = None \<or> i \<noteq> [] \<and> (\<exists>x v. old = Some v \<and> x \<in> set (db_activities db) \<and> ar_id x = i \<and> v \<in> set (db_revisions db)
    \<and> rv_activity v = i \<and> rv_no v = ar_current x)"
  using assms by (auto simp: previous_revision_def current_revision_def rbind_Inr_iff find_Some_iff split: if_splits option.splits)
    (metis nth_mem)+

text \<open>The parts of a booked record, and what they leave of the other tables.\<close>

lemma book_recordE:
  assumes "book_record ids t j raw acc r db = Inr (out, db')"
  obtains a idb i0 m old i db1 replace conflict b c db2 where
    "derive_activity ids t acc r (db_instruments db) = Inr (a, idb)" "find_activity acc r db = Inr (i0, m)"
    "previous_revision i0 db = Inr old" "open_activity i0 (ni_activity ids) t acc (db\<lparr>db_instruments := idb\<rparr>) = Inr (i, db1)"
    "b = a\<lparr>act_id := i, act_revision := revision_no old + 1\<rparr>"
    "ledger_verdict old b (raw_source_updated_at r) (source_priority (raw_source r)) (manual_duplicate i db) (rule_upgrade raw old db) = (replace, conflict)"
    "c = (if replace then screened acc i old r db1 b else b)"
    "(if replace then book_revision ids t acc raw m r old c db1
      else Inr (db1\<lparr>db_sources := cite_source \<lparr>sr_revision = (case old of None \<Rightarrow> [] | Some v \<Rightarrow> rv_id v), sr_raw = raw,
                 sr_role = ''corroboration'', sr_match = m\<rparr> (db_sources db1)\<rparr>)) = Inr db2"
    "settle_record ids t j acc raw r old c replace conflict (rule_upgrade raw old db) db2 = Inr (out, db')"
proof -
  obtain a idb where a: "derive_activity ids t acc r (db_instruments db) = Inr (a, idb)"
    using assms unfolding book_record_def rbind_Inr_iff by (auto simp: split_beta)
  define d where "d = db\<lparr>db_instruments := idb\<rparr>"
  note e1 = assms [unfolded book_record_def a rbind_simps prod.case Let_def, folded d_def]
  obtain i0 m where f: "find_activity acc r d = Inr (i0, m)" using e1 unfolding rbind_Inr_iff by (auto simp: split_beta)
  note e2 = e1 [unfolded f rbind_simps prod.case]
  obtain old where o: "previous_revision i0 d = Inr old" using e2 unfolding rbind_Inr_iff by blast
  note e3 = e2 [unfolded o rbind_simps]
  obtain i db1 where i: "open_activity i0 (ni_activity ids) t acc d = Inr (i, db1)" using e3 unfolding rbind_Inr_iff by (auto simp: split_beta)
  define b where "b = a\<lparr>act_id := i, act_revision := revision_no old + 1\<rparr>"
  note e4 = e3 [unfolded i rbind_simps prod.case, folded b_def]
  obtain replace conflict where v: "ledger_verdict old b (raw_source_updated_at r) (source_priority (raw_source r)) (manual_duplicate i db1) (rule_upgrade raw old d) = (replace, conflict)"
    by fastforce
  define c where "c = (if replace then screened acc i old r db1 b else b)"
  note e5 = e4 [unfolded v prod.case, folded c_def]
  obtain db2 where w: "(if replace then book_revision ids t acc raw m r old c db1
      else Inr (db1\<lparr>db_sources := cite_source \<lparr>sr_revision = (case old of None \<Rightarrow> [] | Some v \<Rightarrow> rv_id v), sr_raw = raw,
                 sr_role = ''corroboration'', sr_match = m\<rparr> (db_sources db1)\<rparr>)) = Inr db2"
    "settle_record ids t j acc raw r old c replace conflict (rule_upgrade raw old d) db2 = Inr (out, db')"
    using e5 unfolding rbind_Inr_iff by blast
  have d: "db_identities d = db_identities db" "db_activities d = db_activities db" "db_revisions d = db_revisions db"
    "db_sources d = db_sources db" by (simp_all add: d_def)
  have same: "find_activity acc r d = find_activity acc r db" "previous_revision i0 d = previous_revision i0 db"
    "rule_upgrade raw old d = rule_upgrade raw old db"
    unfolding find_activity_def previous_revision_def current_revision_def rule_upgrade_def d by (rule refl)+
  have "db_links db1 = db_links db" using i by (auto simp: d_def open_activity_def split: if_splits)
  then have "manual_duplicate i db1 = manual_duplicate i db" by (simp add: manual_duplicate_def)
  with that [OF a f [unfolded same] o [unfolded same] i [unfolded d_def] b_def _ c_def w(1)] v w(2) same show thesis by simp
qed

section \<open>The invariant of the ledger\<close>

text \<open>What the payload and the columns of a revision say of its activity.\<close>

definition revision_ok :: "activity_row \<Rightarrow> revision_row \<Rightarrow> bool" where
  "revision_ok x v \<longleftrightarrow> act_id (rv_payload v) = ar_id x \<and> act_account_id (rv_payload v) = ar_account x \<and> act_revision (rv_payload v) = rv_no v
     \<and> act_type (rv_payload v) = rv_type v \<and> act_status (rv_payload v) = rv_status v \<and> act_booking_status (rv_payload v) = rv_booking v
     \<and> activity_ok (rv_payload v)"

definition revisions_of :: "string \<Rightarrow> revision_row list \<Rightarrow> revision_row list" where
  "revisions_of i revs = filter (\<lambda>v. rv_activity v = i) revs"

text \<open>The rows of the legs of a revision, without their keys, in the table and in the payload.\<close>

definition stored_legs :: "string \<Rightarrow> leg_row list \<Rightarrow> leg_row list" where
  "stored_legs rid legs = map (\<lambda>l. l\<lparr>lr_id := []\<rparr>) (filter (\<lambda>l. lr_revision l = rid) legs)"

definition payload_legs :: "string \<Rightarrow> leg list \<Rightarrow> leg_row list" where
  "payload_legs rid ls = map (\<lambda>(i, l). leg_row_of [] rid i l) (List.enumerate 0 ls)"

abbreviation identity_key :: "identity_row \<Rightarrow> int \<times> string \<times> string \<times> string" where
  "identity_key x \<equiv> (ix_account x, ix_namespace x, ix_kind x, ix_external_id x)"

definition tables_ok :: "activity_row list \<Rightarrow> revision_row list \<Rightarrow> leg_row list \<Rightarrow> identity_row list \<Rightarrow> bool" where
  "tables_ok acts revs legs idents \<longleftrightarrow>
     distinct (map ar_id acts) \<and> [] \<notin> ar_id ` set acts \<and> distinct (map rv_id revs)
     \<and> (\<forall>x\<in>set acts. 1 \<le> ar_current x \<and> map rv_no (revisions_of (ar_id x) revs) = [1..ar_current x])
     \<and> (\<forall>v\<in>set revs. (\<exists>x\<in>set acts. ar_id x = rv_activity v \<and> revision_ok x v)
          \<and> stored_legs (rv_id v) legs = payload_legs (rv_id v) (act_legs (rv_payload v)))
     \<and> (\<forall>l\<in>set legs. lr_revision l \<in> rv_id ` set revs)
     \<and> distinct (map identity_key idents) \<and> (\<forall>k\<in>set idents. \<exists>x\<in>set acts. ar_id x = ix_activity k \<and> ar_account x = ix_account k)"

definition ledger_ok :: "'a ledger_db_scheme \<Rightarrow> bool" where
  "ledger_ok db \<longleftrightarrow> tables_ok (db_activities db) (db_revisions db) (db_legs db) (db_identities db)"

lemma tables_okD:
  assumes "tables_ok acts revs legs idents"
  shows "distinct (map ar_id acts)" "[] \<notin> ar_id ` set acts" "distinct (map rv_id revs)"
    "x \<in> set acts \<Longrightarrow> 1 \<le> ar_current x" "x \<in> set acts \<Longrightarrow> map rv_no (revisions_of (ar_id x) revs) = [1..ar_current x]"
    "v \<in> set revs \<Longrightarrow> \<exists>x\<in>set acts. ar_id x = rv_activity v \<and> revision_ok x v"
    "v \<in> set revs \<Longrightarrow> stored_legs (rv_id v) legs = payload_legs (rv_id v) (act_legs (rv_payload v))"
    "l \<in> set legs \<Longrightarrow> lr_revision l \<in> rv_id ` set revs" "distinct (map identity_key idents)"
    "k \<in> set idents \<Longrightarrow> \<exists>x\<in>set acts. ar_id x = ix_activity k \<and> ar_account x = ix_account k"
  using assms unfolding tables_ok_def by blast+

lemma stored_legs_append: "stored_legs i (xs @ ys) = stored_legs i xs @ stored_legs i ys"
  by (simp add: stored_legs_def)

lemma stored_leg_rows: "stored_legs i (leg_rows ids 0 ls) = (if i = ni_revision ids then payload_legs i ls else [])"
proof -
  have r: "lr_revision (leg_row_of u (ni_revision ids) n l) = ni_revision ids" for u n l by (simp add: leg_row_of_def)
  have "filter (\<lambda>l. lr_revision l = i) (leg_rows ids 0 ls) = (if i = ni_revision ids then leg_rows ids 0 ls else [])"
    unfolding leg_rows_def by (auto simp: filter_empty_conv r intro!: filter_True)
  then show ?thesis by (auto simp: stored_legs_def leg_rows_def payload_legs_def leg_row_of_def)
qed

lemma stored_legs_none: "(\<And>l. l \<in> set legs \<Longrightarrow> lr_revision l \<in> R) \<Longrightarrow> i \<notin> R \<Longrightarrow> stored_legs i legs = []"
  by (force simp: stored_legs_def filter_empty_conv)

text \<open>A new revision with a new key: its legs and those of the others.\<close>

lemma legs_extended:
  assumes "tables_ok acts revs legs idents" "ni_revision ids \<notin> rv_id ` set revs" "rv_id v = ni_revision ids"
    "w \<in> set (revs @ [v])"
  shows "stored_legs (rv_id w) (legs @ leg_rows ids 0 (act_legs (rv_payload v))) = payload_legs (rv_id w) (act_legs (rv_payload w))"
proof (cases "w \<in> set revs")
  case True
  then have "rv_id w \<noteq> ni_revision ids" using assms(2) by force
  then show ?thesis using tables_okD(7) [OF assms(1) True] by (simp add: stored_legs_append stored_leg_rows)
next
  case False
  then have "w = v" using assms(4) by simp
  moreover have "stored_legs (ni_revision ids) legs = []"
    by (rule stored_legs_none [OF tables_okD(8) [OF assms(1)] assms(2)])
  ultimately show ?thesis using assms(3) by (simp add: stored_legs_append stored_leg_rows)
qed

lemma leg_rows_revision: "l \<in> set (leg_rows ids n ls) \<Longrightarrow> lr_revision l = ni_revision ids"
  by (auto simp: leg_rows_def leg_row_of_def)

lemma new_activity_ok:
  assumes ok: "tables_ok acts revs legs idents" and x: "ar_id x \<notin> ar_id ` set acts" "ar_id x \<noteq> []" "ar_current x = 1"
    and v: "rv_id v = ni_revision ids" "ni_revision ids \<notin> rv_id ` set revs" "rv_activity v = ar_id x" "rv_no v = 1" "revision_ok x v"
  shows "tables_ok (acts @ [x]) (revs @ [v]) (legs @ leg_rows ids 0 (act_legs (rv_payload v))) idents"
proof -
  note d = tables_okD [OF ok]
  have "rv_activity w \<noteq> ar_id x" if "w \<in> set revs" for w using d(6) [OF that] x(1) by (metis imageI)
  then have "revisions_of (ar_id x) revs = []" by (simp add: revisions_of_def filter_empty_conv)
  then have n: "map rv_no (revisions_of (ar_id y) (revs @ [v])) = [1..ar_current y]" if "y \<in> set (acts @ [x])" for y
    using that d(5) x(1,3) v(3,4) by (auto simp: revisions_of_def)
  have c: "1 \<le> ar_current y" if "y \<in> set (acts @ [x])" for y using that d(4) x(3) by auto
  have p: "\<exists>y\<in>set (acts @ [x]). ar_id y = rv_activity w \<and> revision_ok y w" if "w \<in> set (revs @ [v])" for w
    using that d(6) v(3,5) by auto
  have l: "lr_revision l \<in> rv_id ` set (revs @ [v])" if "l \<in> set (legs @ leg_rows ids 0 (act_legs (rv_payload v)))" for l
    using that d(8) leg_rows_revision v(1) by fastforce
  show ?thesis
    unfolding tables_ok_def using d(1-3,9,10) x v(1,2) n c p l legs_extended [OF ok v(2,1)] by auto
qed

lemma next_revision_ok:
  assumes ok: "tables_ok acts revs legs idents" and x: "x \<in> set acts"
    and v: "rv_id v = ni_revision ids" "ni_revision ids \<notin> rv_id ` set revs" "rv_activity v = ar_id x" "rv_no v = ar_current x + 1" "revision_ok x v"
  shows "tables_ok (map (\<lambda>y. if ar_id y = ar_id x then y\<lparr>ar_current := ar_current x + 1\<rparr> else y) acts) (revs @ [v])
    (legs @ leg_rows ids 0 (act_legs (rv_payload v))) idents"
proof -
  note d = tables_okD [OF ok]
  define f :: "activity_row \<Rightarrow> activity_row" where "f y = (if ar_id y = ar_id x then y\<lparr>ar_current := ar_current x + 1\<rparr> else y)" for y
  have f: "ar_id (f y) = ar_id y" "ar_account (f y) = ar_account y" "revision_ok (f y) w = revision_ok y w" for y w
    by (simp_all add: f_def revision_ok_def)
  have same: "y = x" if "y \<in> set acts" "ar_id y = ar_id x" for y by (rule same_key [OF d(1) that(1) x that(2)])
  have u: "[1..ar_current x + 1] = [1..ar_current x] @ [ar_current x + 1]"
    using upto_rec2 [of 1 "ar_current x + 1"] d(4) [OF x] by simp
  have n: "1 \<le> ar_current (f y) \<and> map rv_no (revisions_of (ar_id y) (revs @ [v])) = [1..ar_current (f y)]" if "y \<in> set acts" for y
  proof (cases "y = x")
    case True
    then show ?thesis using d(4,5) [OF x] v(3,4) u by (simp add: f_def revisions_of_def)
  next
    case False
    then have "ar_id y \<noteq> ar_id x" using same that by blast
    then show ?thesis using d(4,5) [OF that] v(3) by (simp add: f_def revisions_of_def)
  qed
  have p: "\<exists>y\<in>set (map f acts). ar_id y = rv_activity w \<and> revision_ok y w" if w: "w \<in> set (revs @ [v])" for w
  proof -
    obtain y where "y \<in> set acts" "ar_id y = rv_activity w" "revision_ok y w" using w d(6) v(3,5) x by auto
    then show ?thesis by (intro bexI [of _ "f y"]) (simp_all add: f)
  qed
  have l: "lr_revision l \<in> rv_id ` set (revs @ [v])" if "l \<in> set (legs @ leg_rows ids 0 (act_legs (rv_payload v)))" for l
    using that d(8) leg_rows_revision v(1) by fastforce
  have k: "\<exists>y\<in>set (map f acts). ar_id y = ix_activity q \<and> ar_account y = ix_account q" if q: "q \<in> set idents" for q
    using d(10) [OF q] by (force simp: f)
  have m: "map ar_id (map f acts) = map ar_id acts" by (simp add: f)
  have "tables_ok (map f acts) (revs @ [v]) (legs @ leg_rows ids 0 (act_legs (rv_payload v))) idents"
    unfolding tables_ok_def set_map [symmetric] m using d(1-3,9) v(1,2) n p l k legs_extended [OF ok v(2,1)] by (auto simp: f)
  then show ?thesis by (simp add: f_def [abs_def])
qed

lemma add_identity_ok:
  assumes "tables_ok acts revs legs idents" "x \<in> set acts" "ar_id x = i" "ar_account x = acc"
  shows "tables_ok acts revs legs (foldl (add_identity acc i) idents ks)"
  using assms(1)
proof (induction ks arbitrary: idents)
  case (Cons k ks)
  have "tables_ok acts revs legs (add_identity acc i idents k)"
    using Cons.prems assms(2-4) by (auto simp: add_identity_def tables_ok_def identity_hit_def)
  from Cons.IH [OF this] show ?case by simp
qed simp

section \<open>One record and the ledger\<close>

lemma warn_ok: "activity_ok a \<Longrightarrow> activity_ok (warn w a)"
  by (simp add: activity_ok_def warn_def)

text \<open>An activity as it is booked: valid, under its own id, in the account, with its number.\<close>

definition bookable :: "activity \<Rightarrow> string \<Rightarrow> int \<Rightarrow> int \<Rightarrow> bool" where
  "bookable a i acc n \<longleftrightarrow> activity_ok a \<and> act_id a = i \<and> act_account_id a = acc \<and> act_revision a = n"

lemma screened_bookable: "bookable b i acc n \<Longrightarrow> bookable (screened acc' i' old r db b) i acc n"
  using warn_ok [of b] by (simp add: screened_def bookable_def) (simp add: warn_def)

lemma bookable_sources: "bookable b i acc n \<Longrightarrow> bookable (b\<lparr>act_sources := s\<rparr>) i acc n"
  by (simp add: bookable_def activity_ok_def)

lemma revision_of_simps [simp]:
  "rv_id (revision_of ids t r a) = ni_revision ids" "rv_activity (revision_of ids t r a) = act_id a"
  "rv_no (revision_of ids t r a) = act_revision a" "rv_payload (revision_of ids t r a) = a"
  "rv_priority (revision_of ids t r a) = source_priority (raw_source r)"
  by (simp_all add: revision_of_def)

lemma revision_of_ok: "bookable a i acc n \<Longrightarrow> ar_id x = i \<Longrightarrow> ar_account x = acc \<Longrightarrow> revision_ok x (revision_of ids t r a)"
  by (simp add: revision_ok_def bookable_def revision_of_def)

lemma activity_account:
  assumes "ledger_ok db" "k \<in> set (db_identities db)"
  shows "\<exists>x\<in>set (db_activities db). ar_id x = ix_activity k \<and> ar_account x = ix_account k" "ix_activity k \<noteq> []"
  using tables_okD(2,10) [OF assms(1) [unfolded ledger_ok_def]] assms(2) by (force+)

lemma find_set: "find P xs = Some x \<Longrightarrow> x \<in> set xs"
  by (auto simp: find_Some_iff)

lemma find_holds: "find P xs = Some x \<Longrightarrow> P x"
  by (auto simp: find_Some_iff)

lemma current_found:
  assumes "ledger_ok db" "x \<in> set (db_activities db)"
  shows "\<exists>v. current_revision (ar_id x) db = Some v \<and> v \<in> set (db_revisions db) \<and> rv_activity v = ar_id x \<and> rv_no v = ar_current x"
proof -
  note d = tables_okD [OF assms(1) [unfolded ledger_ok_def]]
  have fx: "find (\<lambda>y. ar_id y = ar_id x) (db_activities db) = Some x" using d(1) assms(2) by (rule find_by_key)
  have "ar_current x \<in> set (map rv_no (revisions_of (ar_id x) (db_revisions db)))"
    unfolding d(5) [OF assms(2)] using d(4) [OF assms(2)] by simp
  then have "\<exists>v\<in>set (db_revisions db). rv_activity v = ar_id x \<and> rv_no v = ar_current x" by (auto simp: revisions_of_def)
  then obtain v where v: "find (\<lambda>v. rv_activity v = ar_id x \<and> rv_no v = ar_current x) (db_revisions db) = Some v"
    by (metis (mono_tags, lifting) find_None_iff not_Some_eq)
  have "current_revision (ar_id x) db = Some v" unfolding current_revision_def fx using v by simp
  with find_set [OF v] find_holds [OF v] show ?thesis by blast
qed

text \<open>The three ways in which a pending record ends: it opens an activity, it replaces the current revision of one,
  or it is further evidence of that revision.\<close>

lemma book_record_cases:
  assumes b: "book_record ids t j raw acc r db = Inr (out, db')" and ok: "ledger_ok db"
  obtains
    (opened) a where "\<forall>k\<in>set (record_identities r). idn_external_id k \<noteq> [] \<longrightarrow> (\<forall>x\<in>set (db_identities db). \<not> identity_hit acc k x)"
      "ni_activity ids \<notin> ar_id ` set (db_activities db)" "bookable a (ni_activity ids) acc 1" "ni_revision ids \<notin> rv_id ` set (db_revisions db)"
      "db_activities db' = db_activities db @ [\<lparr>ar_id = ni_activity ids, ar_account = acc, ar_current = 1, ar_created_at = nowRFC3339 t\<rparr>]"
      "db_revisions db' = db_revisions db @ [revision_of ids t r a]" "db_legs db' = db_legs db @ leg_rows ids 0 (act_legs a)"
      "db_dirty db' = markPerformanceDirtyTx t acc (earliestPerformanceDate [zero_activity, a]) (db_dirty db)"
      "db_identities db' = foldl (add_identity acc (ni_activity ids)) (db_identities db) (record_identities r)"
  | (replaced) a b x v conflict where "x \<in> set (db_activities db)" "ar_account x = acc" "current_revision (ar_id x) db = Some v"
      "rv_no v = ar_current x" "ledger_verdict (Some v) b (raw_source_updated_at r) (source_priority (raw_source r)) (manual_duplicate (ar_id x) db)
         (rule_upgrade raw (Some v) db) = (True, conflict)"
      "bookable a (ar_id x) acc (ar_current x + 1)" "ni_revision ids \<notin> rv_id ` set (db_revisions db)"
      "db_activities db' = map (\<lambda>y. if ar_id y = ar_id x then y\<lparr>ar_current := ar_current x + 1\<rparr> else y) (db_activities db)"
      "db_revisions db' = db_revisions db @ [revision_of ids t r a]" "db_legs db' = db_legs db @ leg_rows ids 0 (act_legs a)"
      "db_dirty db' = markPerformanceDirtyTx t acc (earliestPerformanceDate [rv_payload v, a]) (db_dirty db)"
      "db_identities db' = foldl (add_identity acc (ar_id x)) (db_identities db) (record_identities r)"
  | (evidence) x where "x \<in> set (db_activities db)" "ar_account x = acc"
      "db_activities db' = db_activities db" "db_revisions db' = db_revisions db" "db_legs db' = db_legs db" "db_dirty db' = db_dirty db"
      "db_identities db' = foldl (add_identity acc (ar_id x)) (db_identities db) (record_identities r)"
  using b
proof (cases rule: book_recordE)
  case (1 a idb i0 m old i db1 replace conflict b c db2)
  note d = tables_okD [OF ok [unfolded ledger_ok_def]]
  have ne: "\<forall>x\<in>set (db_identities db). ix_activity x \<noteq> []" using activity_account(2) [OF ok] by blast
  note fa = find_activity_Inr [OF 1(2) ne]
  note da = derive_activity_Inr [OF 1(1)]
  have bb: "bookable b i acc (revision_no old + 1)" using da by (simp add: 1(5) bookable_def activity_ok_def)
  have cb: "bookable c i acc (revision_no old + 1)" using bb by (simp add: 1(7) screened_bookable)
  have set: "db_activities db' = db_activities db2 \<and> db_revisions db' = db_revisions db2 \<and> db_legs db' = db_legs db2 \<and> db_dirty db' = db_dirty db2
      \<and> db_identities db' = foldl (add_identity acc i) (db_identities db2) (record_identities r)"
    using settle_record_frame [OF 1(9)] cb by (auto simp: bookable_def)
  show thesis
  proof (cases "i0 = []")
    case True
    have o: "old = None" using previous_revision_Inr [OF 1(3)] True by simp
    have op: "i = ni_activity ids" "ni_activity ids \<notin> ar_id ` set (db_activities db)"
      "db1 = db\<lparr>db_instruments := idb, db_activities := db_activities db @ [\<lparr>ar_id = ni_activity ids, ar_account = acc, ar_current = 0, ar_created_at = nowRFC3339 t\<rparr>]\<rparr>"
      using 1(4) True by (auto simp: open_activity_def split: if_splits)
    have "replace" using 1(6) by (simp add: o ledger_verdict_def)
    then have bk: "book_revision ids t acc raw m r old c db1 = Inr db2" using 1(8) by simp
    define e where "e = c\<lparr>act_sources := []\<rparr>"
    have eb: "bookable e (ni_activity ids) acc 1" using bookable_sources [OF cb] by (simp add: e_def o revision_no_def op(1))
    have el: "act_legs c = act_legs e" "act_id c = ni_activity ids" "act_revision c = 1" using eb by (simp_all add: e_def bookable_def)
    note br = book_revision_Inr [OF bk, folded e_def]
    have acts: "db_activities db2 = db_activities db @ [\<lparr>ar_id = ni_activity ids, ar_account = acc, ar_current = 1, ar_created_at = nowRFC3339 t\<rparr>]"
    proof -
      have "map (\<lambda>x. if ar_id x = ni_activity ids then x\<lparr>ar_current := 1\<rparr> else x) (db_activities db) = db_activities db"
        using op(2) by (intro map_idI) (metis imageI)
      then show ?thesis using br(4) unfolding el(2,3) op(3) by simp
    qed
    have hit: "\<not> identity_hit acc k x" if h: "k \<in> set (record_identities r)" "idn_external_id k \<noteq> []" "x \<in> set (db_identities db)" for k x
    proof
      assume "identity_hit acc k x"
      then obtain y where y: "find (identity_hit acc k) (db_identities db) = Some y" using h(3) by (metis find_None_iff not_Some_eq)
      then have "y \<in> set (db_identities db)" by (auto simp: find_Some_iff)
      with ne have "ix_activity y \<noteq> []" by blast
      then show False using fa(2) [OF h(1,2) y] True by simp
    qed
    show thesis
    proof (rule opened [of e])
      show "\<forall>k\<in>set (record_identities r). idn_external_id k \<noteq> [] \<longrightarrow> (\<forall>x\<in>set (db_identities db). \<not> identity_hit acc k x)"
        using hit by blast
    qed (use op br set acts eb el in \<open>simp_all add: o\<close>)
  next
    case False
    then obtain x v where x: "old = Some v" "x \<in> set (db_activities db)" "ar_id x = i0" "v \<in> set (db_revisions db)" "rv_activity v = i0" "rv_no v = ar_current x"
      using previous_revision_Inr [OF 1(3)] by auto
    have cv: "current_revision i0 db = Some v" using 1(3) False x(1) by (auto simp: previous_revision_def rbind_Inr_iff)
    have op: "i = i0" "db1 = db\<lparr>db_instruments := idb\<rparr>" using 1(4) False by (auto simp: open_activity_def split: if_splits)
    obtain k where k: "k \<in> set (db_identities db)" "ix_account k = acc" "ix_activity k = i0" using fa(1) False by blast
    have acc: "ar_account x = acc"
    proof -
      obtain y where y: "y \<in> set (db_activities db)" "ar_id y = i0" "ar_account y = acc" using activity_account(1) [OF ok k(1)] k by auto
      have "y = x" using same_key [OF d(1) y(1) x(2)] y(2) x(3) by simp
      with y show ?thesis by simp
    qed
    show thesis
    proof (cases replace)
      case True
      then have bk: "book_revision ids t acc raw m r old c db1 = Inr db2" using 1(8) by simp
      define e where "e = c\<lparr>act_sources := []\<rparr>"
      have eb: "bookable e (ar_id x) acc (ar_current x + 1)" using bookable_sources [OF cb] x op by (simp add: e_def revision_no_def)
      have el: "act_legs c = act_legs e" "act_id c = ar_id x" "act_revision c = ar_current x + 1" using eb by (simp_all add: e_def bookable_def)
      note br = book_revision_Inr [OF bk, folded e_def]
      show thesis
        by (rule replaced [OF x(2) acc _ x(6) _ eb]) (use 1(6) True x(1,3) op cv br set el in simp_all)
    next
      case False
      then have "\<exists>ss. db2 = db1\<lparr>db_sources := ss\<rparr>" using 1(8) by auto
      then obtain ss where "db2 = db1\<lparr>db_sources := ss\<rparr>" by blast
      then show thesis by (intro evidence [OF x(2) acc]) (use set op x in simp_all)
    qed
  qed
qed

text \<open>What later records can do to the ledger: revisions are only added, activities stay and their numbers only grow.\<close>

definition extends_ledger :: "'a ledger_db_scheme \<Rightarrow> 'a ledger_db_scheme \<Rightarrow> bool" where
  "extends_ledger db db' \<longleftrightarrow> prefix (db_revisions db) (db_revisions db') \<and> prefix (map ar_id (db_activities db)) (map ar_id (db_activities db'))
     \<and> prefix (map ar_account (db_activities db)) (map ar_account (db_activities db'))
     \<and> prefix (db_legs db) (db_legs db') \<and> prefix (db_identities db) (db_identities db')"

lemma extends_ledger_refl: "extends_ledger db db"
  by (simp add: extends_ledger_def)

lemma extends_ledger_trans: "extends_ledger a b \<Longrightarrow> extends_ledger b c \<Longrightarrow> extends_ledger a c"
  unfolding extends_ledger_def by (meson prefix_order.order_trans)

lemma add_identities_prefix: "prefix idents (foldl (add_identity acc i) idents ks)"
proof (induction ks arbitrary: idents)
  case (Cons k ks)
  have "prefix idents (add_identity acc i idents k)" by (simp add: add_identity_def)
  with Cons.IH [of "add_identity acc i idents k"] show ?case by (simp add: prefix_order.order_trans)
qed simp

lemma book_record_ledger:
  assumes b: "book_record ids t j raw acc r db = Inr (out, db')" and ok: "ledger_ok db" and ne: "ni_activity ids \<noteq> []"
  shows "ledger_ok db' \<and> extends_ledger db db'"
  using b ok
proof (cases rule: book_record_cases)
  case (opened a)
  define x where "x = \<lparr>ar_id = ni_activity ids, ar_account = acc, ar_current = 1, ar_created_at = nowRFC3339 t\<rparr>"
  have "revision_ok x (revision_of ids t r a)" using opened(3) by (rule revision_of_ok) (simp_all add: x_def)
  then have "tables_ok (db_activities db @ [x]) (db_revisions db @ [revision_of ids t r a]) (db_legs db @ leg_rows ids 0 (act_legs a)) (db_identities db)"
    using new_activity_ok [OF ok [unfolded ledger_ok_def], of x "revision_of ids t r a" ids] opened(2-4) ne by (simp add: x_def bookable_def)
  then have "tables_ok (db_activities db @ [x]) (db_revisions db @ [revision_of ids t r a]) (db_legs db @ leg_rows ids 0 (act_legs a))
     (foldl (add_identity acc (ni_activity ids)) (db_identities db) (record_identities r))"
    by (rule add_identity_ok [where x = x]) (simp_all add: x_def)
  then show ?thesis using opened by (simp add: ledger_ok_def extends_ledger_def x_def add_identities_prefix)
next
  case (replaced a b x v conflict)
  have "revision_ok x (revision_of ids t r a)" using replaced(6) by (rule revision_of_ok) (simp_all add: replaced(2))
  then have "tables_ok (db_activities db') (db_revisions db') (db_legs db') (db_identities db)"
    using next_revision_ok [OF ok [unfolded ledger_ok_def] replaced(1), of "revision_of ids t r a" ids] replaced(6,7)
    by (simp add: replaced(8-10) bookable_def)
  then have "tables_ok (db_activities db') (db_revisions db') (db_legs db') (db_identities db')"
    unfolding replaced(12) by (rule add_identity_ok [where x = "x\<lparr>ar_current := ar_current x + 1\<rparr>"]) (use replaced(1,2,8) in force)+
  moreover have "map ar_id (db_activities db') = map ar_id (db_activities db)" "map ar_account (db_activities db') = map ar_account (db_activities db)"
    by (auto simp: replaced(8))
  ultimately show ?thesis by (simp add: ledger_ok_def extends_ledger_def replaced(9,10,12) add_identities_prefix)
next
  case (evidence x)
  then show ?thesis using add_identity_ok [OF ok [unfolded ledger_ok_def] evidence(1)] ok
    by (simp add: ledger_ok_def extends_ledger_def add_identities_prefix)
qed

lemma under_lease_Inl: "under_lease t j body db = (Inl e, db') \<Longrightarrow> db' = db"
  by (auto simp: under_lease_def transaction_def split: sum.splits prod.splits)

lemma checked_lease: "checkHistoryLease t j db = (res, db1) \<Longrightarrow> \<exists>jobs. db1 = db\<lparr>db_jobs := jobs\<rparr>"
  by (auto simp: checkHistoryLease_def leased_update_def Let_def)

lemma under_lease_Inr:
  assumes "under_lease t j body db = (Inr x, db')"
  shows "\<exists>jobs. checkHistoryLease t j db = (Inr (), db\<lparr>db_jobs := jobs\<rparr>) \<and> body (db\<lparr>db_jobs := jobs\<rparr>) = Inr (x, db')"
proof (cases "checkHistoryLease t j db")
  case (Pair res db1)
  from checked_lease [OF this] obtain jobs where j: "db1 = db\<lparr>db_jobs := jobs\<rparr>" by blast
  have "res = Inr () \<and> body db1 = Inr (x, db')"
    using assms Pair by (cases res) (auto simp: under_lease_def transaction_def split: sum.splits prod.splits)
  with Pair j show ?thesis by auto
qed

text \<open>The tables that make up the ledger.\<close>

definition ledger_part :: "'a ledger_db_scheme \<Rightarrow> _" where
  "ledger_part db = (db_activities db, db_revisions db, db_legs db, db_identities db, db_sources db, db_fills db, db_costs db, db_issues db,
     db_instruments db, db_dirty db, db_links db)"

lemma ledger_part_eq:
  assumes "ledger_part db = ledger_part db'"
  shows "ledger_ok db = ledger_ok db'" "extends_ledger db db'"
  using assms by (simp_all add: ledger_part_def ledger_ok_def extends_ledger_def)

text \<open>The effect of one call on the ledger: none, or that of a booked record.\<close>

lemma normalize_record_cases:
  assumes "normalizeHistoryRecord ids t j raw acc r db = (res, db')"
  obtains "ledger_part db' = ledger_part db"
    | d out where "ledger_part d = ledger_part db" "book_record ids t j raw acc r d = Inr (out, db')" "res = Inr out"
proof (cases res)
  case (Inl e)
  with assms have "db' = db" unfolding normalizeHistoryRecord_def by (auto dest: under_lease_Inl)
  then show thesis using that(1) by simp
next
  case (Inr out)
  obtain jobs where b: "normalize_record_tx ids t j raw acc r (db\<lparr>db_jobs := jobs\<rparr>) = Inr (out, db')"
    using under_lease_Inr [OF assms(1) [unfolded normalizeHistoryRecord_def Inr]] by blast
  define d where "d = db\<lparr>db_jobs := jobs\<rparr>"
  have p: "ledger_part d = ledger_part db" by (simp add: d_def ledger_part_def)
  from b [folded d_def] have "ledger_part db' = ledger_part d \<or> book_record ids t j raw acc r d = Inr (out, db')"
    by (auto simp: normalize_record_tx_def rbind_Inr_iff Let_def ledger_part_def split: if_splits)
  then show thesis using that(1) that(2) [OF p _ Inr] p by auto
qed

lemma normalize_record_ledger:
  assumes b: "normalizeHistoryRecord ids t j raw acc r db = (res, db')" and ok: "ledger_ok db" and ne: "ni_activity ids \<noteq> []"
  shows "ledger_ok db' \<and> extends_ledger db db'"
  using b
proof (cases rule: normalize_record_cases)
  case 1
  from ledger_part_eq [OF this [symmetric]] ok show ?thesis by simp
next
  case (2 d out)
  have "ledger_ok d" using ok ledger_part_eq(1) [OF 2(1)] by simp
  from book_record_ledger [OF 2(2) this ne] 2(1) show ?thesis by (simp add: extends_ledger_def ledger_part_def)
qed

lemma normalize_rows_ledger:
  assumes "normalize_rows ids t j k rows c db = (res, db')" "ledger_ok db" "\<And>n. ni_activity (ids n) \<noteq> []"
  shows "ledger_ok db' \<and> extends_ledger db db'"
  using assms(1,2)
proof (induction rows arbitrary: k c db)
  case Nil
  then show ?case by (simp add: extends_ledger_refl)
next
  case (Cons x rows)
  obtain r1 db1 where n: "normalizeHistoryRecord (ids k) (t k) j (rr_id x) (rr_account x) (rr_normalized x) db = (r1, db1)" by fastforce
  note o = normalize_record_ledger [OF n Cons.prems(2) assms(3)]
  show ?case
  proof (cases r1)
    case (Inl e)
    then show ?thesis using Cons.prems(1) n o by (simp add: Let_def)
  next
    case (Inr out)
    with Cons.prems(1) n have "normalize_rows ids t j (Suc k) rows (counted out (c\<lparr>cnt_records := cnt_records c + 1\<rparr>)) db1 = (res, db')"
      by (simp add: Let_def)
    from Cons.IH [OF this] o show ?thesis by (blast intro: extends_ledger_trans)
  qed
qed

text \<open>The ledger is an audit trail. Normalising the records of a job, to the end or to the first error, keeps the tables
  consistent: every activity has the revisions 1 to the current one, each once and in order; every revision is a valid
  activity under its own id and account, with the columns and the leg rows that its payload says; every external id names
  one activity of its account. No revision, leg or identity that was there is changed or removed, and no activity loses
  its account.\<close>

theorem ledger_is_append_only:
  assumes "NormalizeHistoryJob ids t j db = (res, db')" "ledger_ok db" "\<And>n. ni_activity (ids n) \<noteq> []"
  shows "ledger_ok db' \<and> extends_ledger db db'"
  using normalize_rows_ledger assms unfolding NormalizeHistoryJob_def by blast

section \<open>No double booking\<close>

lemma find_map_same:
  assumes "\<And>x. P (f x) = P x"
  shows "find P (map f xs) = map_option f (find P xs)"
  using assms by (induction xs) auto

lemma outcome_nonempty:
  assumes "settle_record ids t j acc raw r old a replace conflict upgrade db = Inr (out, db')"
  shows "out \<noteq> [] \<and> (\<exists>st. st \<noteq> ''pending'' \<and> db_raw db' = set_raw_status raw st (db_raw db)) \<and> db_observations db' = set_outcome raw (job_id j) out (db_observations db)"
proof -
  obtain issues status where s: "db' = db\<lparr>db_issues := issues, db_identities := foldl (add_identity acc (act_id a)) (db_identities db) (record_identities r),
      db_raw := set_raw_status raw status (db_raw db), db_observations := set_outcome raw (job_id j) out (db_observations db)\<rparr>"
    and o: "(status, out) = (if replace \<and> under_review a then (act_status a, act_status a)
        else if conflict then (''needs_review'', ''needs_review'') else plain_outcome old replace upgrade a)"
    using settle_record_frame [OF assms] by blast
  have "out \<noteq> [] \<and> status \<noteq> ''pending''" using o by (auto simp: plain_outcome_def under_review_def split: if_splits)
  then show ?thesis by (auto simp: s)
qed

lemma opened_rows: "open_activity i uid t acc db = Inr (i', db1) \<Longrightarrow> db_raw db1 = db_raw db \<and> db_observations db1 = db_observations db"
  by (auto simp: open_activity_def split: if_splits)

lemma book_record_marks:
  assumes "book_record ids t j raw acc r db = Inr (out, db')"
  shows "out \<noteq> [] \<and> (\<exists>st. st \<noteq> ''pending'' \<and> db_raw db' = set_raw_status raw st (db_raw db)) \<and> db_observations db' = set_outcome raw (job_id j) out (db_observations db)"
  using assms
proof (cases rule: book_recordE)
  case (1 a idb i0 m old i db1 replace conflict b c db2)
  have "db_raw db2 = db_raw db1 \<and> db_observations db2 = db_observations db1"
    using 1(8) book_revision_Inr(8,9) by (cases replace) auto
  with opened_rows [OF 1(4)] outcome_nonempty [OF 1(9)] show ?thesis by simp
qed

text \<open>What a call leaves when it succeeds: the observation has the outcome, and the record, unless the outcome was there before, is not pending.\<close>

lemma normalized_marks:
  assumes "normalize_record_tx ids t j raw acc r db = Inr (out, db')"
  shows "(\<exists>ob. find (\<lambda>ob. ob_raw ob = raw \<and> ob_job ob = job_id j) (db_observations db') = Some ob \<and> ob_outcome ob = out) \<and> out \<noteq> []
    \<and> ((\<forall>ob\<in>set (db_observations db). ob_raw ob = raw \<and> ob_job ob = job_id j \<longrightarrow> ob_outcome ob = []) \<longrightarrow>
        (\<exists>x. find (\<lambda>x. rr_id x = raw) (db_raw db') = Some x \<and> rr_status x \<noteq> ''pending''))"
proof -
  obtain x ob where x: "find (\<lambda>x. rr_id x = raw) (db_raw db) = Some x" "find (\<lambda>ob. ob_raw ob = raw \<and> ob_job ob = job_id j) (db_observations db) = Some ob"
    using assms by (auto simp: normalize_record_tx_def rbind_Inr_iff)
  note e = assms [unfolded normalize_record_tx_def x from_option_def option.case rbind_simps]
  have s: "\<exists>ob. find (\<lambda>ob. ob_raw ob = raw \<and> ob_job ob = job_id j) (set_outcome raw (job_id j) out (db_observations db)) = Some ob \<and> ob_outcome ob = out"
    unfolding set_outcome_def using find_holds [OF x(2)] by (subst find_map_same) (auto simp: x(2))
  show ?thesis
  proof (cases "ob_outcome ob = []")
    case False
    with e x find_set [OF x(2)] find_holds [OF x(2)] show ?thesis by auto
  next
    case o: True
    show ?thesis
    proof (cases "rr_status x = ''pending''")
      case False
      with e o have d: "db' = db\<lparr>db_observations := set_outcome raw (job_id j) out (db_observations db)\<rparr>" "out \<noteq> []"
        by (auto simp: Let_def split: if_splits)
      then show ?thesis using s x False by simp
    next
      case True
      with e o have b: "book_record ids t j raw acc r db = Inr (out, db')" by simp
      from book_record_marks [OF b] obtain st where st: "out \<noteq> []" "st \<noteq> ''pending''" "db_raw db' = set_raw_status raw st (db_raw db)"
        "db_observations db' = set_outcome raw (job_id j) out (db_observations db)" by blast
      have "\<exists>y. find (\<lambda>x. rr_id x = raw) (db_raw db') = Some y \<and> rr_status y \<noteq> ''pending''"
        unfolding st(3) set_raw_status_def using find_holds [OF x(1)] st(2) by (subst find_map_same) (auto simp: x(1))
      with st s show ?thesis by simp
    qed
  qed
qed

text \<open>A record that is not pending, or whose observation has its outcome, changes nothing in the ledger.\<close>

lemma settled_record:
  assumes "normalizeHistoryRecord ids t j raw acc r db = (res, db')"
    and "(\<exists>ob. find (\<lambda>ob. ob_raw ob = raw \<and> ob_job ob = job_id j) (db_observations db) = Some ob \<and> ob_outcome ob = out \<and> out \<noteq> []) \<or>
      (\<exists>x. find (\<lambda>x. rr_id x = raw) (db_raw db) = Some x \<and> rr_status x \<noteq> ''pending'')"
  shows "ledger_part db' = ledger_part db \<and>
    ((\<exists>ob. find (\<lambda>ob. ob_raw ob = raw \<and> ob_job ob = job_id j) (db_observations db) = Some ob \<and> ob_outcome ob = out \<and> out \<noteq> []) \<longrightarrow> res = Inr out \<or> (\<exists>e. res = Inl e))"
proof (cases res)
  case (Inl e)
  with assms(1) have "db' = db" unfolding normalizeHistoryRecord_def by (auto dest: under_lease_Inl)
  with Inl show ?thesis by simp
next
  case (Inr o')
  obtain jobs where b: "normalize_record_tx ids t j raw acc r (db\<lparr>db_jobs := jobs\<rparr>) = Inr (o', db')"
    using under_lease_Inr [OF assms(1) [unfolded normalizeHistoryRecord_def Inr]] by blast
  obtain x ob where x: "find (\<lambda>x. rr_id x = raw) (db_raw db) = Some x" "find (\<lambda>ob. ob_raw ob = raw \<and> ob_job ob = job_id j) (db_observations db) = Some ob"
    using b by (auto simp: normalize_record_tx_def rbind_Inr_iff)
  have "ob_outcome ob \<noteq> [] \<or> rr_status x \<noteq> ''pending''" using assms(2) x by auto
  then show ?thesis using b x assms(2) Inr by (auto simp: normalize_record_tx_def from_option_def Let_def ledger_part_def split: if_splits)
qed


lemma ledger_part_fields:
  assumes "ledger_part d = ledger_part db"
  shows "db_activities d = db_activities db" "db_revisions d = db_revisions db" "db_identities d = db_identities db" "db_dirty d = db_dirty db"
    "current_revision i d = current_revision i db" "manual_duplicate i d = manual_duplicate i db" "rule_upgrade raw old d = rule_upgrade raw old db"
proof -
  have d: "db_activities d = db_activities db" "db_revisions d = db_revisions db" "db_identities d = db_identities db" "db_dirty d = db_dirty db"
    "db_sources d = db_sources db" "db_links d = db_links db" using assms by (simp_all add: ledger_part_def)
  show "db_activities d = db_activities db" "db_revisions d = db_revisions db" "db_identities d = db_identities db" "db_dirty d = db_dirty db"
    "current_revision i d = current_revision i db" "manual_duplicate i d = manual_duplicate i db" "rule_upgrade raw old d = rule_upgrade raw old db"
    unfolding current_revision_def manual_duplicate_def rule_upgrade_def d by (rule refl)+
qed

section \<open>What may replace a revision\<close>

lemma source_priority_range: "source_priority s \<in> {10, 30}"
  by (simp add: source_priority_def)

text \<open>The reasons for which a record replaces the revision \<open>v\<close>.\<close>

definition better_evidence :: "string \<Rightarrow> raw_record \<Rightarrow> revision_row \<Rightarrow> activity \<Rightarrow> bool \<Rightarrow> bool" where
  "better_evidence raw r v b upgrade \<longleftrightarrow> rv_priority v < source_priority (raw_source r)
     \<or> rv_priority v = source_priority (raw_source r) \<and> source_newer (raw_source_updated_at r) (rv_source_updated_at v)
     \<or> rv_priority v \<le> source_priority (raw_source r) \<and> transferCostOnlyEnrichment (rv_payload v) b
     \<or> upgrade"

lemma verdict_replaces:
  assumes "ledger_verdict (Some v) b (raw_source_updated_at r) (source_priority (raw_source r)) manual upgrade = (True, conflict)" "0 < rv_no v"
    and "upgrade \<longrightarrow> rv_priority v < acceptedRevisionSourcePriority"
  shows "rv_priority v \<noteq> acceptedRevisionSourcePriority \<and> \<not> manual \<and> \<not> same_content b (rv_payload v) \<and> better_evidence raw r v b upgrade"
  using assms source_priority_range [of "raw_source r"]
  by (auto simp: ledger_verdict_def first_verdict_def better_evidence_def acceptedRevisionSourcePriority_def Let_def split: if_splits)


section \<open>One activity per identity\<close>

lemma add_identity_known:
  "idn_external_id k \<noteq> [] \<Longrightarrow> \<exists>x\<in>set (add_identity acc i rows k). identity_hit acc k x"
  by (auto simp: add_identity_def identity_hit_def)

lemma add_identities_known:
  "k \<in> set ks \<Longrightarrow> idn_external_id k \<noteq> [] \<Longrightarrow> \<exists>x\<in>set (foldl (add_identity acc i) rows ks). identity_hit acc k x"
proof (induction ks arbitrary: rows)
  case (Cons q ks)
  show ?case
  proof (cases "k = q")
    case True
    from add_identity_known [OF Cons.prems(2), of acc i rows] obtain x where "x \<in> set (add_identity acc i rows k)" "identity_hit acc k x" by blast
    moreover have "set (add_identity acc i rows k) \<subseteq> set (foldl (add_identity acc i) (add_identity acc i rows k) ks)"
      by (rule set_mono_prefix) (rule add_identities_prefix)
    ultimately show ?thesis using True by auto
  next
    case False
    with Cons show ?thesis by simp
  qed
qed simp

text \<open>The external ids of a record that the account's ledger knows.\<close>

definition knows :: "int \<Rightarrow> identity_row list \<Rightarrow> identity \<Rightarrow> bool" where
  "knows acc rows k \<longleftrightarrow> (\<exists>x\<in>set rows. identity_hit acc k x)"


section \<open>The rebuild of the performance series\<close>

lemma earlier_le: "d \<noteq> [] \<Longrightarrow> earlier e d \<noteq> [] \<and> earlier e d \<le> d" "e \<noteq> [] \<Longrightarrow> earlier e d \<noteq> [] \<and> earlier e d \<le> e"
  by (auto simp: earlier_def)

lemma foldl_earlier:
  "(e \<noteq> [] \<longrightarrow> foldl (\<lambda>e x. earlier e (g x)) e xs \<noteq> [] \<and> foldl (\<lambda>e x. earlier e (g x)) e xs \<le> e) \<and>
   (\<forall>x\<in>set xs. g x \<noteq> [] \<longrightarrow> foldl (\<lambda>e x. earlier e (g x)) e xs \<noteq> [] \<and> foldl (\<lambda>e x. earlier e (g x)) e xs \<le> g x)"
proof (induction xs arbitrary: e)
  case (Cons x xs)
  let ?e = "earlier e (g x)"
  note ih = Cons.IH [of ?e]
  have "foldl (\<lambda>e x. earlier e (g x)) ?e xs \<noteq> [] \<and> foldl (\<lambda>e x. earlier e (g x)) ?e xs \<le> e" if "e \<noteq> []"
    using ih earlier_le(2) [OF that, of "g x"] by (meson order.trans)
  moreover have "foldl (\<lambda>e x. earlier e (g x)) ?e xs \<noteq> [] \<and> foldl (\<lambda>e x. earlier e (g x)) ?e xs \<le> g x" if "g x \<noteq> []"
    using ih earlier_le(1) [OF that, of e] by (meson order.trans)
  ultimately show ?case using ih by auto
qed simp

text \<open>The dates of an activity that the rebuild looks at.\<close>

definition considered :: "activity \<Rightarrow> string set" where
  "considered a = {d. d \<noteq> [] \<and> ((\<exists>l\<in>set (act_legs a). d = (if leg_effective_date l = [] then leg_settlement_date l else leg_effective_date l))
     \<or> d = act_settlement_date a \<or> d = act_trade_date a \<or> 10 \<le> length (act_occurred_at a) \<and> d = take 10 (act_occurred_at a))}"

lemma earliest_of_le:
  "(e \<noteq> [] \<longrightarrow> earliest_of e a \<noteq> [] \<and> earliest_of e a \<le> e) \<and> (\<forall>d\<in>considered a. earliest_of e a \<noteq> [] \<and> earliest_of e a \<le> d)"
proof -
  define g :: "leg \<Rightarrow> string" where "g l = (if leg_effective_date l = [] then leg_settlement_date l else leg_effective_date l)" for l
  define e1 where "e1 = foldl (\<lambda>e l. earlier e (g l)) e (act_legs a)"
  define e2 where "e2 = earlier (earlier e1 (act_settlement_date a)) (act_trade_date a)"
  define e3 where "e3 = (if 10 \<le> length (act_occurred_at a) then if e2 = [] \<or> take 10 (act_occurred_at a) < e2 then take 10 (act_occurred_at a) else e2 else e2)"
  have e: "earliest_of e a = e3" by (simp add: earliest_of_def e3_def e2_def e1_def g_def Let_def)
  have s3: "e3 \<noteq> [] \<and> e3 \<le> e2" if "e2 \<noteq> []" using that by (auto simp: e3_def)
  have s2: "e3 \<noteq> [] \<and> e3 \<le> e1" if "e1 \<noteq> []"
    using that s3 earlier_le(2) [of e1 "act_settlement_date a"] earlier_le(2) [of "earlier e1 (act_settlement_date a)" "act_trade_date a"]
    unfolding e2_def [symmetric] by (meson order.trans)
  note f1 = foldl_earlier [of e g "act_legs a", folded e1_def]
  have t: "e3 \<noteq> [] \<and> e3 \<le> act_trade_date a" if "act_trade_date a \<noteq> []"
    using s3 earlier_le(1) [OF that, of "earlier e1 (act_settlement_date a)"] unfolding e2_def [symmetric] by (meson order.trans)
  have st: "e3 \<noteq> [] \<and> e3 \<le> act_settlement_date a" if "act_settlement_date a \<noteq> []"
    using s3 earlier_le(1) [OF that, of e1] earlier_le(2) [of "earlier e1 (act_settlement_date a)" "act_trade_date a"]
    unfolding e2_def [symmetric] by (meson order.trans)
  have oc: "e3 \<noteq> [] \<and> e3 \<le> take 10 (act_occurred_at a)" if "10 \<le> length (act_occurred_at a)"
    using that by (auto simp: e3_def)
  have "e3 \<noteq> [] \<and> e3 \<le> d" if d: "d \<in> considered a" for d
  proof -
    from d consider l where "l \<in> set (act_legs a)" "d = g l" "d \<noteq> []" | "d = act_settlement_date a" "d \<noteq> []" | "d = act_trade_date a" "d \<noteq> []"
      | "10 \<le> length (act_occurred_at a)" "d = take 10 (act_occurred_at a)" by (auto simp: considered_def g_def)
    then show ?thesis
    proof cases
      case (1 l)
      with f1 have "e1 \<noteq> [] \<and> e1 \<le> d" by blast
      with s2 show ?thesis by (meson order.trans)
    qed (use t st oc in blast)+
  qed
  moreover have "e3 \<noteq> [] \<and> e3 \<le> e" if "e \<noteq> []" using f1 s2 that by (meson order.trans)
  ultimately show ?thesis by (simp add: e)
qed

lemma earliestPerformanceDate_le:
  assumes "d \<in> considered a \<union> considered b"
  shows "earliestPerformanceDate [a, b] \<noteq> [] \<and> earliestPerformanceDate [a, b] \<le> d"
  using assms earliest_of_le [of "[]" a] earliest_of_le [of "earliest_of [] a" b]
  by (auto simp: earliestPerformanceDate_def dest: order.trans)

lemma marked_dirty:
  assumes "from \<noteq> []" "from \<le> d"
  shows "\<exists>x\<in>set (markPerformanceDirtyTx t acc from rows). dt_account x = acc \<and> dt_from x \<le> d"
proof (cases "acc \<in> dt_account ` set rows")
  case True
  then obtain x where x: "x \<in> set rows" "dt_account x = acc" by blast
  define y where "y = x\<lparr>dt_from := (if from < dt_from x then from else dt_from x), dt_updated_at := nowRFC3339 t\<rparr>"
  have "y \<in> set (markPerformanceDirtyTx t acc from rows)" using assms(1) True x by (force simp: markPerformanceDirtyTx_def y_def)
  moreover have "dt_account y = acc \<and> dt_from y \<le> d" using assms(2) x(2) by (auto simp: y_def not_less intro: order.trans)
  ultimately show ?thesis by blast
next
  case False
  with assms show ?thesis by (simp add: markPerformanceDirtyTx_def)
qed

lemma leg_dates_considered: "l \<in> set (act_legs a) \<Longrightarrow> legDate a l \<noteq> [] \<Longrightarrow> \<exists>d\<in>considered a. d \<le> legDate a l"
  by (rule bexI [of _ "legDate a l"]) (auto simp: legDate_def considered_def split: if_splits)

text \<open>The series of the account is marked to be rebuilt from a day not after any leg that the calculator books.\<close>

definition rebuilt_from :: "int \<Rightarrow> activity \<Rightarrow> dirty_row list \<Rightarrow> bool" where
  "rebuilt_from acc a rows \<longleftrightarrow> (\<forall>l\<in>set (act_legs a). legDate a l \<noteq> [] \<longrightarrow> (\<exists>x\<in>set rows. dt_account x = acc \<and> dt_from x \<le> legDate a l))"

lemma rebuilt_from_mark:
  assumes "c \<in> {a, b}"
  shows "rebuilt_from acc c (markPerformanceDirtyTx t acc (earliestPerformanceDate [a, b]) rows)"
  unfolding rebuilt_from_def
proof (intro ballI impI)
  fix l assume "l \<in> set (act_legs c)" "legDate c l \<noteq> []"
  then obtain d where d: "d \<in> considered a \<union> considered b" "d \<le> legDate c l" using leg_dates_considered assms by blast
  from earliestPerformanceDate_le [OF d(1)] d(2)
  show "\<exists>x\<in>set (markPerformanceDirtyTx t acc (earliestPerformanceDate [a, b]) rows). dt_account x = acc \<and> dt_from x \<le> legDate c l"
    by (intro marked_dirty) (auto intro: order.trans)
qed

text \<open>C24: The performance series is rebuilt from early enough. Whenever a call books a revision, the account's rebuild mark is not after the
  day on which the calculator books any leg of the new revision, nor any leg of the revision that it replaces.\<close>

theorem rebuild_covers_change:
  assumes "normalizeHistoryRecord ids t j raw acc r db = (res, db')" "ledger_ok db"
  shows "(\<forall>v\<in>set (db_revisions db'). v \<in> set (db_revisions db) \<or> rebuilt_from acc (rv_payload v) (db_dirty db')) \<and>
     (\<forall>x\<in>set (db_activities db). x \<in> set (db_activities db') \<or>
        (\<exists>v. current_revision (ar_id x) db = Some v \<and> rebuilt_from acc (rv_payload v) (db_dirty db')))"
  using assms(1)
proof (cases rule: normalize_record_cases)
  case 1
  then show ?thesis by (simp add: ledger_part_def)
next
  case (2 d out)
  note f = ledger_part_fields [OF 2(1)]
  have ok: "ledger_ok d" using assms(2) ledger_part_eq(1) [OF 2(1)] by simp
  from 2(2) ok show ?thesis
  proof (cases rule: book_record_cases)
    case (opened a)
    then show ?thesis using rebuilt_from_mark [of a zero_activity a] by (auto simp: f)
  next
    case (replaced a b y w conflict)
    have old: "rebuilt_from acc (rv_payload w) (db_dirty db')" and new: "rebuilt_from acc a (db_dirty db')"
      unfolding replaced(11) by (rule rebuilt_from_mark, simp)+
    have kept: "x \<in> set (db_activities db') \<or> ar_id x = ar_id y" if "x \<in> set (db_activities db)" for x
      using that by (force simp: replaced(8) f)
    have c: "current_revision (ar_id y) db = Some w" using replaced(3) by (simp add: f)
    have "x \<in> set (db_activities db') \<or> (\<exists>v. current_revision (ar_id x) db = Some v \<and> rebuilt_from acc (rv_payload v) (db_dirty db'))"
      if "x \<in> set (db_activities db)" for x
      using kept [OF that] c old by metis
    moreover have "v \<in> set (db_revisions db) \<or> rebuilt_from acc (rv_payload v) (db_dirty db')" if "v \<in> set (db_revisions db')" for v
      using that new by (auto simp: replaced(9) f)
    ultimately show ?thesis by blast
  next
    case (evidence y)
    then show ?thesis by (simp add: f)
  qed
qed

section \<open>A delivery and its correction\<close>

text \<open>The gateway reports a delivery of shares, a statement corrects it under the same external id.\<close>

definition example_delivery :: "string \<Rightarrow> string \<Rightarrow> string \<Rightarrow> raw_record" where
  "example_delivery src key amount = \<lparr>raw_source = src, raw_namespace = ''ibkr.'' @ src, raw_key = key, raw_record_type = ''transfer'',
     raw_provider_account_id = ''U1'', raw_source_updated_at = [], raw_payload = ''{}'',
     raw_activity = zero_activity\<lparr>act_type := ''security_transfer'', act_status := StatusEffective, act_booking_status := BookingBooked,
       act_trade_date := ''2023-11-10'', act_legs := [zero_leg\<lparr>leg_kind := ''position'', leg_symbol := ''A'', leg_asset_type := ''STK'', leg_currency := ''USD'', leg_quantity_delta := amount\<rparr>]\<rparr>,
     raw_identities = [\<lparr>idn_namespace = ''ibkr'', idn_kind = ''transaction'', idn_external_id = ''T1''\<rparr>]\<rparr>"

definition example_raw_row :: "string \<Rightarrow> raw_record \<Rightarrow> raw_row" where
  "example_raw_row i r = \<lparr>rr_id = i, rr_account = 3, rr_source = raw_source r, rr_namespace = raw_namespace r, rr_record_type = raw_record_type r,
     rr_key = raw_key r, rr_payload_hash = i, rr_payload = raw_payload r, rr_normalized = r, rr_source_updated_at = [], rr_status = ''pending'',
     rr_rule_version = RuleVersion, rr_created_at = []\<rparr>"

definition example_observation :: "string \<Rightarrow> observation" where
  "example_observation i = \<lparr>ob_raw = i, ob_job = ''j1'', ob_observed_at = [], ob_outcome = []\<rparr>"

definition example_running :: history_job where
  "example_running = \<lparr>job_id = ''j1'', job_status = ''running'', job_phase = ''normalize'', job_lease_owner = ''w1'', job_lease_generation = 1,
     job_lease_until = ''2023-11-15T00:00:00Z'', job_attempt = 1, job_request = example_job_request [3], job_counts = zero_counts, job_coverage = [],
     job_error = [], job_created_at = [], job_updated_at = []\<rparr>"

definition example_ids :: "nat \<Rightarrow> fresh_ids" where
  "example_ids n = \<lparr>ni_activity = ''a'' @ nat_str n, ni_revision = ''v'' @ nat_str n, ni_leg = (\<lambda>i. ''l'' @ nat_str n @ nat_str i), ni_order = ''o'' @ nat_str n,
     ni_cost = (\<lambda>i. ''c'' @ nat_str n @ nat_str i), ni_conflict = ''x'' @ nat_str n, ni_issue = ''y'' @ nat_str n, ni_instrument = (\<lambda>i. 7 + int i)\<rparr>"

definition example_ledger :: ledger_db where
  "example_ledger = \<lparr>db_jobs = [history_job.extend example_running \<lparr>row_connection = Some 1, row_source = ''flex'', row_next_attempt = []\<rparr>], db_imports = [],
     db_accounts = [\<lparr>acc_id = 3, acc_provider = ''IBKR'', acc_provider_account_id = ''U1'', acc_display_name = [], acc_archived_at = [], acc_generation = 0\<rparr>],
     db_connections = [1], db_account_connections = [(3, 1)],
     db_raw = [example_raw_row ''r1'' (example_delivery ''gateway'' ''k1'' ''100'')], db_observations = [example_observation ''r1''], db_coverage = [],
     db_activities = [], db_revisions = [], db_legs = [], db_identities = [], db_sources = [], db_links = [], db_orders = [], db_fills = [], db_costs = [],
     db_issues = [], db_instruments = \<lparr>idb_providers = [''IBKR''], idb_instruments = [], idb_mappings = []\<rparr>, db_dirty = []\<rparr>"

definition example_first :: "string result \<times> ledger_db" where
  "example_first = normalizeHistoryRecord (example_ids 0) example_start example_running ''r1'' 3 (example_delivery ''gateway'' ''k1'' ''100'') example_ledger"

definition example_view :: "string result \<times> ledger_db \<Rightarrow> string result \<times> (string \<times> int) list \<times> (string \<times> int \<times> int) list \<times> (int \<times> string) list \<times> nat" where
  "example_view = (\<lambda>(res, db). (res, map (\<lambda>x. (ar_id x, ar_current x)) (db_activities db), map (\<lambda>v. (rv_activity v, rv_no v, rv_priority v)) (db_revisions db),
     map (\<lambda>x. (dt_account x, dt_from x)) (db_dirty db), length (db_identities db)))"

lemma example_first_run:
  "example_view example_first = (Inr ''added'', [(''a0'', 1)], [(''a0'', 1, 10)], [(3, ''2023-11-10'')], 2)"
  by code_simp

lemma example_first_ok: "ledger_ok example_ledger" "ni_activity (example_ids n) \<noteq> []"
  by (simp_all add: ledger_ok_def example_ledger_def tables_ok_def example_ids_def)

lemma example_first_db:
  obtains db where "example_first = (Inr ''added'', db)" "length (db_activities db) = 1" "length (db_revisions db) = 1" "length (db_identities db) = 2"
    "map rv_no (db_revisions db) = [1]" "map dt_from (db_dirty db) = [''2023-11-10'']"
proof (cases example_first)
  case (Pair res db)
  from example_first_run [unfolded example_view_def Pair prod.case] have v: "res = Inr ''added''" "map (\<lambda>x. (ar_id x, ar_current x)) (db_activities db) = [(''a0'', 1)]"
    "map (\<lambda>v. (rv_activity v, rv_no v, rv_priority v)) (db_revisions db) = [(''a0'', 1, 10)]"
    "map (\<lambda>x. (dt_account x, dt_from x)) (db_dirty db) = [(3, ''2023-11-10'')]" "length (db_identities db) = 2"
    by simp_all
  show thesis
    by (rule that [of db]) (use Pair v in \<open>auto dest: map_eq_Cons_D\<close>)
qed


theorem ledger_is_append_only_witness:
  "\<exists>counts db. NormalizeHistoryJob example_ids (\<lambda>_. example_start) example_running example_ledger = (counts, db) \<and>
     ledger_ok db \<and> prefix (db_revisions example_ledger) (db_revisions db) \<and> length (db_revisions db) = 1"
proof -
  obtain db where f: "example_first = (Inr ''added'', db)" "length (db_revisions db) = 1" by (rule example_first_db)
  have r: "observed_rows (job_id example_running) example_ledger = [example_raw_row ''r1'' (example_delivery ''gateway'' ''k1'' ''100'')]"
    by (simp add: observed_rows_def example_ledger_def example_observation_def example_raw_row_def example_running_def)
  obtain counts where n: "NormalizeHistoryJob example_ids (\<lambda>_. example_start) example_running example_ledger = (counts, db)"
    using f(1) [unfolded example_first_def] unfolding NormalizeHistoryJob_def r by (simp add: example_raw_row_def Let_def)
  from ledger_is_append_only [OF this example_first_ok] f(2) n show ?thesis by (auto simp: extends_ledger_def)
qed


theorem rebuild_covers_change_witness:
  "\<exists>db v. example_first = (Inr ''added'', db) \<and> db_revisions db = [v] \<and> rebuilt_from 3 (rv_payload v) (db_dirty db)"
proof -
  obtain db where f: "example_first = (Inr ''added'', db)" "length (db_revisions db) = 1" by (rule example_first_db)
  then obtain v where "db_revisions db = [v]" by (auto simp: length_Suc_conv)
  with rebuild_covers_change [OF f(1) [unfolded example_first_def] example_first_ok(1)] f show ?thesis
    by (auto simp: example_ledger_def)
qed

text \<open>The ledger with the gateway's delivery, and the statement that corrects it.\<close>

definition example_payload :: activity where
  "example_payload = (raw_activity (example_delivery ''gateway'' ''k1'' ''100''))\<lparr>act_id := ''a0'', act_account_id := 3, act_revision := 1,
     act_legs := []\<rparr>\<lparr>act_status := StatusNeedsReview\<rparr>"

definition example_booked :: ledger_db where
  "example_booked = example_ledger\<lparr>db_raw := [example_raw_row ''r2'' (example_delivery ''flex'' ''k2'' ''120'')], db_observations := [example_observation ''r2''],
     db_activities := [\<lparr>ar_id = ''a0'', ar_account = 3, ar_current = 1, ar_created_at = []\<rparr>],
     db_revisions := [\<lparr>rv_id = ''v0'', rv_activity = ''a0'', rv_no = 1, rv_type = ''security_transfer'', rv_status = StatusNeedsReview, rv_booking = BookingBooked,
       rv_sort_key = ''2023-11-10|'', rv_payload = example_payload, rv_priority = 10, rv_source_updated_at = [], rv_rule_version = RuleVersion, rv_created_at = []\<rparr>],
     db_identities := [\<lparr>ix_account = 3, ix_namespace = ''ibkr'', ix_kind = ''transaction'', ix_external_id = ''T1'', ix_activity = ''a0''\<rparr>]\<rparr>"

definition example_second :: "string result \<times> ledger_db" where
  "example_second = normalizeHistoryRecord (example_ids 1) example_start example_running ''r2'' 3 (example_delivery ''flex'' ''k2'' ''120'') example_booked"

lemma example_second_run:
  "example_view example_second = (Inr ''updated'', [(''a0'', 2)], [(''a0'', 1, 10), (''a0'', 2, 30)], [(3, ''2023-11-10'')], 2)"
  by code_simp

lemma example_booked_ok: "ledger_ok example_booked"
proof -
  have "parse_date ''2023-11-10'' \<noteq> None" by code_simp
  then have "activity_ok example_payload"
    by (simp add: activity_ok_def example_payload_def example_delivery_def zero_activity_def date_ok_def CashEffects_def)
  then show ?thesis
    by (simp add: ledger_ok_def tables_ok_def example_booked_def revisions_of_def revision_ok_def stored_legs_def payload_legs_def example_ledger_def)
      (simp add: example_payload_def example_delivery_def zero_activity_def)
qed


end
