(* ===== verification/History_Review.thy ===== *)
theory History_Review
  imports Ledger_Facts
begin

text \<open>
  What a reviewer can do about an issue of the ledger (\<open>internal/store/activity_resolution.go\<close> and
  \<open>ResolveHistoryIssue\<close> in \<open>activity_records.go\<close>): confirm that a source repeats another activity, confirm that
  it does not, accept a revision that no order decides, or pair two transfers. A decision books what the stored
  raw record says; no amount comes from the request.

  The record of an issue and the revision it is about are read in the transaction, under the lock of the account's row,
  so a decision is one step. The keys that a decision may insert are the argument \<open>ids\<close>, that of a link is \<open>link\<close>.
\<close>

section \<open>Evidence\<close>

definition manualReviewSourcePriority :: int where
  "manualReviewSourcePriority = 1000"

definition manual_rule :: string where
  "manual_rule = ''manual-review-v1''"

abbreviation NoEvidence :: string where "NoEvidence \<equiv> ''resolution_requires_evidence''"
abbreviation StaleIssue :: string where "StaleIssue \<equiv> ''issue_revision_stale''"

text \<open>A column that may be null, read with \<open>COALESCE(x, '')\<close>.\<close>

definition coalesce :: "string option \<Rightarrow> string" where
  "coalesce x = (case x of None \<Rightarrow> [] | Some s \<Rightarrow> s)"

text \<open>Decoding the details into a struct takes the fields that it has and leaves the others empty.\<close>

fun duplicate_warnings :: "issue_details \<Rightarrow> string list" where
  "duplicate_warnings (Revision_Conflict n a warnings) = warnings"
| "duplicate_warnings (Review_Warnings warnings) = warnings"
| "duplicate_warnings (Balance_Mismatch a b d) = []"

fun conflict_parts :: "issue_details \<Rightarrow> string list \<times> int \<times> activity" where
  "conflict_parts (Revision_Conflict n a warnings) = (warnings, n, a)"
| "conflict_parts (Review_Warnings warnings) = (warnings, 0, zero_activity)"
| "conflict_parts (Balance_Mismatch a b d) = ([], 0, zero_activity)"

definition hasDuplicateResolutionEvidence :: "string \<Rightarrow> issue_details \<Rightarrow> bool" where
  "hasDuplicateResolutionEvidence kind details = (if kind \<noteq> StatusNeedsReview then False
     else let warnings = duplicate_warnings details
       in if warnings = [] then False else list_all (\<lambda>w. w = ''ambiguous_duplicate'' \<or> w = ''potential_trade_fee_overlap'') warnings)"

section \<open>The instruments of a reviewed activity\<close>

definition review_identity :: "string \<Rightarrow> leg \<Rightarrow> instrument_identity" where
  "review_identity provider l = \<lparr>ii_preserve_broker_identity = False, ii_provider_code = provider, ii_external_id = leg_external_instrument_id l,
     ii_asset_type = leg_asset_type l, ii_market = [], ii_symbol = leg_symbol l, ii_name = [], ii_exchange = [], ii_currency = leg_currency l\<rparr>"

type_synonym resolved = "(string \<times> int) list"

text \<open>One leg: the legs done so far, the instruments of the external ids seen, the table of instruments.\<close>

definition review_leg :: "fresh_ids \<Rightarrow> instant \<Rightarrow> string \<Rightarrow> leg list \<times> resolved \<times> instrument_db \<Rightarrow> nat \<times> leg \<Rightarrow>
    (leg list \<times> resolved \<times> instrument_db) result" where
  "review_leg ids t provider = (\<lambda>(legs, seen, db) (i, l).
     if leg_kind l \<noteq> ''position'' then Inr (legs @ [l], seen, db)
     else if leg_symbol l = [] then Inl ''instrument identity is incomplete''
     else rbind (resolveInstrumentTx (ni_instrument ids i) t (review_identity provider l) db) (\<lambda>(r, db).
       if leg_instrument_id l \<noteq> 0 \<and> leg_instrument_id l \<noteq> ir_id r then Inl ''instrument identity mismatch''
       else Inr (legs @ [l\<lparr>leg_instrument_id := ir_id r\<rparr>],
         if leg_external_instrument_id l \<noteq> [] then AList.update (leg_external_instrument_id l) (ir_id r) seen else seen, db)))"

definition review_cost :: "string \<Rightarrow> resolved \<Rightarrow> instrument_db \<Rightarrow> cost_adjustment \<Rightarrow> cost_adjustment result" where
  "review_cost provider seen db c = (let n = (case map_of seen (cost_external_instrument_id c) of None \<Rightarrow> 0 | Some n \<Rightarrow> n) in
     rbind (if n = 0 \<and> cost_external_instrument_id c \<noteq> [] then
         from_option ''cost instrument identity is unresolved'' (map_option bi_instrument_id
           (find (\<lambda>m. bi_provider_code m = provider \<and> bi_external_id m = cost_external_instrument_id c) (idb_mappings db)))
       else Inr n) (\<lambda>n.
     if n = 0 \<or> cost_instrument_id c \<noteq> 0 \<and> cost_instrument_id c \<noteq> n then Inl ''cost instrument identity mismatch''
     else Inr (c\<lparr>cost_instrument_id := n\<rparr>)))"

definition review_costs :: "string \<Rightarrow> resolved \<Rightarrow> instrument_db \<Rightarrow> cost_adjustment list \<Rightarrow> cost_adjustment list result" where
  "review_costs provider seen db cs = rfold (\<lambda>done c. rbind (review_cost provider seen db c) (\<lambda>c. Inr (done @ [c]))) [] cs"

definition resolveReviewInstruments :: "fresh_ids \<Rightarrow> instant \<Rightarrow> activity \<Rightarrow> instrument_db \<Rightarrow> (activity \<times> instrument_db) result" where
  "resolveReviewInstruments ids t a db =
     rbind (rfold (review_leg ids t (act_provider a)) ([], [], db) (List.enumerate 0 (act_legs a))) (\<lambda>(legs, seen, db).
     rbind (review_costs (act_provider a) seen db (act_cost_adjustments a)) (\<lambda>cs.
     Inr (a\<lparr>act_legs := legs, act_cost_adjustments := cs\<rparr>, db)))"

section \<open>The same effects\<close>

definition duplicateDatesMatch :: "activity \<Rightarrow> activity \<Rightarrow> bool" where
  "duplicateDatesMatch c u =
     (if act_trade_date c = [] \<or> act_trade_date c \<noteq> act_trade_date u then False
      else if act_settlement_date c \<noteq> [] \<and> act_settlement_date c \<noteq> act_settlement_date u then False
      else if act_occurred_at c \<noteq> [] \<and> act_occurred_at c \<noteq> act_occurred_at u then False else True)"

definition sameActivityDecimal :: "string \<Rightarrow> string \<Rightarrow> bool" where
  "sameActivityDecimal a b \<longleftrightarrow> Compare a b = Inr 0"

definition sameOptionalActivityDecimal :: "string \<Rightarrow> string \<Rightarrow> bool" where
  "sameOptionalActivityDecimal a b = (if a = [] \<or> b = [] then a = b else sameActivityDecimal a b)"

definition sameActivityLeg :: "leg \<Rightarrow> leg \<Rightarrow> bool" where
  "sameActivityLeg l r =
     (if leg_kind l \<noteq> leg_kind r \<or> leg_component l \<noteq> leg_component r \<or> leg_effective_date l = [] \<or> leg_effective_date l \<noteq> leg_effective_date r then False
      else if leg_settlement_date l \<noteq> [] \<and> leg_settlement_date l \<noteq> leg_settlement_date r then False
      else if leg_kind l = ''cash'' then leg_currency l = leg_currency r \<and> sameActivityDecimal (leg_cash_delta l) (leg_cash_delta r)
      else leg_instrument_id l \<noteq> 0 \<and> leg_instrument_id l = leg_instrument_id r \<and> sameActivityDecimal (leg_quantity_delta l) (leg_quantity_delta r))"

definition sameCostAdjustment :: "cost_adjustment \<Rightarrow> cost_adjustment \<Rightarrow> bool" where
  "sameCostAdjustment l r \<longleftrightarrow> cost_instrument_id l \<noteq> 0 \<and> cost_instrument_id l = cost_instrument_id r
     \<and> cost_currency l = cost_currency r \<and> cost_allocation_method l = cost_allocation_method r \<and> cost_evidence l = cost_evidence r
     \<and> sameOptionalActivityDecimal (cost_basis_delta l) (cost_basis_delta r)
     \<and> sameOptionalActivityDecimal (cost_basis_before l) (cost_basis_before r)
     \<and> sameOptionalActivityDecimal (cost_basis_after l) (cost_basis_after r)"

text \<open>Each item takes the first one of the targets that is the same and not used yet.\<close>

fun contained :: "('a \<Rightarrow> 'a \<Rightarrow> bool) \<Rightarrow> 'a list \<Rightarrow> nat list \<Rightarrow> 'a list \<Rightarrow> bool" where
  "contained same us used [] = True"
| "contained same us used (c # cs) = (case find (\<lambda>i. i \<notin> set used \<and> same c (us ! i)) [0..<length us] of
     None \<Rightarrow> False | Some i \<Rightarrow> contained same us (i # used) cs)"

definition activityEffectsContained :: "activity \<Rightarrow> activity \<Rightarrow> bool" where
  "activityEffectsContained c u = (if act_legs c = [] \<and> act_cost_adjustments c = [] then False
     else contained sameActivityLeg (act_legs u) [] (act_legs c)
       \<and> contained sameCostAdjustment (act_cost_adjustments u) [] (act_cost_adjustments c))"

section \<open>What a decision reads\<close>

definition find_issue :: "string \<Rightarrow> 'a ledger_db_scheme \<Rightarrow> issue_row result" where
  "find_issue i db = from_option ErrNotFound (find (\<lambda>x. is_id x = i) (db_issues db))"

definition stored_record :: "string \<Rightarrow> int \<Rightarrow> 'a ledger_db_scheme \<Rightarrow> raw_record result" where
  "stored_record raw acc db = rbind (from_option ErrNotFound (find (\<lambda>x. rr_id x = raw \<and> rr_account x = acc) (db_raw db))) (\<lambda>x. Inr (rr_normalized x))"

definition account_revision :: "string \<Rightarrow> int \<Rightarrow> 'a ledger_db_scheme \<Rightarrow> revision_row result" where
  "account_revision i acc db = rbind (from_option ErrNotFound (find (\<lambda>x. ar_id x = i \<and> ar_account x = acc) (db_activities db))) (\<lambda>x.
     from_option ErrNotFound (find (\<lambda>v. rv_activity v = i \<and> rv_no v = ar_current x) (db_revisions db)))"

definition source_role :: "string \<Rightarrow> string \<Rightarrow> 'a ledger_db_scheme \<Rightarrow> string option" where
  "source_role revision raw db = map_option sr_role (find (\<lambda>x. sr_revision x = revision \<and> sr_raw x = raw) (db_sources db))"

text \<open>The record belongs to the account at the broker that the activity is of.\<close>

definition foreign_record :: "raw_record \<Rightarrow> activity \<Rightarrow> bool" where
  "foreign_record r a \<longleftrightarrow> raw_provider_account_id r \<noteq> act_provider_account_id a
     \<or> act_provider_account_id (raw_activity r) \<noteq> [] \<and> act_provider_account_id (raw_activity r) \<noteq> act_provider_account_id a"

definition because :: "string \<Rightarrow> 'a result \<Rightarrow> 'a result" where
  "because e r = (case r of Inl d \<Rightarrow> Inl (e @ '': '' @ d) | Inr x \<Rightarrow> Inr x)"

text \<open>The instruments and the validation of an activity that is to be booked.\<close>

definition reviewed_activity :: "fresh_ids \<Rightarrow> instant \<Rightarrow> activity \<Rightarrow> instrument_db \<Rightarrow> (activity \<times> instrument_db) result" where
  "reviewed_activity ids t a db = rbind (because NoEvidence (resolveReviewInstruments ids t a db)) (\<lambda>(a, db).
     case validate_activity a of (a, None) \<Rightarrow> Inr (a, db) | (_, Some e) \<Rightarrow> Inl (NoEvidence @ '': '' @ e))"

section \<open>What a decision writes\<close>

definition insertReviewedActivityRows :: "fresh_ids \<Rightarrow> int \<Rightarrow> activity \<Rightarrow> 'a ledger_db_scheme \<Rightarrow> 'a ledger_db_scheme result" where
  "insertReviewedActivityRows ids acc a db =
     rbind (rfold (insert_leg ids) db (List.enumerate 0 (act_legs a))) (\<lambda>db.
     rbind (insert_fill ids acc a db) (\<lambda>db.
     rfold (insert_cost ids) db (List.enumerate 0 (act_cost_adjustments a))))"

definition insert_link :: "string \<Rightarrow> instant \<Rightarrow> string \<Rightarrow> string \<Rightarrow> string \<Rightarrow> int \<Rightarrow> 'a ledger_db_scheme \<Rightarrow> 'a ledger_db_scheme result" where
  "insert_link uid t from to kind user db =
     (if \<exists>l\<in>set (db_links db). lk_from l = from \<and> lk_to l = to \<and> lk_relation l = kind then Inr db
      else if uid \<in> lk_id ` set (db_links db) then Inl ErrConstraint
      else if from \<notin> ar_id ` set (db_activities db) \<or> to \<notin> ar_id ` set (db_activities db) then Inl ErrReference
      else Inr (db\<lparr>db_links := db_links db @ [\<lparr>lk_id = uid, lk_from = from, lk_to = to, lk_relation = kind, lk_created_by = user,
        lk_created_at = nowRFC3339 t\<rparr>]\<rparr>))"

definition reviewed_revision :: "fresh_ids \<Rightarrow> instant \<Rightarrow> string \<Rightarrow> int \<Rightarrow> string \<Rightarrow> activity \<Rightarrow> revision_row" where
  "reviewed_revision ids t i priority updated a = \<lparr>rv_id = ni_revision ids, rv_activity = i, rv_no = act_revision a, rv_type = act_type a,
     rv_status = act_status a, rv_booking = act_booking_status a, rv_sort_key = act_trade_date a @ ''|'' @ act_occurred_at a,
     rv_payload = a, rv_priority = priority, rv_source_updated_at = updated, rv_rule_version = manual_rule, rv_created_at = nowRFC3339 t\<rparr>"

text \<open>The sources of the old revision become those of the new one, changed by \<open>f\<close>.\<close>

definition inherit_sources :: "fresh_ids \<Rightarrow> string \<Rightarrow> (source_row \<Rightarrow> source_row) \<Rightarrow> source_row list \<Rightarrow> source_row list" where
  "inherit_sources ids old f rows = foldl (\<lambda>rows s. cite_source s rows) rows
     (map (\<lambda>s. (f s)\<lparr>sr_revision := ni_revision ids\<rparr>) (filter (\<lambda>s. sr_revision s = old) rows))"

definition resolve_issue :: "string \<Rightarrow> instant \<Rightarrow> string \<Rightarrow> issue_row list \<Rightarrow> issue_row list" where
  "resolve_issue i t text = map (\<lambda>x. if is_id x = i then x\<lparr>is_status := ''resolved'', is_resolution := text, is_updated_at := nowRFC3339 t\<rparr> else x)"

text \<open>The end of a decision: the new revision \<open>a\<close> of the activity \<open>i\<close> replaces \<open>old\<close>, whose payload is \<open>before\<close>.\<close>

definition book_decision :: "fresh_ids \<Rightarrow> instant \<Rightarrow> int \<Rightarrow> string \<Rightarrow> string \<Rightarrow> string \<Rightarrow> string \<Rightarrow> int \<Rightarrow> string \<Rightarrow> (source_row \<Rightarrow> source_row) \<Rightarrow>
    revision_row \<Rightarrow> activity \<Rightarrow> 'a ledger_db_scheme \<Rightarrow> (unit \<times> 'a ledger_db_scheme) result" where
  "book_decision ids t acc i raw issue resolution priority updated f old a db =
     (let a = a\<lparr>act_sources := []\<rparr> in
      rbind (insert_revision (reviewed_revision ids t i priority updated a) db) (\<lambda>db.
      rbind (insertReviewedActivityRows ids acc a db) (\<lambda>db.
      Inr ((), db\<lparr>db_sources := inherit_sources ids (rv_id old) f (db_sources db),
        db_activities := map (\<lambda>x. if ar_id x = i then x\<lparr>ar_current := act_revision a\<rparr> else x) (db_activities db),
        db_raw := set_raw_status raw ''done'' (db_raw db),
        db_issues := resolve_issue issue t resolution (db_issues db),
        db_accounts := map (\<lambda>x. if acc_id x = acc then x\<lparr>acc_generation := acc_generation x + 1\<rparr> else x) (db_accounts db),
        db_dirty := markPerformanceDirtyTx t acc (earliestPerformanceDate [rv_payload old, a]) (db_dirty db)\<rparr>))))"

section \<open>Confirming or refuting a duplicate\<close>

definition duplicate_resolution :: "string \<Rightarrow> string \<Rightarrow> int \<Rightarrow> string \<Rightarrow> string" where
  "duplicate_resolution action target user match = json_object [(''action'', Some (json_quote action)), (''match_method'', Some (json_quote match)),
     (''target_activity_id'', Some (json_quote target)), (''user_id'', Some (int_str user))]"

text \<open>The source stands for an activity of its own: its record is booked as it is stored.\<close>

definition distinct_activity :: "fresh_ids \<Rightarrow> instant \<Rightarrow> string \<Rightarrow> string \<Rightarrow> int \<Rightarrow> raw_record \<Rightarrow> activity \<Rightarrow> 'a ledger_db_scheme \<Rightarrow>
    (activity \<times> 'a ledger_db_scheme) result" where
  "distinct_activity ids t i target acc r current db =
     (if target \<noteq> [] then Inl ''invalid_duplicate_target''
      else let a = (raw_activity r)\<lparr>act_id := i, act_account_id := acc, act_provider := act_provider current,
          act_provider_account_id := act_provider_account_id current, act_revision := act_revision current + 1\<rparr>
        in if act_status a = StatusUnsupported then Inl NoEvidence
           else let a = a\<lparr>act_status := StatusEffective, act_warnings := []\<rparr>
             in if act_trade_date a = [] then Inl NoEvidence
                else rbind (reviewed_activity ids t a (db_instruments db)) (\<lambda>(a, instruments). Inr (a, db\<lparr>db_instruments := instruments\<rparr>)))"

text \<open>The source repeats the target: all its effects are there, so the activity is voided, with a link to the target.\<close>

definition same_activity :: "fresh_ids \<Rightarrow> string \<Rightarrow> instant \<Rightarrow> string \<Rightarrow> string \<Rightarrow> string \<Rightarrow> int \<Rightarrow> int \<Rightarrow> raw_record \<Rightarrow> activity \<Rightarrow> 'a ledger_db_scheme \<Rightarrow>
    (activity \<times> 'a ledger_db_scheme) result" where
  "same_activity ids link t i raw target acc user r current db =
     (if target = [] \<or> target = i then Inl ''invalid_duplicate_target''
      else let c = (raw_activity r)\<lparr>act_account_id := acc, act_provider := act_provider current, act_provider_account_id := act_provider_account_id current\<rparr>
        in if act_status c \<noteq> StatusEffective \<and> act_status c \<noteq> StatusNeedsReview then Inl NoEvidence
           else rbind (reviewed_activity ids t c (db_instruments db)) (\<lambda>(c, instruments).
             let db = db\<lparr>db_instruments := instruments\<rparr> in
             rbind (account_revision target acc db) (\<lambda>v. let u = rv_payload v in
             if act_account_id u \<noteq> acc \<or> act_status u \<noteq> StatusEffective \<or> \<not> duplicateDatesMatch c u then Inl NoEvidence
             else if \<not> activityEffectsContained c u then Inl ''duplicate_effect_mismatch''
             else let db = db\<lparr>db_sources := cite_source \<lparr>sr_revision = rv_id v, sr_raw = raw, sr_role = ''corroboration'',
                 sr_match = ''manual_exact_effect''\<rparr> (db_sources db)\<rparr>
               in rbind (insert_link link t i target ''duplicate_of'' user db) (\<lambda>db.
                  Inr (current\<lparr>act_revision := act_revision current + 1, act_status := StatusVoided,
                    act_warnings := [''duplicate_source_confirmed'']\<rparr>, db)))))"

definition resolve_duplicate_tx :: "fresh_ids \<Rightarrow> string \<Rightarrow> instant \<Rightarrow> string \<Rightarrow> string \<Rightarrow> string \<Rightarrow> int \<Rightarrow> 'a ledger_db_scheme \<Rightarrow> (unit \<times> 'a ledger_db_scheme) result" where
  "resolve_duplicate_tx ids link t issue action target user db =
     rbind (find_issue issue db) (\<lambda>x. let acc = is_account x; i = coalesce (is_activity x); raw = coalesce (is_raw x) in
     rbind (require (is_status x \<noteq> ''resolved'') ''issue_already_resolved'') (\<lambda>_.
     rbind (require (is_status x = ''open'' \<and> i \<noteq> [] \<and> raw \<noteq> [] \<and> hasDuplicateResolutionEvidence (is_type x) (is_details x)) NoEvidence) (\<lambda>_.
     rbind (stored_record raw acc db) (\<lambda>r.
     rbind (account_revision i acc db) (\<lambda>old. let current = rv_payload old in
     rbind (require (act_status current = StatusNeedsReview) StaleIssue) (\<lambda>_.
     rbind (require (source_role (rv_id old) raw db = Some ''principal'') StaleIssue) (\<lambda>_.
     rbind (require (\<not> foreign_record r current) NoEvidence) (\<lambda>_.
     rbind (if action = ''confirm_distinct'' then distinct_activity ids t i target acc r current db
            else if action = ''confirm_same'' then same_activity ids link t i raw target acc user r current db
            else Inl NoEvidence) (\<lambda>(a, db).
     book_decision ids t acc i raw issue
       (duplicate_resolution action target user (if action = ''confirm_same'' then ''manual_same'' else ''manual_distinct''))
       manualReviewSourcePriority (rv_source_updated_at old) (\<lambda>s. s) old a db)))))))))"

section \<open>Accepting a revision\<close>

definition accept_resolution :: "string \<Rightarrow> int \<Rightarrow> string" where
  "accept_resolution raw user = json_object [(''action'', Some (json_quote ''accept_revision'')),
     (''match_method'', Some (json_quote ''manual_accept_revision'')), (''raw_record_id'', Some (json_quote raw)), (''user_id'', Some (int_str user))]"

definition promote :: "string \<Rightarrow> source_row \<Rightarrow> source_row" where
  "promote raw s = s\<lparr>sr_role := (if sr_raw s = raw then ''principal'' else ''corroboration''),
     sr_match := (if sr_raw s = raw then ''manual_accept_revision'' else sr_match s)\<rparr>"

definition resolve_conflict_tx :: "fresh_ids \<Rightarrow> instant \<Rightarrow> string \<Rightarrow> int \<Rightarrow> 'a ledger_db_scheme \<Rightarrow> (unit \<times> 'a ledger_db_scheme) result" where
  "resolve_conflict_tx ids t issue user db =
     rbind (find_issue issue db) (\<lambda>x. let acc = is_account x; i = coalesce (is_activity x); raw = coalesce (is_raw x) in
     rbind (require (is_status x \<noteq> ''resolved'') ''issue_already_resolved'') (\<lambda>_.
     case conflict_parts (is_details x) of (warnings, number, proposed) \<Rightarrow>
     rbind (require (is_status x = ''open'' \<and> is_type x = ''source_revision_conflict'' \<and> i \<noteq> [] \<and> raw \<noteq> [] \<and> 0 < number
       \<and> warnings = [''source_revision_order_unknown'']) NoEvidence) (\<lambda>_.
     rbind (stored_record raw acc db) (\<lambda>r.
     rbind (account_revision i acc db) (\<lambda>old. let current = rv_payload old in
     rbind (require (act_revision current = number) StaleIssue) (\<lambda>_.
     rbind (require (source_role (rv_id old) raw db = Some ''corroboration'') StaleIssue) (\<lambda>_.
     rbind (require (\<not> foreign_record r current) NoEvidence) (\<lambda>_.
     let a = (raw_activity r)\<lparr>act_id := i, act_account_id := acc, act_provider := act_provider current,
          act_provider_account_id := act_provider_account_id current, act_revision := act_revision current + 1, act_sources := []\<rparr> in
     rbind (require (act_status a = StatusEffective \<or> act_status a = StatusVoided) NoEvidence) (\<lambda>_.
     rbind (reviewed_activity ids t a (db_instruments db)) (\<lambda>(a, instruments).
     rbind (require (act_id proposed \<noteq> [] \<and> activity_json (proposed\<lparr>act_sources := []\<rparr>) = activity_json a) NoEvidence) (\<lambda>_.
     book_decision ids t acc i raw issue (accept_resolution raw user) acceptedRevisionSourcePriority (raw_source_updated_at r) (promote raw) old a
       (db\<lparr>db_instruments := instruments\<rparr>))))))))))))"

definition resolveHistoryRevisionConflict :: "fresh_ids \<Rightarrow> instant \<Rightarrow> string \<Rightarrow> string \<Rightarrow> int \<Rightarrow> ('a ledger_db_scheme, unit) call" where
  "resolveHistoryRevisionConflict ids t issue target user db =
     (if user < 0 \<or> target \<noteq> [] then (Inl NoEvidence, db) else transaction (resolve_conflict_tx ids t issue user) db)"

definition resolveHistoryDuplicate :: "fresh_ids \<Rightarrow> string \<Rightarrow> instant \<Rightarrow> string \<Rightarrow> string \<Rightarrow> string \<Rightarrow> int \<Rightarrow> ('a ledger_db_scheme, unit) call" where
  "resolveHistoryDuplicate ids link t issue action target user db =
     (if action = ''accept_revision'' then resolveHistoryRevisionConflict ids t issue target user db
      else if user < 0 then (Inl NoEvidence, db) else transaction (resolve_duplicate_tx ids link t issue action target user) db)"

section \<open>Pairing transfers\<close>

text \<open>The effects of a leg and its counterpart cancel.\<close>

definition opposite_legs :: "leg \<Rightarrow> leg \<Rightarrow> bool" where
  "opposite_legs l r \<longleftrightarrow> leg_kind l = leg_kind r \<and> leg_currency l = leg_currency r \<and> leg_instrument_id l = leg_instrument_id r
     \<and> (let (x, y) = (if leg_kind l = ''position'' then (leg_quantity_delta l, leg_quantity_delta r) else (leg_cash_delta l, leg_cash_delta r))
        in Add x y = Inr ''0'')"

definition transfer_resolution :: "string \<Rightarrow> int \<Rightarrow> string" where
  "transfer_resolution target user = json_object [(''action'', Some (json_quote ''link_transfer'')), (''target'', Some (json_quote target)),
     (''user_id'', Some (int_str user))]"

definition pair_transfer_tx :: "string \<Rightarrow> instant \<Rightarrow> string \<Rightarrow> string \<Rightarrow> string \<Rightarrow> int \<Rightarrow> 'a ledger_db_scheme \<Rightarrow> (unit \<times> 'a ledger_db_scheme) result" where
  "pair_transfer_tx link t issue action target user db =
     rbind (find_issue issue db) (\<lambda>x. let i = coalesce (is_activity x) in
     if action = ''keep_pending'' then Inr ((), db)
     else if action \<noteq> ''link_transfer'' then Inl NoEvidence
     else rbind (from_option ErrNotFound (current_revision target db)) (\<lambda>w. let other = rv_payload w in
     rbind (from_option ErrNoRows (current_revision i db)) (\<lambda>v. let a = rv_payload v in
     rbind (require (\<not> (i = target \<or> act_account_id a = act_account_id other \<or> \<not> sublist ''transfer'' (act_type a) \<or> act_type a \<noteq> act_type other))
       ''invalid_transfer_pair'') (\<lambda>_.
     rbind (require (act_legs a \<noteq> [] \<and> list_all2 opposite_legs (act_legs a) (act_legs other)) ''transfer_effect_mismatch'') (\<lambda>_.
     rbind (insert_link link t i target ''transfer_pair'' user db) (\<lambda>db.
     Inr ((), db\<lparr>db_issues := resolve_issue issue t (transfer_resolution target user) (db_issues db),
       db_accounts := map (\<lambda>y. if acc_id y = is_account x \<or> acc_id y = act_account_id other
         then y\<lparr>acc_generation := acc_generation y + 1\<rparr> else y) (db_accounts db)\<rparr>)))))))"

definition ResolveHistoryIssue :: "fresh_ids \<Rightarrow> string \<Rightarrow> instant \<Rightarrow> string \<Rightarrow> string \<Rightarrow> string \<Rightarrow> int \<Rightarrow> ('a ledger_db_scheme, unit) call" where
  "ResolveHistoryIssue ids link t issue action target user db =
     (if action = ''confirm_same'' \<or> action = ''confirm_distinct'' \<or> action = ''accept_revision''
      then resolveHistoryDuplicate ids link t issue action target user db
      else transaction (pair_transfer_tx link t issue action target user) db)"

end
