(* ===== verification/Review_Facts.thy ===== *)
theory Review_Facts
  imports History_Review
begin

text \<open>
  What the decisions of a reviewer promise: the ledger stays consistent and append-only under every sequence of records and
  decisions, a decision books what the stored record says or voids what another activity contains, and no later record
  undoes it.
\<close>

section \<open>What a decision leaves alone\<close>

lemma reviewed_rows_frame:
  assumes "insertReviewedActivityRows ids acc a db = Inr db'"
  shows "\<exists>os fs cs. db' = db\<lparr>db_legs := db_legs db @ leg_rows ids 0 (act_legs a), db_orders := os, db_fills := fs, db_costs := cs\<rparr>"
proof -
  obtain d2 d3 where d: "rfold (insert_leg ids) db (List.enumerate 0 (act_legs a)) = Inr d2" "insert_fill ids acc a d2 = Inr d3"
    "rfold (insert_cost ids) d3 (List.enumerate 0 (act_cost_adjustments a)) = Inr db'"
    using assms unfolding insertReviewedActivityRows_def rbind_Inr_iff by blast
  obtain os fs where i3: "d3 = d2\<lparr>db_orders := os, db_fills := fs\<rparr>" using insert_fill_Inr [OF d(2)] by blast
  obtain cs where i4: "db' = d3\<lparr>db_costs := cs\<rparr>" using insert_costs_Inr [OF d(3)] by blast
  show ?thesis
    by (rule exI [of _ os], rule exI [of _ fs], rule exI [of _ cs]) (simp add: i4 i3 insert_legs_Inr [OF d(1)])
qed

lemma book_decision_frame:
  assumes "book_decision ids t acc i raw issue res priority updated f old a db = Inr (u, db')"
  defines "b \<equiv> a\<lparr>act_sources := []\<rparr>"
  shows "ni_revision ids \<notin> rv_id ` set (db_revisions db) \<and> (\<exists>os fs cs. db' = db\<lparr>
    db_revisions := db_revisions db @ [reviewed_revision ids t i priority updated b],
    db_legs := db_legs db @ leg_rows ids 0 (act_legs a), db_orders := os, db_fills := fs, db_costs := cs,
    db_sources := inherit_sources ids (rv_id old) f (db_sources db),
    db_activities := map (\<lambda>x. if ar_id x = i then x\<lparr>ar_current := act_revision a\<rparr> else x) (db_activities db),
    db_raw := set_raw_status raw ''done'' (db_raw db), db_issues := resolve_issue issue t res (db_issues db),
    db_accounts := map (\<lambda>x. if acc_id x = acc then x\<lparr>acc_generation := acc_generation x + 1\<rparr> else x) (db_accounts db),
    db_dirty := markPerformanceDirtyTx t acc (earliestPerformanceDate [rv_payload old, b]) (db_dirty db)\<rparr>)"
proof -
  have b: "act_legs b = act_legs a" "act_revision b = act_revision a" by (simp_all add: b_def)
  obtain d1 d2 where d: "insert_revision (reviewed_revision ids t i priority updated b) db = Inr d1" "insertReviewedActivityRows ids acc b d1 = Inr d2"
    and e: "db' = d2\<lparr>db_sources := inherit_sources ids (rv_id old) f (db_sources d2),
        db_activities := map (\<lambda>x. if ar_id x = i then x\<lparr>ar_current := act_revision b\<rparr> else x) (db_activities d2),
        db_raw := set_raw_status raw ''done'' (db_raw d2), db_issues := resolve_issue issue t res (db_issues d2),
        db_accounts := map (\<lambda>x. if acc_id x = acc then x\<lparr>acc_generation := acc_generation x + 1\<rparr> else x) (db_accounts d2),
        db_dirty := markPerformanceDirtyTx t acc (earliestPerformanceDate [rv_payload old, b]) (db_dirty d2)\<rparr>"
    using assms(1) unfolding book_decision_def Let_def b_def [symmetric] rbind_Inr_iff by auto
  obtain os fs cs where r: "d2 = d1\<lparr>db_legs := db_legs d1 @ leg_rows ids 0 (act_legs b), db_orders := os, db_fills := fs, db_costs := cs\<rparr>"
    using reviewed_rows_frame [OF d(2)] by blast
  show ?thesis using insert_revision_Inr(2) [OF d(1)]
    by (intro conjI exI [of _ os] exI [of _ fs] exI [of _ cs]) (simp_all add: reviewed_revision_def e r insert_revision_Inr(1) [OF d(1)] b)
qed

text \<open>The tables of the ledger that a decision reads before it books.\<close>

definition decision_part :: "'a ledger_db_scheme \<Rightarrow> _" where
  "decision_part db = (db_activities db, db_revisions db, db_legs db, db_identities db, db_dirty db, db_issues db, db_raw db, db_observations db, db_jobs db)"

lemma book_decision_Inr:
  assumes "book_decision ids t acc i raw issue res priority updated f old a d = Inr (u, db')" "decision_part d = decision_part db"
  defines "b \<equiv> a\<lparr>act_sources := []\<rparr>"
  shows "ni_revision ids \<notin> rv_id ` set (db_revisions db)"
    "db_revisions db' = db_revisions db @ [reviewed_revision ids t i priority updated b]"
    "db_legs db' = db_legs db @ leg_rows ids 0 (act_legs a)"
    "db_activities db' = map (\<lambda>x. if ar_id x = i then x\<lparr>ar_current := act_revision a\<rparr> else x) (db_activities db)"
    "db_identities db' = db_identities db" "db_raw db' = set_raw_status raw ''done'' (db_raw db)"
    "db_issues db' = resolve_issue issue t res (db_issues db)"
    "db_dirty db' = markPerformanceDirtyTx t acc (earliestPerformanceDate [rv_payload old, b]) (db_dirty db)"
    "db_links db' = db_links d"
  using book_decision_frame [OF assms(1)] assms(2) by (auto simp: decision_part_def b_def)

lemma find_issue_Inr: "find_issue i db = Inr x \<Longrightarrow> x \<in> set (db_issues db) \<and> is_id x = i"
  by (auto simp: find_issue_def find_Some_iff)

lemma account_revision_Inr:
  assumes "account_revision i acc db = Inr v"
  shows "\<exists>x\<in>set (db_activities db). ar_id x = i \<and> ar_account x = acc \<and> v \<in> set (db_revisions db) \<and> rv_activity v = i \<and> rv_no v = ar_current x"
proof -
  obtain x where x: "find (\<lambda>x. ar_id x = i \<and> ar_account x = acc) (db_activities db) = Some x"
    "find (\<lambda>v. rv_activity v = i \<and> rv_no v = ar_current x) (db_revisions db) = Some v"
    using assms by (auto simp: account_revision_def rbind_Inr_iff)
  from find_set [OF x(1)] find_holds [OF x(1)] find_set [OF x(2)] find_holds [OF x(2)] show ?thesis by blast
qed


lemma because_Inr [simp]: "because e r = Inr x \<longleftrightarrow> r = Inr x"
  by (simp add: because_def split: sum.splits)

section \<open>What is booked\<close>

lemma validate_activity_header:
  assumes "validate_activity a = (b, None)"
  shows "act_id b = act_id a" "act_account_id b = act_account_id a" "act_revision b = act_revision a" "act_status b = act_status a"
    "act_trade_date b = act_trade_date a" "act_warnings b = act_warnings a"
  using assms by (auto simp: validate_activity_def Let_def split: option.splits prod.splits sum.splits if_splits)

text \<open>Two legs with one effect: everything but the instrument is the same, and the deltas are the same numbers.\<close>

definition same_effect :: "leg \<Rightarrow> leg \<Rightarrow> bool" where
  "same_effect l r \<longleftrightarrow> same_leg (l\<lparr>leg_instrument_id := 0\<rparr>) (r\<lparr>leg_instrument_id := 0\<rparr>)"

lemma review_leg_Inr:
  assumes "review_leg ids t p (legs, seen, db) (n, l) = Inr (legs', seen', db')"
  shows "\<exists>k. legs' = legs @ [l\<lparr>leg_instrument_id := k\<rparr>]"
proof (cases "leg_kind l = ''position''")
  case False
  then have "legs' = legs @ [l\<lparr>leg_instrument_id := leg_instrument_id l\<rparr>]" using assms by (simp add: review_leg_def)
  then show ?thesis by blast
next
  case True
  then show ?thesis using assms by (auto simp: review_leg_def rbind_Inr_iff split: if_splits)
qed

lemma review_legs_Inr:
  assumes "rfold (review_leg ids t p) (legs, seen, db) (List.enumerate n ls) = Inr (legs', seen', db')"
  shows "\<exists>us. legs' = legs @ us \<and> list_all2 (\<lambda>l u. \<exists>k. u = l\<lparr>leg_instrument_id := k\<rparr>) ls us"
  using assms
proof (induction ls arbitrary: n legs seen db)
  case (Cons l ls)
  then obtain legs1 seen1 db1 where s: "review_leg ids t p (legs, seen, db) (n, l) = Inr (legs1, seen1, db1)"
    "rfold (review_leg ids t p) (legs1, seen1, db1) (List.enumerate (Suc n) ls) = Inr (legs', seen', db')"
    by (auto simp: rbind_Inr_iff)
  obtain k where k: "legs1 = legs @ [l\<lparr>leg_instrument_id := k\<rparr>]" using review_leg_Inr [OF s(1)] by blast
  obtain us where "legs' = legs1 @ us" "list_all2 (\<lambda>l u. \<exists>k. u = l\<lparr>leg_instrument_id := k\<rparr>) ls us" using Cons.IH [OF s(2)] by blast
  with k show ?case by (intro exI [of _ "l\<lparr>leg_instrument_id := k\<rparr> # us"]) auto
qed simp

lemma resolveReviewInstruments_Inr:
  assumes "resolveReviewInstruments ids t a db = Inr (b, db')"
  shows "\<exists>ls cs. b = a\<lparr>act_legs := ls, act_cost_adjustments := cs\<rparr> \<and> list_all2 (\<lambda>l u. \<exists>k. u = l\<lparr>leg_instrument_id := k\<rparr>) (act_legs a) ls"
proof -
  obtain legs seen where l: "rfold (review_leg ids t (act_provider a)) ([], [], db) (List.enumerate 0 (act_legs a)) = Inr (legs, seen, db')"
    and "\<exists>cs. b = a\<lparr>act_legs := legs, act_cost_adjustments := cs\<rparr>"
    using assms by (auto simp: resolveReviewInstruments_def rbind_Inr_iff)
  with review_legs_Inr [OF l] show ?thesis by auto
qed

lemma reviewed_activity_Inr:
  assumes "reviewed_activity ids t a db = Inr (b, db')"
  shows "activity_ok b" "act_id b = act_id a" "act_account_id b = act_account_id a" "act_revision b = act_revision a" "act_status b = act_status a"
    "list_all2 same_effect (act_legs a) (act_legs b)" "act_trade_date b = act_trade_date a"
proof -
  obtain c d where r: "resolveReviewInstruments ids t a db = Inr (c, d)"
    and v: "(case validate_activity c of (a, None) \<Rightarrow> Inr (a, d) | (_, Some e) \<Rightarrow> Inl (NoEvidence @ '': '' @ e)) = Inr (b, db')"
    using assms unfolding reviewed_activity_def rbind_Inr_iff by auto
  then have c: "resolveReviewInstruments ids t a db = Inr (c, db')" "validate_activity c = (b, None)"
    by (cases "validate_activity c"; cases "snd (validate_activity c)"; simp)+
  obtain ls cs where l: "c = a\<lparr>act_legs := ls, act_cost_adjustments := cs\<rparr>" "list_all2 (\<lambda>l u. \<exists>k. u = l\<lparr>leg_instrument_id := k\<rparr>) (act_legs a) ls"
    using resolveReviewInstruments_Inr [OF c(1)] by blast
  note v = validate_activity_ok [OF c(2)]
  show "activity_ok b" using v by blast
  show "act_id b = act_id a" "act_account_id b = act_account_id a" "act_revision b = act_revision a" "act_status b = act_status a"
    "act_trade_date b = act_trade_date a"
    using validate_activity_header [OF c(2)] by (simp_all add: l(1))
  have "list_all2 same_leg ls (act_legs b)" using v by (simp add: l(1))
  moreover have "same_effect l u'" if "\<exists>k. u = l\<lparr>leg_instrument_id := k\<rparr>" "same_leg u u'" for l u u'
    using that by (cases l; cases u') (auto simp: same_effect_def same_leg_def)
  ultimately show "list_all2 same_effect (act_legs a) (act_legs b)"
    using list_all2_trans [OF _ l(2), of same_leg same_effect "act_legs b"] by blast
qed


text \<open>The parts of a decision about a duplicate.\<close>

lemma resolve_duplicateE:
  assumes "resolve_duplicate_tx ids link t issue action target user db = Inr (u, db')"
  obtains x i raw r old a d where "x \<in> set (db_issues db)" "is_id x = issue" "is_status x = ''open''" "is_activity x = Some i" "is_raw x = Some raw"
    "hasDuplicateResolutionEvidence (is_type x) (is_details x)" "stored_record raw (is_account x) db = Inr r"
    "account_revision i (is_account x) db = Inr old" "act_status (rv_payload old) = StatusNeedsReview"
    "source_role (rv_id old) raw db = Some ''principal''" "\<not> foreign_record r (rv_payload old)"
    "action = ''confirm_distinct'' \<and> distinct_activity ids t i target (is_account x) r (rv_payload old) db = Inr (a, d)
     \<or> action = ''confirm_same'' \<and> same_activity ids link t i raw target (is_account x) user r (rv_payload old) db = Inr (a, d)"
    "book_decision ids t (is_account x) i raw issue
       (duplicate_resolution action target user (if action = ''confirm_same'' then ''manual_same'' else ''manual_distinct''))
       manualReviewSourcePriority (rv_source_updated_at old) (\<lambda>s. s) old a d = Inr (u, db')"
proof -
  have c: "coalesce y \<noteq> [] \<Longrightarrow> y = Some (coalesce y)" for y by (cases y) (simp_all add: coalesce_def)
  obtain x r old a d where p: "find_issue issue db = Inr x" "is_status x = ''open''" "coalesce (is_activity x) \<noteq> []" "coalesce (is_raw x) \<noteq> []"
    "hasDuplicateResolutionEvidence (is_type x) (is_details x)" "stored_record (coalesce (is_raw x)) (is_account x) db = Inr r"
    "account_revision (coalesce (is_activity x)) (is_account x) db = Inr old" "act_status (rv_payload old) = StatusNeedsReview"
    "source_role (rv_id old) (coalesce (is_raw x)) db = Some ''principal''" "\<not> foreign_record r (rv_payload old)"
    "(if action = ''confirm_distinct'' then distinct_activity ids t (coalesce (is_activity x)) target (is_account x) r (rv_payload old) db
      else if action = ''confirm_same'' then same_activity ids link t (coalesce (is_activity x)) (coalesce (is_raw x)) target (is_account x) user r (rv_payload old) db
      else Inl NoEvidence) = Inr (a, d)"
    "book_decision ids t (is_account x) (coalesce (is_activity x)) (coalesce (is_raw x)) issue
       (duplicate_resolution action target user (if action = ''confirm_same'' then ''manual_same'' else ''manual_distinct''))
       manualReviewSourcePriority (rv_source_updated_at old) (\<lambda>s. s) old a d = Inr (u, db')"
    using assms unfolding resolve_duplicate_tx_def Let_def rbind_Inr_iff require_Inr by (auto simp: split_beta)
  note f = find_issue_Inr [OF p(1)]
  show thesis
    by (rule that [of x "coalesce (is_activity x)" "coalesce (is_raw x)" r old a d]) (use p f c in \<open>auto split: if_splits\<close>)
qed

lemma resolve_conflictE:
  assumes "resolve_conflict_tx ids t issue user db = Inr (u, db')"
  obtains x i raw r old a idb where "x \<in> set (db_issues db)" "is_id x = issue" "is_status x = ''open''" "is_activity x = Some i" "is_raw x = Some raw"
    "is_type x = ''source_revision_conflict''" "stored_record raw (is_account x) db = Inr r" "account_revision i (is_account x) db = Inr old"
    "\<not> foreign_record r (rv_payload old)" "act_status (raw_activity r) \<in> {StatusEffective, StatusVoided}"
    "reviewed_activity ids t ((raw_activity r)\<lparr>act_id := i, act_account_id := is_account x, act_provider := act_provider (rv_payload old),
          act_provider_account_id := act_provider_account_id (rv_payload old), act_revision := act_revision (rv_payload old) + 1, act_sources := []\<rparr>)
       (db_instruments db) = Inr (a, idb)"
    "activity_json ((snd (snd (conflict_parts (is_details x))))\<lparr>act_sources := []\<rparr>) = activity_json a"
    "book_decision ids t (is_account x) i raw issue (accept_resolution raw user) acceptedRevisionSourcePriority (raw_source_updated_at r) (promote raw) old a
       (db\<lparr>db_instruments := idb\<rparr>) = Inr (u, db')"
proof -
  have c: "coalesce y \<noteq> [] \<Longrightarrow> y = Some (coalesce y)" for y by (cases y) (simp_all add: coalesce_def)
  obtain x where x: "find_issue issue db = Inr x" using assms unfolding resolve_conflict_tx_def rbind_Inr_iff by blast
  obtain warnings number proposed where n: "conflict_parts (is_details x) = (warnings, number, proposed)" by (cases "conflict_parts (is_details x)")
  note e = assms [unfolded resolve_conflict_tx_def x rbind_simps Let_def n prod.case]
  obtain r old a idb where p: "is_status x = ''open''" "is_type x = ''source_revision_conflict''" "coalesce (is_activity x) \<noteq> []" "coalesce (is_raw x) \<noteq> []"
    "stored_record (coalesce (is_raw x)) (is_account x) db = Inr r" "account_revision (coalesce (is_activity x)) (is_account x) db = Inr old"
    "\<not> foreign_record r (rv_payload old)" "act_status (raw_activity r) = StatusEffective \<or> act_status (raw_activity r) = StatusVoided"
    "reviewed_activity ids t ((raw_activity r)\<lparr>act_id := coalesce (is_activity x), act_account_id := is_account x, act_provider := act_provider (rv_payload old),
          act_provider_account_id := act_provider_account_id (rv_payload old), act_revision := act_revision (rv_payload old) + 1, act_sources := []\<rparr>)
       (db_instruments db) = Inr (a, idb)"
    "activity_json (proposed\<lparr>act_sources := []\<rparr>) = activity_json a"
    "book_decision ids t (is_account x) (coalesce (is_activity x)) (coalesce (is_raw x)) issue (accept_resolution (coalesce (is_raw x)) user)
       acceptedRevisionSourcePriority (raw_source_updated_at r) (promote (coalesce (is_raw x))) old a (db\<lparr>db_instruments := idb\<rparr>) = Inr (u, db')"
    using e unfolding rbind_Inr_iff require_Inr by (auto simp: split_beta rbind_Inr_iff)
  note f = find_issue_Inr [OF x]
  show thesis
    by (rule that [of x "coalesce (is_activity x)" "coalesce (is_raw x)" r old a idb]) (use p f c n in auto)
qed


section \<open>The ledger under decisions\<close>

lemma account_revision_current:
  assumes "account_revision i acc db = Inr v" "ledger_ok db"
  shows "current_revision i db = Some v" "act_revision (rv_payload v) = rv_no v" "act_id (rv_payload v) = i" "act_account_id (rv_payload v) = acc"
    "activity_ok (rv_payload v)"
proof -
  obtain x where x: "x \<in> set (db_activities db)" "ar_id x = i" "ar_account x = acc" "v \<in> set (db_revisions db)" "rv_activity v = i" "rv_no v = ar_current x"
    using account_revision_Inr [OF assms(1)] by blast
  note d = tables_okD [OF assms(2) [unfolded ledger_ok_def]]
  have f: "find (\<lambda>y. ar_id y = i) (db_activities db) = Some x" using find_by_key [OF d(1) x(1)] by (simp add: x(2))
  have g: "find (\<lambda>x. ar_id x = i \<and> ar_account x = acc) (db_activities db) = Some y \<Longrightarrow> y = x" for y
    using same_key [OF d(1) _ x(1), of y] x(2) find_set [of _ "db_activities db" y] find_holds [of _ "db_activities db" y] by blast
  from assms(1) g have "find (\<lambda>v. rv_activity v = i \<and> rv_no v = ar_current x) (db_revisions db) = Some v"
    by (auto simp: account_revision_def rbind_Inr_iff)
  then show "current_revision i db = Some v" by (simp add: current_revision_def f)
  obtain y where "y \<in> set (db_activities db)" "ar_id y = i" "revision_ok y v" using d(6) [OF x(4)] x(5) by auto
  with same_key [OF d(1) this(1) x(1)] x(2) have "revision_ok x v" by simp
  with x show "act_revision (rv_payload v) = rv_no v" "act_id (rv_payload v) = i" "act_account_id (rv_payload v) = acc" "activity_ok (rv_payload v)"
    by (simp_all add: revision_ok_def)
qed

lemma later_revision:
  assumes ok: "tables_ok acts revs legs idents" and x: "x \<in> set acts" and v: "rv_activity v = ar_id x" "rv_no v = ar_current x + 1"
  shows "find (\<lambda>w. rv_activity w = ar_id x \<and> rv_no w = ar_current x + 1) (revs @ [v]) = Some v"
proof -
  have "rv_no w \<noteq> ar_current x + 1" if w: "w \<in> set revs" "rv_activity w = ar_id x" for w
  proof -
    have "rv_no w \<in> set (map rv_no (revisions_of (ar_id x) revs))" using w by (simp add: revisions_of_def)
    then show ?thesis unfolding tables_okD(5) [OF ok x] by simp
  qed
  then have n: "find (\<lambda>w. rv_activity w = ar_id x \<and> rv_no w = ar_current x + 1) revs = None" by (auto simp: find_None_iff)
  have "find P (xs @ [y]) = (case find P xs of None \<Rightarrow> (if P y then Some y else None) | Some z \<Rightarrow> Some z)" for P :: "revision_row \<Rightarrow> bool" and xs y
    by (induction xs) auto
  then show ?thesis by (simp add: n v)
qed

lemma decision_ledger:
  assumes b: "book_decision ids t acc i raw issue res priority updated f old a d = Inr (u, db')" and same: "decision_part d = decision_part db"
    and ok: "ledger_ok db" and old: "account_revision i acc db = Inr old" and a: "bookable a i acc (act_revision (rv_payload old) + 1)"
  shows "ledger_ok db' \<and> extends_ledger db db' \<and>
    current_revision i db' = Some (reviewed_revision ids t i priority updated (a\<lparr>act_sources := []\<rparr>))"
proof -
  define b where "b = a\<lparr>act_sources := []\<rparr>"
  define v where "v = reviewed_revision ids t i priority updated b"
  obtain x where x: "x \<in> set (db_activities db)" "ar_id x = i" "ar_account x = acc" "old \<in> set (db_revisions db)" "rv_activity old = i" "rv_no old = ar_current x"
    using account_revision_Inr [OF old] by blast
  have n: "act_revision a = ar_current x + 1" using a account_revision_current(2) [OF old ok] x(6) by (simp add: bookable_def)
  have eb: "bookable b i acc (ar_current x + 1)" using bookable_sources [OF a] account_revision_current(2) [OF old ok] x(6) by (simp add: b_def)
  note w = book_decision_Inr [OF b same, folded b_def, folded v_def]
  have vx: "rv_id v = ni_revision ids" "rv_activity v = ar_id x" "rv_no v = ar_current x + 1" "revision_ok x v"
    using eb x(2,3) by (simp_all add: v_def reviewed_revision_def bookable_def revision_ok_def)
  have vp: "act_legs (rv_payload v) = act_legs a" by (simp add: v_def reviewed_revision_def b_def)
  have acts: "db_activities db' = map (\<lambda>y. if ar_id y = ar_id x then y\<lparr>ar_current := ar_current x + 1\<rparr> else y) (db_activities db)"
    unfolding w(4) n x(2) by simp
  have "tables_ok (db_activities db') (db_revisions db') (db_legs db') (db_identities db')"
    unfolding acts w(2,3,5) using next_revision_ok [OF ok [unfolded ledger_ok_def] x(1) vx(1) w(1) vx(2-4)] by (simp add: vp)
  then have "ledger_ok db'" by (simp add: ledger_ok_def)
  moreover have "map ar_id (db_activities db') = map ar_id (db_activities db)" "map ar_account (db_activities db') = map ar_account (db_activities db)"
    by (auto simp: acts)
  moreover have "current_revision i db' = Some v"
  proof -
    have f: "find (\<lambda>y. ar_id y = i) (db_activities db) = Some x"
      using find_by_key [OF tables_okD(1) [OF ok [unfolded ledger_ok_def]] x(1)] by (simp add: x(2))
    have "find (\<lambda>y. ar_id y = i) (db_activities db') = Some (x\<lparr>ar_current := ar_current x + 1\<rparr>)"
      unfolding acts by (subst find_map_same) (simp_all add: f x(2))
    then show ?thesis using later_revision [OF ok [unfolded ledger_ok_def] x(1) vx(2,3)] unfolding current_revision_def w(2) x(2) by simp
  qed
  ultimately show ?thesis by (simp add: extends_ledger_def w(2,3,5) v_def b_def)
qed

lemma distinct_activity_Inr:
  assumes "distinct_activity ids t i target acc r current db = Inr (a, d)"
  shows "bookable a i acc (act_revision current + 1)" "decision_part d = decision_part db" "db_links d = db_links db" "act_status a = StatusEffective"
    "list_all2 same_effect (act_legs (raw_activity r)) (act_legs a)" "act_trade_date a = act_trade_date (raw_activity r)"
proof -
  define b where "b = (raw_activity r)\<lparr>act_id := i, act_account_id := acc, act_provider := act_provider current,
    act_provider_account_id := act_provider_account_id current, act_revision := act_revision current + 1, act_status := StatusEffective, act_warnings := []\<rparr>"
  obtain idb where c: "reviewed_activity ids t b (db_instruments db) = Inr (a, idb)" "d = db\<lparr>db_instruments := idb\<rparr>"
    using assms by (auto simp: distinct_activity_def Let_def b_def rbind_Inr_iff split: if_splits)
  from reviewed_activity_Inr [OF c(1)] show "bookable a i acc (act_revision current + 1)" "act_status a = StatusEffective"
    "list_all2 same_effect (act_legs (raw_activity r)) (act_legs a)" "act_trade_date a = act_trade_date (raw_activity r)"
    by (simp_all add: bookable_def b_def)
  show "decision_part d = decision_part db" "db_links d = db_links db" by (simp_all add: c(2) decision_part_def)
qed

lemma insert_link_Inr:
  assumes "insert_link uid t from to kind user db = Inr db'"
  shows "\<exists>ls. db' = db\<lparr>db_links := ls\<rparr> \<and> (\<exists>l\<in>set ls. lk_from l = from \<and> lk_to l = to \<and> lk_relation l = kind)"
proof (cases "\<exists>l\<in>set (db_links db). lk_from l = from \<and> lk_to l = to \<and> lk_relation l = kind")
  case True
  then have "db' = db\<lparr>db_links := db_links db\<rparr>" using assms by (simp add: insert_link_def)
  with True show ?thesis by blast
next
  case False
  then show ?thesis using assms by (auto simp: insert_link_def split: if_splits)
qed


lemma same_activity_Inr:
  assumes "same_activity ids link t i raw target acc user r current db = Inr (a, d)"
  obtains c w where "target \<noteq> []" "target \<noteq> i" "account_revision target acc db = Inr w" "act_status (rv_payload w) = StatusEffective"
    "duplicateDatesMatch c (rv_payload w)" "activityEffectsContained c (rv_payload w)" "list_all2 same_effect (act_legs (raw_activity r)) (act_legs c)"
    "act_trade_date c = act_trade_date (raw_activity r)"
    "a = current\<lparr>act_revision := act_revision current + 1, act_status := StatusVoided, act_warnings := [''duplicate_source_confirmed'']\<rparr>"
    "decision_part d = decision_part db" "\<exists>l\<in>set (db_links d). lk_from l = i \<and> lk_to l = target \<and> lk_relation l = ''duplicate_of''"
proof -
  define b where "b = (raw_activity r)\<lparr>act_account_id := acc, act_provider := act_provider current, act_provider_account_id := act_provider_account_id current\<rparr>"
  have t: "target \<noteq> []" "target \<noteq> i" using assms by (auto simp: same_activity_def split: if_splits)
  obtain c idb where c: "reviewed_activity ids t b (db_instruments db) = Inr (c, idb)"
    using assms by (auto simp: same_activity_def Let_def b_def rbind_Inr_iff split: if_splits)
  define e where "e = db\<lparr>db_instruments := idb\<rparr>"
  have ae: "account_revision target acc e = account_revision target acc db" by (simp add: account_revision_def e_def)
  obtain w where w: "account_revision target acc e = Inr w" "act_status (rv_payload w) = StatusEffective" "duplicateDatesMatch c (rv_payload w)"
    "activityEffectsContained c (rv_payload w)"
    and l: "insert_link link t i target ''duplicate_of'' user (e\<lparr>db_sources := cite_source \<lparr>sr_revision = rv_id w, sr_raw = raw, sr_role = ''corroboration'',
       sr_match = ''manual_exact_effect''\<rparr> (db_sources e)\<rparr>) = Inr d"
    and a: "a = current\<lparr>act_revision := act_revision current + 1, act_status := StatusVoided, act_warnings := [''duplicate_source_confirmed'']\<rparr>"
    using assms t c unfolding same_activity_def Let_def b_def [symmetric] e_def by (auto simp: rbind_Inr_iff split: if_splits)
  from insert_link_Inr [OF l] obtain ls where ls: "d = e\<lparr>db_sources := cite_source \<lparr>sr_revision = rv_id w, sr_raw = raw, sr_role = ''corroboration'',
       sr_match = ''manual_exact_effect''\<rparr> (db_sources e), db_links := ls\<rparr>" "\<exists>l\<in>set ls. lk_from l = i \<and> lk_to l = target \<and> lk_relation l = ''duplicate_of''"
    by auto
  show thesis
    by (rule that [of w c]) (use t w(1) [unfolded ae] w(2-4) a ls reviewed_activity_Inr [OF c] in \<open>simp_all add: b_def decision_part_def e_def\<close>)
qed

lemma same_activity_bookable:
  assumes "same_activity ids link t i raw target acc user r (rv_payload old) db = Inr (a, d)" "account_revision i acc db = Inr old" "ledger_ok db"
  shows "bookable a i acc (act_revision (rv_payload old) + 1)" "decision_part d = decision_part db" "act_status a = StatusVoided"
proof -
  note v = account_revision_current [OF assms(2,3)]
  from assms(1) obtain c w where a: "a = (rv_payload old)\<lparr>act_revision := act_revision (rv_payload old) + 1, act_status := StatusVoided,
      act_warnings := [''duplicate_source_confirmed'']\<rparr>" "decision_part d = decision_part db"
    by (rule same_activity_Inr)
  show "bookable a i acc (act_revision (rv_payload old) + 1)" using v by (simp add: a bookable_def activity_ok_def)
  show "decision_part d = decision_part db" "act_status a = StatusVoided" by (simp_all add: a)
qed

text \<open>A decision that is made, whichever of the three it is: the issue, the activity that it is about, and the revision that is booked.\<close>

definition decisions :: "string set" where
  "decisions = {''confirm_same'', ''confirm_distinct'', ''accept_revision''}"

definition decided_revision :: "revision_row \<Rightarrow> bool" where
  "decided_revision v \<longleftrightarrow> rv_rule_version v = manual_rule \<and> acceptedRevisionSourcePriority \<le> rv_priority v"

lemma made_decision:
  assumes "ResolveHistoryIssue ids link t issue action target user db = (Inr u, db')" "action \<in> decisions" "ledger_ok db"
  obtains x i v where "x \<in> set (db_issues db)" "is_id x = issue" "is_status x = ''open''" "is_activity x = Some i" "ledger_ok db'" "extends_ledger db db'"
    "current_revision i db' = Some v" "decided_revision v" "\<exists>res. db_issues db' = resolve_issue issue t res (db_issues db)"
proof (cases "action = ''accept_revision''")
  case True
  then have "resolve_conflict_tx ids t issue user db = Inr (u, db')"
    using assms(1) by (auto simp: ResolveHistoryIssue_def resolveHistoryDuplicate_def resolveHistoryRevisionConflict_def transaction_def
      split: sum.splits prod.splits if_splits)
  then show thesis
  proof (cases rule: resolve_conflictE)
    case (1 x i raw r old a idb)
    have same: "decision_part (db\<lparr>db_instruments := idb\<rparr>) = decision_part db" by (simp add: decision_part_def)
    have "bookable a i (is_account x) (act_revision (rv_payload old) + 1)" using reviewed_activity_Inr [OF 1(11)] by (simp add: bookable_def)
    from decision_ledger [OF 1(13) same assms(3) 1(8) this] book_decision_Inr(7) [OF 1(13) same]
    show thesis by (intro that [OF 1(1-4)]) (auto simp: decided_revision_def reviewed_revision_def)
  qed
next
  case False
  then have "resolve_duplicate_tx ids link t issue action target user db = Inr (u, db')"
    using assms(1,2) by (auto simp: decisions_def ResolveHistoryIssue_def resolveHistoryDuplicate_def transaction_def
      split: sum.splits prod.splits if_splits)
  then show thesis
  proof (cases rule: resolve_duplicateE)
    case (1 x i raw r old a d)
    from 1(12) consider "distinct_activity ids t i target (is_account x) r (rv_payload old) db = Inr (a, d)"
      | "same_activity ids link t i raw target (is_account x) user r (rv_payload old) db = Inr (a, d)" by blast
    then have "bookable a i (is_account x) (act_revision (rv_payload old) + 1) \<and> decision_part d = decision_part db"
    proof cases
      case 1
      from distinct_activity_Inr(1,2) [OF this] show ?thesis ..
    next
      case s: 2
      from same_activity_bookable(1,2) [OF s 1(8) assms(3)] show ?thesis ..
    qed
    then have b: "bookable a i (is_account x) (act_revision (rv_payload old) + 1)" and same: "decision_part d = decision_part db" by blast+
    from decision_ledger [OF 1(13) same assms(3) 1(8) b] book_decision_Inr(7) [OF 1(13) same]
    show thesis
      by (intro that [OF 1(1-4)]) (auto simp: decided_revision_def reviewed_revision_def acceptedRevisionSourcePriority_def manualReviewSourcePriority_def)
  qed
qed

lemma pair_transfer_frame:
  assumes "pair_transfer_tx link t issue action target user db = Inr (u, db')"
  shows "\<exists>ls issues accounts. db' = db\<lparr>db_links := ls, db_issues := issues, db_accounts := accounts\<rparr>"
proof (cases "action = ''keep_pending''")
  case True
  then have "db' = db\<lparr>db_links := db_links db, db_issues := db_issues db, db_accounts := db_accounts db\<rparr>"
    using assms by (auto simp: pair_transfer_tx_def rbind_Inr_iff)
  then show ?thesis by blast
next
  case False
  then obtain i d issues accounts where l: "insert_link link t i target ''transfer_pair'' user db = Inr d"
    and d: "db' = d\<lparr>db_issues := issues, db_accounts := accounts\<rparr>"
    using assms unfolding pair_transfer_tx_def Let_def rbind_Inr_iff by (auto simp: rbind_Inr_iff split: if_splits)
  obtain ls where "d = db\<lparr>db_links := ls\<rparr>" using insert_link_Inr [OF l] by blast
  with d show ?thesis by auto
qed

lemma resolve_issue_ledger:
  assumes "ResolveHistoryIssue ids link t issue action target user db = (res, db')" "ledger_ok db"
  shows "ledger_ok db' \<and> extends_ledger db db'"
proof (cases res)
  case (Inl e)
  then have "db' = db"
    using assms(1) by (auto simp: ResolveHistoryIssue_def resolveHistoryDuplicate_def resolveHistoryRevisionConflict_def transaction_def
      split: sum.splits prod.splits if_splits)
  then show ?thesis using assms(2) by (simp add: extends_ledger_refl)
next
  case (Inr u)
  show ?thesis
  proof (cases "action \<in> decisions")
    case True
    from made_decision [OF assms(1) [unfolded Inr] True assms(2)] show ?thesis by blast
  next
    case False
    then have "pair_transfer_tx link t issue action target user db = Inr (u, db')"
      using assms(1) Inr by (auto simp: decisions_def ResolveHistoryIssue_def transaction_def split: sum.splits prod.splits if_splits)
    from pair_transfer_frame [OF this] obtain ls issues accounts
      where "db' = db\<lparr>db_links := ls, db_issues := issues, db_accounts := accounts\<rparr>" by blast
    then show ?thesis using assms(2) by (simp add: ledger_ok_def extends_ledger_def)
  qed
qed

section \<open>Records and decisions in any order\<close>

datatype ledger_op =
    Record fresh_ids instant history_job string int raw_record
  | Decision fresh_ids string instant string string string int

fun ledger_step :: "ledger_op \<Rightarrow> ledger_db \<Rightarrow> ledger_db" where
  "ledger_step (Record ids t j raw acc r) db = snd (normalizeHistoryRecord ids t j raw acc r db)"
| "ledger_step (Decision ids link t issue action target user) db = snd (ResolveHistoryIssue ids link t issue action target user db)"

fun keyed :: "ledger_op \<Rightarrow> bool" where
  "keyed (Record ids t j raw acc r) \<longleftrightarrow> ni_activity ids \<noteq> []"
| "keyed (Decision ids link t issue action target user) \<longleftrightarrow> True"

lemma ledger_step_ok: "ledger_ok db \<Longrightarrow> keyed opn \<Longrightarrow> ledger_ok (ledger_step opn db) \<and> extends_ledger db (ledger_step opn db)"
  by (cases opn) (auto dest: normalize_record_ledger [OF surjective_pairing] resolve_issue_ledger [OF surjective_pairing])

text \<open>C33: The ledger is an audit trail. Whatever records are normalised and whatever decisions are made, in any order and with any
  outcome, the tables stay consistent: every activity has the revisions 1 to the current one, each once and in order; every
  revision is a valid activity under its own id and account, with the columns and the leg rows that its payload says; every
  external id names one activity of its account. No revision, leg or identity that was there is changed or removed, and no
  activity loses its account.\<close>

theorem ledger_is_an_audit_trail:
  assumes "ledger_ok db" "list_all keyed ops"
  shows "ledger_ok (fold ledger_step ops db) \<and> extends_ledger db (fold ledger_step ops db)"
  using assms
proof (induction ops arbitrary: db)
  case (Cons opn ops)
  with ledger_step_ok [of db opn] have s: "ledger_ok (ledger_step opn db)" "extends_ledger db (ledger_step opn db)" by auto
  with Cons.IH [OF s(1)] Cons.prems(2) show ?case by (auto intro: extends_ledger_trans)
qed (simp add: extends_ledger_refl)


section \<open>A decision stands\<close>

lemma find_known: "find P xs = Some x \<Longrightarrow> find P (xs @ ys) = Some x"
  by (induction xs) (auto split: if_splits)

lemma decided_against:
  fixes r :: raw_record
  assumes "decided_revision v" "0 < rv_no v"
  shows "ledger_verdict (Some v) b (raw_source_updated_at r) (source_priority (raw_source r)) manual (rule_upgrade raw (Some v) db) \<noteq> (True, conflict)"
proof
  assume l: "ledger_verdict (Some v) b (raw_source_updated_at r) (source_priority (raw_source r)) manual (rule_upgrade raw (Some v) db) = (True, conflict)"
  have p: "acceptedRevisionSourcePriority \<le> rv_priority v" using assms(1) by (simp add: decided_revision_def)
  have "rule_upgrade raw (Some v) db \<longrightarrow> rv_priority v < acceptedRevisionSourcePriority" by (simp add: rule_upgrade_def)
  with verdict_replaces [OF l assms(2)] p source_priority_range [of "raw_source r"] show False
    by (auto simp: better_evidence_def acceptedRevisionSourcePriority_def)
qed

lemma decided_stays:
  assumes b: "normalizeHistoryRecord ids t j raw acc r db = (res, db')" and ok: "ledger_ok db"
    and v: "current_revision i db = Some v" "decided_revision v"
  shows "current_revision i db' = Some v"
  using b
proof (cases rule: normalize_record_cases)
  case 1
  then show ?thesis using v(1) ledger_part_fields(5) [OF 1] by simp
next
  case (2 d out)
  note f = ledger_part_fields [OF 2(1)]
  have okd: "ledger_ok d" using ok ledger_part_eq(1) [OF 2(1)] by simp
  obtain x where x: "find (\<lambda>x. ar_id x = i) (db_activities db) = Some x" "find (\<lambda>v. rv_activity v = i \<and> rv_no v = ar_current x) (db_revisions db) = Some v"
    using v(1) by (auto simp: current_revision_def split: option.splits)
  have xi: "x \<in> set (db_activities db)" "ar_id x = i" using find_set [OF x(1)] find_holds [OF x(1)] by auto
  from 2(2) okd show ?thesis
  proof (cases rule: book_record_cases)
    case (opened a)
    then show ?thesis using x by (simp add: current_revision_def f find_known)
  next
    case (replaced a b y w conflict)
    have "ar_id y \<noteq> i"
    proof
      assume y: "ar_id y = i"
      have wv: "w = v" using replaced(3) v(1) by (simp add: f y)
      have "0 < rv_no v" using replaced(1,4) tables_okD(4) [OF okd [unfolded ledger_ok_def], of y] by (simp add: wv)
      from decided_against [OF v(2) this, of b r "manual_duplicate (ar_id y) db" raw db conflict] replaced(5) show False by (simp add: wv f)
    qed
    moreover have "find (\<lambda>x. ar_id x = i) (map (\<lambda>z. if ar_id z = ar_id y then z\<lparr>ar_current := ar_current y + 1\<rparr> else z) (db_activities db))
        = map_option (\<lambda>z. if ar_id z = ar_id y then z\<lparr>ar_current := ar_current y + 1\<rparr> else z) (find (\<lambda>x. ar_id x = i) (db_activities db))"
      by (rule find_map_same) simp
    ultimately have "find (\<lambda>x. ar_id x = i) (db_activities db') = Some x" using x(1) xi(2) by (simp add: replaced(8) f)
    then show ?thesis using x(2) by (simp add: current_revision_def replaced(9) f find_known)
  next
    case (evidence y)
    then show ?thesis using x by (simp add: current_revision_def f)
  qed
qed

fun from_source :: "ledger_op \<Rightarrow> bool" where
  "from_source (Record ids t j raw acc r) \<longleftrightarrow> True"
| "from_source (Decision ids link t issue action target user) \<longleftrightarrow> False"

lemma decided_stays_all:
  assumes "ledger_ok db" "current_revision i db = Some v" "decided_revision v" "list_all keyed ops" "list_all from_source ops"
  shows "current_revision i (fold ledger_step ops db) = Some v"
  using assms
proof (induction ops arbitrary: db)
  case (Cons opn ops)
  then obtain ids t j raw acc r where o: "opn = Record ids t j raw acc r" by (cases opn) auto
  have "current_revision i (ledger_step opn db) = Some v"
    using decided_stays [OF surjective_pairing Cons.prems(1-3)] by (simp add: o)
  with Cons ledger_step_ok [of db opn] show ?case by simp
qed simp

text \<open>C34: A decision stands. After a reviewer confirmed a duplicate, confirmed that a source is an activity of its own, or accepted a
  revision, the activity of the issue has a current revision that was booked by the manual rule, and whatever records the sources deliver
  afterwards, of whatever job, priority and stamp, this revision stays the current one.\<close>

theorem decision_stands:
  assumes "ResolveHistoryIssue ids link t issue action target user db = (Inr u, db')" "action \<in> decisions" "ledger_ok db"
    and "list_all keyed ops" "list_all from_source ops"
  shows "\<exists>x i v. x \<in> set (db_issues db) \<and> is_id x = issue \<and> is_activity x = Some i \<and> rv_rule_version v = manual_rule \<and>
     current_revision i db' = Some v \<and> current_revision i (fold ledger_step ops db') = Some v"
  using assms(1-3)
proof (cases rule: made_decision)
  case (1 x i v)
  with decided_stays_all [OF 1(5,7,8) assms(4,5)] show ?thesis by (auto simp: decided_revision_def)
qed


section \<open>What a decision books\<close>

text \<open>Every item has a counterpart of its own.\<close>

definition has_counterparts :: "('a \<Rightarrow> 'a \<Rightarrow> bool) \<Rightarrow> 'a list \<Rightarrow> 'a list \<Rightarrow> bool" where
  "has_counterparts same cs us \<longleftrightarrow> (\<exists>f. inj_on f {..<length cs} \<and> (\<forall>k<length cs. f k < length us \<and> same (cs ! k) (us ! f k)))"

lemma contained_counterparts:
  "contained same us used cs \<Longrightarrow>
     \<exists>f. inj_on f {..<length cs} \<and> (\<forall>k<length cs. f k < length us \<and> f k \<notin> set used \<and> same (cs ! k) (us ! f k))"
proof (induction cs arbitrary: used)
  case (Cons c cs)
  then obtain i where i: "find (\<lambda>i. i \<notin> set used \<and> same c (us ! i)) [0..<length us] = Some i" "contained same us (i # used) cs"
    by (auto split: option.splits)
  have h: "i < length us" "i \<notin> set used" "same c (us ! i)" using find_set [OF i(1)] find_holds [OF i(1)] by auto
  obtain f where f: "inj_on f {..<length cs}" "\<forall>k<length cs. f k < length us \<and> f k \<notin> set (i # used) \<and> same (cs ! k) (us ! f k)"
    using Cons.IH [OF i(2)] by blast
  define g where "g = case_nat i f"
  have "inj_on g {..<length (c # cs)}"
  proof (rule inj_onI)
    fix k l assume "k \<in> {..<length (c # cs)}" "l \<in> {..<length (c # cs)}" "g k = g l"
    then show "k = l" using f by (cases k; cases l) (auto simp: g_def dest: inj_onD)
  qed
  moreover have "\<forall>k<length (c # cs). g k < length us \<and> g k \<notin> set used \<and> same ((c # cs) ! k) (us ! g k)"
    using h f(2) by (auto simp: g_def nth_Cons split: nat.splits)
  ultimately show ?case by blast
qed simp

lemma activityEffectsContained_counterparts:
  "activityEffectsContained c u \<Longrightarrow> has_counterparts sameActivityLeg (act_legs c) (act_legs u)
     \<and> has_counterparts sameCostAdjustment (act_cost_adjustments c) (act_cost_adjustments u)"
  using contained_counterparts [of sameActivityLeg "act_legs u" "[]" "act_legs c"]
    contained_counterparts [of sameCostAdjustment "act_cost_adjustments u" "[]" "act_cost_adjustments c"]
  by (auto simp: activityEffectsContained_def has_counterparts_def split: if_splits)

lemma same_leg_amounts:
  assumes "sameActivityLeg l r"
  shows "leg_kind l = leg_kind r" "leg_effective_date l = leg_effective_date r" "leg_effective_date l \<noteq> []"
    "leg_kind l = ''cash'' \<Longrightarrow> leg_currency l = leg_currency r \<and> (\<exists>x. dec_num (leg_cash_delta l) = Some x \<and> dec_num (leg_cash_delta r) = Some x)"
    "leg_kind l \<noteq> ''cash'' \<Longrightarrow> leg_instrument_id l = leg_instrument_id r \<and> (\<exists>x. dec_num (leg_quantity_delta l) = Some x \<and> dec_num (leg_quantity_delta r) = Some x)"
  using assms by (auto simp: sameActivityLeg_def sameActivityDecimal_def Compare_def rbind_Inr_iff dec_num_Some split: if_splits)



text \<open>C37: No amount comes from the request. Where a reviewer confirms that a source is an activity of its own, or accepts a revision, the
  revision that becomes current has the legs of the stored record of the issue, one by one: kind, component, currency, dates and exact
  amounts are those of the record, and only the instrument is filled in. It is effective, or, for an accepted revision, has the status of the record.\<close>

theorem decision_books_the_record:
  assumes "ResolveHistoryIssue ids link t issue action target user db = (Inr u, db')" "ledger_ok db" "action \<in> {''confirm_distinct'', ''accept_revision''}"
  shows "\<exists>x i r v. x \<in> set (db_issues db) \<and> is_id x = issue \<and> is_activity x = Some i \<and> stored_record (coalesce (is_raw x)) (is_account x) db = Inr r
     \<and> current_revision i db' = Some v \<and> list_all2 same_effect (act_legs (raw_activity r)) (act_legs (rv_payload v))
     \<and> act_trade_date (rv_payload v) = act_trade_date (raw_activity r) \<and> act_account_id (rv_payload v) = is_account x
     \<and> rv_status v = (if action = ''confirm_distinct'' then StatusEffective else act_status (raw_activity r))"
proof (cases "action = ''accept_revision''")
  case True
  then have "resolve_conflict_tx ids t issue user db = Inr (u, db')"
    using assms(1) by (auto simp: ResolveHistoryIssue_def resolveHistoryDuplicate_def resolveHistoryRevisionConflict_def transaction_def
      split: sum.splits prod.splits if_splits)
  then show ?thesis
  proof (cases rule: resolve_conflictE)
    case (1 x i raw r old a idb)
    have same: "decision_part (db\<lparr>db_instruments := idb\<rparr>) = decision_part db" by (simp add: decision_part_def)
    note a = reviewed_activity_Inr [OF 1(11)]
    have "bookable a i (is_account x) (act_revision (rv_payload old) + 1)" using a by (simp add: bookable_def)
    note l = decision_ledger [OF 1(13) same assms(2) 1(8) this]
    have "stored_record (coalesce (is_raw x)) (is_account x) db = Inr r" using 1(5,7) by (simp add: coalesce_def)
    with True 1(1,2,4) l a show ?thesis
      by (intro exI [of _ x] exI [of _ i] exI [of _ r] exI [of _ "reviewed_revision ids t i acceptedRevisionSourcePriority (raw_source_updated_at r) (a\<lparr>act_sources := []\<rparr>)"])
        (simp add: reviewed_revision_def)
  qed
next
  case False
  then have d: "action = ''confirm_distinct''" using assms(3) by simp
  then have "resolve_duplicate_tx ids link t issue action target user db = Inr (u, db')"
    using assms(1) by (auto simp: ResolveHistoryIssue_def resolveHistoryDuplicate_def transaction_def split: sum.splits prod.splits if_splits)
  then show ?thesis
  proof (cases rule: resolve_duplicateE)
    case (1 x i raw r old a d')
    have s: "distinct_activity ids t i target (is_account x) r (rv_payload old) db = Inr (a, d')" using 1(12) d by simp
    note a = distinct_activity_Inr [OF s]
    note l = decision_ledger [OF 1(13) a(2) assms(2) 1(8) a(1)]
    have "stored_record (coalesce (is_raw x)) (is_account x) db = Inr r" using 1(5,7) by (simp add: coalesce_def)
    with d 1(1,2,4) l a show ?thesis
      by (intro exI [of _ x] exI [of _ i] exI [of _ r] exI [of _ "reviewed_revision ids t i manualReviewSourcePriority (rv_source_updated_at old) (a\<lparr>act_sources := []\<rparr>)"])
        (simp add: reviewed_revision_def bookable_def)
  qed
qed

section \<open>A reviewer's decision on concrete records\<close>


text \<open>Two sources report one delivery of shares; the second one was booked for review.\<close>

definition example_mapped :: instrument_db where
  "example_mapped = \<lparr>idb_providers = [''IBKR''],
     idb_instruments = [\<lparr>ir_id = 4, ir_asset_type = ''stock'', ir_market = ''US'', ir_symbol = ''A'', ir_normalized_symbol = ''A'', ir_name = [],
       ir_currency = ''USD'', ir_status = InstrumentStatusActive, ir_created_at = [], ir_updated_at = []\<rparr>],
     idb_mappings = [\<lparr>bi_provider_code = ''IBKR'', bi_external_id = ''265598'', bi_instrument_id = 4, bi_broker_symbol = ''A'', bi_broker_exchange = [],
       bi_last_seen_at = []\<rparr>]\<rparr>"

definition example_shares :: leg where
  "example_shares = zero_leg\<lparr>leg_kind := ''position'', leg_component := ''principal'', leg_symbol := ''A'', leg_asset_type := ''STK'', leg_currency := ''USD'',
     leg_quantity_delta := ''5'', leg_effective_date := ''2023-11-10''\<rparr>"

definition example_receipt :: "string \<Rightarrow> string \<Rightarrow> int \<Rightarrow> activity" where
  "example_receipt i status n = zero_activity\<lparr>act_id := i, act_account_id := 3, act_provider := ''IBKR'', act_provider_account_id := ''U1'',
     act_type := ''security_transfer'', act_status := status, act_booking_status := BookingBooked, act_trade_date := ''2023-11-10'',
     act_time_precision := ''date'', act_revision := n, act_legs := [example_shares\<lparr>leg_instrument_id := (if i = [] then 0 else 4)\<rparr>]\<rparr>"

definition example_revision :: "string \<Rightarrow> string \<Rightarrow> string \<Rightarrow> revision_row" where
  "example_revision v i status = \<lparr>rv_id = v, rv_activity = i, rv_no = 1, rv_type = ''security_transfer'', rv_status = status, rv_booking = BookingBooked,
     rv_sort_key = ''2023-11-10|'', rv_payload = example_receipt i status 1, rv_priority = 30, rv_source_updated_at = [], rv_rule_version = RuleVersion,
     rv_created_at = []\<rparr>"

definition example_leg_row :: "string \<Rightarrow> string \<Rightarrow> leg_row" where
  "example_leg_row i v = \<lparr>lr_id = i, lr_revision = v, lr_ordinal = 0, lr_kind = ''position'', lr_component = ''principal'', lr_instrument = Some 4,
     lr_currency = Some ''USD'', lr_quantity = Some ''5'', lr_cash = None, lr_effective = ''2023-11-10'', lr_settlement = []\<rparr>"

definition example_issue :: "string \<Rightarrow> string \<Rightarrow> issue_row" where
  "example_issue st res = \<lparr>is_id = ''y1'', is_account = 3, is_activity = Some ''a1'', is_raw = Some ''r1'', is_type = StatusNeedsReview, is_status = st,
     is_details = Review_Warnings [''ambiguous_duplicate''], is_resolution = res, is_created_at = [], is_updated_at = []\<rparr>"

definition example_review :: ledger_db where
  "example_review = example_ledger\<lparr>
     db_raw := [(example_raw_row ''r1'' ((example_delivery ''flex'' ''k1'' ''1'')\<lparr>raw_activity := example_receipt [] StatusEffective 0\<rparr>))\<lparr>rr_status := StatusNeedsReview\<rparr>],
     db_observations := [], db_activities := [\<lparr>ar_id = ''a0'', ar_account = 3, ar_current = 1, ar_created_at = []\<rparr>, \<lparr>ar_id = ''a1'', ar_account = 3, ar_current = 1, ar_created_at = []\<rparr>],
     db_revisions := [example_revision ''v0'' ''a0'' StatusEffective, example_revision ''v1'' ''a1'' StatusNeedsReview],
     db_legs := [example_leg_row ''l0'' ''v0'', example_leg_row ''l1'' ''v1''], db_instruments := example_mapped,
     db_sources := [\<lparr>sr_revision = ''v1'', sr_raw = ''r1'', sr_role = ''principal'', sr_match = ''source_identity''\<rparr>],
     db_issues := [example_issue ''open'' []]\<rparr>"

lemma example_receipt_ok:
  assumes "i \<noteq> []"
  shows "activity_ok (example_receipt i StatusEffective n)" "activity_ok (example_receipt i StatusNeedsReview n)"
proof -
  have "leg_ok (example_shares\<lparr>leg_instrument_id := 4\<rparr>)" "CashEffects [example_shares\<lparr>leg_instrument_id := 4\<rparr>] = Inr []" "date_ok ''2023-11-10''" "date_ok []"
    by code_simp+
  then show "activity_ok (example_receipt i StatusEffective n)" "activity_ok (example_receipt i StatusNeedsReview n)"
    using assms by (simp_all add: activity_ok_def example_receipt_def zero_activity_def)
qed

lemma example_review_ok: "ledger_ok example_review"
proof -
  have p: "payload_legs v (act_legs (example_receipt i st 1)) = [(example_leg_row [] v)]" if "i \<noteq> []" for v i st
    using that by (simp add: payload_legs_def example_receipt_def leg_row_of_def example_shares_def zero_leg_def example_leg_row_def historyInt_def historyNullable_def)
  have s: "stored_legs ''v0'' (db_legs example_review) = [example_leg_row [] ''v0'']" "stored_legs ''v1'' (db_legs example_review) = [example_leg_row [] ''v1'']"
    by (simp_all add: stored_legs_def example_review_def example_leg_row_def)
  have r: "revision_ok \<lparr>ar_id = i, ar_account = 3, ar_current = 1, ar_created_at = []\<rparr> (example_revision v i st)"
    if "i \<noteq> []" "st \<in> {StatusEffective, StatusNeedsReview}" for v i st
    using that example_receipt_ok [of i 1] by (auto simp: revision_ok_def example_revision_def) (simp_all add: example_receipt_def)
  show ?thesis
    unfolding ledger_ok_def tables_ok_def using s r p
    by (simp add: example_review_def example_revision_def revisions_of_def example_ledger_def) (simp add: example_leg_row_def)
qed

lemma example_issues [simp]: "db_issues example_review = [example_issue ''open'' []]" "is_activity (example_issue st res) = Some ''a1''"
  by (simp_all add: example_review_def example_issue_def)

definition example_decision :: "string \<Rightarrow> string \<Rightarrow> unit result \<times> ledger_db" where
  "example_decision action target = ResolveHistoryIssue (example_ids 2) ''k1'' example_start ''y1'' action target 1 example_review"

lemma example_decisions: "fst (example_decision ''confirm_same'' ''a0'') = Inr ()" "fst (example_decision ''confirm_distinct'' []) = Inr ()"
  by code_simp+

lemma example_decided:
  obtains db where "example_decision ''confirm_same'' ''a0'' = (Inr (), db)"
  using example_decisions(1) by (cases "example_decision ''confirm_same'' ''a0''") auto

lemma example_kept_apart:
  obtains db where "example_decision ''confirm_distinct'' [] = (Inr (), db)"
  using example_decisions(2) by (cases "example_decision ''confirm_distinct'' []") auto

theorem ledger_is_an_audit_trail_witness:
  "\<exists>db. db = fold ledger_step [Record (example_ids 0) example_start example_running ''r1'' 3 (example_delivery ''gateway'' ''k1'' ''100''),
       Decision (example_ids 1) ''k1'' example_start ''y1'' ''confirm_same'' ''a0'' 1] example_ledger \<and> ledger_ok db \<and> extends_ledger example_ledger db"
proof -
  have "list_all keyed [Record (example_ids 0) example_start example_running ''r1'' 3 (example_delivery ''gateway'' ''k1'' ''100''),
       Decision (example_ids 1) ''k1'' example_start ''y1'' ''confirm_same'' ''a0'' 1]" using example_first_ok(2) by simp
  from ledger_is_an_audit_trail [OF example_first_ok(1) this] show ?thesis by blast
qed

theorem decision_stands_witness:
  "\<exists>db v. example_decision ''confirm_same'' ''a0'' = (Inr (), db) \<and> current_revision ''a1'' db = Some v \<and>
     current_revision ''a1'' (ledger_step (Record (example_ids 3) example_start example_running ''r1'' 3 (example_delivery ''gateway'' ''k1'' ''100'')) db) = Some v"
proof -
  obtain db where d: "example_decision ''confirm_same'' ''a0'' = (Inr (), db)" by (rule example_decided)
  define o1 where "o1 = Record (example_ids 3) example_start example_running ''r1'' 3 (example_delivery ''gateway'' ''k1'' ''100'')"
  have "list_all keyed [o1]" "list_all from_source [o1]" using example_first_ok(2) by (simp_all add: o1_def)
  from decision_stands [OF d [unfolded example_decision_def] _ example_review_ok this] d show ?thesis
    by (auto simp: decisions_def o1_def)
qed



theorem decision_books_the_record_witness:
  "\<exists>db v. example_decision ''confirm_distinct'' [] = (Inr (), db) \<and> current_revision ''a1'' db = Some v \<and> rv_status v = StatusEffective \<and>
     length (act_legs (rv_payload v)) = 1"
proof -
  obtain db where d: "example_decision ''confirm_distinct'' [] = (Inr (), db)" by (rule example_kept_apart)
  have "''confirm_distinct'' \<in> {''confirm_distinct'', ''accept_revision''}" by simp
  from decision_books_the_record [OF d [unfolded example_decision_def] example_review_ok this]
  obtain x r v where v: "x \<in> set (db_issues example_review)" "stored_record (coalesce (is_raw x)) (is_account x) example_review = Inr r"
    "current_revision ''a1'' db = Some v" "list_all2 same_effect (act_legs (raw_activity r)) (act_legs (rv_payload v))" "rv_status v = StatusEffective"
    by auto
  from v(1,2) have "length (act_legs (raw_activity r)) = 1"
    by (auto simp: example_issue_def example_review_def stored_record_def coalesce_def example_raw_row_def example_receipt_def rbind_Inr_iff)
  with list_all2_lengthD [OF v(4)] d v(3,5) show ?thesis by auto
qed

section \<open>Where the code departs from its intent\<close>

text \<open>The ledger books a position under the instrument that the broker's identity names (\<open>PreserveBrokerIdentity\<close>); a decision about the same
  record does not set that flag, so an identity whose stored instrument has another market is moved to a new instrument.\<close>

definition example_euro_leg :: activity where
  "example_euro_leg = zero_activity\<lparr>act_provider := ''IBKR'', act_legs := [zero_leg\<lparr>leg_kind := ''position'', leg_symbol := ''A'', leg_asset_type := ''STK'',
     leg_external_instrument_id := ''265598'', leg_currency := ''EUR'', leg_quantity_delta := ''1''\<rparr>]\<rparr>"

lemma review_moves_the_identity:
  "rbind (resolve_legs (example_ids 0) example_start ''IBKR'' example_euro_leg example_mapped) (\<lambda>(a, db).
     Inr (map leg_instrument_id (act_legs a), map bi_instrument_id (idb_mappings db))) = Inr ([4], [4])"
  "rbind (resolveReviewInstruments (example_ids 0) example_start example_euro_leg example_mapped) (\<lambda>(a, db).
     Inr (map leg_instrument_id (act_legs a), map bi_instrument_id (idb_mappings db))) = Inr ([7], [7])"
  by code_simp+

text \<open>A leg without a settlement date may take the counterpart that a later leg with one needs: effects that are contained are refused.\<close>

definition example_part :: "string \<Rightarrow> leg" where
  "example_part settled = example_shares\<lparr>leg_instrument_id := 4, leg_settlement_date := settled\<rparr>"

lemma contained_is_greedy:
  "\<not> contained sameActivityLeg [example_part ''2023-11-13'', example_part []] [] [example_part [], example_part ''2023-11-13'']"
  "has_counterparts sameActivityLeg [example_part [], example_part ''2023-11-13''] [example_part ''2023-11-13'', example_part []]"
proof -
  show "\<not> contained sameActivityLeg [example_part ''2023-11-13'', example_part []] [] [example_part [], example_part ''2023-11-13'']" by code_simp
  have "sameActivityLeg (example_part []) (example_part [])" "sameActivityLeg (example_part ''2023-11-13'') (example_part ''2023-11-13'')" by code_simp+
  then show "has_counterparts sameActivityLeg [example_part [], example_part ''2023-11-13''] [example_part ''2023-11-13'', example_part []]"
    unfolding has_counterparts_def
    by (intro exI [of _ "\<lambda>k. 1 - k"]) (auto simp: inj_on_def less_Suc_eq)
qed

text \<open>Pairing transfers does not look at the status of the issue: a decision that was made can be overwritten.\<close>

definition example_sent_shares :: activity where
  "example_sent_shares = (example_receipt ''a0'' StatusEffective 1)\<lparr>act_account_id := 4, act_legs := [example_shares\<lparr>leg_instrument_id := 4, leg_quantity_delta := ''-5''\<rparr>]\<rparr>"

definition example_pair :: ledger_db where
  "example_pair = example_review\<lparr>db_revisions := [(example_revision ''v0'' ''a0'' StatusEffective)\<lparr>rv_payload := example_sent_shares\<rparr>, example_revision ''v1'' ''a1'' StatusVoided],
     db_issues := [example_issue ''resolved'' ''manual'']\<rparr>"

lemma opposite_quantities: "Add ''5'' ''-5'' = Inr ''0''"
proof -
  have "dec_num ''5'' = Some 5" "dec_num ''-5'' = Some (- 5)" by code_simp+
  then show ?thesis using ledger.add_Inr_iff [of "''5''" "''-5''" "''0''"] ledger.fits_0 by (auto simp: dec_text_zero)
qed

lemma pairing_overwrites_a_decision:
  "map is_status (db_issues example_pair) = [''resolved'']"
  "\<exists>db. ResolveHistoryIssue (example_ids 2) ''k1'' example_start ''y1'' ''link_transfer'' ''a0'' 1 example_pair = (Inr (), db)
     \<and> map is_resolution (db_issues db) = [transfer_resolution ''a0'' 1]"
proof -
  have i: "find_issue ''y1'' example_pair = Inr (example_issue ''resolved'' ''manual'')" by (simp add: find_issue_def example_pair_def example_issue_def)
  have w: "map_option rv_payload (current_revision ''a0'' example_pair) = Some example_sent_shares"
    "map_option rv_payload (current_revision ''a1'' example_pair) = Some (example_receipt ''a1'' StatusVoided 1)"
    by (simp_all add: current_revision_def example_pair_def example_review_def example_revision_def)
  then obtain v u where vu: "current_revision ''a0'' example_pair = Some v" "rv_payload v = example_sent_shares"
    "current_revision ''a1'' example_pair = Some u" "rv_payload u = example_receipt ''a1'' StatusVoided 1" by auto
  have t: "sublist ''transfer'' (''security_transfer'')" by code_simp
  have l: "list_all2 opposite_legs (act_legs (example_receipt ''a1'' StatusVoided 1)) (act_legs example_sent_shares)"
    by (simp add: example_receipt_def example_sent_shares_def opposite_legs_def example_shares_def zero_leg_def opposite_quantities)
  show "map is_status (db_issues example_pair) = [''resolved'']" by (simp add: example_pair_def example_issue_def)
  define link where "link = \<lparr>lk_id = ''k1'', lk_from = ''a1'', lk_to = ''a0'', lk_relation = ''transfer_pair'', lk_created_by = 1, lk_created_at = nowRFC3339 example_start\<rparr>"
  have k: "insert_link ''k1'' example_start ''a1'' ''a0'' ''transfer_pair'' 1 example_pair = Inr (example_pair\<lparr>db_links := [link]\<rparr>)"
    by (simp add: insert_link_def example_pair_def example_review_def example_ledger_def link_def)
  have e: "act_account_id (example_receipt ''a1'' StatusVoided 1) = 3" "act_account_id example_sent_shares = 4"
    "act_type (example_receipt ''a1'' StatusVoided 1) = ''security_transfer''" "act_type example_sent_shares = ''security_transfer''"
    "act_legs (example_receipt ''a1'' StatusVoided 1) \<noteq> []"
    by (simp_all add: example_receipt_def example_sent_shares_def)
  have p: "db_issues example_pair = [example_issue ''resolved'' ''manual'']" "is_id (example_issue st res) = ''y1''" for st res
    by (simp_all add: example_pair_def example_issue_def)
  show "\<exists>db. ResolveHistoryIssue (example_ids 2) ''k1'' example_start ''y1'' ''link_transfer'' ''a0'' 1 example_pair = (Inr (), db)
     \<and> map is_resolution (db_issues db) = [transfer_resolution ''a0'' 1]"
    using l t e k by (simp add: ResolveHistoryIssue_def transaction_def pair_transfer_tx_def i coalesce_def from_option_def vu require_def Let_def resolve_issue_def p)
qed

end
