(* ===== verification/History_Schedule.thy ===== *)
theory History_Schedule
  imports History_Jobs
begin

text \<open>
  The history service's decisions (\<open>internal/history/service.go\<close>, \<open>scheduler.go\<close>): which connection and source serve a
  request, which dates it may have, when a scheduled fetch is due and which windows it asks for.

  The repository's catalog of connections and accounts is an argument: a \<open>history_repo\<close> holds the answers of its
  read operations while one operation of the service runs. The service's own state is the time each schedule last
  ran, the two switches, and whether a wake-up is pending.
\<close>

section \<open>Data\<close>

record broker_connection =
  bc_id :: int
  bc_provider_code :: string
  bc_connection_key :: string
  bc_name :: string
  bc_provider_user_id :: string
  bc_username :: string
  bc_environment :: string
  bc_auth_type :: string
  bc_config :: "(string \<times> json) list"
  bc_secret_keys :: "string list"
  bc_secrets :: "(string \<times> string) list"
  bc_enabled :: bool
  bc_status :: string
  bc_last_authenticated_at :: string

record broker_account =
  ba_id :: int
  ba_broker :: string
  ba_provider_account_id :: string
  ba_first_discovered :: "int option"
  ba_primary_connection :: "int option"
  ba_connection_ids :: "int list"
  ba_masked_account_number :: string
  ba_display_name :: string
  ba_account_type :: string
  ba_status :: string
  ba_base_currency :: string
  ba_first_discovered_at :: string
  ba_last_seen_at :: string
  ba_synced_at :: string

record history_repo =
  hr_connections :: "broker_connection list result"
  hr_runtime :: "int \<Rightarrow> broker_connection result"
  hr_accounts :: "broker_account list result"
  hr_connection_accounts :: "int \<Rightarrow> broker_account list result"

record history_service =
  sv_last_run :: "(string \<times> instant) list"
  sv_wake :: bool
  sv_auto_sync :: bool
  sv_auto_sync_others :: bool

abbreviation SourceGateway :: string where "SourceGateway \<equiv> ''gateway''"
abbreviation SourceFlex :: string where "SourceFlex \<equiv> ''flex''"
abbreviation SourceSchwab :: string where "SourceSchwab \<equiv> ''schwab''"
abbreviation SourceAlpaca :: string where "SourceAlpaca \<equiv> ''alpaca''"

abbreviation ErrInvalidHistory :: string where "ErrInvalidHistory \<equiv> ''invalid_history_request''"
abbreviation ErrUnknownAccount :: string where "ErrUnknownAccount \<equiv> ''history_account_not_found''"
abbreviation ErrAccountNotConnected :: string where "ErrAccountNotConnected \<equiv> ''history_account_not_connected''"
abbreviation ErrSourceNotConfigured :: string where "ErrSourceNotConfigured \<equiv> ''source_not_configured''"
abbreviation ErrConnectionRequired :: string where "ErrConnectionRequired \<equiv> ''history_connection_required''"
abbreviation HistoryNotSupported :: string where "HistoryNotSupported \<equiv> ''history_not_supported''"

section \<open>Connections and sources\<close>

definition configString :: "(string \<times> json) list \<Rightarrow> string \<Rightarrow> string" where
  "configString values key = (case map_of values key of Some (JStr s) \<Rightarrow> trim_space s | _ \<Rightarrow> [])"

definition configBool :: "(string \<times> json) list \<Rightarrow> string \<Rightarrow> bool" where
  "configBool values key = (case map_of values key of Some (JBool b) \<Rightarrow> b | _ \<Rightarrow> False)"

definition secret :: "broker_connection \<Rightarrow> string \<Rightarrow> string" where
  "secret c key = (case map_of (bc_secrets c) key of Some s \<Rightarrow> s | None \<Rightarrow> [])"

definition historyProviderSupported :: "string \<Rightarrow> bool" where
  "historyProviderSupported provider \<longleftrightarrow> to_upper provider \<in> {''IBKR'', ''SCHWAB'', ''ALPACA''}"

definition validateConnectionSource :: "broker_connection \<Rightarrow> string \<Rightarrow> string option" where
  "validateConnectionSource c src = (let provider = to_upper (bc_provider_code c) in
     if \<not> historyProviderSupported provider then Some HistoryNotSupported
     else if \<not> bc_enabled c then Some ErrSourceNotConfigured
     else if provider = ''SCHWAB'' then
       (if src \<noteq> SourceSchwab then Some HistoryNotSupported else if secret c ''access_token'' = [] then Some ErrSourceNotConfigured else None)
     else if provider = ''ALPACA'' then
       (if src \<noteq> SourceAlpaca then Some HistoryNotSupported
        else if secret c ''api_key'' = [] \<or> secret c ''api_secret'' = [] then Some ErrSourceNotConfigured else None)
     else if src \<noteq> SourceGateway \<and> src \<noteq> SourceFlex then Some HistoryNotSupported
     else if src = SourceFlex then
       (if configString (bc_config c) ''flex_activity_query_id'' = [] \<or> trim_space (secret c ''flex_token'') = [] then Some ErrSourceNotConfigured else None)
     else if configString (bc_config c) ''gateway_url'' = [] \<or> trim_space (secret c ''gateway_token'') = [] then Some ErrSourceNotConfigured
     else None)"

text \<open>The day \<open>n\<close> days from today, as a text.\<close>

definition day_text :: "instant \<Rightarrow> int \<Rightarrow> string" where
  "day_text now n = format_date (day_of now + n)"

definition preferredSource :: "broker_connection \<Rightarrow> string \<Rightarrow> instant \<Rightarrow> string" where
  "preferredSource c from now =
     (if to_upper (bc_provider_code c) = ''SCHWAB'' then SourceSchwab
      else if to_upper (bc_provider_code c) = ''ALPACA'' then SourceAlpaca
      else let flexReady = configString (bc_config c) ''flex_activity_query_id'' \<noteq> [] \<and> trim_space (secret c ''flex_token'') \<noteq> [];
               gatewayReady = configString (bc_config c) ''gateway_url'' \<noteq> [] \<and> trim_space (secret c ''gateway_token'') \<noteq> []
        in if flexReady \<and> from \<noteq> [] \<and> from < day_text now (- 7) then SourceFlex
           else if gatewayReady then SourceGateway
           else if flexReady then SourceFlex
           else [])"

definition normalizeRequestDates :: "history_request \<Rightarrow> instant \<Rightarrow> history_request result" where
  "normalizeRequestDates r now =
     (let r = (if req_to r = [] then r\<lparr>req_to := day_text now 0\<rparr> else r);
          r = (if req_from r = [] then r\<lparr>req_from := day_text now (- 7)\<rparr> else r)
      in case ValidateHistoryDates (req_from r) (req_to r) of Some e \<Rightarrow> Inl e | None \<Rightarrow>
         let start = (case parse_date (req_from r) of Some d \<Rightarrow> d | None \<Rightarrow> day_number 1 1 1);
             end = (case parse_date (req_to r) of Some d \<Rightarrow> d | None \<Rightarrow> day_number 1 1 1)
         in if now < day_start end then Inl ErrInvalidHistory
            else if req_source r = SourceGateway \<and> start < day_of now - 7 then Inl HistoryNotSupported
            else if req_source r = SourceFlex \<and> 364 < end - start then Inl ErrInvalidHistory
            else Inr r)"

section \<open>The scope of a request\<close>

definition validateAccountIDs :: "history_repo \<Rightarrow> int list \<Rightarrow> int \<Rightarrow> bool \<Rightarrow> broker_account list result" where
  "validateAccountIDs repo ids connection need =
     (if need \<and> ids = [] then Inl ErrInvalidHistory
      else rbind (if 0 < connection then hr_connection_accounts repo connection else hr_accounts repo) (\<lambda>accounts.
        rbind (rfold (\<lambda>_ i. if i \<le> 0 then Inl ErrInvalidHistory
            else if i \<notin> ba_id ` set accounts then Inl (if 0 < connection then ErrAccountNotConnected else ErrUnknownAccount)
            else Inr ()) () ids) (\<lambda>_. Inr accounts)))"

record scope_search =
  ss_candidates :: "(broker_connection \<times> broker_account list \<times> string) list"
  ss_found :: bool
  ss_mismatch :: bool
  ss_configured :: int

text \<open>One enabled connection of a supported provider: whether it is configured for the source, whether it holds the accounts.\<close>

definition scope_connection :: "history_repo \<Rightarrow> instant \<Rightarrow> history_request \<Rightarrow> scope_search \<Rightarrow> broker_connection \<Rightarrow> scope_search result" where
  "scope_connection repo now r s public = rbind (hr_runtime repo (bc_id public)) (\<lambda>c.
     let src = (if req_source r = [] then preferredSource c (req_from r) now else req_source r) in
     if validateConnectionSource c src \<noteq> None then Inr s
     else let s = s\<lparr>ss_configured := ss_configured s + 1\<rparr> in
       rbind (hr_connection_accounts repo (bc_id public)) (\<lambda>accounts.
         if \<not> set (req_account_ids r) \<subseteq> ba_id ` set accounts then
           Inr (if 0 < req_connection_id r then s\<lparr>ss_mismatch := True\<rparr> else s)
         else Inr (s\<lparr>ss_candidates := ss_candidates s @ [(c, accounts, src)]\<rparr>)))"

definition scope_step :: "history_repo \<Rightarrow> instant \<Rightarrow> history_request \<Rightarrow> scope_search \<Rightarrow> broker_connection \<Rightarrow> scope_search result" where
  "scope_step repo now r s public =
     (if 0 < req_connection_id r \<and> bc_id public \<noteq> req_connection_id r then Inr s
      else let s = (if 0 < req_connection_id r then s\<lparr>ss_found := True\<rparr> else s) in
        if \<not> bc_enabled public \<or> \<not> historyProviderSupported (bc_provider_code public) then Inr s
        else scope_connection repo now r s public)"

definition scope_result :: "history_repo \<Rightarrow> history_request \<Rightarrow> scope_search \<Rightarrow> (broker_connection \<times> broker_account list \<times> string) result" where
  "scope_result repo r s = (case ss_candidates s of
       [] \<Rightarrow>
         (if ss_mismatch s then Inl ErrAccountNotConnected
          else rbind (if 0 < req_connection_id r then
                 (if \<not> ss_found s then Inl ErrNotFound
                  else rbind (hr_runtime repo (req_connection_id r)) (\<lambda>c.
                    if \<not> historyProviderSupported (bc_provider_code c) then Inl HistoryNotSupported else Inr ()))
               else Inr ()) (\<lambda>_.
            if 0 < ss_configured s \<and> req_account_ids r \<noteq> [] then Inl ErrConnectionRequired else Inl ErrSourceNotConfigured))
     | [x] \<Rightarrow> Inr x
     | _ \<Rightarrow> Inl ErrConnectionRequired)"

definition resolveRequestScope :: "history_repo \<Rightarrow> instant \<Rightarrow> history_request \<Rightarrow> (broker_connection \<times> broker_account list \<times> string) result" where
  "resolveRequestScope repo now r = rbind (hr_connections repo) (\<lambda>connections.
     rbind (rfold (scope_step repo now r) \<lparr>ss_candidates = [], ss_found = False, ss_mismatch = False, ss_configured = 0\<rparr> connections)
       (scope_result repo r))"

definition signalWorker :: "history_service \<Rightarrow> history_service" where
  "signalWorker sv = sv\<lparr>sv_wake := True\<rparr>"

text \<open>The request as the scope completes it: without account ids it is for all accounts of the connection.\<close>

definition scoped_request :: "history_request \<Rightarrow> broker_connection \<times> broker_account list \<times> string \<Rightarrow> history_request result" where
  "scoped_request r = (\<lambda>(c, accounts, src).
     let r = r\<lparr>req_use_query_period := (src = SourceFlex \<and> req_from r = [] \<and> req_to r = []), req_connection_id := bc_id c, req_source := src\<rparr>;
         r = (if req_account_ids r = [] \<and> src \<noteq> SourceFlex then r\<lparr>req_account_ids := map ba_id accounts\<rparr> else r)
     in if req_account_ids r = [] \<and> src \<noteq> SourceFlex then Inl ErrUnknownAccount else Inr r)"

definition enqueue_request :: "history_repo \<Rightarrow> instant \<Rightarrow> history_request \<Rightarrow> history_request result" where
  "enqueue_request repo now r =
     (let r = r\<lparr>req_source := to_lower (trim_space (req_source r))\<rparr> in
      if req_source r \<notin> {[], SourceGateway, SourceFlex, SourceSchwab, SourceAlpaca} then Inl ErrInvalidHistory
      else case ValidateHistoryDates (req_from r) (req_to r) of Some e \<Rightarrow> Inl e | None \<Rightarrow>
      rbind (if req_account_ids r \<noteq> [] then validateAccountIDs repo (req_account_ids r) 0 True else Inr []) (\<lambda>_.
      rbind (resolveRequestScope repo now r) (\<lambda>scope.
      rbind (scoped_request r scope) (\<lambda>r. normalizeRequestDates r now))))"

definition Enqueue :: "history_repo \<Rightarrow> instant \<Rightarrow> string \<Rightarrow> history_request \<Rightarrow> history_service \<times> 'a history_db_scheme \<Rightarrow>
    history_job result \<times> history_service \<times> 'a history_db_scheme" where
  "Enqueue repo now uid r = (\<lambda>(sv, db).
     case enqueue_request repo now r of
       Inl e \<Rightarrow> (Inl e, sv, db)
     | Inr r \<Rightarrow> (case CreateHistoryJob uid now r db of
           (Inl e, db) \<Rightarrow> (Inl e, sv, db)
         | (Inr j, db) \<Rightarrow> (Inr j, signalWorker sv, db)))"

section \<open>Windows and coverage\<close>

function windows_from :: "day \<Rightarrow> day \<Rightarrow> (string \<times> string) list" where
  "windows_from start end =
     (if end < start then []
      else let windowEnd = (if end < start + 364 then end else start + 364)
        in (format_date start, format_date windowEnd) # windows_from (windowEnd + 1) end)"
  by auto
termination by (relation "measure (\<lambda>(start, end). nat (end - start + 1))") auto

declare windows_from.simps [simp del]

definition historyWindows :: "string \<Rightarrow> string \<Rightarrow> (string \<times> string) list" where
  "historyWindows from to = (case (parse_date from, parse_date to) of
     (Some start, Some end) \<Rightarrow> if end < start then [] else windows_from start end
   | _ \<Rightarrow> [])"

fun cover_loop :: "day \<Rightarrow> day \<Rightarrow> day \<Rightarrow> (day \<times> day) list \<Rightarrow> bool" where
  "cover_loop wantStart wantEnd coveredUntil [] = False"
| "cover_loop wantStart wantEnd coveredUntil ((s, e) # intervals) =
     (if e < wantStart \<or> wantEnd < s then cover_loop wantStart wantEnd coveredUntil intervals
      else if coveredUntil + 1 < s then False
      else let coveredUntil = (if coveredUntil < e then e else coveredUntil)
        in if \<not> coveredUntil < wantEnd then True else cover_loop wantStart wantEnd coveredUntil intervals)"

definition intervalsCover :: "(day \<times> day) list \<Rightarrow> string \<Rightarrow> string \<Rightarrow> bool" where
  "intervalsCover intervals from to = (case (parse_date from, parse_date to) of
     (Some wantStart, Some wantEnd) \<Rightarrow>
       if wantEnd < wantStart then False else cover_loop wantStart wantEnd (wantStart - 1) (sort_key fst intervals)
   | _ \<Rightarrow> False)"

definition coverage_intervals :: "(history_coverage \<Rightarrow> bool) \<Rightarrow> history_coverage list \<Rightarrow> (day \<times> day) list" where
  "coverage_intervals counts items = concat (map (\<lambda>i. if counts i then
     (case (parse_date (cov_from i), parse_date (cov_to i)) of
        (Some s, Some e) \<Rightarrow> if e < s then [] else [(s, e)] | _ \<Rightarrow> []) else []) items)"

definition flex_complete :: "int \<Rightarrow> history_coverage \<Rightarrow> bool" where
  "flex_complete account i \<longleftrightarrow> cov_account_id i = account \<and> cov_source i = SourceFlex \<and> cov_data_type i = ''activities''
     \<and> cov_fetch_status i = ''complete'' \<and> cov_scope_key i = ''account''"

definition completelyCovered :: "int list \<Rightarrow> string \<Rightarrow> string \<Rightarrow> history_coverage list \<Rightarrow> bool" where
  "completelyCovered ids from to coverage \<longleftrightarrow>
     (\<forall>account\<in>set ids. intervalsCover (coverage_intervals (flex_complete account) coverage) from to) \<and> ids \<noteq> []"

section \<open>The scheduler\<close>

definition gatewayCadence :: int where "gatewayCadence = minutes 5"

definition flexCadence :: int where "flexCadence = minutes (24 * 60)"

definition zero_time :: instant where "zero_time = day_start (day_number 1 1 1)"

definition due :: "int \<Rightarrow> string \<Rightarrow> int \<Rightarrow> instant \<Rightarrow> history_service \<Rightarrow> bool \<times> history_service" where
  "due connection src cadence now sv =
     (let key = src @ '':'' @ int_str connection;
          seen = (case map_of (sv_last_run sv) key of Some t \<Rightarrow> t | None \<Rightarrow> zero_time)
      in if seen \<noteq> zero_time \<and> now - seen < cadence then (False, sv)
         else (True, sv\<lparr>sv_last_run := AList.update key now (sv_last_run sv)\<rparr>))"

text \<open>The jobs a pass of the scheduler creates take the keys \<open>uids 0, uids 1, ...\<close>; the state carries the index of the next.\<close>

type_synonym 'd scheduling = "history_service \<times> nat \<times> 'd"

definition create_scheduled :: "(nat \<Rightarrow> string) \<Rightarrow> instant \<Rightarrow> history_request \<Rightarrow> 'a history_db_scheme scheduling \<Rightarrow> 'a history_db_scheme scheduling" where
  "create_scheduled uids now r = (\<lambda>(sv, n, db). case CreateHistoryJob (uids n) now r db of
     (Inl _, db) \<Rightarrow> (sv, Suc n, db) | (Inr _, db) \<Rightarrow> (signalWorker sv, Suc n, db))"

definition scheduled_request :: "int \<Rightarrow> int list \<Rightarrow> string \<Rightarrow> string \<Rightarrow> string \<Rightarrow> history_request" where
  "scheduled_request connection ids src from to = \<lparr>req_use_query_period = False, req_account_ids = ids, req_connection_id = connection,
     req_source = src, req_from = from, req_to = to, req_import_id = []\<rparr>"

definition enqueueScheduledWindow :: "(nat \<Rightarrow> string) \<Rightarrow> instant \<Rightarrow> int \<Rightarrow> int list \<Rightarrow> string \<Rightarrow> string \<Rightarrow> history_coverage list \<Rightarrow> bool \<Rightarrow>
    'a history_db_scheme scheduling \<Rightarrow> 'a history_db_scheme scheduling" where
  "enqueueScheduledWindow uids now connection ids from to coverage skipComplete st =
     (if from = [] \<or> to = [] \<or> to < from then st
      else let cadence = (if to < day_text now (- 90) then 30 * flexCadence
                  else if to < day_text now (- 7) then 7 * flexCadence else flexCadence);
               fresh = filter (\<lambda>i. case parse_rfc3339 (cov_last_checked_at i) of None \<Rightarrow> False | Some t \<Rightarrow> now - cadence < t) coverage
        in if skipComplete \<and> completelyCovered ids from to fresh then st
           else create_scheduled uids now (scheduled_request connection ids SourceFlex from to) st)"

definition when_due :: "int \<Rightarrow> string \<Rightarrow> int \<Rightarrow> instant \<Rightarrow> ('d scheduling \<Rightarrow> 'd scheduling) \<Rightarrow> 'd scheduling \<Rightarrow> 'd scheduling" where
  "when_due connection src cadence now work = (\<lambda>(sv, n, db). case due connection src cadence now sv of
     (False, sv) \<Rightarrow> (sv, n, db) | (True, sv) \<Rightarrow> work (sv, n, db))"

definition schedule_flex :: "(nat \<Rightarrow> string) \<Rightarrow> instant \<Rightarrow> broker_connection \<Rightarrow> int list \<Rightarrow> history_coverage list \<Rightarrow>
    'a history_db_scheme scheduling \<Rightarrow> 'a history_db_scheme scheduling" where
  "schedule_flex uids now c ids coverage st =
     (let window = (\<lambda>(from, to). enqueueScheduledWindow uids now (bc_id c) ids from to coverage True);
          st = when_due (bc_id c) ''flex-daily'' flexCadence now (window (day_text now (- 7), day_text now 0)) st;
          st = when_due (bc_id c) ''flex-weekly'' (7 * flexCadence) now (window (day_text now (- 90), day_text now (- 8))) st
      in when_due (bc_id c) ''flex-monthly'' (30 * flexCadence) now
           (fold window (historyWindows (configString (bc_config c) ''activity_history_from'') (day_text now (- 91)))) st)"

definition schedule_connection :: "history_repo \<Rightarrow> (nat \<Rightarrow> string) \<Rightarrow> instant \<Rightarrow> bool \<Rightarrow> bool \<Rightarrow> history_coverage list \<Rightarrow> broker_connection \<Rightarrow>
    'a history_db_scheme scheduling \<Rightarrow> 'a history_db_scheme scheduling" where
  "schedule_connection repo uids now enabled others coverage c st =
     (let provider = to_upper (bc_provider_code c) in
      if \<not> bc_enabled c \<or> \<not> historyProviderSupported (bc_provider_code c) \<or> \<not> configBool (bc_config c) ''activity_history_enabled'' then st
      else if provider = ''IBKR'' \<and> \<not> enabled \<or> provider \<noteq> ''IBKR'' \<and> \<not> others then st
      else case (hr_runtime repo (bc_id c), hr_connection_accounts repo (bc_id c)) of
          (Inr rc, Inr accounts) \<Rightarrow>
            (let ids = map ba_id accounts; from = day_text now (- 7); to = day_text now 0;
                 fetch = (\<lambda>src cadence st. if ids \<noteq> [] \<and> validateConnectionSource rc src = None
                    then when_due (bc_id c) src cadence now (create_scheduled uids now (scheduled_request (bc_id c) ids src from to)) st else st)
             in if provider \<noteq> ''IBKR'' then fetch (if provider = ''ALPACA'' then SourceAlpaca else SourceSchwab) flexCadence st
                else let st = fetch SourceGateway gatewayCadence st
                  in if validateConnectionSource rc SourceFlex \<noteq> None then st else schedule_flex uids now c ids coverage st)
        | _ \<Rightarrow> st)"

definition coverage_of :: "coverage_row list \<Rightarrow> history_coverage list" where
  "coverage_of rows = map history_coverage.truncate (rev (sort_key cov_last_checked_at rows))"

definition schedule :: "history_repo \<Rightarrow> (nat \<Rightarrow> string) \<Rightarrow> instant \<Rightarrow> history_service \<times> 'a history_db_scheme \<Rightarrow> history_service \<times> 'a history_db_scheme" where
  "schedule repo uids now = (\<lambda>(sv, db).
     if \<not> sv_auto_sync sv \<and> \<not> sv_auto_sync_others sv then (sv, db)
     else case hr_connections repo of Inl _ \<Rightarrow> (sv, db) | Inr connections \<Rightarrow>
       (case fold (schedule_connection repo uids now (sv_auto_sync sv) (sv_auto_sync_others sv) (coverage_of (db_coverage db))) connections (sv, 0, db) of
          (sv, _, db) \<Rightarrow> (sv, db)))"

section \<open>Coverage is exact\<close>

definition covered :: "(day \<times> day) list \<Rightarrow> day \<Rightarrow> bool" where
  "covered ivs d \<longleftrightarrow> (\<exists>(s, e)\<in>set ivs. s \<le> d \<and> d \<le> e)"

text \<open>With every day from the start to \<open>u\<close> covered by what was read, the loop decides whether the remaining intervals cover
  the remaining days: they are sorted, so a gap before the next interval stays a gap.\<close>

lemma cover_loop_exact:
  assumes "sorted (map fst ivs)" "list_all (\<lambda>(s, e). s \<le> e) ivs" "a - 1 \<le> u" "u < b"
  shows "cover_loop a b u ivs \<longleftrightarrow> (\<forall>d. u < d \<and> d \<le> b \<longrightarrow> covered ivs d)"
  using assms
proof (induction a b u ivs rule: cover_loop.induct)
  case (1 a b u)
  then have "\<not> covered [] b" by (simp add: covered_def)
  with 1(4) show ?case by auto
next
  case (2 a b u s e ivs)
  have later: "s \<le> fst x" if "x \<in> set ivs" for x using 2(3) that by auto
  have se: "s \<le> e" using 2(4) by simp
  have C: "covered ((s, e) # ivs) d \<longleftrightarrow> (s \<le> d \<and> d \<le> e) \<or> covered ivs d" for d by (auto simp: covered_def)
  consider (outside) "e < a \<or> b < s" | (gap) "\<not> (e < a \<or> b < s)" "u + 1 < s"
    | (ends) "\<not> (e < a \<or> b < s)" "s \<le> u + 1" "b \<le> (if u < e then e else u)"
    | (step) "\<not> (e < a \<or> b < s)" "s \<le> u + 1" "(if u < e then e else u) < b" by linarith
  then show ?case
  proof cases
    case outside
    then have "\<not> (s \<le> d \<and> d \<le> e)" if "u < d" "d \<le> b" for d using that 2(5) by auto
    with outside 2 C show ?thesis by auto
  next
    case gap
    have "\<not> covered ((s, e) # ivs) (u + 1)" using later gap by (fastforce simp: covered_def)
    moreover have "u < u + 1" "u + 1 \<le> b" using 2(6) by auto
    ultimately have "\<not> (\<forall>d. u < d \<and> d \<le> b \<longrightarrow> covered ((s, e) # ivs) d)" by blast
    with gap show ?thesis by simp
  next
    case ends
    then have "s \<le> d \<and> d \<le> e" if "u < d" "d \<le> b" for d using that by (auto split: if_splits)
    with ends C show ?thesis by auto
  next
    case step
    let ?u = "if u < e then e else u"
    have "cover_loop a b ?u ivs \<longleftrightarrow> (\<forall>d. ?u < d \<and> d \<le> b \<longrightarrow> covered ivs d)"
      using 2(2) [OF step(1) _ refl] step 2(3-5) by auto
    also have "\<dots> \<longleftrightarrow> (\<forall>d. u < d \<and> d \<le> b \<longrightarrow> covered ((s, e) # ivs) d)"
    proof -
      have "(?u < d \<and> d \<le> b \<longrightarrow> covered ivs d) \<longleftrightarrow> (u < d \<and> d \<le> b \<longrightarrow> covered ((s, e) # ivs) d)" for d
        unfolding C using step by (cases "d \<le> e"; cases "u < d") auto
      then show ?thesis by blast
    qed
    finally show ?thesis using step by (simp add: Let_def)
  qed
qed

lemma covered_sort [simp]: "covered (sort_key f ivs) = covered ivs"
  by (auto simp: covered_def)

text \<open>C18: The coverage check is exact. For a request from \<open>a\<close> to \<open>b\<close> and any list of intervals that end no earlier than they
  begin, in any order and overlapping in any way, \<open>intervalsCover\<close> answers yes exactly when every day from \<open>a\<close> to \<open>b\<close> lies
  in one of them.\<close>

theorem intervals_cover_exact:
  assumes "parse_date from = Some a" "parse_date to = Some b" "a \<le> b" "list_all (\<lambda>(s, e). s \<le> e) ivs"
  shows "intervalsCover ivs from to \<longleftrightarrow> (\<forall>d. a \<le> d \<and> d \<le> b \<longrightarrow> covered ivs d)"
proof -
  have "list_all (\<lambda>(s, e). s \<le> e) (sort_key fst ivs)" using assms(4) by (simp add: list_all_iff)
  from cover_loop_exact [OF sorted_sort_key this, of a "a - 1" b] assms(3)
  have "cover_loop a b (a - 1) (sort_key fst ivs) \<longleftrightarrow> (\<forall>d. a - 1 < d \<and> d \<le> b \<longrightarrow> covered ivs d)" by simp
  moreover have "a - 1 < d \<longleftrightarrow> a \<le> d" for d by linarith
  ultimately show ?thesis using assms by (simp add: intervalsCover_def)
qed

theorem intervals_cover_exact_witness:
  "intervalsCover [(day_number 2024 1 20, day_number 2024 2 5), (day_number 2024 1 1, day_number 2024 1 19)] ''2024-01-01'' ''2024-01-31'' \<longleftrightarrow>
     (\<forall>d. day_number 2024 1 1 \<le> d \<and> d \<le> day_number 2024 1 31 \<longrightarrow>
        covered [(day_number 2024 1 20, day_number 2024 2 5), (day_number 2024 1 1, day_number 2024 1 19)] d)"
  by (rule intervals_cover_exact) code_simp+

section \<open>Windows\<close>

definition window_days :: "string \<times> string \<Rightarrow> day list" where
  "window_days w = [the (parse_date (fst w))..the (parse_date (snd w))]"

lemma windows_from_days:
  assumes "four_digit a" "four_digit b"
  shows "concat (map window_days (windows_from a b)) = [a..b] \<and>
     list_all (\<lambda>w. window_days w \<noteq> [] \<and> length (window_days w) \<le> 365) (windows_from a b)"
  using assms
proof (induction a b rule: windows_from.induct)
  case (1 a b)
  show ?case
  proof (cases "b < a")
    case True
    then show ?thesis by (simp add: windows_from.simps)
  next
    case False
    define w where "w = (if b < a + 364 then b else a + 364)"
    have w: "a \<le> w" "w \<le> b" "w \<le> a + 364" using False by (auto simp: w_def)
    then have fw: "four_digit w" using four_digit_between [of a b w] 1(2,3) by simp
    have e: "windows_from a b = (format_date a, format_date w) # windows_from (w + 1) b"
      using False by (subst windows_from.simps) (simp add: w_def)
    have d: "window_days (format_date a, format_date w) = [a..w]"
      using parse_format_date [OF 1(2)] parse_format_date [OF fw] by (simp add: window_days_def)
    have rest: "concat (map window_days (windows_from (w + 1) b)) = [w + 1..b] \<and>
        list_all (\<lambda>w. window_days w \<noteq> [] \<and> length (window_days w) \<le> 365) (windows_from (w + 1) b)"
    proof (cases "b < w + 1")
      case True
      then show ?thesis by (simp add: windows_from.simps)
    next
      case later: False
      then have "four_digit (w + 1)" using four_digit_between [of a b "w + 1"] 1(2,3) w by simp
      with 1(1) [OF False w_def] 1(3) show ?thesis by simp
    qed
    have "[a..b] = [a..w] @ [w + 1..b]" using w upto_split2 [of a w b] by simp
    with rest w show ?thesis unfolding e by (simp add: d)
  qed
qed

text \<open>C19: The audit windows partition the history. The windows for the days from \<open>a\<close> to \<open>b\<close>, read in order, name each of these
  days exactly once and no other day, none of them is empty, and none asks for more than the 365 days a Flex query may span.\<close>

theorem history_windows_partition:
  assumes "parse_date from = Some a" "parse_date to = Some b"
  shows "concat (map window_days (historyWindows from to)) = [a..b] \<and>
     list_all (\<lambda>w. window_days w \<noteq> [] \<and> length (window_days w) \<le> 365) (historyWindows from to)"
proof (cases "b < a")
  case True
  with assms show ?thesis by (simp add: historyWindows_def)
next
  case False
  have "four_digit a" "four_digit b" using assms format_parse_date by auto
  from windows_from_days [OF this] assms False show ?thesis by (simp add: historyWindows_def)
qed

theorem history_windows_partition_witness:
  "concat (map window_days (historyWindows ''2022-03-01'' ''2024-02-10'')) = [day_number 2022 3 1..day_number 2024 2 10] \<and>
   list_all (\<lambda>w. window_days w \<noteq> [] \<and> length (window_days w) \<le> 365) (historyWindows ''2022-03-01'' ''2024-02-10'')"
  by (rule history_windows_partition) code_simp+

section \<open>Accepted requests\<close>

text \<open>What makes a connection a candidate for a request.\<close>

definition candidate :: "history_repo \<Rightarrow> history_request \<Rightarrow> broker_connection \<Rightarrow> broker_connection \<times> broker_account list \<times> string \<Rightarrow> bool" where
  "candidate repo r public = (\<lambda>(c, accounts, src). bc_enabled public \<and> hr_runtime repo (bc_id public) = Inr c \<and>
     hr_connection_accounts repo (bc_id public) = Inr accounts \<and> validateConnectionSource c src = None \<and>
     set (req_account_ids r) \<subseteq> ba_id ` set accounts \<and> (0 < req_connection_id r \<longrightarrow> bc_id public = req_connection_id r) \<and>
     (req_source r \<noteq> [] \<longrightarrow> src = req_source r))"

lemma scope_connection_candidates:
  assumes "scope_connection repo now r s public = Inr s'" "x \<in> set (ss_candidates s')" "bc_enabled public"
    "0 < req_connection_id r \<longrightarrow> bc_id public = req_connection_id r"
  shows "x \<in> set (ss_candidates s) \<or> candidate repo r public x"
proof -
  obtain c where c: "hr_runtime repo (bc_id public) = Inr c" using assms(1) unfolding scope_connection_def rbind_Inr_iff by blast
  define src where "src = (if req_source r = [] then preferredSource c (req_from r) now else req_source r)"
  note e = assms(1) [unfolded scope_connection_def c rbind_simps Let_def, folded src_def]
  show ?thesis
  proof (cases "validateConnectionSource c src")
    case (Some m)
    with e have "s' = s" by simp
    with assms(2) show ?thesis by simp
  next
    case None
    then obtain accounts where a: "hr_connection_accounts repo (bc_id public) = Inr accounts"
      using e unfolding rbind_Inr_iff by (auto simp: rbind_Inr_iff)
    show ?thesis
    proof (cases "set (req_account_ids r) \<subseteq> ba_id ` set accounts")
      case True
      then have "s' = s\<lparr>ss_configured := ss_configured s + 1, ss_candidates := ss_candidates s @ [(c, accounts, src)]\<rparr>"
        using e None a by simp
      moreover have "candidate repo r public (c, accounts, src)"
        using a assms(3,4) c None True by (simp add: candidate_def src_def)
      ultimately show ?thesis using assms(2) by auto
    next
      case False
      then have "ss_candidates s' = ss_candidates s" using e None a by (auto split: if_splits)
      with assms(2) show ?thesis by simp
    qed
  qed
qed

lemma scope_step_candidates:
  assumes "scope_step repo now r s public = Inr s'" "x \<in> set (ss_candidates s')"
  shows "x \<in> set (ss_candidates s) \<or> candidate repo r public x"
proof (cases "0 < req_connection_id r \<and> bc_id public \<noteq> req_connection_id r \<or> \<not> bc_enabled public \<or> \<not> historyProviderSupported (bc_provider_code public)")
  case True
  then have "ss_candidates s' = ss_candidates s" using assms(1) by (auto simp: scope_step_def Let_def split: if_splits)
  with assms(2) show ?thesis by simp
next
  case False
  then have "scope_connection repo now r (if 0 < req_connection_id r then s\<lparr>ss_found := True\<rparr> else s) public = Inr s'"
    using assms(1) by (auto simp: scope_step_def Let_def)
  from scope_connection_candidates [OF this assms(2)] False show ?thesis by (auto split: if_splits)
qed

lemma scope_search_candidates:
  "rfold (scope_step repo now r) s connections = Inr s' \<Longrightarrow> x \<in> set (ss_candidates s') \<Longrightarrow>
   x \<in> set (ss_candidates s) \<or> (\<exists>public\<in>set connections. candidate repo r public x)"
proof (induction connections arbitrary: s)
  case (Cons public connections)
  then obtain s1 where s1: "scope_step repo now r s public = Inr s1" "rfold (scope_step repo now r) s1 connections = Inr s'"
    by (auto simp: rbind_Inr_iff)
  from Cons.IH [OF s1(2) Cons.prems(2)] scope_step_candidates [OF s1(1), of x] show ?case by auto
qed simp

lemma scope_result_Inr:
  assumes "scope_result repo r s = Inr x"
  shows "ss_candidates s = [x]"
proof (cases "ss_candidates s")
  case Nil
  with assms show ?thesis by (simp add: scope_result_def rbind_Inr_iff split: if_splits)
next
  case (Cons y ys)
  with assms show ?thesis by (cases ys) (simp_all add: scope_result_def)
qed

lemma resolved_scope:
  assumes "resolveRequestScope repo now r = Inr x"
  shows "\<exists>connections public. hr_connections repo = Inr connections \<and> public \<in> set connections \<and> candidate repo r public x"
proof -
  obtain connections s where c: "hr_connections repo = Inr connections" "ss_candidates s = [x]"
    "rfold (scope_step repo now r) \<lparr>ss_candidates = [], ss_found = False, ss_mismatch = False, ss_configured = 0\<rparr> connections = Inr s"
    using assms scope_result_Inr unfolding resolveRequestScope_def rbind_Inr_iff by blast
  show ?thesis using scope_search_candidates [OF c(3), of x] c(1,2) by auto
qed

lemma scoped_request_Inr:
  assumes "scoped_request r (c, accounts, src) = Inr p"
  shows "req_source p = src" "req_connection_id p = bc_id c"
    "req_account_ids p = (if req_account_ids r = [] \<and> src \<noteq> SourceFlex then map ba_id accounts else req_account_ids r)"
    "req_account_ids p = [] \<longrightarrow> src = SourceFlex"
proof -
  define q where "q = r\<lparr>req_use_query_period := (src = SourceFlex \<and> req_from r = [] \<and> req_to r = []), req_connection_id := bc_id c, req_source := src\<rparr>"
  have q: "req_source q = src" "req_connection_id q = bc_id c" "req_account_ids q = req_account_ids r" by (simp_all add: q_def)
  define u where "u = (if req_account_ids q = [] \<and> src \<noteq> SourceFlex then q\<lparr>req_account_ids := map ba_id accounts\<rparr> else q)"
  have u: "\<not> (req_account_ids u = [] \<and> src \<noteq> SourceFlex)" "p = u"
    using assms unfolding scoped_request_def Let_def prod.case q_def [symmetric] u_def [symmetric] by (simp_all split: if_splits)
  show "req_source p = src" "req_connection_id p = bc_id c"
    "req_account_ids p = (if req_account_ids r = [] \<and> src \<noteq> SourceFlex then map ba_id accounts else req_account_ids r)"
    using q by (simp_all add: u(2) u_def)
  show "req_account_ids p = [] \<longrightarrow> src = SourceFlex" using u by blast
qed

text \<open>The dates a source may be asked for today.\<close>

definition allowed_dates :: "instant \<Rightarrow> history_request \<Rightarrow> bool" where
  "allowed_dates now r \<longleftrightarrow> (\<exists>a b. parse_date (req_from r) = Some a \<and> parse_date (req_to r) = Some b \<and> a \<le> b \<and> b \<le> day_of now \<and>
     (req_source r = SourceGateway \<longrightarrow> day_of now - 7 \<le> a) \<and> (req_source r = SourceFlex \<longrightarrow> b - a \<le> 364))"

lemma normalized_dates:
  assumes "normalizeRequestDates r now = Inr r'" "four_digit (day_of now)" "four_digit (day_of now - 7)"
  shows "allowed_dates now r' \<and> r' = r\<lparr>req_from := req_from r', req_to := req_to r'\<rparr>"
proof -
  have t: "day_text now 0 \<noteq> []" "day_text now (- 7) \<noteq> []" using assms(2,3) format_date_nonempty by (auto simp: day_text_def)
  define r1 where "r1 = (if req_to r = [] then r\<lparr>req_to := day_text now 0\<rparr> else r)"
  define r2 where "r2 = (if req_from r1 = [] then r1\<lparr>req_from := day_text now (- 7)\<rparr> else r1)"
  have n: "req_from r2 \<noteq> []" "req_to r2 \<noteq> []" "r2 = r\<lparr>req_from := req_from r2, req_to := req_to r2\<rparr>" using t by (auto simp: r1_def r2_def)
  have v: "ValidateHistoryDates (req_from r2) (req_to r2) = None" "r' = r2"
    using assms(1) unfolding normalizeRequestDates_def r1_def [symmetric] Let_def r2_def [symmetric]
    by (auto split: option.splits if_splits)
  then obtain a b where p: "parse_date (req_from r2) = Some a" "parse_date (req_to r2) = Some b" "\<not> req_to r2 < req_from r2"
    using n(1,2) by (auto simp: ValidateHistoryDates_def split: if_splits)
  have "a \<le> b" using p parsed_less_iff [OF p(2,1)] by simp
  moreover have "\<not> now < day_start b \<and> \<not> (req_source r2 = SourceGateway \<and> a < day_of now - 7) \<and> \<not> (req_source r2 = SourceFlex \<and> 364 < b - a)"
    using assms(1) v(1) p unfolding normalizeRequestDates_def r1_def [symmetric] Let_def r2_def [symmetric]
    by (auto split: if_splits)
  moreover have "b \<le> day_of now" if "\<not> now < day_start b"
    using that zdiv_mono1 [of "day_start b" now ns_per_day] day_of_day_start [of b] by (simp add: day_of_def)
  ultimately show ?thesis using p(1,2) n(3) v(2) unfolding allowed_dates_def by auto
qed

text \<open>What the service enqueues can be fetched. When \<open>Enqueue\<close> returns a job, the job's request names a listed, enabled
  connection whose provider supports the request's source and whose credentials for it are there; its account ids are positive,
  ascending, without repetition and belong to that connection, and only a Flex request may leave them open; a connection,
  a source or accounts that the caller named are the ones used; its dates are real, in order, not after today, at most seven days
  back for the gateway and at most 365 days for Flex; and the worker is signalled.\<close>

theorem enqueued_request_is_fetchable:
  assumes "Enqueue repo now uid r (sv, db) = (Inr j, sv', db')" "four_digit (day_of now)" "four_digit (day_of now - 7)"
    and ids: "distinct (map job_id (db_jobs db))"
  shows "\<exists>connections public c accounts. hr_connections repo = Inr connections \<and> public \<in> set connections \<and> bc_enabled public \<and>
     hr_runtime repo (bc_id public) = Inr c \<and> hr_connection_accounts repo (bc_id public) = Inr accounts \<and>
     req_connection_id (job_request j) = bc_id c \<and> validateConnectionSource c (req_source (job_request j)) = None \<and>
     set (req_account_ids (job_request j)) \<subseteq> ba_id ` set accounts \<and> list_all (\<lambda>i. 0 < i) (req_account_ids (job_request j)) \<and>
     sorted (req_account_ids (job_request j)) \<and> distinct (req_account_ids (job_request j)) \<and>
     (req_account_ids (job_request j) = [] \<longrightarrow> req_source (job_request j) = SourceFlex) \<and>
     (req_account_ids r \<noteq> [] \<longrightarrow> set (req_account_ids (job_request j)) = set (req_account_ids r)) \<and>
     (0 < req_connection_id r \<longrightarrow> bc_id public = req_connection_id r) \<and>
     allowed_dates now (job_request j) \<and> sv_wake sv'"
proof -
  obtain r' where r': "enqueue_request repo now r = Inr r'" "CreateHistoryJob uid now r' db = (Inr j, db')" "sv' = signalWorker sv"
    using assms(1) by (auto simp: Enqueue_def split: sum.splits prod.splits)
  define q where "q = r\<lparr>req_source := to_lower (trim_space (req_source r))\<rparr>"
  obtain c accounts src p where s: "resolveRequestScope repo now q = Inr (c, accounts, src)"
    and f: "scoped_request q (c, accounts, src) = Inr p" and n0: "normalizeRequestDates p now = Inr r'"
    using r'(1) unfolding enqueue_request_def q_def [symmetric] Let_def
    by (auto simp: rbind_Inr_iff split: if_splits option.splits)
  note p = scoped_request_Inr [OF f] and d = normalized_dates [OF n0 assms(2,3)]
  from d have e: "r' = p\<lparr>req_from := req_from r', req_to := req_to r'\<rparr>" by simp
  have same: "req_source r' = src" "req_connection_id r' = bc_id c" "req_account_ids r' = req_account_ids p"
    using p(1,2) by (subst e, simp)+
  obtain n where n: "normal_ids (req_account_ids r') = Inr n" "job_request j = r'\<lparr>req_account_ids := n\<rparr>"
    using created_request [OF r'(2) ids] by auto
  have ids: "set n = set (req_account_ids p)" "list_all (\<lambda>i. 0 < i) n" "sorted n" "distinct n"
    using n(1) same(3) sorted_remdups_adj [of "sort (req_account_ids r')"]
    by (auto simp: normal_ids_def list_all_iff not_le split: if_splits)
  have q: "req_account_ids q = req_account_ids r" "req_connection_id q = req_connection_id r" by (simp_all add: q_def)
  obtain connections public where x: "hr_connections repo = Inr connections" "public \<in> set connections" "candidate repo q public (c, accounts, src)"
    using resolved_scope [OF s] by blast
  have "set n \<subseteq> ba_id ` set accounts" using x(3) ids(1) p(3) by (auto simp: candidate_def)
  moreover have "n = [] \<longrightarrow> src = SourceFlex" using ids(1) p(4) by auto
  moreover have "req_account_ids r \<noteq> [] \<longrightarrow> set n = set (req_account_ids r)" using ids(1) p(3) q(1) by simp
  moreover have "allowed_dates now (job_request j)" using d n(2) by (simp add: allowed_dates_def)
  moreover have "sv_wake sv'" by (simp add: r'(3) signalWorker_def)
  ultimately show ?thesis
    using x same ids(2-4) q(2) n(2)
    by (intro exI [of _ connections] exI [of _ public] exI [of _ c] exI [of _ accounts]) (simp add: candidate_def)
qed

section \<open>An accepted request\<close>

definition example_connection :: broker_connection where
  "example_connection = \<lparr>bc_id = 1, bc_provider_code = ''ibkr'', bc_connection_key = ''k'', bc_name = ''n'', bc_provider_user_id = [],
     bc_username = [], bc_environment = ''live'', bc_auth_type = ''gateway'', bc_config = [(''gateway_url'', JStr ''http://g'')],
     bc_secret_keys = [], bc_secrets = [(''gateway_token'', ''t'')], bc_enabled = True, bc_status = ''connected'', bc_last_authenticated_at = []\<rparr>"

definition example_account :: broker_account where
  "example_account = \<lparr>ba_id = 3, ba_broker = ''IBKR'', ba_provider_account_id = ''U1'', ba_first_discovered = Some 1, ba_primary_connection = Some 1,
     ba_connection_ids = [1], ba_masked_account_number = [], ba_display_name = [], ba_account_type = [], ba_status = [], ba_base_currency = ''USD'',
     ba_first_discovered_at = [], ba_last_seen_at = [], ba_synced_at = []\<rparr>"

definition example_repo :: history_repo where
  "example_repo = \<lparr>hr_connections = Inr [example_connection], hr_runtime = \<lambda>_. Inr example_connection, hr_accounts = Inr [example_account],
     hr_connection_accounts = \<lambda>_. Inr [example_account]\<rparr>"

definition example_service :: history_service where
  "example_service = \<lparr>sv_last_run = [], sv_wake = False, sv_auto_sync = True, sv_auto_sync_others = False\<rparr>"

definition example_open_request :: history_request where
  "example_open_request = \<lparr>req_use_query_period = False, req_account_ids = [], req_connection_id = 0, req_source = '' Gateway'', req_from = [],
     req_to = [], req_import_id = []\<rparr>"

lemma example_enqueued:
  "map_sum id (\<lambda>j. (job_id j, req_account_ids (job_request j))) (fst (Enqueue example_repo example_start ''a'' example_open_request (example_service, example_db))) = Inr (''a'', [3])"
  "four_digit (day_of example_start - 7)"
  by code_simp+

theorem enqueued_request_is_fetchable_witness:
  "\<exists>j sv db. Enqueue example_repo example_start ''a'' example_open_request (example_service, example_db) = (Inr j, sv, db) \<and>
     req_account_ids (job_request j) = [3] \<and> allowed_dates example_start (job_request j) \<and> sv_wake sv"
proof -
  obtain j sv db where j: "Enqueue example_repo example_start ''a'' example_open_request (example_service, example_db) = (Inr j, sv, db)"
    "req_account_ids (job_request j) = [3]"
    using example_enqueued(1) by (cases "Enqueue example_repo example_start ''a'' example_open_request (example_service, example_db)";
      cases "fst (Enqueue example_repo example_start ''a'' example_open_request (example_service, example_db))") auto
  have "distinct (map job_id (db_jobs example_db))" by (simp add: example_db_def)
  from enqueued_request_is_fetchable [OF j(1) example_times(3) example_enqueued(2) this] j show ?thesis by blast
qed

end
