(* ===== verification/History_Reconcile.thy ===== *)
theory History_Reconcile
  imports History_Schedule History_Review
begin

text \<open>
  Balances that a broker reports and their comparison with the ledger (\<open>internal/store/activity_reconciliation.go\<close>):
  a job stores the snapshots of its report and then compares, account by account, the balances of the last snapshot
  with those of the one before it and the activities between the two.

  Dates and sort keys are compared byte by byte. A map of balances is an association list; the order in which Go
  iterates over the map of keys is not specified and is the argument \<open>order\<close>.
\<close>

section \<open>Tables\<close>

record snapshot_row =
  sn_id :: string
  sn_account :: int
  sn_date :: string
  sn_basis :: string
  sn_source_ref :: string
  sn_completeness :: string
  sn_created_at :: string

record balance_row =
  bl_id :: string
  bl_snapshot :: string
  bl_kind :: string
  bl_currency :: "string option"
  bl_instrument :: "int option"
  bl_amount :: "string option"
  bl_quantity :: "string option"
  bl_cost :: "string option"

record review_db = ledger_db +
  db_snapshots :: "snapshot_row list"
  db_balances :: "balance_row list"

text \<open>The keys of the rows that storing one snapshot may insert.\<close>

record snapshot_ids =
  si_snapshot :: string
  si_balance :: "nat \<Rightarrow> string"
  si_instrument :: "nat \<Rightarrow> int"

section \<open>Storing snapshots\<close>

abbreviation InvalidBalance :: string where "InvalidBalance \<equiv> ''invalid_reconciliation_balance''"

definition validate_balance :: "reconciliation_balance \<Rightarrow> reconciliation_balance result" where
  "validate_balance b =
     (case canonical_decimal (bal_value (rb_balance b)) of Inl _ \<Rightarrow> Inl InvalidBalance
      | Inr v \<Rightarrow> let b = b\<lparr>rb_balance := (rb_balance b)\<lparr>bal_value := v\<rparr>\<rparr> in
        if rb_reported_cost b = [] then Inr b
        else case canonical_decimal (rb_reported_cost b) of Inl _ \<Rightarrow> Inl InvalidBalance | Inr c \<Rightarrow> Inr (b\<lparr>rb_reported_cost := c\<rparr>))"

definition reported_key :: "reconciliation_balance \<Rightarrow> string result" where
  "reported_key r = (let b = rb_balance r in
     if bal_kind b = ''cash'' then
       (if \<not> ValidCurrency (bal_currency b) \<or> bal_instrument_id b \<noteq> 0 \<or> rb_external_instrument_id r \<noteq> [] then Inl InvalidBalance
        else Inr (''cash|'' @ bal_currency b))
     else if bal_kind b = ''position'' then
       (if bal_instrument_id b \<noteq> 0 \<or> rb_external_instrument_id r = [] \<or> rb_symbol r = [] \<or> rb_asset_type r = []
           \<or> bal_currency b \<noteq> [] \<and> \<not> ValidCurrency (bal_currency b) then Inl InvalidBalance
        else Inr (''position|'' @ rb_external_instrument_id r))
     else Inl InvalidBalance)"

definition validate_balances :: "reconciliation_balance list \<Rightarrow> reconciliation_balance list result" where
  "validate_balances bs = rbind (rfold (\<lambda>(done, seen) b.
       rbind (validate_balance b) (\<lambda>b. rbind (reported_key b) (\<lambda>key.
       if key \<in> set seen then Inl ''duplicate_reconciliation_balance'' else Inr (done @ [b], key # seen)))) ([], []) bs)
     (\<lambda>(done, _). Inr done)"

definition validateReconciliationSnapshot :: "reconciliation_snapshot \<Rightarrow> reconciliation_snapshot result" where
  "validateReconciliationSnapshot s =
     (if snap_provider_account_id s = [] \<or> snap_as_of_date s = [] \<or> snap_source_ref s = [] then Inl ''invalid_reconciliation_snapshot''
      else case ValidateHistoryDates (snap_as_of_date s) (snap_as_of_date s) of Some e \<Rightarrow> Inl e | None \<Rightarrow>
        let s = (if snap_basis s = [] then s\<lparr>snap_basis := ''trade_date''\<rparr> else s) in
        if snap_basis s \<noteq> ''trade_date'' \<and> snap_basis s \<noteq> ''settled'' then Inl ''invalid_reconciliation_basis''
        else if snap_completeness s \<noteq> ''complete'' \<and> snap_completeness s \<noteq> ''partial'' then Inl ''invalid_reconciliation_completeness''
        else rbind (validate_balances (snap_balances s)) (\<lambda>bs. Inr (s\<lparr>snap_balances := bs\<rparr>)))"

definition balance_identity :: "reconciliation_balance \<Rightarrow> instrument_identity" where
  "balance_identity b = \<lparr>ii_preserve_broker_identity = True, ii_provider_code = ''IBKR'', ii_external_id = rb_external_instrument_id b,
     ii_asset_type = rb_asset_type b, ii_market = [], ii_symbol = rb_symbol b, ii_name = [], ii_exchange = [], ii_currency = bal_currency (rb_balance b)\<rparr>"

definition balance_instrument :: "snapshot_ids \<Rightarrow> instant \<Rightarrow> nat \<Rightarrow> reconciliation_balance \<Rightarrow> 'a review_db_scheme \<Rightarrow> (int option \<times> 'a review_db_scheme) result" where
  "balance_instrument ids t i b db =
     (if bal_kind (rb_balance b) = ''position'' then
        rbind (resolveInstrumentTx (si_instrument ids i) t (balance_identity b) (db_instruments db)) (\<lambda>(r, instruments).
        Inr (Some (ir_id r), db\<lparr>db_instruments := instruments\<rparr>))
      else if bal_kind (rb_balance b) \<noteq> ''cash'' then Inl InvalidBalance else Inr (None, db))"

definition balance_row_of :: "snapshot_ids \<Rightarrow> nat \<Rightarrow> reconciliation_balance \<Rightarrow> int option \<Rightarrow> balance_row" where
  "balance_row_of ids i b n = (let kind = bal_kind (rb_balance b); v = bal_value (rb_balance b) in
     \<lparr>bl_id = si_balance ids i, bl_snapshot = si_snapshot ids, bl_kind = kind, bl_currency = historyNullable (bal_currency (rb_balance b)),
      bl_instrument = n, bl_amount = (if kind = ''cash'' then Some v else None), bl_quantity = (if kind = ''cash'' then None else Some v),
      bl_cost = historyNullable (rb_reported_cost b)\<rparr>)"

definition insert_balance :: "snapshot_ids \<Rightarrow> instant \<Rightarrow> 'a review_db_scheme \<Rightarrow> nat \<times> reconciliation_balance \<Rightarrow> 'a review_db_scheme result" where
  "insert_balance ids t db = (\<lambda>(i, b). rbind (balance_instrument ids t i b db) (\<lambda>(n, db).
     if si_balance ids i \<in> bl_id ` set (db_balances db) then Inl ErrConstraint
     else if \<not> known_instrument n db then Inl ErrReference
     else Inr (db\<lparr>db_balances := db_balances db @ [balance_row_of ids i b n]\<rparr>)))"

text \<open>One snapshot; one that is stored already is left as it is.\<close>

definition same_snapshot :: "int \<Rightarrow> reconciliation_snapshot \<Rightarrow> snapshot_row \<Rightarrow> bool" where
  "same_snapshot acc s x \<longleftrightarrow> sn_account x = acc \<and> sn_date x = snap_as_of_date s \<and> sn_basis x = snap_basis s \<and> sn_source_ref x = snap_source_ref s"

definition store_snapshot :: "snapshot_ids \<Rightarrow> instant \<Rightarrow> int \<Rightarrow> reconciliation_snapshot \<Rightarrow> 'a review_db_scheme \<Rightarrow> 'a review_db_scheme result" where
  "store_snapshot ids t acc s db =
     (if \<exists>x\<in>set (db_snapshots db). same_snapshot acc s x then Inr db
      else if si_snapshot ids \<in> sn_id ` set (db_snapshots db) then Inl ErrConstraint
      else rfold (insert_balance ids t) (db\<lparr>db_snapshots := db_snapshots db @ [\<lparr>sn_id = si_snapshot ids, sn_account = acc, sn_date = snap_as_of_date s,
        sn_basis = snap_basis s, sn_source_ref = snap_source_ref s, sn_completeness = snap_completeness s, sn_created_at = nowRFC3339 t\<rparr>]\<rparr>)
        (List.enumerate 0 (snap_balances s)))"

definition save_snapshot :: "(nat \<Rightarrow> snapshot_ids) \<Rightarrow> instant \<Rightarrow> history_job \<Rightarrow> 'a review_db_scheme \<Rightarrow> nat \<times> reconciliation_snapshot \<Rightarrow> 'a review_db_scheme result" where
  "save_snapshot ids t j db = (\<lambda>(k, s).
     rbind (validateReconciliationSnapshot s) (\<lambda>s.
     rbind (from_option ErrForbidden (find (\<lambda>a. acc_provider a = ''IBKR'' \<and> acc_provider_account_id a = snap_provider_account_id s) (db_accounts db))) (\<lambda>a.
     let acc = acc_id a; wanted = req_account_ids (job_request j); connection = req_connection_id (job_request j) in
     if wanted \<noteq> [] \<and> \<not> containsHistoryID wanted acc then Inl ErrForbidden
     else if 0 < connection \<and> length (filter (\<lambda>p. p = (acc, connection)) (db_account_connections db)) \<noteq> 1 then Inl ErrForbidden
     else store_snapshot (ids k) t acc s db)))"

definition SaveHistorySnapshots :: "(nat \<Rightarrow> snapshot_ids) \<Rightarrow> instant \<Rightarrow> history_job \<Rightarrow> reconciliation_snapshot list \<Rightarrow> ('a review_db_scheme, unit) call" where
  "SaveHistorySnapshots ids t j snapshots db =
     (if snapshots = [] then (Inr (), db)
      else under_lease t j (\<lambda>db. rbind (rfold (save_snapshot ids t j) db (List.enumerate 0 snapshots)) (\<lambda>db. Inr ((), db))) db)"

section \<open>What is compared\<close>

definition balanceKey :: "balance \<Rightarrow> string" where
  "balanceKey b = (if bal_kind b = ''position'' then bal_kind b @ ''||'' @ int_str (bal_instrument_id b)
     else bal_kind b @ ''|'' @ bal_currency b @ ''|0'')"

definition previousDate :: "string \<Rightarrow> string" where
  "previousDate s = (case parse_date s of None \<Rightarrow> [] | Some d \<Rightarrow> format_date (d - 1))"

definition nextDate :: "string \<Rightarrow> string" where
  "nextDate s = (case parse_date s of None \<Rightarrow> [] | Some d \<Rightarrow> format_date (d + 1))"

definition uniqueHistoryIDs :: "int list \<Rightarrow> int list" where
  "uniqueHistoryIDs ids = remdups_adj ids"

definition status_rank :: "string \<Rightarrow> int" where
  "status_rank s = (if s = ''unknown'' then 1 else if s = ''incomplete'' then 2 else if s = ''mismatch'' then 3 else 0)"

definition reconciliationWorse :: "string \<Rightarrow> string \<Rightarrow> string" where
  "reconciliationWorse current proposed = (if status_rank current < status_rank proposed then proposed else current)"

text \<open>The balance of a row, and the balances of a snapshot by key; of two rows with one key the later one is kept.\<close>

definition stored_balance :: "balance_row \<Rightarrow> balance" where
  "stored_balance r = (if bl_kind r = ''cash''
     then \<lparr>bal_kind = bl_kind r, bal_currency = coalesce (bl_currency r), bal_instrument_id = (case bl_instrument r of None \<Rightarrow> 0 | Some n \<Rightarrow> n),
       bal_value = coalesce (bl_amount r)\<rparr>
     else \<lparr>bal_kind = bl_kind r, bal_currency = [], bal_instrument_id = (case bl_instrument r of None \<Rightarrow> 0 | Some n \<Rightarrow> n),
       bal_value = coalesce (bl_quantity r)\<rparr>)"

type_synonym balances = "(string \<times> balance) list"

definition snapshot_balances :: "string \<Rightarrow> balance_row list \<Rightarrow> balances" where
  "snapshot_balances i rows = foldl (\<lambda>m r. AList.update (balanceKey (stored_balance r)) (stored_balance r) m) []
     (filter (\<lambda>r. bl_snapshot r = i) rows)"

definition historySnapshot :: "int \<Rightarrow> string \<Rightarrow> string \<Rightarrow> 'a review_db_scheme \<Rightarrow> (snapshot_row \<times> balances) option" where
  "historySnapshot acc from to db =
     (let rows = filter (\<lambda>x. sn_account x = acc \<and> (from = [] \<or> from \<le> sn_date x) \<and> (to = [] \<or> sn_date x \<le> to)) (db_snapshots db);
          rows = sort_key sn_date (sort_key sn_created_at (sort_key sn_id rows))
      in if rows = [] then None else Some (last rows, snapshot_balances (sn_id (last rows)) (db_balances db)))"

definition reconciliationActivities :: "int \<Rightarrow> string \<Rightarrow> string \<Rightarrow> 'a review_db_scheme \<Rightarrow> activity list" where
  "reconciliationActivities acc from to db =
     (let rows = concat (map (\<lambda>x. filter (\<lambda>v. rv_activity v = ar_id x \<and> rv_no v = ar_current x \<and> from @ ''~'' < rv_sort_key v \<and> rv_sort_key v \<le> to @ ''~'')
          (db_revisions db)) (filter (\<lambda>x. ar_account x = acc) (db_activities db)))
      in map rv_payload (sort_key rv_sort_key (sort_key rv_activity rows)))"

definition reconciliationJobRecordsComplete :: "string \<Rightarrow> int \<Rightarrow> 'a review_db_scheme \<Rightarrow> bool" where
  "reconciliationJobRecordsComplete jid acc db \<longleftrightarrow> \<not> (\<exists>ob\<in>set (db_observations db). \<exists>r\<in>set (db_raw db).
     rr_id r = ob_raw ob \<and> ob_job ob = jid \<and> rr_account r = acc \<and> ob_outcome ob \<in> {[], ''unsupported'', ''needs_review''})"

definition date_interval :: "string \<Rightarrow> string \<Rightarrow> (day \<times> day) option" where
  "date_interval start end = (case parse_date start of None \<Rightarrow> None | Some s \<Rightarrow> (case parse_date end of None \<Rightarrow> None | Some e \<Rightarrow>
     if s \<le> e then Some (s, e) else None))"

definition account_intervals :: "history_job \<Rightarrow> int \<Rightarrow> 'a review_db_scheme \<Rightarrow> (day \<times> day) list" where
  "account_intervals j acc db =
     List.map_filter (\<lambda>c. date_interval (cov_from c) (cov_to c)) (filter (\<lambda>c. cov_account_id c = acc \<and> cov_data_type c = ''activities''
       \<and> cov_scope_key c = ''account'' \<and> cov_fetch_status c = ''complete'' \<and> cov_normalize_status c = ''complete'') (db_coverage db))
   @ List.map_filter (\<lambda>c. date_interval (cov_from c) (cov_to c)) (filter (\<lambda>c. cov_account_id c = acc \<and> cov_data_type c = ''activities''
       \<and> cov_scope_key c = ''account'' \<and> cov_fetch_status c = ''complete'') (job_coverage j))"

definition reconciliationCoverageComplete :: "history_job \<Rightarrow> int \<Rightarrow> string \<Rightarrow> string \<Rightarrow> 'a review_db_scheme \<Rightarrow> bool" where
  "reconciliationCoverageComplete j acc from to db =
     (if from = [] \<or> to = [] \<or> to < from then False
      else case parse_date from of None \<Rightarrow> False | Some wantFrom \<Rightarrow> (case parse_date to of None \<Rightarrow> False | Some wantTo \<Rightarrow>
        cover_loop wantFrom wantTo (wantFrom - 1) (sort_key fst (account_intervals j acc db))))"

section \<open>One account\<close>

text \<open>The text of the details of an issue.\<close>

definition balance_fields :: "balance \<Rightarrow> (string \<times> string option) list" where
  "balance_fields b = [(''kind'', Some (json_quote (bal_kind b))), (''currency'', omit_empty (bal_currency b)),
     (''instrument_id'', omit_zero (bal_instrument_id b)), (''value'', Some (json_quote (bal_value b)))]"

fun details_text :: "issue_details \<Rightarrow> string" where
  "details_text (Revision_Conflict n a warnings) = json_object [(''current_revision'', Some (int_str n)), (''proposed_activity'', Some (activity_json a)),
     (''warnings'', Some (json_strings warnings))]"
| "details_text (Review_Warnings warnings) = json_object [(''warnings'', Some (json_strings warnings))]"
| "details_text (Balance_Mismatch opening closing d) = json_object [(''actual'', Some (json_quote (diff_actual d))),
     (''balance'', Some (json_object (balance_fields (diff_balance d)))), (''closing_snapshot_id'', Some (json_quote closing)),
     (''difference'', Some (json_quote (diff_difference d))), (''expected'', Some (json_quote (diff_expected d))),
     (''opening_snapshot_id'', Some (json_quote opening))]"

definition saveReconciliationIssue :: "string \<Rightarrow> instant \<Rightarrow> int \<Rightarrow> snapshot_row \<Rightarrow> snapshot_row \<Rightarrow> difference \<Rightarrow> 'a review_db_scheme \<Rightarrow> 'a review_db_scheme result" where
  "saveReconciliationIssue uid t acc opening closing d db = (let details = Balance_Mismatch (sn_id opening) (sn_id closing) d in
     if \<exists>x\<in>set (db_issues db). is_account x = acc \<and> is_type x = ''balance_mismatch'' \<and> details_text (is_details x) = details_text details \<and> is_status x = ''open''
     then Inr db
     else if uid \<in> is_id ` set (db_issues db) then Inl ErrConstraint
     else Inr (db\<lparr>db_issues := db_issues db @ [\<lparr>is_id = uid, is_account = acc, is_activity = None, is_raw = None, is_type = ''balance_mismatch'',
       is_status = ''open'', is_details = details, is_resolution = [], is_created_at = nowRFC3339 t, is_updated_at = nowRFC3339 t\<rparr>]\<rparr>))"

text \<open>A balance for every key: the closing one, else the opening one, else that of a leg.\<close>

definition leg_balance :: "leg \<Rightarrow> balance option" where
  "leg_balance l = (if leg_kind l = ''cash'' then Some \<lparr>bal_kind = ''cash'', bal_currency = leg_currency l, bal_instrument_id = 0, bal_value = ''0''\<rparr>
     else if leg_kind l = ''position'' then Some \<lparr>bal_kind = ''position'', bal_currency = [], bal_instrument_id = leg_instrument_id l, bal_value = ''0''\<rparr>
     else None)"

definition add_template :: "balances \<Rightarrow> leg \<Rightarrow> balances" where
  "add_template m l = (case leg_balance l of None \<Rightarrow> m
     | Some b \<Rightarrow> if map_of m (balanceKey b) = None then AList.update (balanceKey b) b m else m)"

definition balance_templates :: "balances \<Rightarrow> balances \<Rightarrow> activity list \<Rightarrow> balances" where
  "balance_templates opening closing activities =
     foldl add_template (foldl (\<lambda>m (k, b). AList.update k b m) opening closing) (concat (map act_legs activities))"

record comparison =
  cm_opening :: balances
  cm_closing :: balances
  cm_activities :: "activity list"
  cm_templates :: balances
  cm_complete :: bool

definition zero_of :: "comparison \<Rightarrow> string \<Rightarrow> balance" where
  "zero_of c key = (case map_of (cm_templates c) key of Some b \<Rightarrow> b\<lparr>bal_value := ''0''\<rparr>
     | None \<Rightarrow> \<lparr>bal_kind = [], bal_currency = [], bal_instrument_id = 0, bal_value = ''0''\<rparr>)"

text \<open>The difference of one key, none where the key is passed over.\<close>

definition key_difference :: "comparison \<Rightarrow> string \<Rightarrow> difference option result" where
  "key_difference c key =
     (if map_of (cm_closing c) key = None \<and> \<not> cm_complete c then Inr None
      else let closing = (case map_of (cm_closing c) key of Some b \<Rightarrow> b | None \<Rightarrow> zero_of c key);
               opening = (case map_of (cm_opening c) key of Some b \<Rightarrow> Some b | None \<Rightarrow> if cm_complete c then Some (zero_of c key) else None)
        in case Reconcile opening closing (cm_activities c) of (d, None) \<Rightarrow> Inr (Some d) | (_, Some e) \<Rightarrow> Inl e)"

definition reconcile_key :: "(string \<Rightarrow> string) \<Rightarrow> instant \<Rightarrow> int \<Rightarrow> snapshot_row \<Rightarrow> snapshot_row \<Rightarrow> comparison \<Rightarrow> string \<times> 'a review_db_scheme \<Rightarrow> string \<Rightarrow>
    (string \<times> 'a review_db_scheme) result" where
  "reconcile_key uid t acc opening closing c = (\<lambda>(status, db) key.
     rbind (key_difference c key) (\<lambda>d. case d of None \<Rightarrow> Inr (status, db)
       | Some d \<Rightarrow> if diff_status d = ''mismatch'' \<and> cm_complete c
           then rbind (saveReconciliationIssue (uid key) t acc opening closing d db) (\<lambda>db. Inr (''mismatch'', db))
           else Inr (if cm_complete c then reconciliationWorse status (diff_status d) else status, db)))"

definition pending_activity :: "activity \<Rightarrow> bool" where
  "pending_activity a \<longleftrightarrow> act_status a \<noteq> StatusVoided \<and> (act_status a \<noteq> StatusEffective \<or> act_booking_status a \<noteq> BookingBooked)"

definition compare_snapshots :: "history_job \<Rightarrow> int \<Rightarrow> snapshot_row \<times> balances \<Rightarrow> snapshot_row \<times> balances \<Rightarrow> 'a review_db_scheme \<Rightarrow> comparison" where
  "compare_snapshots j acc = (\<lambda>(o1, opening) (c1, closing) db.
     let activities = reconciliationActivities acc (sn_date o1) (sn_date c1) db;
         covered = reconciliationCoverageComplete j acc (nextDate (sn_date o1)) (sn_date c1) db;
         current = reconciliationJobRecordsComplete (job_id j) acc db;
         ledger = \<not> list_ex pending_activity activities
     in \<lparr>cm_opening = opening, cm_closing = closing, cm_activities = activities, cm_templates = balance_templates opening closing activities,
          cm_complete = (sn_completeness o1 = ''complete'' \<and> sn_completeness c1 = ''complete'' \<and> sn_basis o1 = sn_basis c1 \<and> covered \<and> current \<and> ledger)\<rparr>)"

definition reconcile_account :: "(string list \<Rightarrow> string list) \<Rightarrow> (int \<Rightarrow> string \<Rightarrow> string) \<Rightarrow> instant \<Rightarrow> history_job \<Rightarrow> 'a review_db_scheme \<Rightarrow> int \<Rightarrow>
    (string \<times> 'a review_db_scheme) result" where
  "reconcile_account order uid t j db acc =
     (case historySnapshot acc (req_from (job_request j)) (req_to (job_request j)) db of None \<Rightarrow> Inr (''unknown'', db)
      | Some closing \<Rightarrow> (case historySnapshot acc [] (previousDate (sn_date (fst closing))) db of None \<Rightarrow> Inr (''unknown'', db)
        | Some opening \<Rightarrow> let c = compare_snapshots j acc opening closing db in
            rfold (reconcile_key (uid acc) t acc (fst opening) (fst closing) c) (if cm_complete c then ''passed'' else ''incomplete'', db)
              (order (map fst (cm_templates c)))))"

section \<open>The job\<close>

definition reconciled_accounts :: "history_job \<Rightarrow> 'a review_db_scheme \<Rightarrow> int list" where
  "reconciled_accounts j db = uniqueHistoryIDs (sort (merge_ids (req_account_ids (job_request j)) (observed_accounts (job_id j) db)))"

definition ReconcileHistoryJob :: "(string list \<Rightarrow> string list) \<Rightarrow> (int \<Rightarrow> string \<Rightarrow> string) \<Rightarrow> instant \<Rightarrow> history_job \<Rightarrow>
    ('a review_db_scheme, (int \<times> string) list) call" where
  "ReconcileHistoryJob order uid t j = under_lease t j (\<lambda>db.
     rfold (\<lambda>(result, db) acc. rbind (reconcile_account order uid t j db acc) (\<lambda>(status, db). Inr (result @ [(acc, status)], db)))
       ([], db) (reconciled_accounts j db))"

end
