(* ===== verification/Reconcile_Facts.thy ===== *)
theory Reconcile_Facts
  imports History_Reconcile
begin

text \<open>
  What the comparison of the reported balances with the ledger decides: the result of a job for an account is a function of
  the two snapshots, the activities between them and the coverage of the days between them, whatever the order in which the
  balances are visited; a mismatch leaves an open issue; snapshots are stored once and never changed.
\<close>

section \<open>Units\<close>

text \<open>Money of one currency, or pieces of one instrument.\<close>

definition unit_balance :: "balance \<Rightarrow> bool" where
  "unit_balance b \<longleftrightarrow> bal_kind b = ''cash'' \<and> bal_instrument_id b = 0 \<or> bal_kind b = ''position'' \<and> bal_currency b = []"

definition same_unit :: "balance \<Rightarrow> balance \<Rightarrow> bool" where
  "same_unit b c \<longleftrightarrow> bal_kind b = bal_kind c \<and> bal_currency b = bal_currency c \<and> bal_instrument_id b = bal_instrument_id c"

lemma nat_str_eq_iff [simp]: "nat_str m = nat_str n \<longleftrightarrow> m = n"
  by (metis nat_str_value)

lemma nat_str_hd_digit: "is_digit (hd (nat_str n))"
  using nat_str_digits [of n] nat_str_nonempty [of n] by (cases "nat_str n") auto

lemma int_str_eq_iff [simp]: "int_str a = int_str b \<longleftrightarrow> a = b"
proof
  assume e: "int_str a = int_str b"
  have minus: "CHR ''-'' # nat_str m \<noteq> nat_str n" for m n
    using nat_str_hd_digit [of n] by (auto simp: is_digit_def dest!: sym [of "_ # _"])
  show "a = b" using e minus minus [symmetric] by (auto simp: int_str_def split: if_splits)
qed simp

lemma same_balance_key:
  assumes "unit_balance b" "unit_balance c"
  shows "balanceKey b = balanceKey c \<longleftrightarrow> same_unit b c"
  using assms by (auto simp: unit_balance_def same_unit_def balanceKey_def)

lemma same_unit_delta: "same_unit b c \<Longrightarrow> booked_delta b as = booked_delta c as"
  by (simp add: booked_delta_def leg_delta_def same_unit_def)

text \<open>Balances by key.\<close>

definition by_key :: "balances \<Rightarrow> bool" where
  "by_key m \<longleftrightarrow> (\<forall>(k, b)\<in>set m. unit_balance b \<and> balanceKey b = k)"

lemma set_update: "set (AList.update k v m) \<subseteq> insert (k, v) (set m)"
  by (induction m) auto

lemma keyed_update [simp]: "by_key m \<Longrightarrow> unit_balance b \<Longrightarrow> by_key (AList.update (balanceKey b) b m)"
  using set_update [of "balanceKey b" b m] unfolding by_key_def by fastforce

lemma keyed_map_of: "by_key m \<Longrightarrow> map_of m k = Some b \<Longrightarrow> unit_balance b \<and> balanceKey b = k"
  unfolding by_key_def by (auto dest: map_of_SomeD)

text \<open>What is held of a unit: nothing when there is no balance of it.\<close>

definition held :: "balances \<Rightarrow> balance \<Rightarrow> rat option" where
  "held m u = (case map_of m (balanceKey u) of None \<Rightarrow> Some 0 | Some b \<Rightarrow> dec_num (bal_value b))"

text \<open>The closing amount is the opening one plus what was booked.\<close>

definition balanced :: "balances \<Rightarrow> balances \<Rightarrow> activity list \<Rightarrow> balance \<Rightarrow> bool" where
  "balanced opening closing activities u \<longleftrightarrow>
     (\<exists>x. held opening u = Some x \<and> held closing u = Some (x + booked_delta u activities))"

lemma held_same: "unit_balance u \<Longrightarrow> unit_balance v \<Longrightarrow> same_unit u v \<Longrightarrow> held m u = held m v"
  by (simp add: held_def same_balance_key [symmetric])

section \<open>The rows\<close>

definition typed_row :: "balance_row \<Rightarrow> bool" where
  "typed_row r \<longleftrightarrow> bl_kind r = ''cash'' \<and> bl_instrument r = None \<or> bl_kind r = ''position''"

definition snapshot_key :: "snapshot_row \<Rightarrow> int \<times> string \<times> string \<times> string" where
  "snapshot_key s = (sn_account s, sn_date s, sn_basis s, sn_source_ref s)"

definition reported_ok :: "'a review_db_scheme \<Rightarrow> bool" where
  "reported_ok db \<longleftrightarrow> (\<forall>r\<in>set (db_balances db). typed_row r) \<and> (\<forall>s\<in>set (db_snapshots db). parse_date (sn_date s) \<noteq> None)
     \<and> distinct (map snapshot_key (db_snapshots db))"

lemma stored_balance_unit: "typed_row r \<Longrightarrow> unit_balance (stored_balance r)"
  by (auto simp: typed_row_def stored_balance_def unit_balance_def)

lemma foldl_kept: "P m \<Longrightarrow> (\<And>m x. P m \<Longrightarrow> x \<in> set xs \<Longrightarrow> P (f m x)) \<Longrightarrow> P (foldl f m xs)"
  by (induction xs arbitrary: m) auto

lemma snapshot_balances_keyed: "\<forall>r\<in>set rows. typed_row r \<Longrightarrow> by_key (snapshot_balances i rows)"
  unfolding snapshot_balances_def
  by (rule foldl_kept) (auto simp: by_key_def [of "[]"] stored_balance_unit)

lemma leg_balance_unit: "leg_balance l = Some b \<Longrightarrow> unit_balance b \<and> bal_value b = ''0''"
  by (auto simp: leg_balance_def unit_balance_def split: if_splits)

lemma add_template_keyed: "by_key m \<Longrightarrow> by_key (add_template m l)"
  using leg_balance_unit by (auto simp: add_template_def split: option.splits)

lemma templates_keyed:
  assumes "by_key opening" "by_key closing"
  shows "by_key (balance_templates opening closing as)"
  unfolding balance_templates_def
proof (rule foldl_kept)
  show "by_key (foldl (\<lambda>m (k, b). AList.update k b m) opening closing)"
  proof (rule foldl_kept [where P = by_key, OF assms(1)])
    fix m x assume "by_key m" "x \<in> set closing"
    with assms(2) show "by_key (case x of (k, b) \<Rightarrow> AList.update k b m)"
      unfolding by_key_def [of closing] by (cases x) (use keyed_update in force)
  qed
qed (rule add_template_keyed)

lemma foldl_update_keys: "dom (map_of (foldl (\<lambda>m (k, b). AList.update k b m) m xs)) = dom (map_of m) \<union> dom (map_of xs)"
  by (induction xs arbitrary: m) (auto simp: update_conv')

lemma foldl_template_keys:
  "dom (map_of (foldl add_template m ls)) = dom (map_of m) \<union> {balanceKey b | l b. l \<in> set ls \<and> leg_balance l = Some b}"
proof (induction ls arbitrary: m)
  case (Cons l ls)
  have "dom (map_of (add_template m l)) = dom (map_of m) \<union> {balanceKey b | b. leg_balance l = Some b}"
    by (auto simp: add_template_def update_conv' split: option.splits)
  with Cons show ?case by auto
qed simp

lemma templates_keys:
  "dom (map_of (balance_templates opening closing as)) = dom (map_of opening) \<union> dom (map_of closing)
     \<union> {balanceKey b | a l b. a \<in> set as \<and> l \<in> set (act_legs a) \<and> leg_balance l = Some b}"
  unfolding balance_templates_def foldl_template_keys foldl_update_keys by fastforce

text \<open>A unit that no balance and no leg mentions is balanced: nothing is held and nothing was booked.\<close>

lemma leg_delta_unit:
  assumes "unit_balance u" "leg_delta u l \<noteq> []"
  shows "\<exists>b. leg_balance l = Some b \<and> balanceKey b = balanceKey u"
  using assms by (auto simp: leg_delta_def unit_balance_def leg_balance_def balanceKey_def split: if_splits)

lemma unmentioned_balanced:
  assumes "unit_balance u" "balanceKey u \<notin> dom (map_of (balance_templates opening closing as))"
  shows "balanced opening closing as u"
proof -
  have "leg_delta u l = []" if "a \<in> set as" "l \<in> set (act_legs a)" for a l
  proof (rule ccontr)
    assume "leg_delta u l \<noteq> []"
    then obtain b where "leg_balance l = Some b" "balanceKey u = balanceKey b" using leg_delta_unit [OF assms(1), of l] by auto
    with that have "balanceKey u \<in> {balanceKey b | a l b. a \<in> set as \<and> l \<in> set (act_legs a) \<and> leg_balance l = Some b}" by blast
    with assms(2) show False unfolding templates_keys by blast
  qed
  then have "booked_delta u as = (\<Sum>l\<leftarrow>concat (map act_legs (filter booked as)). 0)"
    unfolding booked_delta_def by (intro arg_cong [where f = sum_list] map_cong) (auto simp: ledger.val_def)
  then have "booked_delta u as = 0" by simp
  with assms(2) show ?thesis by (auto simp: balanced_def held_def templates_keys domIff split: option.splits)
qed

section \<open>One comparison\<close>

definition keyed_comparison :: "comparison \<Rightarrow> bool" where
  "keyed_comparison c \<longleftrightarrow> by_key (cm_opening c) \<and> by_key (cm_closing c)
     \<and> cm_templates c = balance_templates (cm_opening c) (cm_closing c) (cm_activities c)
     \<and> (cm_complete c \<longrightarrow> \<not> list_ex pending_activity (cm_activities c))"

lemma pending_activity_iff: "pending_activity a \<longleftrightarrow> act_status a \<noteq> StatusVoided \<and> \<not> booked a"
  by (auto simp: pending_activity_def booked_def)

lemma zero_amount [simp]: "dec_num ''0'' = Some 0"
  using ledger.num_str [OF ledger.fits_0] by simp

text \<open>The balance of a key, or the zero of its template.\<close>

lemma compared_balance:
  assumes "by_key m" "by_key (cm_templates c)" "balanceKey u \<in> dom (map_of (cm_templates c))" "unit_balance u"
  defines "b \<equiv> (case map_of m (balanceKey u) of Some b \<Rightarrow> b | None \<Rightarrow> zero_of c (balanceKey u))"
  shows "same_unit b u" "dec_num (bal_value b) = held m u"
proof -
  obtain z where z: "map_of (cm_templates c) (balanceKey u) = Some z" using assms(3) by auto
  note k = keyed_map_of [OF assms(2) z]
  have zu: "same_unit z u" using same_balance_key [OF conjunct1 [OF k] assms(4)] k by simp
  show "same_unit b u"
  proof (cases "map_of m (balanceKey u)")
    case None
    with zu z show ?thesis by (simp add: b_def zero_of_def same_unit_def)
  next
    case (Some x)
    with keyed_map_of [OF assms(1) Some] same_balance_key [of x u] assms(4) show ?thesis by (simp add: b_def)
  qed
  show "dec_num (bal_value b) = held m u"
    using z by (simp add: b_def held_def zero_of_def split: option.splits)
qed

lemma difference_verdict:
  assumes "keyed_comparison c" "cm_complete c" "unit_balance u" "balanceKey u \<in> dom (map_of (cm_templates c))"
    "key_difference c (balanceKey u) = Inr r"
  shows "\<exists>d. r = Some d \<and> same_unit (diff_balance d) u
    \<and> diff_status d = (if balanced (cm_opening c) (cm_closing c) (cm_activities c) u then ''passed'' else ''mismatch'')"
proof -
  let ?b = "\<lambda>m. case map_of m (balanceKey u) of Some b \<Rightarrow> b | None \<Rightarrow> zero_of c (balanceKey u)"
  note K = assms(1) [unfolded keyed_comparison_def]
  have tk: "by_key (cm_templates c)" using K templates_keyed by auto
  note o1 = compared_balance [of "cm_opening c" c u, OF _ tk assms(4,3)]
  note c1 = compared_balance [of "cm_closing c" c u, OF _ tk assms(4,3)]
  have "key_difference c (balanceKey u) = (case Reconcile (Some (?b (cm_opening c))) (?b (cm_closing c)) (cm_activities c) of
      (d, None) \<Rightarrow> Inr (Some d) | (_, Some e) \<Rightarrow> Inl e)"
    using assms(2) by (cases "map_of (cm_opening c) (balanceKey u)"; cases "map_of (cm_closing c) (balanceKey u)")
      (simp_all add: key_difference_def)
  with assms(5) obtain d where d: "Reconcile (Some (?b (cm_opening c))) (?b (cm_closing c)) (cm_activities c) = (d, None)" "r = Some d"
    by (cases "Reconcile (Some (?b (cm_opening c))) (?b (cm_closing c)) (cm_activities c)"; cases "snd (Reconcile (Some (?b (cm_opening c))) (?b (cm_closing c)) (cm_activities c))")
      simp_all
  have np: "\<not> (\<exists>a\<in>set (cm_activities c). act_status a \<noteq> StatusVoided \<and> \<not> booked a)"
    using K assms(2) by (auto simp: list_ex_iff pending_activity_iff)
  from Reconcile_verdict [OF d(1)] obtain x y where v: "diff_balance d = ?b (cm_closing c)"
    "dec_num (bal_value (?b (cm_opening c))) = Some x" "dec_num (bal_value (?b (cm_closing c))) = Some y"
    "diff_status d = (if y = x + booked_delta (?b (cm_closing c)) (cm_activities c) then ''passed'' else ''mismatch'')"
    using np by (auto simp only: option.case if_False)
  have "booked_delta (?b (cm_closing c)) (cm_activities c) = booked_delta u (cm_activities c)"
    using c1(1) K by (intro same_unit_delta) simp
  moreover have "held (cm_opening c) u = Some x" "held (cm_closing c) u = Some y" using v(2,3) o1(2) c1(2) K by simp_all
  moreover have "same_unit (?b (cm_closing c)) u" using c1(1) K by simp
  ultimately show ?thesis using v d(2) by (auto simp: balanced_def)
qed

text \<open>An open issue of an account about a unit.\<close>

definition mismatch_open :: "int \<Rightarrow> snapshot_row \<Rightarrow> snapshot_row \<Rightarrow> balance \<Rightarrow> issue_row list \<Rightarrow> bool" where
  "mismatch_open acc opening closing u issues \<longleftrightarrow> (\<exists>x\<in>set issues. \<exists>d. is_account x = acc \<and> is_type x = ''balance_mismatch'' \<and> is_status x = ''open''
     \<and> details_text (is_details x) = details_text (Balance_Mismatch (sn_id opening) (sn_id closing) d) \<and> same_unit (diff_balance d) u)"

lemma save_issue_Inr:
  assumes "saveReconciliationIssue uid t acc opening closing d db = Inr db'" "same_unit (diff_balance d) u"
  shows "\<exists>new. db' = db\<lparr>db_issues := db_issues db @ new\<rparr>" "mismatch_open acc opening closing u (db_issues db')"
proof -
  show "\<exists>new. db' = db\<lparr>db_issues := db_issues db @ new\<rparr>"
  proof (cases "db' = db")
    case True
    then show ?thesis by (intro exI [of _ "[]"]) simp
  next
    case False
    with assms(1) show ?thesis by (auto simp: saveReconciliationIssue_def Let_def split: if_splits)
  qed
  show "mismatch_open acc opening closing u (db_issues db')"
    using assms by (fastforce simp: saveReconciliationIssue_def mismatch_open_def Let_def split: if_splits)
qed

lemma mismatch_open_append: "mismatch_open acc opening closing u xs \<Longrightarrow> mismatch_open acc opening closing u (xs @ ys)"
  by (auto simp: mismatch_open_def)

section \<open>All balances of an account\<close>

lemma no_new_issue: "\<exists>new. db = db\<lparr>db_issues := db_issues db @ new\<rparr>"
  by (rule exI [of _ "[]"]) simp

lemma worse_than_passed [simp]: "reconciliationWorse st ''passed'' = st"
  by (simp add: reconciliationWorse_def status_rank_def)

lemma reconcile_key_step:
  assumes "keyed_comparison c" "cm_complete c" "unit_balance u" "balanceKey u \<in> dom (map_of (cm_templates c))"
    "reconcile_key uid t acc o1 c1 c (st, db) (balanceKey u) = Inr (st', db')"
  defines "settled \<equiv> balanced (cm_opening c) (cm_closing c) (cm_activities c) u"
  shows "(\<exists>new. db' = db\<lparr>db_issues := db_issues db @ new\<rparr>) \<and> st' = (if settled then st else ''mismatch'')
    \<and> (\<not> settled \<longrightarrow> mismatch_open acc o1 c1 u (db_issues db'))"
proof -
  from assms(5) obtain r where r: "key_difference c (balanceKey u) = Inr r" by (auto simp: reconcile_key_def rbind_Inr_iff)
  from difference_verdict [OF assms(1-4) r] obtain d where d: "r = Some d" "same_unit (diff_balance d) u"
    "diff_status d = (if settled then ''passed'' else ''mismatch'')" by (auto simp: settled_def)
  show ?thesis
  proof (cases settled)
    case True
    with assms(2,5) r d have "st' = st" "db' = db" by (simp_all add: reconcile_key_def)
    then show ?thesis unfolding \<open>db' = db\<close> by (intro conjI no_new_issue) (simp_all add: True)
  next
    case False
    with assms(2,5) r d have "saveReconciliationIssue (uid (balanceKey u)) t acc o1 c1 d db = Inr db'" "st' = ''mismatch''"
      by (auto simp: reconcile_key_def rbind_Inr_iff)
    with False save_issue_Inr [OF this(1) d(2)] show ?thesis by simp
  qed
qed

lemma templates_units:
  assumes "keyed_comparison c" "k \<in> dom (map_of (cm_templates c))"
  obtains u where "unit_balance u" "k = balanceKey u"
proof -
  obtain b where b: "map_of (cm_templates c) k = Some b" using assms(2) by auto
  have "by_key (cm_templates c)" using assms(1) templates_keyed by (simp add: keyed_comparison_def)
  from keyed_map_of [OF this b] show thesis using that by blast
qed

lemma reconcile_keys_complete:
  assumes "keyed_comparison c" "cm_complete c" "set keys \<subseteq> dom (map_of (cm_templates c))"
    "rfold (reconcile_key uid t acc o1 c1 c) (st, db) keys = Inr (st', db')"
  defines "settled \<equiv> balanced (cm_opening c) (cm_closing c) (cm_activities c)"
  shows "(\<exists>new. db' = db\<lparr>db_issues := db_issues db @ new\<rparr>)
    \<and> st' = (if \<forall>u. unit_balance u \<and> balanceKey u \<in> set keys \<longrightarrow> settled u then st else ''mismatch'')
    \<and> (\<forall>u. unit_balance u \<and> balanceKey u \<in> set keys \<and> \<not> settled u \<longrightarrow> mismatch_open acc o1 c1 u (db_issues db'))"
  using assms(3,4)
proof (induction keys arbitrary: st db)
  case Nil
  then have e: "st' = st" "db' = db" by simp_all
  show ?case unfolding e by (intro conjI no_new_issue) simp_all
next
  case (Cons k keys)
  from Cons.prems(1) have k: "k \<in> dom (map_of (cm_templates c))" by simp
  obtain v where v: "unit_balance v" "k = balanceKey v" by (rule templates_units [OF assms(1) k])
  obtain st1 db1 where s: "reconcile_key uid t acc o1 c1 c (st, db) (balanceKey v) = Inr (st1, db1)"
    "rfold (reconcile_key uid t acc o1 c1 c) (st1, db1) keys = Inr (st', db')"
    using Cons.prems(2) v(2) by (auto simp: rbind_Inr_iff)
  note step = reconcile_key_step [OF assms(1,2) v(1) k [unfolded v(2)] s(1), folded settled_def]
  have "set keys \<subseteq> dom (map_of (cm_templates c))" using Cons.prems(1) by simp
  note rest = Cons.IH [OF this s(2)]
  have same: "settled u \<longleftrightarrow> settled v" "mismatch_open acc o1 c1 u xs \<longleftrightarrow> mismatch_open acc o1 c1 v xs"
    if "unit_balance u" "balanceKey u = balanceKey v" for u xs
    using that v(1) same_balance_key [OF that(1) v(1)] held_same [OF that(1) v(1)] same_unit_delta [of u v]
    by (auto simp: settled_def balanced_def mismatch_open_def same_unit_def)
  obtain n1 n2 where n: "db1 = db\<lparr>db_issues := db_issues db @ n1\<rparr>" "db' = db1\<lparr>db_issues := db_issues db1 @ n2\<rparr>"
    using step rest by blast
  have grown: "\<exists>new. db' = db\<lparr>db_issues := db_issues db @ new\<rparr>" using n by (intro exI [of _ "n1 @ n2"]) simp
  have all: "(\<forall>u. unit_balance u \<and> balanceKey u \<in> set (k # keys) \<longrightarrow> settled u)
      \<longleftrightarrow> settled v \<and> (\<forall>u. unit_balance u \<and> balanceKey u \<in> set keys \<longrightarrow> settled u)"
    unfolding list.set insert_iff v(2) using v(1) same(1) by blast
  have "st1 = (if settled v then st else ''mismatch'')"
    "st' = (if \<forall>u. unit_balance u \<and> balanceKey u \<in> set keys \<longrightarrow> settled u then st1 else ''mismatch'')" using step rest by blast+
  then have status: "st' = (if \<forall>u. unit_balance u \<and> balanceKey u \<in> set (k # keys) \<longrightarrow> settled u then st else ''mismatch'')"
    unfolding all by (cases "settled v"; cases "\<forall>u. unit_balance u \<and> balanceKey u \<in> set keys \<longrightarrow> settled u") (simp_all only: if_True if_False if_cancel simp_thms)
  have "mismatch_open acc o1 c1 u (db_issues db')" if "unit_balance u" "balanceKey u \<in> set (k # keys)" "\<not> settled u" for u
  proof (cases "balanceKey u = balanceKey v")
    case True
    with that same(1) step have "mismatch_open acc o1 c1 v (db_issues db1)" by blast
    then have "mismatch_open acc o1 c1 v (db_issues db')" unfolding n(2) by (simp add: mismatch_open_append)
    with same(2) [OF that(1) True] show ?thesis by blast
  next
    case False
    with that v(2) rest show ?thesis by simp
  qed
  with grown status show ?case by blast
qed

lemma reconcile_keys_incomplete:
  assumes "\<not> cm_complete c" "rfold (reconcile_key uid t acc o1 c1 c) (st, db) keys = Inr (st', db')"
  shows "st' = st \<and> db' = db"
proof -
  have "(\<lambda>p. p = (st, db)) (st', db')"
  proof (rule rfold_invariant [OF assms(2)])
    fix a x a' assume "a = (st, db)" "reconcile_key uid t acc o1 c1 c a x = Inr a'"
    with assms(1) show "a' = (st, db)" by (auto simp: reconcile_key_def rbind_Inr_iff split: option.splits)
  qed simp
  then show ?thesis by simp
qed

section \<open>Days and snapshots\<close>

definition spans :: "'c history_coverage_scheme \<Rightarrow> day \<Rightarrow> bool" where
  "spans c d \<longleftrightarrow> (\<exists>a b. parse_date (cov_from c) = Some a \<and> parse_date (cov_to c) = Some b \<and> a \<le> d \<and> d \<le> b)"

text \<open>A day whose activities are all known: a stored coverage says so, or the coverage that the job itself proved.\<close>

definition proven_day :: "history_job \<Rightarrow> int \<Rightarrow> 'a review_db_scheme \<Rightarrow> day \<Rightarrow> bool" where
  "proven_day j acc db d \<longleftrightarrow>
     (\<exists>c\<in>set (db_coverage db). cov_account_id c = acc \<and> cov_data_type c = ''activities'' \<and> cov_scope_key c = ''account''
        \<and> cov_fetch_status c = ''complete'' \<and> cov_normalize_status c = ''complete'' \<and> spans c d)
   \<or> (\<exists>c\<in>set (job_coverage j). cov_account_id c = acc \<and> cov_data_type c = ''activities'' \<and> cov_scope_key c = ''account''
        \<and> cov_fetch_status c = ''complete'' \<and> spans c d)"

lemma date_interval_spans: "(\<exists>s e. date_interval (cov_from c) (cov_to c) = Some (s, e) \<and> s \<le> d \<and> d \<le> e) \<longleftrightarrow> spans c d"
  by (fastforce simp: date_interval_def spans_def split: option.splits if_splits)

lemma covered_map_filter:
  "covered (List.map_filter (\<lambda>c. date_interval (cov_from c) (cov_to c)) cs) d \<longleftrightarrow> (\<exists>c\<in>set cs. spans c d)"
  unfolding date_interval_spans [symmetric] covered_def by (force simp: List.map_filter_def)

lemma covered_append: "covered (xs @ ys) d \<longleftrightarrow> covered xs d \<or> covered ys d"
  by (auto simp: covered_def)

lemma intervals_proven: "covered (account_intervals j acc db) d \<longleftrightarrow> proven_day j acc db d"
  unfolding account_intervals_def covered_append covered_map_filter proven_day_def by auto

lemma intervals_ordered: "list_all (\<lambda>(s, e). s \<le> e) (account_intervals j acc db)"
  by (auto simp: account_intervals_def list_all_iff List.map_filter_def date_interval_def split: option.splits if_splits)

lemma coverage_exact:
  assumes "parse_date from = Some a" "parse_date to = Some b" "a < b"
  shows "reconciliationCoverageComplete j acc (nextDate from) to db \<longleftrightarrow> (\<forall>d. a < d \<and> d \<le> b \<longrightarrow> proven_day j acc db d)"
proof -
  from format_parse_date [OF assms(1)] format_parse_date [OF assms(2)] have f: "four_digit a" "four_digit b" "to = format_date b" by auto
  have n: "four_digit (a + 1)" using four_digit_between [OF f(1,2)] assms(3) by simp
  have nd: "nextDate from = format_date (a + 1)" using assms(1) by (simp add: nextDate_def)
  have "\<not> to < nextDate from" using format_date_less_iff [OF f(2) n] assms(3) f(3) nd by simp
  moreover have "parse_date (nextDate from) = Some (a + 1)" using parse_format_date [OF n] nd by simp
  moreover have "to \<noteq> []" using f(3) by simp
  ultimately have "reconciliationCoverageComplete j acc (nextDate from) to db = cover_loop (a + 1) b a (sort_key fst (account_intervals j acc db))"
    using assms(2) nd by (simp add: reconciliationCoverageComplete_def)
  also have "\<dots> = (\<forall>d. a < d \<and> d \<le> b \<longrightarrow> covered (sort_key fst (account_intervals j acc db)) d)"
    by (rule cover_loop_exact) (use intervals_ordered assms(3) in \<open>simp_all add: list_all_iff\<close>)
  finally show ?thesis by (simp add: intervals_proven)
qed

lemma historySnapshot_Some:
  assumes "historySnapshot acc from to db = Some (s, m)" "reported_ok db"
  shows "s \<in> set (db_snapshots db)" "sn_account s = acc" "by_key m" "to = [] \<or> sn_date s \<le> to" "parse_date (sn_date s) \<noteq> None"
proof -
  let ?rows = "filter (\<lambda>x. sn_account x = acc \<and> (from = [] \<or> from \<le> sn_date x) \<and> (to = [] \<or> sn_date x \<le> to)) (db_snapshots db)"
  let ?sorted = "sort_key sn_date (sort_key sn_created_at (sort_key sn_id ?rows))"
  have s: "?sorted \<noteq> []"
  proof
    assume "?sorted = []"
    with assms(1) show False unfolding historySnapshot_def Let_def by simp
  qed
  have "Some (last ?sorted, snapshot_balances (sn_id (last ?sorted)) (db_balances db)) = Some (s, m)"
    using assms(1) unfolding historySnapshot_def Let_def if_not_P [OF s] .
  then have l: "last ?sorted = s" and m: "snapshot_balances (sn_id (last ?sorted)) (db_balances db) = m" by blast+
  have "set ?sorted = set ?rows" by simp
  with last_in_set [OF s] have "s \<in> set ?rows" unfolding l by blast
  then show "s \<in> set (db_snapshots db)" "sn_account s = acc" "to = [] \<or> sn_date s \<le> to" by auto
  then show "parse_date (sn_date s) \<noteq> None" using assms(2) by (auto simp: reported_ok_def)
  show "by_key m" unfolding m [symmetric] using assms(2) by (intro snapshot_balances_keyed) (simp add: reported_ok_def)
qed

text \<open>The opening snapshot is of an earlier day.\<close>

lemma year_before_zero: "format_date (- 1) = ''-0001-12-31''"
  by code_simp

lemma earlier_day:
  assumes "parse_date o1 = Some a" "parse_date c1 = Some b" "o1 \<le> previousDate c1"
  shows "a < b"
proof -
  from format_parse_date [OF assms(1)] format_parse_date [OF assms(2)] have f: "four_digit a" "four_digit b" "o1 = format_date a" by auto
  have p: "previousDate c1 = format_date (b - 1)" using assms(2) by (simp add: previousDate_def)
  show ?thesis
  proof (cases "b = 0")
    case False
    then have "four_digit (b - 1)" using f(2) by (simp add: four_digit_bounds)
    from format_date_less_iff [OF this f(1)] assms(3) f(3) p show ?thesis by auto
  next
    case True
    obtain y m d where "0 \<le> y" "y < 10000" "format_date a = pad 4 (nat y) @ ''-'' @ pad 2 (nat m) @ ''-'' @ pad 2 (nat d)" "length (pad 4 (nat y)) = 4"
      by (rule format_date_parts [OF f(1)])
    moreover from this(1,2) have "all_digits (pad 4 (nat y))" by (intro pad_facts(2)) simp_all
    ultimately have "is_digit (hd (format_date a))" "format_date a \<noteq> []" by (cases "pad 4 (nat y)"; simp)+
    then obtain c r where c: "format_date a = c # r" "is_digit c" by (cases "format_date a") auto
    have "\<not> c < CHR ''-''" "c \<noteq> CHR ''-''" using c(2) by (auto simp: is_digit_def less_char_def)
    then have "\<not> o1 \<le> previousDate c1" using True p f(3) c(1) by (simp add: year_before_zero)
    with assms(3) show ?thesis by simp
  qed
qed

section \<open>The verdict\<close>

text \<open>Everything between two snapshots is known: both are complete and of the same kind, every day after the first up to the
  second is proven, the records of the job are all booked, and every activity is booked or voided.\<close>

definition evidence :: "history_job \<Rightarrow> int \<Rightarrow> 'a review_db_scheme \<Rightarrow> snapshot_row \<Rightarrow> snapshot_row \<Rightarrow> activity list \<Rightarrow> bool" where
  "evidence j acc db o1 c1 activities \<longleftrightarrow>
     sn_completeness o1 = ''complete'' \<and> sn_completeness c1 = ''complete'' \<and> sn_basis o1 = sn_basis c1
   \<and> (\<exists>a b. parse_date (sn_date o1) = Some a \<and> parse_date (sn_date c1) = Some b \<and> a < b \<and> (\<forall>d. a < d \<and> d \<le> b \<longrightarrow> proven_day j acc db d))
   \<and> (\<forall>ob\<in>set (db_observations db). \<forall>r\<in>set (db_raw db). ob_job ob = job_id j \<and> ob_raw ob = rr_id r \<and> rr_account r = acc
        \<longrightarrow> ob_outcome ob \<notin> {[], ''unsupported'', ''needs_review''})
   \<and> (\<forall>a\<in>set activities. act_status a = StatusVoided \<or> booked a)"

definition verdict :: "history_job \<Rightarrow> int \<Rightarrow> 'a review_db_scheme \<Rightarrow> string" where
  "verdict j acc db =
     (case historySnapshot acc (req_from (job_request j)) (req_to (job_request j)) db of None \<Rightarrow> ''unknown''
      | Some (c1, closing) \<Rightarrow> (case historySnapshot acc [] (previousDate (sn_date c1)) db of None \<Rightarrow> ''unknown''
        | Some (o1, opening) \<Rightarrow> let activities = reconciliationActivities acc (sn_date o1) (sn_date c1) db in
            if \<not> evidence j acc db o1 c1 activities then ''incomplete''
            else if \<forall>u. unit_balance u \<longrightarrow> balanced opening closing activities u then ''passed'' else ''mismatch''))"

lemma complete_evidence:
  assumes "parse_date (sn_date o1) = Some a" "parse_date (sn_date c1) = Some b" "a < b"
  shows "cm_complete (compare_snapshots j acc (o1, opening) (c1, closing) db)
    \<longleftrightarrow> evidence j acc db o1 c1 (reconciliationActivities acc (sn_date o1) (sn_date c1) db)"
proof -
  let ?as = "reconciliationActivities acc (sn_date o1) (sn_date c1) db"
  have "cm_complete (compare_snapshots j acc (o1, opening) (c1, closing) db) \<longleftrightarrow>
      sn_completeness o1 = ''complete'' \<and> sn_completeness c1 = ''complete'' \<and> sn_basis o1 = sn_basis c1
    \<and> (\<forall>d. a < d \<and> d \<le> b \<longrightarrow> proven_day j acc db d) \<and> reconciliationJobRecordsComplete (job_id j) acc db \<and> \<not> list_ex pending_activity ?as"
    using coverage_exact [OF assms, of j acc db] by (simp add: compare_snapshots_def Let_def)
  moreover have "(\<exists>a b. parse_date (sn_date o1) = Some a \<and> parse_date (sn_date c1) = Some b \<and> a < b \<and> (\<forall>d. a < d \<and> d \<le> b \<longrightarrow> proven_day j acc db d))
    \<longleftrightarrow> (\<forall>d. a < d \<and> d \<le> b \<longrightarrow> proven_day j acc db d)" unfolding assms(1,2) using assms(3) by blast
  moreover have "reconciliationJobRecordsComplete (job_id j) acc db \<longleftrightarrow>
      (\<forall>ob\<in>set (db_observations db). \<forall>r\<in>set (db_raw db). ob_job ob = job_id j \<and> ob_raw ob = rr_id r \<and> rr_account r = acc
        \<longrightarrow> ob_outcome ob \<notin> {[], ''unsupported'', ''needs_review''})"
    unfolding reconciliationJobRecordsComplete_def by metis
  moreover have "\<not> list_ex pending_activity ?as \<longleftrightarrow> (\<forall>a\<in>set ?as. act_status a = StatusVoided \<or> booked a)"
    unfolding list_ex_iff pending_activity_iff by blast
  ultimately show ?thesis unfolding evidence_def by argo
qed

lemma comparison_keyed:
  assumes "by_key opening" "by_key closing"
  shows "keyed_comparison (compare_snapshots j acc (o1, opening) (c1, closing) db)"
  using assms by (simp add: keyed_comparison_def compare_snapshots_def Let_def)

text \<open>Every unit that is not balanced has an open issue.\<close>

definition all_reported :: "history_job \<Rightarrow> int \<Rightarrow> 'a review_db_scheme \<Rightarrow> issue_row list \<Rightarrow> bool" where
  "all_reported j acc db issues \<longleftrightarrow>
     (\<exists>c1 closing o1 opening. historySnapshot acc (req_from (job_request j)) (req_to (job_request j)) db = Some (c1, closing)
       \<and> historySnapshot acc [] (previousDate (sn_date c1)) db = Some (o1, opening)
       \<and> (\<exists>u. unit_balance u \<and> \<not> balanced opening closing (reconciliationActivities acc (sn_date o1) (sn_date c1) db) u)
       \<and> (\<forall>u. unit_balance u \<and> \<not> balanced opening closing (reconciliationActivities acc (sn_date o1) (sn_date c1) db) u
            \<longrightarrow> mismatch_open acc o1 c1 u issues))"

lemma reconcile_account_verdict:
  assumes "reported_ok db" "\<And>xs. set (order xs) = set xs" "reconcile_account order uid t j db acc = Inr (status, db')"
  shows "(\<exists>new. db' = db\<lparr>db_issues := db_issues db @ new\<rparr>) \<and> status = verdict j acc db
    \<and> (status = ''mismatch'' \<longrightarrow> all_reported j acc db (db_issues db'))"
proof (cases "historySnapshot acc (req_from (job_request j)) (req_to (job_request j)) db")
  case None
  with assms(3) have e: "status = ''unknown''" "db' = db" by (simp_all add: reconcile_account_def)
  show ?thesis unfolding e by (intro conjI no_new_issue) (simp_all add: verdict_def None)
next
  case (Some cc)
  obtain c1 closing where cc: "cc = (c1, closing)" by (cases cc)
  note C = Some [unfolded cc]
  show ?thesis
  proof (cases "historySnapshot acc [] (previousDate (sn_date c1)) db")
    case None
    with assms(3) C have e: "status = ''unknown''" "db' = db" by (simp_all add: reconcile_account_def)
    show ?thesis unfolding e by (intro conjI no_new_issue) (simp_all add: verdict_def C None)
  next
    case (Some oo)
    obtain o1 start where oo: "oo = (o1, start)" by (cases oo)
    note O = Some [unfolded oo]
    note cs = historySnapshot_Some [OF C assms(1)] and os = historySnapshot_Some [OF O assms(1)]
    obtain a b where ab: "parse_date (sn_date o1) = Some a" "parse_date (sn_date c1) = Some b" using cs(5) os(5) by blast
    then have "previousDate (sn_date c1) \<noteq> []" by (simp add: previousDate_def)
    with earlier_day [OF ab] os(4) have less: "a < b" by blast
    define c where "c = compare_snapshots j acc (o1, start) (c1, closing) db"
    have c: "cm_opening c = start" "cm_closing c = closing" "cm_activities c = reconciliationActivities acc (sn_date o1) (sn_date c1) db"
      "cm_templates c = balance_templates start closing (cm_activities c)"
      by (simp_all add: c_def compare_snapshots_def Let_def)
    have kc: "keyed_comparison c" unfolding c_def by (rule comparison_keyed [OF os(3) cs(3)])
    have ce: "cm_complete c \<longleftrightarrow> evidence j acc db o1 c1 (cm_activities c)" unfolding c(3) unfolding c_def by (rule complete_evidence [OF ab less])
    have run: "rfold (reconcile_key (uid acc) t acc o1 c1 c) (if cm_complete c then ''passed'' else ''incomplete'', db) (order (map fst (cm_templates c))) = Inr (status, db')"
      using assms(3) C O by (simp add: reconcile_account_def c_def Let_def)
    have keys: "set (order (map fst (cm_templates c))) = dom (map_of (cm_templates c))"
      using assms(2) by (simp add: dom_map_of_conv_image_fst)
    show ?thesis
    proof (cases "cm_complete c")
      case False
      with run have "rfold (reconcile_key (uid acc) t acc o1 c1 c) (''incomplete'', db) (order (map fst (cm_templates c))) = Inr (status, db')" by simp
      from reconcile_keys_incomplete [OF False this] have e: "status = ''incomplete''" "db' = db" by simp_all
      show ?thesis unfolding e using False ce by (intro conjI no_new_issue) (simp_all add: verdict_def C O Let_def c(3))
    next
      case True
      with run have run: "rfold (reconcile_key (uid acc) t acc o1 c1 c) (''passed'', db) (order (map fst (cm_templates c))) = Inr (status, db')" by simp
      note R = reconcile_keys_complete [OF kc True equalityD1 [OF keys] run, unfolded keys c(1,2)]
      have un: "balanced start closing (cm_activities c) u" if "unit_balance u" "balanceKey u \<notin> dom (map_of (cm_templates c))" for u
        using unmentioned_balanced [OF that(1)] that(2) unfolding c(4) by blast
      then have all: "(\<forall>u. unit_balance u \<and> balanceKey u \<in> dom (map_of (cm_templates c)) \<longrightarrow> balanced start closing (cm_activities c) u)
        \<longleftrightarrow> (\<forall>u. unit_balance u \<longrightarrow> balanced start closing (cm_activities c) u)" by blast
      have st: "status = verdict j acc db"
        using conjunct1 [OF conjunct2 [OF R]] ce True unfolding all by (simp add: verdict_def C O Let_def c(3))
      have "all_reported j acc db (db_issues db')" if "status = ''mismatch''"
        unfolding all_reported_def
      proof (rule exI [of _ c1], rule exI [of _ closing], rule exI [of _ o1], rule exI [of _ start], intro conjI)
        show "historySnapshot acc (req_from (job_request j)) (req_to (job_request j)) db = Some (c1, closing)" by (rule C)
        show "historySnapshot acc [] (previousDate (sn_date c1)) db = Some (o1, start)" by (rule O)
        from that R have "\<not> (\<forall>u. unit_balance u \<longrightarrow> balanced start closing (cm_activities c) u)" unfolding all by force
        then show "\<exists>u. unit_balance u \<and> \<not> balanced start closing (reconciliationActivities acc (sn_date o1) (sn_date c1) db) u"
          unfolding c(3) by blast
        show "\<forall>u. unit_balance u \<and> \<not> balanced start closing (reconciliationActivities acc (sn_date o1) (sn_date c1) db) u \<longrightarrow> mismatch_open acc o1 c1 u (db_issues db')"
          using R un unfolding c(3) by blast
      qed
      with R st show ?thesis by blast
    qed
  qed
qed

section \<open>A job\<close>

text \<open>The tables that a verdict reads.\<close>

definition books :: "'a review_db_scheme \<Rightarrow> _" where
  "books db = (db_snapshots db, db_balances db, db_activities db, db_revisions db, db_coverage db, db_observations db, db_raw db)"

lemma same_books:
  assumes "books d = books db"
  shows "historySnapshot acc from to d = historySnapshot acc from to db" "reconciliationActivities acc o1 c1 d = reconciliationActivities acc o1 c1 db"
    "evidence j acc d s1 s2 as = evidence j acc db s1 s2 as" "reported_ok d = reported_ok db"
  using assms by (simp_all only: books_def prod.inject historySnapshot_def reconciliationActivities_def evidence_def proven_day_def reported_ok_def)

lemma same_verdict:
  assumes "books d = books db"
  shows "verdict j acc d = verdict j acc db" "all_reported j acc d is1 = all_reported j acc db is1"
  by (simp_all only: verdict_def all_reported_def same_books [OF assms])

lemma books_frame [simp]: "books (db\<lparr>db_issues := i\<rparr>) = books db" "books (db\<lparr>db_jobs := k\<rparr>) = books db"
  by (simp_all add: books_def)

lemma all_reported_append: "all_reported j acc db xs \<Longrightarrow> all_reported j acc db (xs @ ys)"
  unfolding all_reported_def using mismatch_open_append by blast

definition reconcile_step :: "(string list \<Rightarrow> string list) \<Rightarrow> (int \<Rightarrow> string \<Rightarrow> string) \<Rightarrow> instant \<Rightarrow> history_job \<Rightarrow> (int \<times> string) list \<times> 'a review_db_scheme
    \<Rightarrow> int \<Rightarrow> ((int \<times> string) list \<times> 'a review_db_scheme) result" where
  "reconcile_step order uid t j = (\<lambda>(result, db) acc. rbind (reconcile_account order uid t j db acc) (\<lambda>(status, db). Inr (result @ [(acc, status)], db)))"

lemma reconcile_steps:
  assumes "reported_ok db" "\<And>xs. set (order xs) = set xs" "rfold (reconcile_step order uid t j) (prior, db) accs = Inr (result, db')"
  shows "(\<exists>new. db' = db\<lparr>db_issues := db_issues db @ new\<rparr>) \<and> result = prior @ map (\<lambda>acc. (acc, verdict j acc db)) accs
    \<and> (\<forall>acc\<in>set accs. verdict j acc db = ''mismatch'' \<longrightarrow> all_reported j acc db (db_issues db'))"
  using assms(1,3)
proof (induction accs arbitrary: prior db)
  case Nil
  then have e: "result = prior" "db' = db" by simp_all
  show ?case unfolding e by (intro conjI no_new_issue) simp_all
next
  case (Cons acc accs)
  obtain status db1 where s: "reconcile_account order uid t j db acc = Inr (status, db1)"
    "rfold (reconcile_step order uid t j) (prior @ [(acc, status)], db1) accs = Inr (result, db')"
    using Cons.prems(2) by (auto simp: rbind_Inr_iff reconcile_step_def)
  note A = reconcile_account_verdict [OF Cons.prems(1) assms(2) s(1)]
  obtain n1 where n1: "db1 = db\<lparr>db_issues := db_issues db @ n1\<rparr>" using A by blast
  have k: "books db1 = books db" unfolding n1 by simp
  then have "reported_ok db1" using Cons.prems(1) same_books(4) by blast
  note B = Cons.IH [OF this s(2), unfolded same_verdict [OF k]]
  obtain n2 where n2: "db' = db1\<lparr>db_issues := db_issues db1 @ n2\<rparr>" using B by blast
  have "\<exists>new. db' = db\<lparr>db_issues := db_issues db @ new\<rparr>" unfolding n2 n1 by (rule exI [of _ "n1 @ n2"]) simp
  moreover have "result = prior @ map (\<lambda>acc. (acc, verdict j acc db)) (acc # accs)" using A B by simp
  moreover have "all_reported j acc db (db_issues db')" if "verdict j acc db = ''mismatch''"
  proof -
    from A that have "all_reported j acc db (db_issues db1)" by simp
    then show ?thesis unfolding n2 by (simp add: all_reported_append)
  qed
  ultimately show ?case using B by simp
qed

lemma ReconcileHistoryJob_steps:
  assumes "ReconcileHistoryJob order uid t j db = (Inr result, db')"
  shows "\<exists>jobs. rfold (reconcile_step order uid t j) ([], db\<lparr>db_jobs := jobs\<rparr>) (reconciled_accounts j db) = Inr (result, db')"
  using under_lease_Inr [OF assms [unfolded ReconcileHistoryJob_def]]
  by (simp add: reconcile_step_def reconciled_accounts_def observed_accounts_def) blast

text \<open>C38: The verdicts of a job are exact. When \<open>ReconcileHistoryJob\<close> succeeds, it gives one verdict to each account of the job,
  whatever the order in which Go visits the map of balances: unknown without two snapshots of different days; incomplete
  unless both snapshots are complete and of one basis, every day after the first up to the second is covered, every record of the
  job was booked and every activity between the snapshots is booked or voided; otherwise passed exactly when, for every currency
  and every instrument, the closing balance is the opening balance plus the booked deltas (a balance that is not reported
  counts as zero), and else mismatch.\<close>

theorem reconciliation_is_exact:
  assumes "reported_ok db" "\<And>keys. set (order keys) = set keys" "ReconcileHistoryJob order uid t j db = (Inr result, db')"
  shows "result = map (\<lambda>acc. (acc, verdict j acc db)) (reconciled_accounts j db)"
proof -
  obtain jobs where r: "rfold (reconcile_step order uid t j) ([], db\<lparr>db_jobs := jobs\<rparr>) (reconciled_accounts j db) = Inr (result, db')"
    using ReconcileHistoryJob_steps [OF assms(3)] by blast
  have b: "books (db\<lparr>db_jobs := jobs\<rparr>) = books db" by simp
  have "reported_ok (db\<lparr>db_jobs := jobs\<rparr>)" using assms(1) same_books(4) [OF b] by blast
  from reconcile_steps [OF this assms(2) r] show ?thesis unfolding same_verdict [OF b] by simp
qed

text \<open>C39: No mismatch stays silent. When a job gives an account the verdict mismatch, the same transaction leaves, for every
  currency and instrument of the account whose closing balance is not the opening one plus the booked deltas, an open issue
  that names the unit and the two snapshots; the other issues and all other tables but the lease of the job are as before.\<close>

theorem mismatch_leaves_an_issue:
  assumes "reported_ok db" "\<And>keys. set (order keys) = set keys" "ReconcileHistoryJob order uid t j db = (Inr result, db')"
    "(acc, ''mismatch'') \<in> set result"
  shows "all_reported j acc db (db_issues db') \<and> (\<exists>jobs new. db' = db\<lparr>db_jobs := jobs, db_issues := db_issues db @ new\<rparr>)"
proof -
  obtain jobs where r: "rfold (reconcile_step order uid t j) ([], db\<lparr>db_jobs := jobs\<rparr>) (reconciled_accounts j db) = Inr (result, db')"
    using ReconcileHistoryJob_steps [OF assms(3)] by blast
  have b: "books (db\<lparr>db_jobs := jobs\<rparr>) = books db" by simp
  have "reported_ok (db\<lparr>db_jobs := jobs\<rparr>)" using assms(1) same_books(4) [OF b] by blast
  note R = reconcile_steps [OF this assms(2) r, unfolded same_verdict [OF b]]
  obtain new where n: "db' = db\<lparr>db_jobs := jobs\<rparr>\<lparr>db_issues := db_issues (db\<lparr>db_jobs := jobs\<rparr>) @ new\<rparr>" using R by blast
  have "db' = db\<lparr>db_jobs := jobs, db_issues := db_issues db @ new\<rparr>" unfolding n by simp
  moreover have "acc \<in> set (reconciled_accounts j db)" "verdict j acc db = ''mismatch''" using R assms(4) by auto
  with R have "all_reported j acc db (db_issues db')" by blast
  ultimately show ?thesis by blast
qed

section \<open>Snapshots\<close>

definition kept_snapshots :: "'a review_db_scheme \<Rightarrow> 'a review_db_scheme \<Rightarrow> bool" where
  "kept_snapshots db db' \<longleftrightarrow> prefix (db_snapshots db) (db_snapshots db') \<and> prefix (db_balances db) (db_balances db')"

lemma kept_snapshots_trans: "kept_snapshots a b \<Longrightarrow> kept_snapshots b c \<Longrightarrow> kept_snapshots a c"
  by (auto simp: kept_snapshots_def elim: prefix_order.trans)

text \<open>The tables that decide whose account a snapshot is of.\<close>

definition owners :: "'a review_db_scheme \<Rightarrow> _" where
  "owners db = (db_accounts db, db_account_connections db)"

lemma balance_instrument_Inr:
  assumes "balance_instrument ids t i b db = Inr (n, d)"
  shows "db_snapshots d = db_snapshots db" "db_balances d = db_balances db" "typed_row (balance_row_of ids i b n)" "owners d = owners db"
proof -
  let ?k = "bal_kind (rb_balance b)"
  have "(\<exists>x. d = db\<lparr>db_instruments := x\<rparr>) \<and> (?k = ''position'' \<or> ?k = ''cash'' \<and> n = None)"
  proof (cases "?k = ''position''")
    case True
    with assms show ?thesis
      by (cases "resolveInstrumentTx (si_instrument ids i) t (balance_identity b) (db_instruments db)")
        (auto simp: balance_instrument_def split: prod.splits)
  next
    case False
    with assms have "?k = ''cash''" "n = None" "d = db" unfolding balance_instrument_def by (simp_all split: if_split_asm)
    then show ?thesis by (auto intro: exI [of _ "db_instruments db"])
  qed
  then show "db_snapshots d = db_snapshots db" "db_balances d = db_balances db" "typed_row (balance_row_of ids i b n)" "owners d = owners db"
    by (auto simp: owners_def typed_row_def balance_row_of_def Let_def)
qed

lemma insert_balance_Inr:
  assumes "insert_balance ids t db (i, b) = Inr db'"
  shows "db_snapshots db' = db_snapshots db" "owners db' = owners db" "\<exists>n. db_balances db' = db_balances db @ [balance_row_of ids i b n] \<and> typed_row (balance_row_of ids i b n)"
proof -
  obtain n d where d: "balance_instrument ids t i b db = Inr (n, d)" and e: "db' = d\<lparr>db_balances := db_balances d @ [balance_row_of ids i b n]\<rparr>"
    using assms unfolding insert_balance_def prod.case rbind_Inr_iff split_paired_Ex by (metis Inl_Inr_False old.sum.inject(2))
  note D = balance_instrument_Inr [OF d]
  show "db_snapshots db' = db_snapshots db" "owners db' = owners db" unfolding e using D by (simp_all add: owners_def)
  show "\<exists>n. db_balances db' = db_balances db @ [balance_row_of ids i b n] \<and> typed_row (balance_row_of ids i b n)"
    unfolding e by (rule exI [of _ n]) (simp add: D)
qed

lemma store_snapshot_Inr:
  assumes "store_snapshot ids t acc s db = Inr db'" "reported_ok db" "parse_date (snap_as_of_date s) \<noteq> None"
  shows "reported_ok db' \<and> kept_snapshots db db' \<and> owners db' = owners db \<and> (\<exists>x\<in>set (db_snapshots db'). same_snapshot acc s x)"
proof (cases "\<exists>x\<in>set (db_snapshots db). same_snapshot acc s x")
  case True
  with assms show ?thesis by (auto simp: store_snapshot_def kept_snapshots_def)
next
  case False
  define x where "x = \<lparr>sn_id = si_snapshot ids, sn_account = acc, sn_date = snap_as_of_date s, sn_basis = snap_basis s,
    sn_source_ref = snap_source_ref s, sn_completeness = snap_completeness s, sn_created_at = nowRFC3339 t\<rparr>"
  let ?d = "db\<lparr>db_snapshots := db_snapshots db @ [x]\<rparr>"
  let ?I = "\<lambda>d. reported_ok d \<and> kept_snapshots db d \<and> owners d = owners db \<and> x \<in> set (db_snapshots d)"
  from assms(1) False have f: "rfold (insert_balance ids t) ?d (List.enumerate 0 (snap_balances s)) = Inr db'"
    by (auto simp: store_snapshot_def x_def split: if_splits)
  have "snapshot_key x \<notin> snapshot_key ` set (db_snapshots db)" using False by (auto simp: snapshot_key_def same_snapshot_def x_def)
  then have "reported_ok ?d" using assms(2,3) by (auto simp: reported_ok_def x_def)
  then have "?I ?d" by (simp add: kept_snapshots_def owners_def)
  from f this have "?I db'"
  proof (rule rfold_invariant)
    fix d ib d' assume d: "?I d" and "insert_balance ids t d ib = Inr d'"
    moreover obtain i b where "ib = (i, b)" by (cases ib)
    ultimately have "insert_balance ids t d (i, b) = Inr d'" by simp
    from insert_balance_Inr [OF this] d show "?I d'" by (auto simp: reported_ok_def kept_snapshots_def)
  qed
  moreover have "same_snapshot acc s x" by (simp add: same_snapshot_def x_def)
  ultimately show ?thesis by blast
qed

text \<open>A stored snapshot of a reported one, of an account that the job may write.\<close>

definition stored_for :: "history_job \<Rightarrow> 'a review_db_scheme \<Rightarrow> reconciliation_snapshot \<Rightarrow> snapshot_row \<Rightarrow> bool" where
  "stored_for j db s x \<longleftrightarrow> sn_date x = snap_as_of_date s \<and> sn_source_ref x = snap_source_ref s
     \<and> (\<exists>a\<in>set (db_accounts db). acc_id a = sn_account x \<and> acc_provider a = ''IBKR'' \<and> acc_provider_account_id a = snap_provider_account_id s)
     \<and> (req_account_ids (job_request j) = [] \<or> sn_account x \<in> set (req_account_ids (job_request j)))
     \<and> (req_connection_id (job_request j) \<le> 0 \<or> (sn_account x, req_connection_id (job_request j)) \<in> set (db_account_connections db))"

lemma validated_snapshot:
  assumes "validateReconciliationSnapshot s = Inr v"
  shows "snap_as_of_date v = snap_as_of_date s" "snap_source_ref v = snap_source_ref s" "snap_provider_account_id v = snap_provider_account_id s"
    "parse_date (snap_as_of_date s) \<noteq> None"
  using assms by (auto simp: validateReconciliationSnapshot_def ValidateHistoryDates_def Let_def rbind_Inr_iff split: option.splits if_splits)

lemma save_snapshot_Inr:
  assumes "save_snapshot ids t j db (k, s) = Inr db'" "reported_ok db"
  shows "reported_ok db' \<and> kept_snapshots db db' \<and> owners db' = owners db \<and> (\<exists>x\<in>set (db_snapshots db'). stored_for j db s x)"
proof -
  let ?wanted = "req_account_ids (job_request j)" and ?connection = "req_connection_id (job_request j)"
  obtain v a where v: "validateReconciliationSnapshot s = Inr v"
    and a: "find (\<lambda>a. acc_provider a = ''IBKR'' \<and> acc_provider_account_id a = snap_provider_account_id v) (db_accounts db) = Some a"
    and w: "?wanted = [] \<or> containsHistoryID ?wanted (acc_id a)"
    and c: "\<not> 0 < ?connection \<or> length (filter (\<lambda>p. p = (acc_id a, ?connection)) (db_account_connections db)) = 1"
    and st: "store_snapshot (ids k) t (acc_id a) v db = Inr db'"
    using assms(1) unfolding save_snapshot_def prod.case rbind_Inr_iff from_option_Inr Let_def by (auto split: if_splits)
  note V = validated_snapshot [OF v]
  have "parse_date (snap_as_of_date v) \<noteq> None" using V by simp
  note S = store_snapshot_Inr [OF st assms(2) this]
  obtain x where x: "x \<in> set (db_snapshots db')" "same_snapshot (acc_id a) v x" using S by blast
  have "a \<in> set (db_accounts db)" "acc_provider a = ''IBKR''" "acc_provider_account_id a = snap_provider_account_id s"
    using a V(3) unfolding find_Some_iff by auto
  moreover have "(acc_id a, ?connection) \<in> set (db_account_connections db)" if "0 < ?connection"
  proof -
    from c that have "filter (\<lambda>p. p = (acc_id a, ?connection)) (db_account_connections db) \<noteq> []" by auto
    then show ?thesis by (auto simp: filter_empty_conv)
  qed
  ultimately have "stored_for j db s x" using x(2) V w unfolding stored_for_def same_snapshot_def
    by (auto intro: leI)
  with S x(1) show ?thesis by blast
qed

lemma save_snapshots_steps:
  assumes "rfold (save_snapshot ids t j) db ks = Inr db'" "reported_ok db"
  shows "reported_ok db' \<and> kept_snapshots db db' \<and> (\<forall>s\<in>snd ` set ks. \<exists>x\<in>set (db_snapshots db'). stored_for j db s x)"
  using assms
proof (induction ks arbitrary: db)
  case Nil
  then show ?case by (simp add: kept_snapshots_def)
next
  case (Cons ks1 ks)
  obtain k s where ks1: "ks1 = (k, s)" by (cases ks1)
  obtain d where d: "save_snapshot ids t j db (k, s) = Inr d" "rfold (save_snapshot ids t j) d ks = Inr db'"
    using Cons.prems(1) unfolding ks1 by (auto simp: rbind_Inr_iff)
  note A = save_snapshot_Inr [OF d(1) Cons.prems(2)]
  then have "reported_ok d" by blast
  note B = Cons.IH [OF d(2) this]
  have o1: "stored_for j d = stored_for j db" using A by (simp add: stored_for_def owners_def fun_eq_iff)
  have "set (db_snapshots d) \<subseteq> set (db_snapshots db')" using B by (simp add: kept_snapshots_def set_mono_prefix)
  then have "\<exists>x\<in>set (db_snapshots db'). stored_for j db s x" using A by blast
  moreover have "kept_snapshots db db'" using A B kept_snapshots_trans by blast
  ultimately show ?case using B unfolding o1 ks1 by auto
qed


section \<open>Examples\<close>

definition example_span :: history_job where
  "example_span = example_running\<lparr>job_coverage := [zero_coverage\<lparr>cov_account_id := 3, cov_data_type := ''activities'', cov_scope_key := ''account'',
     cov_from := ''2024-01-01'', cov_to := ''2024-01-10'', cov_fetch_status := ''complete''\<rparr>]\<rparr>"

definition example_cash :: "string \<Rightarrow> reconciliation_balance" where
  "example_cash v = \<lparr>rb_balance = \<lparr>bal_kind = ''cash'', bal_currency = ''USD'', bal_instrument_id = 0, bal_value = v\<rparr>, rb_external_instrument_id = [],
     rb_symbol = [], rb_asset_type = [], rb_reported_cost = []\<rparr>"

definition example_snapshot :: "string \<Rightarrow> string \<Rightarrow> reconciliation_snapshot" where
  "example_snapshot d v = \<lparr>snap_provider_account_id = ''U1'', snap_as_of_date = d, snap_basis = [], snap_source_ref = ''f1'', snap_completeness = ''complete'',
     snap_balances = [example_cash v]\<rparr>"

definition example_snapshot_ids :: "nat \<Rightarrow> snapshot_ids" where
  "example_snapshot_ids k = \<lparr>si_snapshot = ''s'' @ nat_str k, si_balance = (\<lambda>i. ''b'' @ nat_str k @ nat_str i), si_instrument = int\<rparr>"

definition example_empty :: review_db where
  "example_empty = ledger_db.extend (example_ledger\<lparr>db_observations := []\<rparr>) (review_db.fields [] [])"

definition example_saved :: "unit result \<times> review_db" where
  "example_saved = SaveHistorySnapshots example_snapshot_ids example_start example_span [example_snapshot ''2024-01-05'' ''10'', example_snapshot ''2024-01-09'' ''15''] example_empty"


lemma example_saved_ok: "fst example_saved = Inr ()"
  by code_simp

definition example_books :: review_db where
  "example_books = snd example_saved"

definition example_leased :: review_db where
  "example_leased = snd (checkHistoryLease example_start example_span example_books)"

definition example_amount :: "string \<Rightarrow> balance" where
  "example_amount v = rb_balance (example_cash v)"

definition example_row :: "string \<Rightarrow> string \<Rightarrow> snapshot_row" where
  "example_row i d = \<lparr>sn_id = i, sn_account = 3, sn_date = d, sn_basis = ''trade_date'', sn_source_ref = ''f1'', sn_completeness = ''complete'',
     sn_created_at = ''2023-11-14T22:13:20Z''\<rparr>"

definition example_comparison :: comparison where
  "example_comparison = \<lparr>cm_opening = [(''cash|USD|0'', example_amount ''10'')], cm_closing = [(''cash|USD|0'', example_amount ''15'')], cm_activities = [],
     cm_templates = [(''cash|USD|0'', example_amount ''15'')], cm_complete = True\<rparr>"

lemma example_books_ok: "reported_ok example_books"
  by code_simp

lemma example_books_lease: "fst (checkHistoryLease example_start example_span example_books) = Inr ()"
  by code_simp

lemma example_books_accounts: "reconciled_accounts example_span example_leased = [3]"
  by code_simp

lemma example_books_closing: "historySnapshot 3 ''2024-01-01'' ''2024-01-31'' example_leased = Some (example_row ''s1'' ''2024-01-09'', [(''cash|USD|0'', example_amount ''15'')])"
  by code_simp

lemma example_books_opening: "historySnapshot 3 [] (previousDate ''2024-01-09'') example_leased = Some (example_row ''s0'' ''2024-01-05'', [(''cash|USD|0'', example_amount ''10'')])"
  by code_simp

lemma example_books_compared: "compare_snapshots example_span 3 (example_row ''s0'' ''2024-01-05'', [(''cash|USD|0'', example_amount ''10'')])
     (example_row ''s1'' ''2024-01-09'', [(''cash|USD|0'', example_amount ''15'')]) example_leased = example_comparison"
  by code_simp

lemma example_books_issues: "db_issues example_leased = []"
  by code_simp

lemma example_books_from: "req_from (job_request example_span) = ''2024-01-01''"
  by code_simp

lemma example_books_to: "req_to (job_request example_span) = ''2024-01-31''"
  by code_simp

lemmas example_books_facts = example_books_accounts example_books_closing example_books_opening example_books_compared example_books_issues example_books_from example_books_to

lemma example_difference: "key_difference example_comparison ''cash|USD|0'' = Inr (Some \<lparr>diff_balance = example_amount ''15'', diff_expected = ''10'',
   diff_actual = ''15'', diff_difference = ''5'', diff_status = ''mismatch''\<rparr>)"
proof -
  have r: "rational ''15'' = Inr 15" "rational ''10'' = Inr 10" "rational ''5'' = Inr 5"
    and c: "canonical_decimal ''10'' = Inr ''10''" "canonical_decimal ''5'' = Inr ''5''" by code_simp+
  have "dec_text 5 = ''5''" "representable 5" using dec_text_eqI(1) [OF r(3) c(2)] rational_representable [OF r(3)] by simp_all
  then have "Sub ''15'' ''10'' = Inr ''5''" using r by (simp add: Sub_Inr_iff)
  then show ?thesis by (simp add: key_difference_def example_comparison_def example_amount_def example_cash_def Reconcile_def c)
qed

lemma example_reconciled:
  "\<exists>db. ReconcileHistoryJob id (\<lambda>_ k. ''i'' @ k) example_start example_span example_books = (Inr [(3, ''mismatch'')], db)"
proof -
  have l: "checkHistoryLease example_start example_span example_books = (Inr (), example_leased)"
    using example_books_lease unfolding example_leased_def by (cases "checkHistoryLease example_start example_span example_books") simp
  have d: "sn_date (example_row i d) = d" for i d by (simp add: example_row_def)
  have k: "map fst (cm_templates example_comparison) = [''cash|USD|0'']" "cm_complete example_comparison" by (simp_all add: example_comparison_def)
  show ?thesis
    unfolding ReconcileHistoryJob_def under_lease_def transaction_def l
    by (simp add: reconcile_account_def example_books_facts d k example_difference reconcile_key_def saveReconciliationIssue_def Let_def)
qed

theorem reconciliation_is_exact_witness:
  "\<exists>result db. ReconcileHistoryJob id (\<lambda>_ k. ''i'' @ k) example_start example_span example_books = (Inr result, db)
     \<and> result = map (\<lambda>acc. (acc, verdict example_span acc example_books)) (reconciled_accounts example_span example_books) \<and> (3, ''mismatch'') \<in> set result"
proof -
  obtain db where db: "ReconcileHistoryJob id (\<lambda>_ k. ''i'' @ k) example_start example_span example_books = (Inr [(3, ''mismatch'')], db)"
    using example_reconciled by blast
  have "set (id xs) = set xs" for xs :: "string list" by simp
  from reconciliation_is_exact [OF example_books_ok this db] have r: "[(3, ''mismatch'')] = map (\<lambda>acc. (acc, verdict example_span acc example_books)) (reconciled_accounts example_span example_books)" .
  show ?thesis by (rule exI [of _ "[(3, ''mismatch'')]"], rule exI [of _ db], intro conjI, rule db, rule r) simp
qed

theorem mismatch_leaves_an_issue_witness:
  "\<exists>db. ReconcileHistoryJob id (\<lambda>_ k. ''i'' @ k) example_start example_span example_books = (Inr [(3, ''mismatch'')], db)
     \<and> all_reported example_span 3 example_books (db_issues db)"
proof -
  obtain db where db: "ReconcileHistoryJob id (\<lambda>_ k. ''i'' @ k) example_start example_span example_books = (Inr [(3, ''mismatch'')], db)"
    using example_reconciled by blast
  have "set (id xs) = set xs" for xs :: "string list" by simp
  from mismatch_leaves_an_issue [OF example_books_ok this db] db show ?thesis by auto
qed


text \<open>Two reported positions whose external identifiers have come to stand for one instrument do not add up: the later row
  replaces the earlier one.\<close>

lemma later_balance_wins:
  "map (\<lambda>(k, b). (k, bal_value b)) (snapshot_balances ''s1''
     [\<lparr>bl_id = ''b1'', bl_snapshot = ''s1'', bl_kind = ''position'', bl_currency = None, bl_instrument = Some 4, bl_amount = None, bl_quantity = Some ''3'', bl_cost = None\<rparr>,
      \<lparr>bl_id = ''b2'', bl_snapshot = ''s1'', bl_kind = ''position'', bl_currency = None, bl_instrument = Some 4, bl_amount = None, bl_quantity = Some ''5'', bl_cost = None\<rparr>])
   = [(''position||4'', ''5'')]"
  by code_simp

end
