(* ===== verification/Auth_Store.thy ===== *)
theory Auth_Store
  imports History_Jobs
begin

text \<open>
  Users, workspaces and sessions: the tables of \<open>store/auth.go\<close> and every operation on them. A table is the list of
  its rows in the order of insertion; a call returns its result and the tables, and a transaction that fails leaves
  them as they were (\<open>transaction\<close>). Foreign keys are enforced by both databases (\<open>PRAGMA foreign_keys = ON\<close>), a
  missing parent is \<open>ErrReference\<close>, a second row under one key \<open>ErrConstraint\<close>. No operation deletes a user or a
  workspace, so the cascades of the schema never run. \<open>LOWER\<close> of SQL is \<open>to_lower\<close>: ASCII letters, as SQLite has it.
  Stamps of creation and change are not kept, nothing reads them.
\<close>

section \<open>Rows and values\<close>

definition DefaultWorkspaceID :: int where
  "DefaultWorkspaceID = 1"

record auth_user =
  au_id :: int
  au_email :: string
  au_name :: string
  au_issuer :: string
  au_subject :: string

record auth_workspace =
  aw_id :: int
  aw_name :: string
  aw_slug :: string

record workspace_member =
  wm_user :: int
  wm_workspace :: int
  wm_email :: string
  wm_name :: string
  wm_role :: string

record workspace_invite =
  wi_workspace :: int
  wi_email :: string
  wi_role :: string
  wi_by :: int

record auth_identity =
  ai_user :: auth_user
  ai_workspace :: auth_workspace
  ai_role :: string

record password_credential =
  pc_username :: string
  pc_hash :: string
  pc_email :: string
  pc_name :: string

record auth_session =
  as_token :: string
  as_csrf :: string
  as_user :: int
  as_workspace :: int
  as_expires :: string
  as_seen :: string

record auth_flow =
  af_state :: string
  af_verifier :: string
  af_nonce :: string
  af_return :: string
  af_expires :: string

record oauth_flow =
  of_state :: string
  of_connection :: int
  of_workspace :: int
  of_user :: int
  of_expires :: string

record audit_event =
  ae_workspace :: int
  ae_user :: int
  ae_action :: string
  ae_target_type :: string
  ae_target_id :: string
  ae_addr :: string
  ae_metadata :: string

text \<open>Rows that differ from the values of the code: a member is a pair of keys with a role, a credential belongs to a
  user by its id, and the user of an audited event may be null.\<close>

record member_row =
  mr_workspace :: int
  mr_user :: int
  mr_role :: string

record credential_row =
  cd_user :: int
  cd_username :: string
  cd_hash :: string

record audit_row =
  ar_user :: "int option"
  ar_event :: audit_event

text \<open>The tables, and the next id of a user.\<close>

record auth_db =
  ad_users :: "auth_user list"
  ad_credentials :: "credential_row list"
  ad_workspaces :: "auth_workspace list"
  ad_members :: "member_row list"
  ad_invites :: "workspace_invite list"
  ad_sessions :: "auth_session list"
  ad_flows :: "auth_flow list"
  ad_oauth :: "oauth_flow list"
  ad_audits :: "audit_row list"
  ad_next :: int

definition empty_auth :: auth_db where
  "empty_auth = \<lparr>ad_users = [], ad_credentials = [], ad_workspaces = [], ad_members = [], ad_invites = [], ad_sessions = [],
     ad_flows = [], ad_oauth = [], ad_audits = [], ad_next = 1\<rparr>"

definition migrateAuth :: "(auth_db, unit) call" where
  "migrateAuth db =
     (if \<exists>w\<in>set (ad_workspaces db). aw_id w = 1 then (Inr (), db)
      else if \<exists>w\<in>set (ad_workspaces db). aw_slug w = ''default'' then (Inl ErrConstraint, db)
      else (Inr (), db\<lparr>ad_workspaces := ad_workspaces db @ [\<lparr>aw_id = 1, aw_name = ''Traio'', aw_slug = ''default''\<rparr>]\<rparr>))"

definition validRole :: "string \<Rightarrow> bool" where
  "validRole role \<longleftrightarrow> role \<in> set [''owner'', ''admin'', ''member'', ''viewer'']"

abbreviation ErrForbidden :: string where "ErrForbidden \<equiv> ''store: forbidden''"
abbreviation ErrCheck :: string where "ErrCheck \<equiv> ''CHECK constraint failed''"
abbreviation ErrNoRows :: string where "ErrNoRows \<equiv> ''sql: no rows in result set''"

section \<open>Queries\<close>

definition find_user :: "int \<Rightarrow> auth_db \<Rightarrow> auth_user option" where
  "find_user u db = find (\<lambda>x. au_id x = u) (ad_users db)"

definition find_workspace :: "int \<Rightarrow> auth_db \<Rightarrow> auth_workspace option" where
  "find_workspace w db = find (\<lambda>x. aw_id x = w) (ad_workspaces db)"

definition user_by_subject :: "string \<Rightarrow> string \<Rightarrow> auth_db \<Rightarrow> auth_user option" where
  "user_by_subject issuer subject db = find (\<lambda>x. au_issuer x = issuer \<and> au_subject x = subject) (ad_users db)"

definition member_role :: "int \<Rightarrow> int \<Rightarrow> auth_db \<Rightarrow> string option" where
  "member_role w u db = map_option mr_role (find (\<lambda>m. mr_workspace m = w \<and> mr_user m = u) (ad_members db))"

definition member_count :: "int \<Rightarrow> auth_db \<Rightarrow> nat" where
  "member_count w db = length (filter (\<lambda>m. mr_workspace m = w) (ad_members db))"

definition owner_count :: "int \<Rightarrow> auth_db \<Rightarrow> nat" where
  "owner_count w db = length (filter (\<lambda>m. mr_workspace m = w \<and> mr_role m = ''owner'') (ad_members db))"

text \<open>The rows of a user, a workspace and the membership that joins them.\<close>

definition identity_of :: "int \<Rightarrow> int \<Rightarrow> auth_db \<Rightarrow> auth_identity option" where
  "identity_of w u db =
     (case (find_user u db, find_workspace w db, member_role w u db) of
        (Some x, Some y, Some r) \<Rightarrow> Some \<lparr>ai_user = x, ai_workspace = y, ai_role = r\<rparr>
      | _ \<Rightarrow> None)"

definition passwordIdentityFromQuery :: "string \<Rightarrow> auth_db \<Rightarrow> (auth_identity \<times> string) option" where
  "passwordIdentityFromQuery username db =
     (case find (\<lambda>c. cd_username c = username) (ad_credentials db) of
        None \<Rightarrow> None
      | Some c \<Rightarrow> map_option (\<lambda>i. (i, cd_hash c)) (identity_of DefaultWorkspaceID (cd_user c) db))"

section \<open>Changes of one table\<close>

definition upsert_user :: "string \<Rightarrow> string \<Rightarrow> string \<Rightarrow> string \<Rightarrow> auth_db \<Rightarrow> auth_db" where
  "upsert_user issuer subject email name db =
     (if user_by_subject issuer subject db \<noteq> None
      then db\<lparr>ad_users := map (\<lambda>x. if au_issuer x = issuer \<and> au_subject x = subject
                                     then x\<lparr>au_email := email, au_name := name\<rparr> else x) (ad_users db)\<rparr>
      else db\<lparr>ad_users := ad_users db @ [\<lparr>au_id = ad_next db, au_email = email, au_name = name, au_issuer = issuer, au_subject = subject\<rparr>],
              ad_next := ad_next db + 1\<rparr>)"

definition set_role :: "int \<Rightarrow> int \<Rightarrow> string \<Rightarrow> auth_db \<Rightarrow> auth_db" where
  "set_role w u role db = db\<lparr>ad_members := map (\<lambda>m. if mr_workspace m = w \<and> mr_user m = u then m\<lparr>mr_role := role\<rparr> else m) (ad_members db)\<rparr>"

definition known_parents :: "int \<Rightarrow> int \<Rightarrow> auth_db \<Rightarrow> unit result" where
  "known_parents w u db = (if find_workspace w db = None \<or> find_user u db = None then Inl ErrReference else Inr ())"

text \<open>An insert into \<open>workspace_members\<close>; the flag is \<open>DO UPDATE SET role\<close> instead of \<open>DO NOTHING\<close> on a conflict.\<close>

definition insert_member :: "bool \<Rightarrow> int \<Rightarrow> int \<Rightarrow> string \<Rightarrow> auth_db \<Rightarrow> auth_db result" where
  "insert_member replace w u role db =
     (if \<not> validRole role then Inl ErrCheck
      else if member_role w u db \<noteq> None then Inr (if replace then set_role w u role db else db)
      else rbind (known_parents w u db) (\<lambda>_. Inr (db\<lparr>ad_members := ad_members db @ [\<lparr>mr_workspace = w, mr_user = u, mr_role = role\<rparr>]\<rparr>)))"

section \<open>Identities\<close>

text \<open>The role of someone who logs in: the one they have, the owner's for the first member of all, otherwise the one
  of their invitation.\<close>

definition invited_role :: "string \<Rightarrow> auth_db \<Rightarrow> string option" where
  "invited_role email db = map_option wi_role
     (find (\<lambda>i. wi_workspace i = DefaultWorkspaceID \<and> to_lower (wi_email i) = to_lower email) (ad_invites db))"

definition login_role :: "int \<Rightarrow> string \<Rightarrow> auth_db \<Rightarrow> string result" where
  "login_role u email db =
     (case member_role DefaultWorkspaceID u db of
        Some role \<Rightarrow> Inr role
      | None \<Rightarrow>
          if member_count DefaultWorkspaceID db = 0 then Inr ''owner''
          else if trim_space email = [] then Inl (ErrForbidden @ '': identity has no invited email'')
          else from_option (ErrForbidden @ '': user is not invited to this workspace'') (invited_role email db))"

definition drop_invites :: "string \<Rightarrow> auth_db \<Rightarrow> auth_db" where
  "drop_invites email db = db\<lparr>ad_invites := filter (\<lambda>i. \<not> (wi_workspace i = DefaultWorkspaceID \<and> to_lower (wi_email i) = to_lower email)) (ad_invites db)\<rparr>"

definition upsert_identity_tx :: "string \<Rightarrow> string \<Rightarrow> string \<Rightarrow> string \<Rightarrow> auth_db \<Rightarrow> (auth_identity \<times> auth_db) result" where
  "upsert_identity_tx issuer subject email name db =
     (let db1 = upsert_user issuer subject (trim_space email) (trim_space name) db in
      rbind (from_option ErrNoRows (user_by_subject issuer subject db1)) (\<lambda>user.
      rbind (login_role (au_id user) email db1) (\<lambda>role.
      rbind (insert_member False DefaultWorkspaceID (au_id user) role db1) (\<lambda>db2.
      let db3 = (if member_role DefaultWorkspaceID (au_id user) db1 = None \<and> role \<noteq> ''owner'' then drop_invites email db2 else db2) in
      rbind (from_option ErrNoRows (identity_of DefaultWorkspaceID (au_id user) db3)) (\<lambda>i. Inr (i, db3))))))"

definition UpsertOIDCIdentity :: "string \<Rightarrow> string \<Rightarrow> string \<Rightarrow> string \<Rightarrow> (auth_db, auth_identity) call" where
  "UpsertOIDCIdentity issuer subject email name db =
     (let issuer = trim_space issuer; subject = trim_space subject in
      if issuer = [] \<or> subject = [] then (Inl ''issuer and subject are required'', db)
      else transaction (upsert_identity_tx issuer subject email name) db)"

definition HasPasswordIdentity :: "auth_db \<Rightarrow> bool" where
  "HasPasswordIdentity db \<longleftrightarrow> length (ad_credentials db) > 0"

definition normalize_credential :: "password_credential \<Rightarrow> password_credential" where
  "normalize_credential c = c\<lparr>pc_username := to_lower (trim_space (pc_username c)), pc_email := to_lower (trim_space (pc_email c)),
     pc_name := trim_space (pc_name c)\<rparr>"

definition insert_credential :: "int \<Rightarrow> string \<Rightarrow> string \<Rightarrow> auth_db \<Rightarrow> auth_db result" where
  "insert_credential u username hash db =
     (if \<exists>c\<in>set (ad_credentials db). cd_user c = u \<or> cd_username c = username then Inl ErrConstraint
      else if find_user u db = None then Inl ErrReference
      else Inr (db\<lparr>ad_credentials := ad_credentials db @ [\<lparr>cd_user = u, cd_username = username, cd_hash = hash\<rparr>]\<rparr>))"

definition bootstrap_tx :: "password_credential \<Rightarrow> auth_db \<Rightarrow> ((auth_identity \<times> bool) \<times> auth_db) result" where
  "bootstrap_tx c db =
     (if HasPasswordIdentity db
      then rbind (from_option ''built-in account is already initialized with a different username'' (passwordIdentityFromQuery (pc_username c) db))
             (\<lambda>(i, _). Inr ((i, False), db))
      else let db1 = upsert_user ''traio:password'' (pc_username c) (pc_email c) (pc_name c) db in
        rbind (from_option ErrNoRows (user_by_subject ''traio:password'' (pc_username c) db1)) (\<lambda>user.
        rbind (insert_credential (au_id user) (pc_username c) (pc_hash c) db1) (\<lambda>db2.
        rbind (insert_member True DefaultWorkspaceID (au_id user) ''owner'' db2) (\<lambda>db3.
        rbind (from_option ErrNoRows (passwordIdentityFromQuery (pc_username c) db3)) (\<lambda>(i, _). Inr ((i, True), db3))))))"

definition BootstrapPasswordIdentity :: "password_credential \<Rightarrow> (auth_db, auth_identity \<times> bool) call" where
  "BootstrapPasswordIdentity credential db =
     (let c = normalize_credential credential in
      if pc_username c = [] \<or> pc_hash c = [] then (Inl ''username and password hash are required'', db)
      else transaction (bootstrap_tx c) db)"

definition GetPasswordIdentity :: "string \<Rightarrow> auth_db \<Rightarrow> (auth_identity \<times> string) result" where
  "GetPasswordIdentity username db = from_option ErrNotFound (passwordIdentityFromQuery (to_lower (trim_space username)) db)"

section \<open>Sessions\<close>

definition CreateAuthSession :: "instant \<Rightarrow> auth_session \<Rightarrow> (auth_db, unit) call" where
  "CreateAuthSession t s db =
     (let db = db\<lparr>ad_sessions := filter (\<lambda>x. \<not> as_expires x \<le> rfc3339_nano t) (ad_sessions db)\<rparr> in
      if \<exists>x\<in>set (ad_sessions db). as_token x = as_token s then (Inl ErrConstraint, db)
      else case known_parents (as_workspace s) (as_user s) db of Inl e \<Rightarrow> (Inl e, db)
      | Inr _ \<Rightarrow> (Inr (), db\<lparr>ad_sessions := ad_sessions db @ [s]\<rparr>))"

definition GetAuthSession :: "string \<Rightarrow> auth_db \<Rightarrow> (auth_identity \<times> auth_session) result" where
  "GetAuthSession token db =
     (case find (\<lambda>x. as_token x = token) (ad_sessions db) of
        None \<Rightarrow> Inl ErrNotFound
      | Some s \<Rightarrow> from_option ErrNotFound (map_option (\<lambda>i. (i, s)) (identity_of (as_workspace s) (as_user s) db)))"

definition TouchAuthSession :: "string \<Rightarrow> string \<Rightarrow> auth_db \<Rightarrow> auth_db" where
  "TouchAuthSession token seen db = db\<lparr>ad_sessions := map (\<lambda>x. if as_token x = token then x\<lparr>as_seen := seen\<rparr> else x) (ad_sessions db)\<rparr>"

definition DeleteAuthSession :: "string \<Rightarrow> auth_db \<Rightarrow> auth_db" where
  "DeleteAuthSession token db = db\<lparr>ad_sessions := filter (\<lambda>x. as_token x \<noteq> token) (ad_sessions db)\<rparr>"

section \<open>Flows of a login and of a broker's consent\<close>

definition CreateAuthFlow :: "instant \<Rightarrow> auth_flow \<Rightarrow> (auth_db, unit) call" where
  "CreateAuthFlow t f db =
     (let db = db\<lparr>ad_flows := filter (\<lambda>x. \<not> af_expires x \<le> rfc3339_nano t) (ad_flows db)\<rparr> in
      if \<exists>x\<in>set (ad_flows db). af_state x = af_state f then (Inl ErrConstraint, db)
      else (Inr (), db\<lparr>ad_flows := ad_flows db @ [f]\<rparr>))"

definition ConsumeAuthFlow :: "string \<Rightarrow> string \<Rightarrow> (auth_db, auth_flow) call" where
  "ConsumeAuthFlow state now = transaction (\<lambda>db.
     rbind (from_option ErrNotFound (find (\<lambda>x. af_state x = state) (ad_flows db))) (\<lambda>flow.
     let db' = db\<lparr>ad_flows := filter (\<lambda>x. af_state x \<noteq> state) (ad_flows db)\<rparr> in
     if af_expires flow \<le> now then Inl ''auth flow expired'' else Inr (flow, db')))"

definition CreateBrokerOAuthFlow :: "instant \<Rightarrow> oauth_flow \<Rightarrow> (auth_db, unit) call" where
  "CreateBrokerOAuthFlow t f db =
     (let db = db\<lparr>ad_oauth := filter (\<lambda>x. \<not> of_expires x \<le> rfc3339_nano t) (ad_oauth db)\<rparr> in
      if \<exists>x\<in>set (ad_oauth db). of_state x = of_state f then (Inl ErrConstraint, db)
      else case known_parents (of_workspace f) (of_user f) db of Inl e \<Rightarrow> (Inl e, db)
      | Inr _ \<Rightarrow> (Inr (), db\<lparr>ad_oauth := ad_oauth db @ [f]\<rparr>))"

definition ConsumeBrokerOAuthFlow :: "string \<Rightarrow> string \<Rightarrow> (auth_db, oauth_flow) call" where
  "ConsumeBrokerOAuthFlow state now = transaction (\<lambda>db.
     rbind (from_option ErrNotFound (find (\<lambda>x. of_state x = state) (ad_oauth db))) (\<lambda>flow.
     let db' = db\<lparr>ad_oauth := filter (\<lambda>x. of_state x \<noteq> state) (ad_oauth db)\<rparr> in
     if of_expires flow \<le> now then Inl ''broker OAuth flow expired'' else Inr (flow, db')))"

section \<open>Members\<close>

text \<open>The members in the order of their e-mail, then of their id.\<close>

definition ListWorkspaceMembers :: "int \<Rightarrow> auth_db \<Rightarrow> workspace_member list" where
  "ListWorkspaceMembers w db = sort_key wm_email (sort_key wm_user
     (concat (map (\<lambda>m. case find_user (mr_user m) db of None \<Rightarrow> []
          | Some u \<Rightarrow> [\<lparr>wm_user = mr_user m, wm_workspace = mr_workspace m, wm_email = au_email u, wm_name = au_name u, wm_role = mr_role m\<rparr>])
        (filter (\<lambda>m. mr_workspace m = w) (ad_members db)))))"

definition InviteWorkspaceMember :: "workspace_invite \<Rightarrow> (auth_db, unit) call" where
  "InviteWorkspaceMember invite db =
     (let i = invite\<lparr>wi_email := to_lower (trim_space (wi_email invite)), wi_role := to_lower (trim_space (wi_role invite))\<rparr> in
      if wi_workspace i \<le> 0 \<or> wi_by i \<le> 0 \<or> wi_email i = [] \<or> CHR ''@'' \<notin> set (wi_email i)
      then (Inl ''valid workspace, inviter, and email are required'', db)
      else if wi_role i = ''owner'' \<or> \<not> validRole (wi_role i) then (Inl ''invite role must be admin, member, or viewer'', db)
      else case known_parents (wi_workspace i) (wi_by i) db of Inl e \<Rightarrow> (Inl e, db)
      | Inr _ \<Rightarrow> (Inr (),
          if \<exists>x\<in>set (ad_invites db). wi_workspace x = wi_workspace i \<and> wi_email x = wi_email i
          then db\<lparr>ad_invites := map (\<lambda>x. if wi_workspace x = wi_workspace i \<and> wi_email x = wi_email i then i else x) (ad_invites db)\<rparr>
          else db\<lparr>ad_invites := ad_invites db @ [i]\<rparr>))"

text \<open>A change of role and a removal read first, then write: what they read, what they write, and the transaction.\<close>

definition role_change_check :: "int \<Rightarrow> int \<Rightarrow> string \<Rightarrow> auth_db \<Rightarrow> unit result" where
  "role_change_check w u role db =
     rbind (from_option ErrNotFound (member_role w u db)) (\<lambda>current.
     if current = ''owner'' \<and> role \<noteq> ''owner'' \<and> owner_count w db \<le> 1 then Inl ''workspace must retain an owner'' else Inr ())"

definition UpdateWorkspaceMemberRole :: "int \<Rightarrow> int \<Rightarrow> string \<Rightarrow> (auth_db, unit) call" where
  "UpdateWorkspaceMemberRole w u role db =
     (if \<not> validRole role then (Inl ''invalid role'', db)
      else transaction (\<lambda>db. rbind (role_change_check w u role db) (\<lambda>_. Inr ((), set_role w u role db))) db)"

definition removal_check :: "int \<Rightarrow> int \<Rightarrow> auth_db \<Rightarrow> unit result" where
  "removal_check w u db =
     rbind (from_option ErrNotFound (member_role w u db)) (\<lambda>role.
     if role = ''owner'' \<and> owner_count w db \<le> 1 then Inl ''workspace must retain an owner'' else Inr ())"

definition remove_member :: "int \<Rightarrow> int \<Rightarrow> auth_db \<Rightarrow> auth_db" where
  "remove_member w u db =
     db\<lparr>ad_members := filter (\<lambda>m. \<not> (mr_workspace m = w \<and> mr_user m = u)) (ad_members db),
        ad_sessions := filter (\<lambda>s. \<not> (as_workspace s = w \<and> as_user s = u)) (ad_sessions db)\<rparr>"

definition DeleteWorkspaceMember :: "int \<Rightarrow> int \<Rightarrow> (auth_db, unit) call" where
  "DeleteWorkspaceMember w u = transaction (\<lambda>db. rbind (removal_check w u db) (\<lambda>_. Inr ((), remove_member w u db)))"

definition AppendAuditEvent :: "audit_event \<Rightarrow> auth_db \<Rightarrow> auth_db" where
  "AppendAuditEvent event db =
     (let event = (if ae_workspace event = 0 then event\<lparr>ae_workspace := DefaultWorkspaceID\<rparr> else event);
          event = (if ae_metadata event = [] then event\<lparr>ae_metadata := ''{}''\<rparr> else event) in
      db\<lparr>ad_audits := ad_audits db @ [\<lparr>ar_user = (if ae_user event = 0 then None else Some (ae_user event)), ar_event = event\<rparr>]\<rparr>)"

end
