(* ===== verification/Web.thy ===== *)
theory Web
  imports Wire
begin

text \<open>
  What the access code uses of the standard library: \<open>encoding/base64\<close> without padding, \<open>encoding/hex\<close>, the \<open>%d\<close> verb
  of \<open>fmt.Sscanf\<close>, \<open>net/url\<close> for a relative reference, and \<open>net\<close> for the host of a request. Then the facts about
  them: decoding undoes encoding, and the shape of an escaped path.
\<close>

section \<open>Base64 and hexadecimal\<close>

definition letters64 :: string where
  "letters64 = ''ABCDEFGHIJKLMNOPQRSTUVWXYZabcdefghijklmnopqrstuvwxyz0123456789''"

definition std_alphabet :: string where
  "std_alphabet = letters64 @ ''+/''"

definition url_alphabet :: string where
  "url_alphabet = letters64 @ ''-_''"

abbreviation ord8 :: "char \<Rightarrow> nat" where "ord8 \<equiv> of_char"

fun base64 :: "string \<Rightarrow> string \<Rightarrow> string" where
  "base64 al (a # b # c # s) =
     [al ! (ord8 a div 4), al ! (ord8 a mod 4 * 16 + ord8 b div 16), al ! (ord8 b mod 16 * 4 + ord8 c div 64), al ! (ord8 c mod 64)] @ base64 al s"
| "base64 al [a, b] = [al ! (ord8 a div 4), al ! (ord8 a mod 4 * 16 + ord8 b div 16), al ! (ord8 b mod 16 * 4)]"
| "base64 al [a] = [al ! (ord8 a div 4), al ! (ord8 a mod 4 * 16)]"
| "base64 al [] = []"

fun index64 :: "'a \<Rightarrow> 'a list \<Rightarrow> nat option" where
  "index64 x [] = None"
| "index64 x (y # ys) = (if x = y then Some 0 else map_option Suc (index64 x ys))"

text \<open>The bytes of a group of sextets; the bits that are left over are not looked at.\<close>

fun from_sextets :: "nat list \<Rightarrow> string option" where
  "from_sextets (a # b # c # d # s) = map_option (\<lambda>r.
     [char_of (a * 4 + b div 16), char_of (b mod 16 * 16 + c div 4), char_of (c mod 4 * 64 + d)] @ r) (from_sextets s)"
| "from_sextets [a, b, c] = Some [char_of (a * 4 + b div 16), char_of (b mod 16 * 16 + c div 4)]"
| "from_sextets [a, b] = Some [char_of (a * 4 + b div 16)]"
| "from_sextets [a] = None"
| "from_sextets [] = Some []"

definition unbase64 :: "string \<Rightarrow> string \<Rightarrow> string option" where
  "unbase64 al s =
     (let ps = map (\<lambda>c. index64 c al) (filter (\<lambda>c. c \<noteq> CHR 0x0A \<and> c \<noteq> CHR 0x0D) s) in
      if None \<in> set ps then None else from_sextets (map the ps))"

fun unhex :: "string \<Rightarrow> string option" where
  "unhex (a # b # s) = (if is_hex a \<and> is_hex b then map_option ((#) (char_of (16 * hex_value a + hex_value b))) (unhex s) else None)"
| "unhex [a] = None"
| "unhex [] = Some []"

section \<open>The verb \<open>%d\<close>\<close>

text \<open>Leading spaces are skipped, a newline is not one of them; the digits run as far as they go and the rest of the
  text is left for the verbs that follow, or unread.\<close>

definition scan_spaces :: "string \<Rightarrow> string" where
  "scan_spaces s = trim_front (filter (\<lambda>r. r \<noteq> [CHR 0x0A]) space_runes) s"

definition scan_digits :: "string \<Rightarrow> (nat \<times> string) option" where
  "scan_digits s = (let ds = takeWhile is_digit s in if ds = [] then None else Some (digits_value ds, drop (length ds) s))"

definition scan_uint :: "nat \<Rightarrow> string \<Rightarrow> (nat \<times> string) option" where
  "scan_uint w s = (case scan_digits (scan_spaces s) of None \<Rightarrow> None | Some (n, r) \<Rightarrow> if n < 2 ^ w then Some (n, r) else None)"

definition scan_int64 :: "string \<Rightarrow> (int \<times> string) option" where
  "scan_int64 s =
     (let s = scan_spaces s; neg = (s \<noteq> [] \<and> hd s = CHR ''-''); u = (if s \<noteq> [] \<and> hd s \<in> {CHR ''-'', CHR ''+''} then tl s else s) in
      case scan_digits u of None \<Rightarrow> None
      | Some (n, r) \<Rightarrow> (let v = (if neg then - int n else int n) in if - (2 ^ 63) \<le> v \<and> v < 2 ^ 63 then Some (v, r) else None))"

definition scan_text :: "string \<Rightarrow> string \<Rightarrow> string option" where
  "scan_text w s = (if prefix w s then Some (drop (length w) s) else None)"

section \<open>References of \<open>net/url\<close>\<close>

text \<open>\<open>url.Parse\<close> as far as the code reads its result. An absolute reference is cut after its scheme, because the code
  refuses it for that; so is one with a host, whose own grammar only decides between two ways of being refused.\<close>

record url =
  url_scheme :: string
  url_host :: string
  url_path :: string
  url_raw_path :: string
  url_query :: string
  url_force_query :: bool

fun percent_decode :: "string \<Rightarrow> string option" where
  "percent_decode [] = Some []"
| "percent_decode (c # s) =
     (if c \<noteq> CHR ''%'' then map_option ((#) c) (percent_decode s)
      else (case s of a # b # r \<Rightarrow>
                if is_hex a \<and> is_hex b then map_option ((#) (char_of (16 * hex_value a + hex_value b))) (percent_decode r) else None
            | _ \<Rightarrow> None))"

definition path_char :: "char \<Rightarrow> bool" where
  "path_char c \<longleftrightarrow> unreserved c \<or> c \<in> set ''$&+,/:;=@''"

definition escape_path :: "string \<Rightarrow> string" where
  "escape_path s = concat (map (\<lambda>c. if path_char c then [c] else percent c) s)"

definition valid_encoded :: "string \<Rightarrow> bool" where
  "valid_encoded s \<longleftrightarrow> (\<forall>c\<in>set s. c \<in> set ''!$&'()*+,;=:@[]%'' \<or> path_char c)"

definition control_byte :: "char \<Rightarrow> bool" where
  "control_byte c \<longleftrightarrow> of_char c < (32 :: nat) \<or> of_char c = (127 :: nat)"

text \<open>The text before the first separator and, if there is one, the text after it.\<close>

definition cut :: "char \<Rightarrow> string \<Rightarrow> string \<times> string option" where
  "cut d s = (let a = takeWhile (\<lambda>c. c \<noteq> d) s; r = drop (length a) s in (a, if r = [] then None else Some (tl r)))"

definition ascii_letter :: "char \<Rightarrow> bool" where
  "ascii_letter c \<longleftrightarrow> (let n = of_char (lower_char c) :: nat in 97 \<le> n \<and> n \<le> 122)"

text \<open>The scheme and the rest; \<open>None\<close> is a reference that begins with a colon.\<close>

definition get_scheme :: "string \<Rightarrow> (string \<times> string) option" where
  "get_scheme s =
     (let a = takeWhile (\<lambda>c. ascii_letter c \<or> is_digit c \<or> c \<in> set ''+-.'') s; r = drop (length a) s in
      if a \<noteq> [] \<and> \<not> ascii_letter (hd a) then Some ([], s)
      else if r = [] \<or> hd r \<noteq> CHR '':'' then Some ([], s)
      else if a = [] then None else Some (a, tl r))"

definition valid_userinfo :: "string \<Rightarrow> bool" where
  "valid_userinfo s \<longleftrightarrow> (\<forall>c\<in>set s. ascii_letter c \<or> is_digit c \<or> c \<in> set ''-._:~!$&'()*+,;=%@'')
     \<and> (case cut (CHR '':'') s of (u, p) \<Rightarrow> percent_decode u \<noteq> None \<and> (case p of None \<Rightarrow> True | Some p \<Rightarrow> percent_decode p \<noteq> None))"

definition authority_host :: "string \<Rightarrow> string option" where
  "authority_host a =
     (if CHR ''@'' \<notin> set a then Some a
      else (let h = rev (takeWhile (\<lambda>c. c \<noteq> CHR ''@'') (rev a)) in
        if h \<noteq> [] then Some h
        else if valid_userinfo (take (length a - 1) a) then Some [] else None))"

definition relative_url :: "string \<Rightarrow> string \<Rightarrow> string \<Rightarrow> bool \<Rightarrow> url option" where
  "relative_url host rest q force = map_option (\<lambda>p.
     \<lparr>url_scheme = [], url_host = host, url_path = p, url_raw_path = (if rest = escape_path p then [] else rest),
      url_query = q, url_force_query = force\<rparr>) (percent_decode rest)"

definition url_of_reference :: "string \<Rightarrow> url option" where
  "url_of_reference s =
     (if list_ex control_byte s then None
      else if s = ''*'' then Some \<lparr>url_scheme = [], url_host = [], url_path = ''*'', url_raw_path = [], url_query = [], url_force_query = False\<rparr>
      else case get_scheme s of None \<Rightarrow> None | Some (scheme, rest) \<Rightarrow>
        if scheme \<noteq> [] then Some \<lparr>url_scheme = to_lower scheme, url_host = [], url_path = [], url_raw_path = [], url_query = [], url_force_query = False\<rparr>
        else (case cut (CHR ''?'') rest of (path, tail) \<Rightarrow>
          let force = (tail = Some []); q = (case tail of None \<Rightarrow> [] | Some q \<Rightarrow> q) in
          if \<not> prefix ''/'' path \<and> CHR '':'' \<in> set (fst (cut (CHR ''/'') path)) then None
          else if prefix ''//'' path \<and> \<not> prefix ''///'' path
          then (let a = takeWhile (\<lambda>c. c \<noteq> CHR ''/'') (drop 2 path) in
                case authority_host a of None \<Rightarrow> None | Some h \<Rightarrow> relative_url h (drop (length a + 2) path) q force)
          else relative_url [] path q force))"

definition url_parse :: "string \<Rightarrow> url option" where
  "url_parse v = (case cut (CHR ''#'') v of (s, frag) \<Rightarrow>
     (case url_of_reference s of None \<Rightarrow> None
      | Some u \<Rightarrow> (case frag of None \<Rightarrow> Some u | Some f \<Rightarrow> if percent_decode f = None then None else Some u)))"

definition escaped_path :: "url \<Rightarrow> string" where
  "escaped_path u =
     (if url_raw_path u \<noteq> [] \<and> valid_encoded (url_raw_path u) \<and> percent_decode (url_raw_path u) = Some (url_path u) then url_raw_path u
      else if url_path u = ''*'' then ''*'' else escape_path (url_path u))"

definition request_uri :: "url \<Rightarrow> string" where
  "request_uri u =
     (let p = escaped_path u; p = (if p = [] then ''/'' else p) in
      if url_force_query u \<or> url_query u \<noteq> [] then p @ ''?'' @ url_query u else p)"

section \<open>Hosts\<close>

definition trim_chars :: "string \<Rightarrow> string \<Rightarrow> string" where
  "trim_chars cs s = rev (dropWhile (\<lambda>c. c \<in> set cs) (rev (dropWhile (\<lambda>c. c \<in> set cs) s)))"

text \<open>The text before and after the last separator.\<close>

definition cut_last :: "char \<Rightarrow> string \<Rightarrow> (string \<times> string) option" where
  "cut_last d s = (if d \<notin> set s then None
     else (let b = rev (takeWhile (\<lambda>c. c \<noteq> d) (rev s)) in Some (take (length s - length b - 1) s, b)))"

definition SplitHostPort :: "string \<Rightarrow> (string \<times> string) option" where
  "SplitHostPort s =
     (case cut_last (CHR '':'') s of None \<Rightarrow> None
      | Some (h, p) \<Rightarrow>
          if prefix ''['' s
          then (if h \<noteq> [] \<and> last h = CHR '']'' \<and> CHR '']'' \<notin> set (butlast h) \<and> CHR ''['' \<notin> set (tl s) \<and> CHR '']'' \<notin> set p
                then Some (tl (butlast h), p) else None)
          else (if CHR '':'' \<in> set h \<or> CHR ''['' \<in> set s \<or> CHR '']'' \<in> set s then None else Some (h, p)))"

definition ip4 :: "string \<Rightarrow> nat list option" where
  "ip4 s = (let fs = split_on (CHR ''.'') s in
     if length fs = 4 \<and> list_all (\<lambda>f. f \<noteq> [] \<and> list_all is_digit f \<and> (hd f = CHR ''0'' \<longrightarrow> length f = 1) \<and> digits_value f \<le> 255) fs
     then Some (map digits_value fs) else None)"

definition hex_number :: "string \<Rightarrow> nat" where
  "hex_number s = foldl (\<lambda>n c. 16 * n + hex_value c) 0 s"

text \<open>The sixteen-bit groups of an address and the place of its \<open>::\<close>.\<close>

function ip6 :: "nat option \<Rightarrow> nat list \<Rightarrow> string \<Rightarrow> (nat option \<times> nat list) option" where
  "ip6 e gs s =
     (let ds = takeWhile is_hex s; r = drop (length ds) s; gs' = gs @ [hex_number ds] in
      if 8 \<le> length gs then (if s = [] then Some (e, gs) else None)
      else if ds = [] \<or> 4 < length ds then None
      else if r = [] then Some (e, gs')
      else if hd r = CHR ''.'' then
        (if (e = None \<and> length gs \<noteq> 6) \<or> 6 < length gs then None
         else map_option (\<lambda>b. (e, gs @ [256 * b ! 0 + b ! 1, 256 * b ! 2 + b ! 3])) (ip4 s))
      else if hd r \<noteq> CHR '':'' \<or> length r = 1 then None
      else if hd (tl r) \<noteq> CHR '':'' then ip6 e gs' (tl r)
      else if e \<noteq> None then None
      else if tl (tl r) = [] then Some (Some (length gs'), gs')
      else ip6 (Some (length gs')) gs' (tl (tl r)))"
  by pat_completeness auto
termination
proof (relation "measure (\<lambda>(e, gs, s). length s)", goal_cases)
  case (2 e gs s ds r gs')
  have "length (tl r) < length s"
    using 2 length_takeWhile_le [of is_hex s] by (cases r) auto
  then show ?case by simp
next
  case (3 e gs s ds r gs')
  have "length (tl (tl r)) < length s"
    using 3 length_takeWhile_le [of is_hex s] by (cases r) auto
  then show ?case by simp
qed simp

declare ip6.simps [simp del]

definition address6 :: "string \<Rightarrow> nat list option" where
  "address6 s =
     (if s = ''::'' then Some (replicate 8 0)
      else case (if prefix ''::'' s then ip6 (Some 0) [] (drop 2 s) else ip6 None [] s) of
        Some (None, gs) \<Rightarrow> if length gs = 8 then Some gs else None
      | Some (Some k, gs) \<Rightarrow> if length gs < 8 then Some (take k gs @ replicate (8 - length gs) 0 @ drop k gs) else None
      | None \<Rightarrow> None)"

text \<open>\<open>net.ParseIP\<close> followed by \<open>IsLoopback\<close>: the first of \<open>.\<close>, \<open>:\<close> and \<open>%\<close> decides between the two forms, an address
  with a zone is none, and an address of the first form may be written inside the second.\<close>

definition loopback_ip :: "string \<Rightarrow> bool" where
  "loopback_ip s \<longleftrightarrow>
     CHR ''%'' \<notin> set s \<and>
     (case find (\<lambda>c. c \<in> set ''.:'') s of
        None \<Rightarrow> False
      | Some c \<Rightarrow>
          if c = CHR ''.'' then (case ip4 s of None \<Rightarrow> False | Some b \<Rightarrow> hd b = 127)
          else (case address6 s of None \<Rightarrow> False
            | Some gs \<Rightarrow> gs = [0, 0, 0, 0, 0, 0, 0, 1] \<or> take 6 gs = [0, 0, 0, 0, 0, 65535] \<and> gs ! 6 div 256 = 127))"

section \<open>Decoding undoes encoding\<close>

fun sextets :: "string \<Rightarrow> nat list" where
  "sextets (a # b # c # s) =
     [ord8 a div 4, ord8 a mod 4 * 16 + ord8 b div 16, ord8 b mod 16 * 4 + ord8 c div 64, ord8 c mod 64] @ sextets s"
| "sextets [a, b] = [ord8 a div 4, ord8 a mod 4 * 16 + ord8 b div 16, ord8 b mod 16 * 4]"
| "sextets [a] = [ord8 a div 4, ord8 a mod 4 * 16]"
| "sextets [] = []"

lemma base64_sextets: "base64 al s = map ((!) al) (sextets s)"
  by (induction al s rule: base64.induct) auto

lemma byte_bound [simp]: "ord8 c < 256"
  by (metis of_char_of of_char_mod_256 mod_less_divisor zero_less_numeral)

lemma split_join: "z < m \<Longrightarrow> x div k * k + (x mod k * m + z) div m = (x :: nat)"
  by (simp add: div_mult_mod_eq)

lemma join_rest: "w < m \<Longrightarrow> (x * m + w) mod m = (w :: nat)"
  by simp

lemma byte_parts: "ord8 c div 4 < 64" "ord8 c div 16 < 16" "ord8 c div 64 < 4" "ord8 c mod 4 \<le> 3" "ord8 c mod 16 \<le> 15" "ord8 c mod 64 < 64"
  using byte_bound [of c] mod_less_divisor [of 4 "ord8 c"] mod_less_divisor [of 16 "ord8 c"]
  by (auto intro!: less_mult_imp_div_less simp del: byte_bound mod_less_divisor)

lemma sextets_small: "x \<in> set (sextets s) \<Longrightarrow> x < 64"
proof (induction s rule: sextets.induct)
  case (1 a b c s)
  then show ?case using byte_parts [of a] byte_parts [of b] byte_parts [of c] by (auto simp del: mod_less_divisor)
next
  case (2 a b)
  then show ?case using byte_parts [of a] byte_parts [of b] by (auto simp del: mod_less_divisor)
next
  case (3 a)
  then show ?case using byte_parts [of a] by (auto simp del: mod_less_divisor)
qed simp

lemma group_first: "ord8 a div 4 * 4 + (ord8 a mod 4 * 16 + ord8 b div 16) div 16 = ord8 a" "ord8 a div 4 * 4 + ord8 a mod 4 * 16 div 16 = ord8 a"
  using split_join [of "ord8 b div 16" 16 "ord8 a" 4] split_join [of 0 16 "ord8 a" 4] byte_parts [of b] by simp_all

lemma group_second:
  "(ord8 a mod 4 * 16 + ord8 b div 16) mod 16 * 16 + (ord8 b mod 16 * 4 + ord8 c div 64) div 4 = ord8 b"
  "(ord8 a mod 4 * 16 + ord8 b div 16) mod 16 * 16 + ord8 b mod 16 * 4 div 4 = ord8 b"
  unfolding join_rest [OF byte_parts(2)] using split_join [of "ord8 c div 64" 4 "ord8 b" 16] split_join [of 0 4 "ord8 b" 16] byte_parts [of c]
  by simp_all

lemma group_third: "(ord8 b mod 16 * 4 + ord8 c div 64) mod 4 * 64 + ord8 c mod 64 = ord8 c"
  unfolding join_rest [OF byte_parts(3)] by (rule div_mult_mod_eq)

lemma from_sextets_sextets: "from_sextets (sextets s) = Some s"
  by (induction s rule: sextets.induct)
    (simp_all only: sextets.simps append.simps from_sextets.simps group_first group_second group_third char_of_char option.map)

lemma index64_nth: "distinct al \<Longrightarrow> i < length al \<Longrightarrow> index64 (al ! i) al = Some i"
proof (induction al arbitrary: i)
  case (Cons x al)
  then show ?case by (cases i) (auto simp: nth_mem)
qed simp

definition alphabet64 :: "string \<Rightarrow> bool" where
  "alphabet64 al \<longleftrightarrow> distinct al \<and> length al = 64 \<and> CHR 0x0A \<notin> set al \<and> CHR 0x0D \<notin> set al"

lemma alphabets: "alphabet64 std_alphabet" "alphabet64 url_alphabet"
  by code_simp+

lemma unbase64_base64:
  assumes al: "alphabet64 al"
  shows "unbase64 al (base64 al s) = Some s"
proof -
  have mem: "al ! x \<in> set al" if "x \<in> set (sextets s)" for x
    using sextets_small [OF that] al by (simp add: alphabet64_def)
  have "filter (\<lambda>c. c \<noteq> CHR 0x0A \<and> c \<noteq> CHR 0x0D) (base64 al s) = base64 al s"
    unfolding base64_sextets filter_id_conv set_map using mem al unfolding alphabet64_def by fastforce
  moreover have "map (\<lambda>c. index64 c al) (base64 al s) = map Some (sextets s)"
    using al sextets_small by (auto simp: base64_sextets alphabet64_def intro!: index64_nth)
  ultimately show ?thesis by (simp add: unbase64_def from_sextets_sextets image_iff comp_def)
qed

text \<open>Texts of lower-case hexadecimal digits in pairs are determined by the bytes they stand for.\<close>

definition lower_hex :: "char \<Rightarrow> bool" where
  "lower_hex c \<longleftrightarrow> c \<in> set ''0123456789abcdef''"

lemma lower_hex_values:
  "list_all (\<lambda>c. is_hex c \<and> hex_value c < 16 \<and> list_all (\<lambda>d. hex_value c = hex_value d \<longrightarrow> c = d) ''0123456789abcdef'') ''0123456789abcdef''"
  by code_simp

lemma lower_hex_facts:
  assumes "lower_hex c"
  shows "is_hex c" "hex_value c < 16" "lower_hex d \<Longrightarrow> hex_value c = hex_value d \<longleftrightarrow> c = d"
  using lower_hex_values assms unfolding lower_hex_def list_all_iff by blast+

lemma pair16:
  assumes "y < 16" "w < 16"
  shows "16 * x + y = 16 * z + w \<longleftrightarrow> x = z \<and> y = (w :: nat)"
proof -
  have "x = (16 * x + y) div 16" "z = (16 * z + w) div 16" using assms by simp_all
  then have "16 * x + y = 16 * z + w \<Longrightarrow> x = z" by metis
  then show ?thesis by auto
qed

lemma hex_pair:
  assumes "lower_hex a" "lower_hex b" "lower_hex c" "lower_hex d"
  shows "char_of (16 * hex_value a + hex_value b) = (char_of (16 * hex_value c + hex_value d) :: char) \<longleftrightarrow> a = c \<and> b = d"
proof -
  note v = assms [THEN lower_hex_facts(2)]
  have "16 * hex_value a + hex_value b < 256" "16 * hex_value c + hex_value d < 256" using v by linarith+
  then have "(char_of (16 * hex_value a + hex_value b) :: char) = char_of (16 * hex_value c + hex_value d)
    \<longleftrightarrow> 16 * hex_value a + hex_value b = 16 * hex_value c + hex_value d"
    by (auto dest!: arg_cong [where f = "of_char :: char \<Rightarrow> nat"])
  also have "\<dots> \<longleftrightarrow> hex_value a = hex_value c \<and> hex_value b = hex_value d" using v(2,4) by (rule pair16)
  finally show ?thesis using assms lower_hex_facts(3) by simp
qed

lemma unhex_Some: "list_all lower_hex s \<Longrightarrow> even (length s) \<Longrightarrow> unhex s \<noteq> None"
  by (induction s rule: unhex.induct) (auto simp: lower_hex_facts(1))

lemma unhex_inject:
  "list_all lower_hex s \<Longrightarrow> list_all lower_hex t \<Longrightarrow> even (length s) \<Longrightarrow> even (length t) \<Longrightarrow> unhex s = unhex t \<Longrightarrow> s = t"
proof (induction s arbitrary: t rule: unhex.induct)
  case (1 a b s)
  then have s: "\<exists>x. unhex s = Some x" using unhex_Some [of s] by auto
  show ?case
  proof (cases t rule: unhex.cases)
    case (1 c d u)
    moreover have "\<exists>y. unhex u = Some y" using unhex_Some [of u] 1 "1.prems" by auto
    ultimately show ?thesis using "1.IH" [of u] "1.prems" s hex_pair [of a b c d]
      by (auto simp: lower_hex_facts(1))
  qed (use 1 s in \<open>auto simp: lower_hex_facts(1)\<close>)
next
  case 3
  then show ?case
  proof (cases t rule: unhex.cases)
    case (1 c d u)
    then have "unhex u \<noteq> None" using 3 unhex_Some [of u] by auto
    with 1 3 show ?thesis by (auto simp: lower_hex_facts(1) split: if_splits)
  qed auto
qed simp

section \<open>The shape of a reference\<close>

lemma percent_decode_hd:
  assumes "percent_decode s = Some (c # p)"
  shows "s \<noteq> []" "hd s = c \<or> hd s = CHR ''%''"
  using assms by (cases s; auto split: if_splits list.splits)+

lemma escape_path_Cons: "escape_path (c # s) = (if path_char c then [c] else percent c) @ escape_path s"
  by (simp add: escape_path_def)

lemma escape_path_hd: "p \<noteq> [] \<Longrightarrow> escape_path p \<noteq> [] \<and> (hd (escape_path p) = hd p \<and> path_char (hd p) \<or> hd (escape_path p) = CHR ''%'')"
  by (cases p) (auto simp: escape_path_Cons percent_def)

lemma slash_is_path_char: "path_char (CHR ''/'')" "\<not> path_char (CHR 0x5C)"
  by (simp_all add: path_char_def unreserved_def)

text \<open>A reference whose path begins with one slash is written as one: what follows is neither a slash nor a
  backslash; the slash itself may be written as an escape, and then the text names a file in place.\<close>

lemma decoded_second:
  assumes "percent_decode (CHR ''/'' # r) = Some p"
  shows "\<exists>q. p = CHR ''/'' # q \<and> percent_decode r = Some q"
  using assms by auto

lemma escaped_path_shape:
  assumes p: "url_path u = CHR ''/'' # q" and q: "\<not> prefix ''/'' q"
  shows "\<exists>r. escaped_path u = CHR ''/'' # r \<and> (r = [] \<or> hd r \<notin> {CHR ''/'', CHR 0x5C}) \<or> hd (escaped_path u) = CHR ''%'' \<and> escaped_path u \<noteq> []"
proof (cases "url_raw_path u \<noteq> [] \<and> valid_encoded (url_raw_path u) \<and> percent_decode (url_raw_path u) = Some (url_path u)")
  case True
  then obtain c r where w: "url_raw_path u = c # r" by (cases "url_raw_path u") auto
  from True have e: "escaped_path u = c # r" by (simp add: escaped_path_def w)
  from True p w percent_decode_hd [of "c # r" "CHR ''/''" q] have c: "c = CHR ''/'' \<or> c = CHR ''%''" by simp
  show ?thesis
  proof (cases "c = CHR ''/''")
    case slash: True
    then have d: "percent_decode r = Some q" using True p w by auto
    have "hd r \<noteq> CHR 0x5C" if "r \<noteq> []"
      using True that slash_is_path_char(2) by (cases r) (auto simp: w valid_encoded_def)
    moreover have "hd r \<noteq> CHR ''/''" if "r \<noteq> []"
    proof
      assume "hd r = CHR ''/''"
      then have "r = CHR ''/'' # tl r" using that by (cases r) auto
      with d decoded_second [of "tl r" q] have "prefix ''/'' q" by auto
      with q show False by simp
    qed
    ultimately show ?thesis using e slash by auto
  qed (use c e in auto)
next
  case False
  with p have e: "escaped_path u = CHR ''/'' # escape_path q"
    by (auto simp: escaped_path_def escape_path_Cons slash_is_path_char)
  show ?thesis
  proof (cases "q = []")
    case True
    with e show ?thesis by (simp add: escape_path_def)
  next
    case qn: False
    then have "hd q \<noteq> CHR ''/''" using q by (cases q) auto
    with escape_path_hd [OF qn] e slash_is_path_char show ?thesis by auto
  qed
qed

lemma request_uri_extends: "\<exists>t. request_uri u = (if escaped_path u = [] then ''/'' else escaped_path u) @ t \<and> (t = [] \<or> hd t = CHR ''?'')"
  by (simp add: request_uri_def Let_def)

end
