(* ===== verification/Auth.thy ===== *)
theory Auth
  imports Auth_Store Web
begin

text \<open>
  Who is asking: \<open>auth/auth.go\<close>, \<open>auth/password.go\<close> and \<open>auth/initialization_error.go\<close> over the tables of \<open>Auth_Store\<close>.
  A call takes the instant \<open>t\<close> at which it runs for all its readings of the clock, and the bytes it draws from the
  random source as \<open>draw n\<close>, the \<open>n\<close>-th read, \<open>None\<close> when the source fails. Parameters stand for what is not under
  \<open>src/\<close>: \<open>argon\<close> is \<open>argon2.IDKey\<close>, and the record \<open>oidc\<close> holds the exchange of a code, the verification of an ID token,
  the address of a login and the code verifier that the packages \<open>oauth2\<close> and \<open>go-oidc\<close> produce.
\<close>

section \<open>Roles and permissions\<close>

abbreviation ModeLocal :: string where "ModeLocal \<equiv> ''local''"
abbreviation ModeOIDC :: string where "ModeOIDC \<equiv> ''oidc''"
abbreviation ModePassword :: string where "ModePassword \<equiv> ''password''"
abbreviation ModeDisabledDev :: string where "ModeDisabledDev \<equiv> ''disabled-dev''"

abbreviation PermissionView :: string where "PermissionView \<equiv> ''view''"
abbreviation PermissionWatchlistWrite :: string where "PermissionWatchlistWrite \<equiv> ''watchlist.write''"
abbreviation PermissionBrokerManage :: string where "PermissionBrokerManage \<equiv> ''broker.manage''"
abbreviation PermissionBrokerSync :: string where "PermissionBrokerSync \<equiv> ''broker.sync''"
abbreviation PermissionSettings :: string where "PermissionSettings \<equiv> ''settings.manage''"
abbreviation PermissionMembers :: string where "PermissionMembers \<equiv> ''members.manage''"
abbreviation PermissionOwner :: string where "PermissionOwner \<equiv> ''workspace.owner''"
abbreviation PermissionSystem :: string where "PermissionSystem \<equiv> ''system.manage''"
abbreviation PermissionTrade :: string where "PermissionTrade \<equiv> ''trade.execute''"

record principal =
  pr_user :: int
  pr_workspace :: int
  pr_email :: string
  pr_name :: string
  pr_role :: string
  pr_source :: string

definition LocalPrincipal :: principal where
  "LocalPrincipal = \<lparr>pr_user = 0, pr_workspace = DefaultWorkspaceID, pr_email = [], pr_name = ''Local Desktop'',
     pr_role = ''owner'', pr_source = ModeLocal\<rparr>"

definition Allows :: "string \<Rightarrow> string \<Rightarrow> bool" where
  "Allows role permission =
     (if role = ''owner'' then True
      else if role = ''admin'' then permission \<noteq> PermissionOwner
      else if role = ''member'' then permission = PermissionView \<or> permission = PermissionWatchlistWrite \<or> permission = PermissionBrokerSync
      else if role = ''viewer'' then permission = PermissionView
      else False)"

section \<open>Tokens\<close>

definition randomToken :: "string option \<Rightarrow> string result" where
  "randomToken raw = (case raw of None \<Rightarrow> Inl ''generate secure token'' | Some bytes \<Rightarrow> Inr (base64 url_alphabet bytes))"

definition hashToken :: "string \<Rightarrow> string" where
  "hashToken token = sha256 token"

definition safeReturnTo :: "string \<Rightarrow> string" where
  "safeReturnTo v =
     (case url_parse (trim_space v) of None \<Rightarrow> ''/''
      | Some u \<Rightarrow>
          if url_scheme u \<noteq> [] \<or> url_host u \<noteq> [] \<or> \<not> prefix ''/'' (url_path u) \<or> prefix ''//'' (url_path u) then ''/''
          else request_uri u)"

fun unique_from :: "string list \<Rightarrow> string list \<Rightarrow> string list" where
  "unique_from seen [] = []"
| "unique_from seen (v # vs) =
     (let v = trim_space v in
      if v = [] \<or> v \<in> set seen then unique_from seen vs else v # unique_from (v # seen) vs)"

definition uniqueStrings :: "string list \<Rightarrow> string list" where
  "uniqueStrings = unique_from []"

section \<open>Passwords\<close>

abbreviation ErrInvalidCredentials :: string where "ErrInvalidCredentials \<equiv> ''invalid username or password''"

type_synonym argon2 = "string \<Rightarrow> string \<Rightarrow> nat \<Rightarrow> nat \<Rightarrow> nat \<Rightarrow> nat \<Rightarrow> string"

definition argon_version :: nat where
  "argon_version = 19"

definition passwordMemory :: nat where "passwordMemory = 64 * 1024"
definition passwordIterations :: nat where "passwordIterations = 3"
definition passwordParallelism :: nat where "passwordParallelism = 2"
definition passwordKeyLength :: nat where "passwordKeyLength = 32"

definition normalizeUsername :: "string \<Rightarrow> string" where
  "normalizeUsername u = to_lower (trim_space u)"

definition usernamePattern :: "string \<Rightarrow> bool" where
  "usernamePattern u \<longleftrightarrow> u \<noteq> [] \<and> hd u \<in> set ''abcdefghijklmnopqrstuvwxyz0123456789''
     \<and> (\<forall>c\<in>set (tl u). c \<in> set ''abcdefghijklmnopqrstuvwxyz0123456789._@-'')"

text \<open>An error of the start-up: a diagnosis that may be shown and the cause, which may not.\<close>

record init_error =
  ie_message :: string
  ie_cause :: "string option"

definition init_error_text :: "init_error \<Rightarrow> string" where
  "init_error_text e = (case ie_cause e of None \<Rightarrow> ie_message e | Some c \<Rightarrow> ie_message e @ '': '' @ c)"

text \<open>\<open>None\<close> stands for an error of any other type.\<close>

definition InitializationErrorMessage :: "init_error option \<Rightarrow> string" where
  "InitializationErrorMessage e = (case e of
     Some f \<Rightarrow> ie_message f
   | None \<Rightarrow> ''initialization failed; check authentication configuration and initial administrator credentials'')"

abbreviation init_failed :: "string \<Rightarrow> init_error" where
  "init_failed m \<equiv> \<lparr>ie_message = m, ie_cause = None\<rparr>"

definition validateBootstrapCredential :: "string \<Rightarrow> string \<Rightarrow> init_error option" where
  "validateBootstrapCredential username password =
     (if length username < 3 \<or> length username > 64 \<or> \<not> usernamePattern username
      then Some (init_failed ''TRAIO_BOOTSTRAP_ADMIN_USERNAME must be 3-64 lowercase letters, digits, or . _ @ - and start with a letter or digit'')
      else if length password < 12 then Some (init_failed ''TRAIO_BOOTSTRAP_ADMIN_PASSWORD must contain at least 12 bytes'')
      else if length password > 1024 then Some (init_failed ''TRAIO_BOOTSTRAP_ADMIN_PASSWORD must not exceed 1024 bytes'')
      else None)"

definition encodePassword :: "argon2 \<Rightarrow> string \<Rightarrow> string \<Rightarrow> nat \<Rightarrow> nat \<Rightarrow> nat \<Rightarrow> string" where
  "encodePassword argon password salt memory iterations parallelism =
     (let key = argon password salt iterations memory parallelism passwordKeyLength in
      ''$argon2id$v='' @ nat_str argon_version @ ''$m='' @ nat_str memory @ '',t='' @ nat_str iterations @ '',p='' @ nat_str parallelism
      @ ''$'' @ base64 std_alphabet salt @ ''$'' @ base64 std_alphabet key)"

definition hashPassword :: "argon2 \<Rightarrow> string option \<Rightarrow> string \<Rightarrow> string result" where
  "hashPassword argon salt password = (case salt of None \<Rightarrow> Inl ''random source''
     | Some s \<Rightarrow> Inr (encodePassword argon password s passwordMemory passwordIterations passwordParallelism))"

text \<open>The three costs of a stored hash, read at the widths of their variables.\<close>

definition scan_costs :: "string \<Rightarrow> (nat \<times> nat \<times> nat) option" where
  "scan_costs s =
     Option.bind (scan_text ''m='' s) (\<lambda>s. Option.bind (scan_uint 32 s) (\<lambda>(m, s).
     Option.bind (scan_text '',t='' s) (\<lambda>s. Option.bind (scan_uint 32 s) (\<lambda>(i, s).
     Option.bind (scan_text '',p='' s) (\<lambda>s. Option.bind (scan_uint 8 s) (\<lambda>(p, s). Some (m, i, p)))))))"

definition verifyPassword :: "argon2 \<Rightarrow> string \<Rightarrow> string \<Rightarrow> bool" where
  "verifyPassword argon encoded password =
     (let parts = split_on (CHR ''$'') encoded in
      if length parts \<noteq> 6 \<or> parts ! 1 \<noteq> ''argon2id'' then False
      else case Option.bind (scan_text ''v='' (parts ! 2)) scan_int64 of None \<Rightarrow> False
      | Some (version, _) \<Rightarrow>
        if version \<noteq> int argon_version then False
        else case scan_costs (parts ! 3) of None \<Rightarrow> False
        | Some (memory, iterations, parallelism) \<Rightarrow>
          if memory < 8 * 1024 \<or> memory > 256 * 1024 \<or> iterations < 1 \<or> iterations > 10 \<or> parallelism < 1 \<or> parallelism > 8 then False
          else case unbase64 std_alphabet (parts ! 4) of None \<Rightarrow> False
          | Some salt \<Rightarrow>
            if length salt < 8 \<or> length salt > 64 then False
            else case unbase64 std_alphabet (parts ! 5) of None \<Rightarrow> False
            | Some want \<Rightarrow>
              if length want < 16 \<or> length want > 64 then False
              else argon password salt iterations memory parallelism (length want) = want)"

definition dummyPasswordHash :: "argon2 \<Rightarrow> string" where
  "dummyPasswordHash argon = encodePassword argon ''not-the-password'' ''traio-login-dummy'' passwordMemory passwordIterations passwordParallelism"

section \<open>The service\<close>

record auth_config =
  ac_mode :: string
  ac_issuer_url :: string
  ac_client_id :: string
  ac_redirect_url :: string
  ac_scopes :: "string list"
  ac_session_ttl :: int
  ac_flow_ttl :: int
  ac_cookie :: string
  ac_csrf_cookie :: string
  ac_cookie_secure :: bool
  ac_username :: string
  ac_password :: string
  ac_email :: string
  ac_name :: string

text \<open>A service with a provider has its verifier too; \<open>sv_scopes\<close> are those of its OAuth configuration.\<close>

record auth_service =
  sv_config :: auth_config
  sv_provider :: bool
  sv_scopes :: "string list"

record login_result =
  lr_identity :: auth_identity
  lr_session :: string
  lr_csrf :: string
  lr_expires :: instant
  lr_return :: string

record id_claims =
  ic_subject :: string
  ic_email :: string
  ic_verified :: bool
  ic_name :: string
  ic_nonce :: string

record oidc =
  oc_exchange :: "string \<Rightarrow> string \<Rightarrow> string option result"
  oc_verify :: "string \<Rightarrow> (string \<times> id_claims result) result"
  oc_login_url :: "string \<Rightarrow> string \<Rightarrow> string \<Rightarrow> string"
  oc_verifier :: string

definition default_config :: "auth_config \<Rightarrow> auth_config" where
  "default_config c =
     (let c = (if ac_mode c = [] then c\<lparr>ac_mode := ModeLocal\<rparr> else c);
          c = (if ac_session_ttl c \<le> 0 then c\<lparr>ac_session_ttl := 12 * 3600 * ns_per_second\<rparr> else c);
          c = (if ac_flow_ttl c \<le> 0 then c\<lparr>ac_flow_ttl := 10 * 60 * ns_per_second\<rparr> else c);
          c = (if ac_cookie c = [] then c\<lparr>ac_cookie := ''traio_session''\<rparr> else c)
      in if ac_csrf_cookie c = [] then c\<lparr>ac_csrf_cookie := ''traio_csrf''\<rparr> else c)"

text \<open>The built-in administrator that a configuration asks for.\<close>

definition bootstrap_credential :: "auth_config \<Rightarrow> string \<Rightarrow> password_credential" where
  "bootstrap_credential c hash =
     (let username = normalizeUsername (ac_username c);
          email = to_lower (trim_space (ac_email c)); email = (if email = [] \<and> CHR ''@'' \<in> set username then username else email);
          name = trim_space (ac_name c); name = (if name = [] then username else name)
      in \<lparr>pc_username = username, pc_hash = hash, pc_email = email, pc_name = name\<rparr>)"

definition start_password :: "argon2 \<Rightarrow> string option \<Rightarrow> auth_config \<Rightarrow> auth_db \<Rightarrow> (init_error + unit) \<times> auth_db" where
  "start_password argon salt c db =
     (let username = normalizeUsername (ac_username c); password = ac_password c in
      if username = [] \<and> password = []
      then (if HasPasswordIdentity db then Inr ()
            else Inl (init_failed ''built-in login is not initialized; set TRAIO_BOOTSTRAP_ADMIN_USERNAME and TRAIO_BOOTSTRAP_ADMIN_PASSWORD''), db)
      else case validateBootstrapCredential username password of Some e \<Rightarrow> (Inl e, db)
      | None \<Rightarrow> (case hashPassword argon salt password of
          Inl e \<Rightarrow> (Inl \<lparr>ie_message = ''cannot hash bootstrap password'', ie_cause = Some e\<rparr>, db)
        | Inr hash \<Rightarrow> (case BootstrapPasswordIdentity (bootstrap_credential c hash) db of
            (Inl e, db') \<Rightarrow> (Inl \<lparr>ie_message = ''cannot bootstrap built-in account; check database permissions, schema and account conflicts'', ie_cause = Some e\<rparr>, db')
          | (Inr _, db') \<Rightarrow> (Inr (), db'))))"

text \<open>\<open>discover\<close> is the provider's discovery document, \<open>Inl\<close> when it cannot be read.\<close>

definition NewService :: "argon2 \<Rightarrow> (string \<Rightarrow> unit result) \<Rightarrow> string option \<Rightarrow> auth_config \<Rightarrow> auth_db \<Rightarrow> (init_error + auth_service) \<times> auth_db" where
  "NewService argon discover salt config db =
     (let c = default_config config; sv = \<lparr>sv_config = c, sv_provider = False, sv_scopes = []\<rparr> in
      if ac_mode c = ModePassword then (case start_password argon salt c db of (Inl e, db') \<Rightarrow> (Inl e, db') | (Inr _, db') \<Rightarrow> (Inr sv, db'))
      else if ac_mode c \<noteq> ModeOIDC then (Inr sv, db)
      else if trim_space (ac_issuer_url c) = [] \<or> trim_space (ac_client_id c) = [] \<or> trim_space (ac_redirect_url c) = []
      then (Inl (init_failed ''OIDC issuer URL, client ID, and redirect URL are required''), db)
      else case discover (ac_issuer_url c) of
        Inl e \<Rightarrow> (Inl \<lparr>ie_message = ''cannot discover OIDC provider; check TRAIO_OIDC_ISSUER_URL, network and TLS certificate'', ie_cause = Some e\<rparr>, db)
      | Inr _ \<Rightarrow> (Inr (sv\<lparr>sv_provider := True, sv_scopes := uniqueStrings ([''openid'', ''profile'', ''email''] @ ac_scopes c)\<rparr>), db))"

abbreviation Mode :: "auth_service \<Rightarrow> string" where
  "Mode sv \<equiv> ac_mode (sv_config sv)"

definition UsesSessions :: "auth_service \<Rightarrow> bool" where
  "UsesSessions sv \<longleftrightarrow> Mode sv = ModeOIDC \<or> Mode sv = ModePassword"

text \<open>Sequencing of calls; an error ends the call and keeps the tables as they are then.\<close>

definition then_call :: "('d, 'a) call \<Rightarrow> ('a \<Rightarrow> ('d, 'b) call) \<Rightarrow> ('d, 'b) call" where
  "then_call m f db = (case m db of (Inl e, db') \<Rightarrow> (Inl e, db') | (Inr x, db') \<Rightarrow> f x db')"

definition fails_as :: "string \<Rightarrow> ('d, 'a) call \<Rightarrow> ('d, 'a) call" where
  "fails_as p m db = (case m db of (Inl e, db') \<Rightarrow> (Inl (p @ e), db') | r \<Rightarrow> r)"

definition pure_call :: "'a result \<Rightarrow> ('d, 'a) call" where
  "pure_call r db = (r, db)"

section \<open>Logging in\<close>

definition createLoginSession :: "auth_service \<Rightarrow> instant \<Rightarrow> (nat \<Rightarrow> string option) \<Rightarrow> auth_identity \<Rightarrow> string \<Rightarrow> (auth_db, login_result) call" where
  "createLoginSession sv t draw i return_to =
     then_call (pure_call (randomToken (draw 0))) (\<lambda>token.
     then_call (pure_call (randomToken (draw 1))) (\<lambda>csrf.
     let expires = t + ac_session_ttl (sv_config sv) in
     then_call (fails_as ''create auth session: '' (CreateAuthSession t
        \<lparr>as_token = hashToken token, as_csrf = hashToken csrf, as_user = au_id (ai_user i), as_workspace = aw_id (ai_workspace i),
         as_expires = rfc3339_nano expires, as_seen = rfc3339_nano t\<rparr>)) (\<lambda>_.
     pure_call (Inr \<lparr>lr_identity = i, lr_session = token, lr_csrf = csrf, lr_expires = expires, lr_return = safeReturnTo return_to\<rparr>))))"

definition BeginLogin :: "auth_service \<Rightarrow> oidc \<Rightarrow> instant \<Rightarrow> (nat \<Rightarrow> string option) \<Rightarrow> string \<Rightarrow> (auth_db, string) call" where
  "BeginLogin sv oc t draw return_to =
     (if Mode sv \<noteq> ModeOIDC \<or> \<not> sv_provider sv then pure_call (Inl ''OIDC login is not enabled'')
      else then_call (pure_call (randomToken (draw 0))) (\<lambda>state.
        then_call (pure_call (randomToken (draw 1))) (\<lambda>nonce.
        then_call (fails_as ''save OIDC flow: '' (CreateAuthFlow t
           \<lparr>af_state = hashToken state, af_verifier = oc_verifier oc, af_nonce = nonce, af_return = safeReturnTo return_to,
            af_expires = rfc3339_nano (t + ac_flow_ttl (sv_config sv))\<rparr>)) (\<lambda>_.
        pure_call (Inr (oc_login_url oc state nonce (oc_verifier oc)))))))"

text \<open>The claims of the ID token that a code is exchanged for, against the flow that asked for it: its issuer with them.\<close>

definition verified_claims :: "oidc \<Rightarrow> string \<Rightarrow> auth_flow \<Rightarrow> (string \<times> id_claims) result" where
  "verified_claims oc code flow =
     (case oc_exchange oc code (af_verifier flow) of Inl e \<Rightarrow> Inl (''exchange OIDC code: '' @ e)
      | Inr raw \<Rightarrow>
        (if raw = None \<or> raw = Some [] then Inl ''OIDC response did not include an ID token''
         else case oc_verify oc (the raw) of Inl e \<Rightarrow> Inl (''verify OIDC ID token: '' @ e)
         | Inr (issuer, claims) \<Rightarrow> (case claims of Inl e \<Rightarrow> Inl (''decode OIDC claims: '' @ e)
           | Inr c \<Rightarrow>
              if ic_nonce c \<noteq> af_nonce flow then Inl ''OIDC nonce mismatch''
              else if trim_space (ic_email c) = [] \<or> \<not> ic_verified c then Inl ''OIDC identity must include a verified email''
              else Inr (issuer, c))))"

definition CompleteLogin :: "auth_service \<Rightarrow> oidc \<Rightarrow> instant \<Rightarrow> (nat \<Rightarrow> string option) \<Rightarrow> string \<Rightarrow> string \<Rightarrow> (auth_db, login_result) call" where
  "CompleteLogin sv oc t draw state code =
     (let state = trim_space state; code = trim_space code in
      if Mode sv \<noteq> ModeOIDC \<or> \<not> sv_provider sv then pure_call (Inl ''OIDC login is not enabled'')
      else if state = [] \<or> code = [] then pure_call (Inl ''OIDC state and code are required'')
      else then_call (fails_as ''consume OIDC flow: '' (ConsumeAuthFlow (hashToken state) (rfc3339_nano t))) (\<lambda>flow.
        then_call (pure_call (verified_claims oc code flow)) (\<lambda>(issuer, c).
        then_call (fails_as ''persist OIDC identity: '' (UpsertOIDCIdentity issuer (ic_subject c) (ic_email c) (ic_name c))) (\<lambda>i.
        createLoginSession sv t draw i (safeReturnTo (af_return flow))))))"

definition LoginWithPassword :: "auth_service \<Rightarrow> argon2 \<Rightarrow> instant \<Rightarrow> (nat \<Rightarrow> string option) \<Rightarrow> string \<Rightarrow> string \<Rightarrow> string \<Rightarrow> (auth_db, login_result) call" where
  "LoginWithPassword sv argon t draw username password return_to db =
     (if Mode sv \<noteq> ModePassword then (Inl ''built-in login is not enabled'', db)
      else case GetPasswordIdentity (normalizeUsername username) db of
        Inl _ \<Rightarrow> (Inl ErrInvalidCredentials, db)
      | Inr (i, encoded) \<Rightarrow>
          if \<not> verifyPassword argon encoded password then (Inl ErrInvalidCredentials, db)
          else createLoginSession sv t draw i (safeReturnTo return_to) db)"

section \<open>Sessions\<close>

definition Authenticate :: "auth_service \<Rightarrow> instant \<Rightarrow> string \<Rightarrow> (auth_db, principal \<times> auth_session) call" where
  "Authenticate sv t raw db =
     (if trim_space raw = [] then (Inl ErrNotFound, db)
      else case GetAuthSession (hashToken raw) db of Inl e \<Rightarrow> (Inl e, db)
      | Inr (i, s) \<Rightarrow>
        let expires = parse_rfc3339 (as_expires s) in
        if expires = None \<or> \<not> t < the expires then (Inl ErrNotFound, DeleteAuthSession (as_token s) db)
        else (Inr (\<lparr>pr_user = au_id (ai_user i), pr_workspace = aw_id (ai_workspace i), pr_email = au_email (ai_user i),
                    pr_name = au_name (ai_user i), pr_role = ai_role i, pr_source = Mode sv\<rparr>, s),
              TouchAuthSession (as_token s) (rfc3339_nano t) db))"

definition ValidateCSRF :: "auth_session \<Rightarrow> string \<Rightarrow> bool" where
  "ValidateCSRF s raw = (case (unhex (as_csrf s), unhex (hashToken raw)) of (Some l, Some r) \<Rightarrow> l = r | _ \<Rightarrow> False)"

definition Logout :: "string \<Rightarrow> auth_db \<Rightarrow> auth_db" where
  "Logout raw db = (if raw = [] then db else DeleteAuthSession (hashToken raw) db)"

section \<open>A broker's consent\<close>

definition BeginBrokerOAuth :: "auth_service \<Rightarrow> instant \<Rightarrow> string option \<Rightarrow> principal \<Rightarrow> int \<Rightarrow> (auth_db, string) call" where
  "BeginBrokerOAuth sv t raw p connection =
     (if pr_user p \<le> 0 \<or> pr_workspace p \<le> 0 \<or> connection \<le> 0 then pure_call (Inl ''authenticated broker OAuth context is required'')
      else then_call (pure_call (randomToken raw)) (\<lambda>state.
        then_call (CreateBrokerOAuthFlow t
          \<lparr>of_state = hashToken state, of_connection = connection, of_workspace = pr_workspace p, of_user = pr_user p,
           of_expires = rfc3339_nano (t + ac_flow_ttl (sv_config sv))\<rparr>) (\<lambda>_. pure_call (Inr state))))"

definition ConsumeBrokerOAuth :: "instant \<Rightarrow> principal \<Rightarrow> string \<Rightarrow> (auth_db, int) call" where
  "ConsumeBrokerOAuth t p raw =
     then_call (ConsumeBrokerOAuthFlow (hashToken (trim_space raw)) (rfc3339_nano t)) (\<lambda>flow.
     pure_call (if of_workspace flow \<noteq> pr_workspace p \<or> of_user flow \<noteq> pr_user p
                then Inl ''broker OAuth state does not belong to this session'' else Inr (of_connection flow)))"

section \<open>Members\<close>

definition ListMembers :: "int \<Rightarrow> auth_db \<Rightarrow> workspace_member list" where
  "ListMembers = ListWorkspaceMembers"

definition InviteMember :: "principal \<Rightarrow> string \<Rightarrow> string \<Rightarrow> (auth_db, unit) call" where
  "InviteMember p email role = InviteWorkspaceMember \<lparr>wi_workspace = pr_workspace p, wi_email = email, wi_role = role, wi_by = pr_user p\<rparr>"

definition UpdateMemberRole :: "int \<Rightarrow> int \<Rightarrow> string \<Rightarrow> (auth_db, unit) call" where
  "UpdateMemberRole w u role = UpdateWorkspaceMemberRole w u (to_lower (trim_space role))"

definition DeleteMember :: "int \<Rightarrow> int \<Rightarrow> (auth_db, unit) call" where
  "DeleteMember = DeleteWorkspaceMember"

definition Audit :: "audit_event \<Rightarrow> auth_db \<Rightarrow> auth_db" where
  "Audit = AppendAuditEvent"

end
