(* ===== verification/Auth_Api.thy ===== *)
theory Auth_Api
  imports Auth
begin

text \<open>
  Who may do what over HTTP: the middleware, the limiter of password logins, the handlers of \<open>api/auth.go\<close>, the hosts and
  the token of the local mode and the route table of \<open>api/router.go\<close>. A request carries what gin reads from it: method,
  \<open>Host\<close>, route pattern, headers and cookies, peer address and client address. A handler is a function of the
  context that the middleware leaves and of the tables; it returns a response and the tables. A permission wraps the
  handler the way \<open>c.Next\<close> does, what it audits after the handler included.
\<close>

section \<open>Requests and responses\<close>

record http_request =
  rq_method :: string
  rq_host :: string
  rq_route :: string
  rq_headers :: "(string \<times> string) list"
  rq_cookies :: "(string \<times> string) list"
  rq_remote :: string
  rq_client :: string

record http_response =
  rs_status :: int
  rs_error :: string
  rs_location :: string
  rs_headers :: "(string \<times> string) list"
  rs_cookies :: "(string \<times> string) list"

text \<open>The keys that the middleware sets on a context: the principal, whether the service of the sessions is known, and
  the CSRF token that is echoed.\<close>

record http_context =
  cx_principal :: "principal option"
  cx_sessions :: bool
  cx_csrf :: string

type_synonym handler = "http_context \<Rightarrow> auth_db \<Rightarrow> http_response \<times> auth_db"

definition header :: "http_request \<Rightarrow> string \<Rightarrow> string" where
  "header rq k = (case map_of (rq_headers rq) k of None \<Rightarrow> [] | Some v \<Rightarrow> v)"

definition cookie :: "http_request \<Rightarrow> string \<Rightarrow> string" where
  "cookie rq k = (case map_of (rq_cookies rq) k of None \<Rightarrow> [] | Some v \<Rightarrow> v)"

definition response :: "int \<Rightarrow> string \<Rightarrow> http_response" where
  "response status e = \<lparr>rs_status = status, rs_error = e, rs_location = [], rs_headers = [], rs_cookies = []\<rparr>"

definition redirect :: "string \<Rightarrow> http_response" where
  "redirect l = (response 302 [])\<lparr>rs_location := l\<rparr>"

abbreviation status_ok :: http_response where "status_ok \<equiv> response 200 []"
abbreviation no_content :: http_response where "no_content \<equiv> response 204 []"

record api_deps =
  dp_auth :: "auth_service option"
  dp_token :: string
  dp_hosts :: "string list"

definition zero_principal :: principal where
  "zero_principal = \<lparr>pr_user = 0, pr_workspace = 0, pr_email = [], pr_name = [], pr_role = [], pr_source = []\<rparr>"

definition current_principal :: "http_context \<Rightarrow> principal" where
  "current_principal cx = (case cx_principal cx of Some p \<Rightarrow> p | None \<Rightarrow> zero_principal)"

definition audit_of :: "principal \<Rightarrow> string \<Rightarrow> string \<Rightarrow> string \<Rightarrow> string \<Rightarrow> audit_event" where
  "audit_of p action kind target addr = \<lparr>ae_workspace = pr_workspace p, ae_user = pr_user p, ae_action = action,
     ae_target_type = kind, ae_target_id = target, ae_addr = addr, ae_metadata = []\<rparr>"

section \<open>Hosts\<close>

definition requestHost :: "string \<Rightarrow> string" where
  "requestHost v =
     (case cut_last (CHR '':'') v of
        Some (h, p) \<Rightarrow> if CHR '']'' \<notin> set p \<and> trim_chars ''[]'' h \<noteq> [] then trim_chars ''[]'' h else trim_chars ''[]'' v
      | None \<Rightarrow> trim_chars ''[]'' v)"

definition normalizeRequestHost :: "string \<Rightarrow> string" where
  "normalizeRequestHost v =
     (let v = trim_space v in
      case SplitHostPort v of
        Some (h, p) \<Rightarrow> if (p = ''80'' \<or> p = ''443'') \<and> h \<noteq> [] then trim_chars ''[]'' (to_lower h) else trim_chars ''[]'' (to_lower v)
      | None \<Rightarrow> trim_chars ''[]'' (to_lower v))"

definition isLoopbackAPIHost :: "string \<Rightarrow> bool" where
  "isLoopbackAPIHost host = (let h = trim_chars ''[]'' (trim_space (to_lower host)) in h = ''localhost'' \<or> loopback_ip h)"

definition isAllowedAPIHost :: "string \<Rightarrow> string list \<Rightarrow> bool" where
  "isAllowedAPIHost host hosts =
     (if isLoopbackAPIHost host then True
      else let h = normalizeRequestHost host in list_ex (\<lambda>a. h \<noteq> [] \<and> h = normalizeRequestHost a) hosts)"

definition allowedOrigin :: "string \<Rightarrow> string list \<Rightarrow> bool" where
  "allowedOrigin origin configured =
     (if origin \<in> set [''http://localhost:1420'', ''http://127.0.0.1:1420'', ''http://localhost:1422'', ''http://127.0.0.1:1422'',
         ''tauri://localhost'', ''http://tauri.localhost'', ''https://tauri.localhost''] then True
      else list_ex (\<lambda>a. origin = trim_right_char (CHR ''/'') (trim_space a)) configured)"

definition websocketToken :: "string \<Rightarrow> string" where
  "websocketToken h = (let parts = split_on (CHR '','') h in
     if length parts \<noteq> 2 \<or> trim_space (parts ! 0) \<noteq> ''traio'' then [] else trim_space (parts ! 1))"

section \<open>Middleware\<close>

definition unsafeMethod :: "string \<Rightarrow> bool" where
  "unsafeMethod m \<longleftrightarrow> m \<noteq> ''GET'' \<and> m \<noteq> ''HEAD'' \<and> m \<noteq> ''OPTIONS''"

abbreviation local_context :: http_context where
  "local_context \<equiv> \<lparr>cx_principal = Some LocalPrincipal, cx_sessions = False, cx_csrf = []\<rparr>"

definition localAPIMiddleware :: "string \<Rightarrow> string list \<Rightarrow> http_request \<Rightarrow> http_response + http_context" where
  "localAPIMiddleware token hosts rq =
     (if token = [] \<or> rq_method rq = ''OPTIONS'' then Inr local_context
      else let host = (case SplitHostPort (rq_host rq) of Some (h, _) \<Rightarrow> h | None \<Rightarrow> rq_host rq) in
        if \<not> isAllowedAPIHost host hosts then Inl (response 421 ''API host is not allowed'')
        else let a = header rq ''Authorization'';
                 candidate = (if prefix ''Bearer '' a then drop 7 a else a);
                 candidate = (if rq_route rq = ''/api/v1/ws'' \<and> candidate = [] then websocketToken (header rq ''Sec-WebSocket-Protocol'') else candidate)
             in if candidate \<noteq> token then Inl (response 401 ''invalid API token'') else Inr local_context)"

definition clearAuthCookies :: "auth_service \<Rightarrow> http_response \<Rightarrow> http_response" where
  "clearAuthCookies sv r = r\<lparr>rs_cookies := rs_cookies r @ [(ac_cookie (sv_config sv), []), (ac_csrf_cookie (sv_config sv), [])]\<rparr>"

definition setAuthCookies :: "auth_service \<Rightarrow> string \<Rightarrow> string \<Rightarrow> http_response \<Rightarrow> http_response" where
  "setAuthCookies sv session csrf r = r\<lparr>rs_cookies := rs_cookies r @ [(ac_cookie (sv_config sv), session), (ac_csrf_cookie (sv_config sv), csrf)]\<rparr>"

definition sessionMiddleware :: "auth_service \<Rightarrow> string list \<Rightarrow> instant \<Rightarrow> http_request \<Rightarrow> auth_db \<Rightarrow> (http_response + http_context) \<times> auth_db" where
  "sessionMiddleware sv hosts t rq db =
     (if rq_method rq = ''OPTIONS'' then (Inr \<lparr>cx_principal = None, cx_sessions = False, cx_csrf = []\<rparr>, db)
      else if \<not> isAllowedAPIHost (requestHost (rq_host rq)) hosts then (Inl (response 421 ''API host is not allowed''), db)
      else let raw = cookie rq (ac_cookie (sv_config sv)) in
        if raw = [] then (Inl (response 401 ''authentication required''), db)
        else case Authenticate sv t raw db of
          (Inl _, db') \<Rightarrow> (Inl (clearAuthCookies sv (response 401 ''session is invalid or expired'')), db')
        | (Inr (p, s), db') \<Rightarrow>
            let csrf = cookie rq (ac_csrf_cookie (sv_config sv)); h = header rq ''X-CSRF-Token'';
                echo = (if csrf \<noteq> [] \<and> ValidateCSRF s csrf then csrf else []) in
            if unsafeMethod (rq_method rq) \<and> (csrf = [] \<or> h = [] \<or> csrf \<noteq> h \<or> \<not> ValidateCSRF s h)
            then (Inl ((response 403 ''CSRF validation failed'')\<lparr>rs_headers := (if echo = [] then [] else [(''X-CSRF-Token'', echo)])\<rparr>),
                  Audit (audit_of p ''auth.csrf_rejected'' [] [] (rq_client rq)) db')
            else (Inr \<lparr>cx_principal = Some p, cx_sessions = True, cx_csrf = echo\<rparr>, db'))"

definition authenticationMiddleware :: "api_deps \<Rightarrow> instant \<Rightarrow> http_request \<Rightarrow> auth_db \<Rightarrow> (http_response + http_context) \<times> auth_db" where
  "authenticationMiddleware deps t rq db =
     (case dp_auth deps of
        None \<Rightarrow> (localAPIMiddleware (dp_token deps) (dp_hosts deps) rq, db)
      | Some sv \<Rightarrow>
          if Mode sv = ModeLocal then (localAPIMiddleware (dp_token deps) (dp_hosts deps) rq, db)
          else if Mode sv = ModeDisabledDev then (Inr local_context, db)
          else sessionMiddleware sv (dp_hosts deps) t rq db)"

definition requirePermission :: "string \<Rightarrow> http_request \<Rightarrow> handler \<Rightarrow> handler" where
  "requirePermission permission rq h cx db =
     (case cx_principal cx of
        None \<Rightarrow> (response 401 ''authentication required'', db)
      | Some p \<Rightarrow>
          if \<not> Allows (pr_role p) permission
          then (response 403 ''permission denied'',
                if cx_sessions cx
                then Audit ((audit_of p ''auth.permission_denied'' ''route'' (rq_method rq @ '' '' @ rq_route rq) (rq_client rq))
                       \<lparr>ae_metadata := [CHR 0x7B, CHR 0x22] @ ''permission'' @ [CHR 0x22, CHR '':'', CHR 0x22] @ permission @ [CHR 0x22, CHR 0x7D]\<rparr>) db
                else db)
          else (case h cx db of (r, db') \<Rightarrow>
            (r, if permission \<noteq> PermissionView \<and> rs_status r < 400 \<and> cx_sessions cx
                then Audit (audit_of p (''api.'' @ permission) ''route'' (rq_method rq @ '' '' @ rq_route rq) (rq_client rq)) db'
                else db')))"

text \<open>A route of the group \<open>/api/v1\<close>: the group's authentication and its \<open>view\<close> permission, then the route's own.\<close>

definition serve_api :: "api_deps \<Rightarrow> instant \<Rightarrow> http_request \<Rightarrow> string option \<Rightarrow> handler \<Rightarrow> auth_db \<Rightarrow> http_response \<times> auth_db" where
  "serve_api deps t rq permission h db =
     (case authenticationMiddleware deps t rq db of
        (Inl r, db') \<Rightarrow> (r, db')
      | (Inr cx, db') \<Rightarrow>
          (case requirePermission PermissionView rq (case permission of None \<Rightarrow> h | Some p \<Rightarrow> requirePermission p rq h) cx db' of
             (r, db'') \<Rightarrow> (if cx_csrf cx = [] then r else r\<lparr>rs_headers := (''X-CSRF-Token'', cx_csrf cx) # rs_headers r\<rparr>, db'')))"

section \<open>Members\<close>

definition workspaceMemberIsOwner :: "int \<Rightarrow> int \<Rightarrow> auth_db \<Rightarrow> bool" where
  "workspaceMemberIsOwner w u db =
     (case find (\<lambda>m. wm_user m = u) (ListMembers w db) of None \<Rightarrow> False | Some m \<Rightarrow> wm_role m = ''owner'')"

text \<open>The path parameter \<open>user_id\<close>, and the body as it was bound, \<open>None\<close> when it is not JSON.\<close>

definition user_param :: "string \<Rightarrow> int option" where
  "user_param s = (case parse_int64 s of None \<Rightarrow> None | Some u \<Rightarrow> if u \<le> 0 then None else Some u)"

definition inviteWorkspaceMember :: "http_request \<Rightarrow> (string \<times> string) option \<Rightarrow> handler" where
  "inviteWorkspaceMember rq body cx db =
     (let p = current_principal cx in
      case body of None \<Rightarrow> (response 400 ''email and role are required'', db)
      | Some (email, role) \<Rightarrow>
          (case InviteMember p email role db of
             (Inl e, db') \<Rightarrow> (response 400 e, db')
           | (Inr _, db') \<Rightarrow> (no_content, Audit (audit_of p ''workspace.member_invited'' ''email'' (to_lower (trim_space email)) (rq_client rq)) db')))"

definition updateWorkspaceMemberRole :: "http_request \<Rightarrow> string \<Rightarrow> string option \<Rightarrow> handler" where
  "updateWorkspaceMemberRole rq uid body cx db =
     (let p = current_principal cx in
      case user_param uid of None \<Rightarrow> (response 400 ''invalid user_id'', db)
      | Some u \<Rightarrow>
        (case body of None \<Rightarrow> (response 400 ''role is required'', db)
         | Some role \<Rightarrow>
           if pr_role p = ''admin'' \<and> (role = ''owner'' \<or> u = pr_user p \<or> workspaceMemberIsOwner (pr_workspace p) u db)
           then (response 403 ''admin cannot manage owners or its own role'', db)
           else case UpdateMemberRole (pr_workspace p) u role db of
             (Inl e, db') \<Rightarrow> (response (if e = ErrNotFound then 404 else 400) e, db')
           | (Inr _, db') \<Rightarrow> (no_content, Audit (audit_of p ''workspace.member_role_updated'' ''user'' (int_str u) (rq_client rq)) db')))"

definition deleteWorkspaceMemberHandler :: "http_request \<Rightarrow> string \<Rightarrow> handler" where
  "deleteWorkspaceMemberHandler rq uid cx db =
     (let p = current_principal cx in
      case user_param uid of None \<Rightarrow> (response 400 ''invalid user_id'', db)
      | Some u \<Rightarrow>
        if pr_role p = ''admin'' \<and> (u = pr_user p \<or> workspaceMemberIsOwner (pr_workspace p) u db)
        then (response 403 ''admin cannot remove itself or an owner'', db)
        else case DeleteMember (pr_workspace p) u db of
          (Inl e, db') \<Rightarrow> (response (if e = ErrNotFound then 404 else 400) e, db')
        | (Inr _, db') \<Rightarrow> (no_content, Audit (audit_of p ''workspace.member_removed'' ''user'' (int_str u) (rq_client rq)) db'))"

section \<open>The limiter of password logins\<close>

record login_attempt =
  la_count :: int
  la_end :: instant

type_synonym limiter = "(string \<times> login_attempt) list"

definition allowed :: "instant \<Rightarrow> string \<Rightarrow> limiter \<Rightarrow> bool \<times> limiter" where
  "allowed t k l =
     (case map_of l k of
        None \<Rightarrow> (True, AList.delete k l)
      | Some a \<Rightarrow> if \<not> t < la_end a then (True, AList.delete k l) else (la_count a < 5, l))"

definition failed :: "instant \<Rightarrow> string \<Rightarrow> limiter \<Rightarrow> limiter" where
  "failed t k l =
     (let a = (case map_of l k of Some a \<Rightarrow> if \<not> t < la_end a then \<lparr>la_count = 0, la_end = t + 300 * ns_per_second\<rparr> else a
                 | None \<Rightarrow> \<lparr>la_count = 0, la_end = t + 300 * ns_per_second\<rparr>);
          l = AList.update k (a\<lparr>la_count := la_count a + 1\<rparr>) l
      in if length l > 2048 then filter (\<lambda>(_, v). t < la_end v) l else l)"

definition succeeded :: "string \<Rightarrow> limiter \<Rightarrow> limiter" where
  "succeeded k l = AList.delete k l"

section \<open>Logging in and out\<close>

text \<open>The body of a password login as it was bound: username, password and the address to return to.\<close>

definition passwordLogin :: "auth_service option \<Rightarrow> string list \<Rightarrow> argon2 \<Rightarrow> instant \<Rightarrow> (nat \<Rightarrow> string option) \<Rightarrow> http_request \<Rightarrow>
    (string \<times> string \<times> string) option \<Rightarrow> limiter \<Rightarrow> auth_db \<Rightarrow> http_response \<times> limiter \<times> auth_db" where
  "passwordLogin service hosts argon t draw rq body l db =
     (case service of None \<Rightarrow> (response 404 ''built-in login is not enabled'', l, db)
      | Some sv \<Rightarrow>
        if Mode sv \<noteq> ModePassword then (response 404 ''built-in login is not enabled'', l, db)
        else if \<not> isAllowedAPIHost (requestHost (rq_host rq)) hosts then (response 421 ''API host is not allowed'', l, db)
        else let key = requestHost (rq_remote rq); anonymous = (\<lambda>action. audit_of zero_principal action [] [] key) in
          case allowed t key l of (False, l) \<Rightarrow>
              ((response 429 ''too many login attempts; try again later'')\<lparr>rs_headers := [(''Retry-After'', ''300'')]\<rparr>,
               l, Audit (anonymous ''auth.login_rate_limited'') db)
          | (True, l) \<Rightarrow>
            (case body of None \<Rightarrow> (response 400 ''username and password are required'', failed t key l, db)
             | Some (username, password, return_to) \<Rightarrow>
               if trim_space username = [] \<or> password = [] then (response 400 ''username and password are required'', failed t key l, db)
               else case LoginWithPassword sv argon t draw username password return_to db of
                 (Inl e, db') \<Rightarrow>
                    if e = ErrInvalidCredentials
                    then (response 401 ''invalid username or password'', failed t key l, Audit (anonymous ''auth.login_failed'') db')
                    else (response 500 ''login unavailable'', l, db')
               | (Inr r, db') \<Rightarrow>
                    ((setAuthCookies sv (lr_session r) (lr_csrf r) no_content)\<lparr>rs_headers := [(''X-CSRF-Token'', lr_csrf r), (''Cache-Control'', ''no-store'')]\<rparr>,
                     succeeded key l,
                     Audit \<lparr>ae_workspace = aw_id (ai_workspace (lr_identity r)), ae_user = au_id (ai_user (lr_identity r)),
                        ae_action = ''auth.login_succeeded'', ae_target_type = [], ae_target_id = [], ae_addr = key, ae_metadata = []\<rparr> db')))"

definition oidc_enabled :: "auth_service option \<Rightarrow> bool" where
  "oidc_enabled service \<longleftrightarrow> (case service of None \<Rightarrow> False | Some sv \<Rightarrow> Mode sv = ModeOIDC)"

definition beginOIDCLogin :: "auth_service option \<Rightarrow> oidc \<Rightarrow> instant \<Rightarrow> (nat \<Rightarrow> string option) \<Rightarrow> string \<Rightarrow> auth_db \<Rightarrow> http_response \<times> auth_db" where
  "beginOIDCLogin service oc t draw return_to db =
     (if \<not> oidc_enabled service then (response 404 ''OIDC login is not enabled'', db)
      else case BeginLogin (the service) oc t draw return_to db of
        (Inl _, db') \<Rightarrow> (response 502 ''could not start login'', db')
      | (Inr url, db') \<Rightarrow> ((redirect url)\<lparr>rs_headers := [(''Cache-Control'', ''no-store'')]\<rparr>, db'))"

definition completeOIDCLogin :: "auth_service option \<Rightarrow> oidc \<Rightarrow> instant \<Rightarrow> (nat \<Rightarrow> string option) \<Rightarrow> http_request \<Rightarrow> string \<Rightarrow> string \<Rightarrow> string \<Rightarrow>
    auth_db \<Rightarrow> http_response \<times> auth_db" where
  "completeOIDCLogin service oc t draw rq provider_error state code db =
     (if \<not> oidc_enabled service then (response 404 ''OIDC login is not enabled'', db)
      else if trim_space provider_error \<noteq> [] then (redirect ''/login?error=provider_error'', db)
      else case CompleteLogin (the service) oc t draw state code db of
        (Inl _, db') \<Rightarrow> (redirect ''/login?error=login_failed'', Audit (audit_of zero_principal ''auth.login_failed'' [] [] (rq_client rq)) db')
      | (Inr r, db') \<Rightarrow> (setAuthCookies (the service) (lr_session r) (lr_csrf r) (redirect (lr_return r)),
           Audit \<lparr>ae_workspace = aw_id (ai_workspace (lr_identity r)), ae_user = au_id (ai_user (lr_identity r)),
             ae_action = ''auth.login_succeeded'', ae_target_type = [], ae_target_id = [], ae_addr = rq_client rq, ae_metadata = []\<rparr> db'))"

definition authLogout :: "auth_service option \<Rightarrow> http_request \<Rightarrow> handler" where
  "authLogout service rq cx db =
     (case service of None \<Rightarrow> (no_content, db)
      | Some sv \<Rightarrow>
          if UsesSessions sv
          then (clearAuthCookies sv no_content,
                Audit (audit_of (current_principal cx) ''auth.logout'' [] [] (rq_client rq)) (Logout (cookie rq (ac_cookie (sv_config sv))) db))
          else (no_content, db))"

text \<open>The callback of a broker's consent; \<open>exchange\<close> hands the code to the live connection and says whether that worked,
  \<open>None\<close> when there is no runtime of connections.\<close>

definition completeBrokerOAuth :: "(int \<Rightarrow> string \<Rightarrow> bool) option \<Rightarrow> instant \<Rightarrow> http_request \<Rightarrow> string \<Rightarrow> string \<Rightarrow> string \<Rightarrow> handler" where
  "completeBrokerOAuth exchange t rq provider_error state code cx db =
     (case exchange of None \<Rightarrow> (response 503 ''broker runtime unavailable'', db)
      | Some ex \<Rightarrow>
        if trim_space provider_error \<noteq> [] then (redirect ''/brokers?oauth=failed'', db)
        else let p = current_principal cx in
          case ConsumeBrokerOAuth t p state db of
            (Inl _, db') \<Rightarrow> (redirect ''/brokers?oauth=invalid_state'', db')
          | (Inr connection, db') \<Rightarrow>
              if trim_space code = [] then (redirect ''/brokers?oauth=missing_code'', db')
              else if \<not> ex connection (trim_space code) then (redirect ''/brokers?oauth=exchange_failed'', db')
              else (redirect ''/brokers?oauth=success'',
                    Audit (audit_of p ''broker.oauth_authenticated'' ''broker_connection'' (int_str connection) (rq_client rq)) db'))"

section \<open>Routes\<close>

text \<open>The routes of the group \<open>/api/v1\<close> that \<open>NewRouter\<close> registers, each with its own permission beyond \<open>view\<close>; the routes
  of the members exist when there is an authentication service.\<close>

definition v1_routes :: "(string \<times> string \<times> string option) list" where
  "v1_routes = [
     (''GET'', ''/brokers'', None), (''PUT'', ''/brokers/:code'', Some PermissionBrokerManage),
     (''GET'', ''/brokers/IBKR/manager/health'', Some PermissionBrokerManage),
     (''GET'', ''/brokers/IBKR/manager/gateways'', Some PermissionBrokerManage),
     (''GET'', ''/brokers/IBKR/manager/gateways/:gateway_id/status'', Some PermissionBrokerManage), (''GET'', ''/broker-connections'', None),
     (''GET'', ''/broker-connections/:connection_id'', None), (''POST'', ''/brokers/:code/connections'', Some PermissionBrokerManage),
     (''PUT'', ''/broker-connections/:connection_id'', Some PermissionBrokerManage),
     (''GET'', ''/broker-connections/:connection_id/delete-impact'', None),
     (''DELETE'', ''/broker-connections/:connection_id'', Some PermissionBrokerManage),
     (''POST'', ''/broker-connections/:connection_id/login'', Some PermissionBrokerManage),
     (''GET'', ''/broker-connections/:connection_id/auth/status'', None),
     (''POST'', ''/broker-connections/:connection_id/oauth/exchange'', Some PermissionBrokerManage),
     (''GET'', ''/broker-connections/:connection_id/accounts'', None),
     (''POST'', ''/broker-connections/:connection_id/sync'', Some PermissionBrokerSync),
     (''PUT'', ''/broker-connections/:connection_id/history-config'', Some PermissionBrokerManage), (''GET'', ''/broker-accounts'', None),
     (''GET'', ''/transaction-history/accounts'', None), (''GET'', ''/performance/accounts/:account_id/daily'', None),
     (''POST'', ''/performance/accounts/:account_id/recalculate'', Some PermissionBrokerSync), (''GET'', ''/transactions'', None),
     (''GET'', ''/transactions/:id'', None), (''GET'', ''/transactions/:id/revisions'', None),
     (''GET'', ''/transaction-history/coverage'', None), (''GET'', ''/transaction-history/issues'', None),
     (''POST'', ''/transaction-history/sync'', Some PermissionBrokerSync), (''GET'', ''/transaction-history/jobs/:id'', None),
     (''POST'', ''/transaction-history/imports'', Some PermissionBrokerManage),
     (''GET'', ''/transaction-history/imports/:id'', Some PermissionBrokerManage),
     (''POST'', ''/transaction-history/imports/:id/commit'', Some PermissionBrokerManage),
     (''POST'', ''/transaction-history/issues/:id/resolve'', Some PermissionBrokerManage), (''GET'', ''/watchlist/groups'', None),
     (''GET'', ''/watchlist/groups/:group_id/items'', None),
     (''POST'', ''/watchlist/groups/:group_id/items'', Some PermissionWatchlistWrite),
     (''DELETE'', ''/watchlist/groups/:group_id/items/:symbol'', Some PermissionWatchlistWrite), (''GET'', ''/instruments/search'', None),
     (''GET'', ''/quotes'', None), (''GET'', ''/quotes/symbols'', None), (''GET'', ''/quotes/:symbol'', None),
     (''GET'', ''/quotes/:symbol/history'', None), (''GET'', ''/market-data/providers/tiingo'', None),
     (''PUT'', ''/market-data/providers/tiingo'', Some PermissionBrokerManage),
     (''POST'', ''/market-data/providers/tiingo/test'', Some PermissionBrokerManage),
     (''DELETE'', ''/market-data/providers/tiingo'', Some PermissionBrokerManage), (''GET'', ''/portfolio/overview'', None),
     (''GET'', ''/portfolio/positions'', None), (''GET'', ''/portfolio/positions/:position_id'', None), (''GET'', ''/portfolio/cash'', None),
     (''POST'', ''/portfolio/sync'', Some PermissionBrokerSync), (''GET'', ''/portfolio/sync-status'', None),
     (''GET'', ''/account/equity'', None), (''GET'', ''/news/:symbol'', None), (''POST'', ''/orders'', Some PermissionTrade),
     (''GET'', ''/orders/attempts/:client_order_id'', Some PermissionTrade), (''POST'', ''/orders/preview'', Some PermissionTrade),
     (''POST'', ''/orders/reply/:reply_id'', Some PermissionTrade), (''GET'', ''/trading/accounts'', None),
     (''GET'', ''/trading/instruments'', None), (''GET'', ''/trading/instruments/:conid'', None),
     (''GET'', ''/trading/instruments/:conid/quote'', None), (''GET'', ''/orders'', None), (''GET'', ''/orders/:order_id'', None),
     (''DELETE'', ''/orders/:order_id'', Some PermissionTrade), (''GET'', ''/ws'', None), (''GET'', ''/schwab/config'', None),
     (''PUT'', ''/schwab/config'', Some PermissionBrokerManage), (''GET'', ''/schwab/status'', None),
     (''GET'', ''/schwab/oauth/url'', Some PermissionBrokerManage), (''POST'', ''/schwab/oauth/exchange'', Some PermissionBrokerManage),
     (''GET'', ''/alpaca/config'', None), (''PUT'', ''/alpaca/config'', Some PermissionBrokerManage), (''GET'', ''/alpaca/status'', None),
     (''GET'', ''/server/status'', None), (''POST'', ''/server/shutdown'', Some PermissionSystem), (''GET'', ''/settings'', None),
     (''PUT'', ''/settings'', Some PermissionSettings), (''GET'', ''/settings/defaults'', None)]"

definition member_routes :: "(string \<times> string \<times> string option) list" where
  "member_routes = [
     (''GET'', ''/workspace/members'', Some PermissionMembers), (''POST'', ''/workspace/invites'', Some PermissionMembers),
     (''PUT'', ''/workspace/members/:user_id'', Some PermissionMembers),
     (''DELETE'', ''/workspace/members/:user_id'', Some PermissionMembers)]"

definition api_routes :: "api_deps \<Rightarrow> (string \<times> string \<times> string option) list" where
  "api_routes deps = (if dp_auth deps = None then v1_routes else v1_routes @ member_routes)"

end
