(* ===== verification/Auth_Facts.thy ===== *)
theory Auth_Facts
  imports Auth_Api
begin

text \<open>
  The properties of the access control: a workspace keeps an owner under every sequence of operations, a token is good
  for the current role of a current member until its session ends, a change request without the permission reaches
  no handler, and the secrets of a login are used once.
\<close>

section \<open>Runs of operations\<close>

text \<open>Every operation of \<open>store/auth.go\<close> that changes the tables.\<close>

datatype auth_op =
    OpMigrate
  | OpLogin string string string string
  | OpBootstrap password_credential
  | OpSession instant auth_session
  | OpTouch string string
  | OpEndSession string
  | OpFlow instant auth_flow
  | OpUseFlow string string
  | OpConsent instant oauth_flow
  | OpUseConsent string string
  | OpInvite workspace_invite
  | OpRole int int string
  | OpRemove int int
  | OpAudit audit_event

fun run_auth :: "auth_op \<Rightarrow> auth_db \<Rightarrow> auth_db" where
  "run_auth OpMigrate db = snd (migrateAuth db)"
| "run_auth (OpLogin issuer subject email name) db = snd (UpsertOIDCIdentity issuer subject email name db)"
| "run_auth (OpBootstrap c) db = snd (BootstrapPasswordIdentity c db)"
| "run_auth (OpSession t s) db = snd (CreateAuthSession t s db)"
| "run_auth (OpTouch token seen) db = TouchAuthSession token seen db"
| "run_auth (OpEndSession token) db = DeleteAuthSession token db"
| "run_auth (OpFlow t f) db = snd (CreateAuthFlow t f db)"
| "run_auth (OpUseFlow state now) db = snd (ConsumeAuthFlow state now db)"
| "run_auth (OpConsent t f) db = snd (CreateBrokerOAuthFlow t f db)"
| "run_auth (OpUseConsent state now) db = snd (ConsumeBrokerOAuthFlow state now db)"
| "run_auth (OpInvite i) db = snd (InviteWorkspaceMember i db)"
| "run_auth (OpRole w u role) db = snd (UpdateWorkspaceMemberRole w u role db)"
| "run_auth (OpRemove w u) db = snd (DeleteWorkspaceMember w u db)"
| "run_auth (OpAudit e) db = AppendAuditEvent e db"

definition run_all :: "auth_op list \<Rightarrow> auth_db \<Rightarrow> auth_db" where
  "run_all ops db = fold run_auth ops db"

lemma run_all_simps [simp]: "run_all [] db = db" "run_all (a # ops) db = run_all ops (run_auth a db)" "run_all (ops @ ops2) db = run_all ops2 (run_all ops db)"
  by (simp_all add: run_all_def)

section \<open>The members of a workspace\<close>

text \<open>What one operation may do to the table of the members: nothing, add a member whose pair of keys is new, give a
  member another role, or take a member away; an owner goes only while another one stays.\<close>

definition member_keys :: "member_row list \<Rightarrow> (int \<times> int) list" where
  "member_keys ms = map (\<lambda>m. (mr_workspace m, mr_user m)) ms"

abbreviation owners :: "int \<Rightarrow> member_row list \<Rightarrow> member_row list" where
  "owners w ms \<equiv> filter (\<lambda>m. mr_workspace m = w \<and> mr_role m = ''owner'') ms"

definition with_role :: "int \<Rightarrow> int \<Rightarrow> string \<Rightarrow> member_row list \<Rightarrow> member_row list" where
  "with_role w u role = map (\<lambda>m. if mr_workspace m = w \<and> mr_user m = u then m\<lparr>mr_role := role\<rparr> else m)"

definition without_member :: "int \<Rightarrow> int \<Rightarrow> member_row list \<Rightarrow> member_row list" where
  "without_member w u = filter (\<lambda>m. \<not> (mr_workspace m = w \<and> mr_user m = u))"

definition role_in :: "int \<Rightarrow> int \<Rightarrow> member_row list \<Rightarrow> string option" where
  "role_in w u ms = map_option mr_role (find (\<lambda>m. mr_workspace m = w \<and> mr_user m = u) ms)"

inductive members_step :: "member_row list \<Rightarrow> member_row list \<Rightarrow> bool" where
  stay: "members_step ms ms"
| first: "filter (\<lambda>m. mr_workspace m = w) ms = [] \<Longrightarrow> members_step ms (ms @ [\<lparr>mr_workspace = w, mr_user = u, mr_role = ''owner''\<rparr>])"
| join: "filter (\<lambda>m. mr_workspace m = w) ms \<noteq> [] \<Longrightarrow> (w, u) \<notin> set (member_keys ms) \<Longrightarrow> validRole role \<Longrightarrow>
     members_step ms (ms @ [\<lparr>mr_workspace = w, mr_user = u, mr_role = role\<rparr>])"
| change: "role_in w u ms = Some old \<Longrightarrow> validRole role \<Longrightarrow> old = ''owner'' \<longrightarrow> role = ''owner'' \<or> 1 < length (owners w ms) \<Longrightarrow>
     members_step ms (with_role w u role ms)"
| leave: "role_in w u ms = Some old \<Longrightarrow> old = ''owner'' \<longrightarrow> 1 < length (owners w ms) \<Longrightarrow> members_step ms (without_member w u ms)"

inductive_cases members_stepE: "members_step ms ms'"

definition members_ok :: "member_row list \<Rightarrow> bool" where
  "members_ok ms \<longleftrightarrow> distinct (member_keys ms) \<and> (\<forall>m\<in>set ms. validRole (mr_role m))
     \<and> (\<forall>m\<in>set ms. owners (mr_workspace m) ms \<noteq> [])"

lemma role_in_Some:
  assumes "role_in w u ms = Some r"
  obtains m where "m \<in> set ms" "mr_workspace m = w" "mr_user m = u" "mr_role m = r"
  using assms by (auto simp: role_in_def find_Some_iff in_set_conv_nth)

lemma role_in_None: "role_in w u ms = None \<longleftrightarrow> (w, u) \<notin> set (member_keys ms)"
  by (auto simp: role_in_def member_keys_def find_None_iff)

lemma role_in_unique:
  assumes "distinct (member_keys ms)" "m \<in> set ms"
  shows "role_in (mr_workspace m) (mr_user m) ms = Some (mr_role m)"
proof -
  have "role_in (mr_workspace m) (mr_user m) ms \<noteq> None"
    unfolding role_in_None using assms(2) by (auto simp: member_keys_def)
  then obtain r where r: "role_in (mr_workspace m) (mr_user m) ms = Some r" by auto
  then obtain n where n: "n \<in> set ms" "mr_workspace n = mr_workspace m" "mr_user n = mr_user m" "mr_role n = r" by (rule role_in_Some)
  have "inj_on (\<lambda>m. (mr_workspace m, mr_user m)) (set ms)" using assms(1) by (simp add: member_keys_def distinct_map)
  with n assms(2) have "n = m" by (auto dest: inj_onD)
  with r n show ?thesis by simp
qed

lemma keys_with_role [simp]: "member_keys (with_role w u role ms) = member_keys ms"
  by (induction ms) (auto simp: member_keys_def with_role_def)

lemma keys_without_member: "member_keys (without_member w u ms) = filter (\<lambda>k. k \<noteq> (w, u)) (member_keys ms)"
  by (induction ms) (auto simp: member_keys_def without_member_def)

lemma keys_snoc: "member_keys (ms @ [m]) = member_keys ms @ [(mr_workspace m, mr_user m)]"
  by (simp add: member_keys_def)

lemma no_key: "filter (\<lambda>m. mr_workspace m = w) ms = [] \<Longrightarrow> (w, u) \<notin> set (member_keys ms)"
  by (auto simp: member_keys_def filter_empty_conv)

text \<open>A list of members is searched by its keys, so a second owner is a row with other keys.\<close>

lemma second_owner:
  assumes d: "distinct (member_keys ms)" and two: "1 < length (owners w ms)"
  obtains m where "m \<in> set ms" "mr_workspace m = w" "mr_role m = ''owner''" "mr_user m \<noteq> u"
proof -
  let ?os = "owners w ms"
  obtain a b os where os: "?os = a # b # os" using two by (cases ?os; cases "tl ?os") auto
  have "distinct (member_keys ?os)" using d by (simp add: member_keys_def distinct_map_filter)
  with os have ab: "(mr_workspace a, mr_user a) \<noteq> (mr_workspace b, mr_user b)" by (simp add: member_keys_def)
  have "a \<in> set ?os" "b \<in> set ?os" by (simp_all add: os)
  with ab that show ?thesis by (cases "mr_user a = u") auto
qed

lemma owner_survives:
  assumes "m \<in> set ms" "mr_workspace m = v" "mr_role m = ''owner''" "mr_workspace m \<noteq> w \<or> mr_user m \<noteq> u \<or> role = ''owner''"
  shows "owners v (with_role w u role ms) \<noteq> []"
    and "mr_workspace m \<noteq> w \<or> mr_user m \<noteq> u \<Longrightarrow> owners v (without_member w u ms) \<noteq> []"
  using assms by (force simp: filter_empty_conv with_role_def without_member_def)+

lemma owner_left:
  assumes d: "distinct (member_keys ms)" and o: "owners v ms \<noteq> []" and r: "role_in w u ms = Some old"
    and keep: "old = ''owner'' \<longrightarrow> role = ''owner'' \<or> 1 < length (owners w ms)"
  obtains m where "m \<in> set ms" "mr_workspace m = v" "mr_role m = ''owner''" "mr_workspace m \<noteq> w \<or> mr_user m \<noteq> u \<or> role = ''owner''"
proof -
  from o obtain m where m: "m \<in> set ms" "mr_workspace m = v" "mr_role m = ''owner''" by (auto simp: filter_empty_conv)
  show ?thesis
  proof (cases "mr_workspace m = w \<and> mr_user m = u \<and> role \<noteq> ''owner''")
    case True
    then have "old = ''owner''" using role_in_unique [OF d m(1)] r m by simp
    with keep True have "1 < length (owners w ms)" by simp
    then obtain n where "n \<in> set ms" "mr_workspace n = w" "mr_role n = ''owner''" "mr_user n \<noteq> u" by (rule second_owner [OF d])
    with True m that show ?thesis by blast
  qed (use m that in blast)
qed

lemma owners_kept:
  assumes "members_step ms ms'" "members_ok ms" "owners v ms \<noteq> []"
  shows "owners v ms' \<noteq> []"
  using assms(1)
proof cases
  case (change w u old role)
  from assms(2) have "distinct (member_keys ms)" by (simp add: members_ok_def)
  from owner_left [OF this assms(3) change(2,4)]
  obtain m where "m \<in> set ms" "mr_workspace m = v" "mr_role m = ''owner''" "mr_workspace m \<noteq> w \<or> mr_user m \<noteq> u \<or> role = ''owner''" .
  then show ?thesis unfolding change(1) by (rule owner_survives(1))
next
  case (leave w u old)
  from assms(2) have d: "distinct (member_keys ms)" by (simp add: members_ok_def)
  from leave(3) have "old = ''owner'' \<longrightarrow> ''viewer'' = ''owner'' \<or> 1 < length (owners w ms)" by simp
  from owner_left [OF d assms(3) leave(2) this]
  obtain m where "m \<in> set ms" "mr_workspace m = v" "mr_role m = ''owner''" "mr_workspace m \<noteq> w \<or> mr_user m \<noteq> u" by auto
  then show ?thesis unfolding leave(1) by (intro owner_survives(2)) auto
qed (use assms(3) in auto)

lemma members_ok_step:
  assumes "members_step ms ms'" "members_ok ms"
  shows "members_ok ms'"
proof -
  from assms(2) have ok: "distinct (member_keys ms)" "\<forall>m\<in>set ms. validRole (mr_role m)" by (simp_all add: members_ok_def)
  have "distinct (member_keys ms')"
    using assms(1) ok(1) by cases (auto simp: keys_without_member keys_snoc no_key)
  moreover have "\<forall>m\<in>set ms'. validRole (mr_role m)"
    using assms(1) ok(2) by cases (auto simp: with_role_def without_member_def validRole_def)
  moreover have "owners (mr_workspace m) ms' \<noteq> []" if m: "m \<in> set ms'" for m
  proof (cases "\<exists>n\<in>set ms. mr_workspace n = mr_workspace m")
    case True
    then obtain n where n: "n \<in> set ms" "mr_workspace n = mr_workspace m" by blast
    from assms(2) n(1) have "owners (mr_workspace n) ms \<noteq> []" unfolding members_ok_def by blast
    then have "owners (mr_workspace m) ms \<noteq> []" by (simp only: n(2) not_False_eq_True)
    then show ?thesis by (rule owners_kept [OF assms])
  next
    case False
    then have none: "n \<notin> set ms" if "mr_workspace n = mr_workspace m" for n using that by blast
    from assms(1) show ?thesis
    proof cases
      case (change w u old role)
      with m obtain n where "n \<in> set ms" "mr_workspace n = mr_workspace m" by (auto simp: with_role_def split: if_splits)
      with none show ?thesis by blast
    qed (use m none in \<open>auto simp: without_member_def filter_empty_conv\<close>)
  qed
  ultimately show ?thesis by (simp add: members_ok_def)
qed

section \<open>Operations and the members\<close>

lemma transaction_cases:
  obtains (failed) e where "body db = Inl e" "transaction body db = (Inl e, db)"
  | (ended) x db' where "body db = Inr (x, db')" "transaction body db = (Inr x, db')"
  by (cases "body db") (auto simp: transaction_def)

lemma member_role_in: "member_role w u db = role_in w u (ad_members db)"
  by (simp add: member_role_def role_in_def)

lemma set_role_members: "set_role w u role db = db\<lparr>ad_members := with_role w u role (ad_members db)\<rparr>"
  by (simp add: set_role_def with_role_def)

lemma remove_member_members: "ad_members (remove_member w u db) = without_member w u (ad_members db)"
  by (simp add: remove_member_def without_member_def)

text \<open>What each change of one table leaves alone.\<close>

lemma upsert_user_frame:
  "ad_members (upsert_user i s e n db) = ad_members db" "ad_credentials (upsert_user i s e n db) = ad_credentials db"
  "ad_workspaces (upsert_user i s e n db) = ad_workspaces db" "ad_invites (upsert_user i s e n db) = ad_invites db"
  "ad_sessions (upsert_user i s e n db) = ad_sessions db" "ad_flows (upsert_user i s e n db) = ad_flows db"
  "ad_oauth (upsert_user i s e n db) = ad_oauth db"
  by (simp_all add: upsert_user_def)

lemma insert_member_cases:
  assumes "insert_member replace w u role db = Inr db'"
  shows "validRole role"
    and "db' = (if member_role w u db = None then db\<lparr>ad_members := ad_members db @ [\<lparr>mr_workspace = w, mr_user = u, mr_role = role\<rparr>]\<rparr>
                else if replace then set_role w u role db else db)"
  using assms by (auto simp: insert_member_def rbind_Inr_iff split: if_splits)

lemma lookups_update [simp]:
  "find_user u (db\<lparr>ad_sessions := x\<rparr>) = find_user u db" "find_workspace w (db\<lparr>ad_sessions := x\<rparr>) = find_workspace w db"
  "member_role w u (db\<lparr>ad_sessions := x\<rparr>) = member_role w u db" "identity_of w u (db\<lparr>ad_sessions := x\<rparr>) = identity_of w u db"
  by (simp_all add: find_user_def find_workspace_def member_role_def identity_of_def)

text \<open>A login that succeeds: the user's row, the role, and the tables after it.\<close>

lemma login_tx:
  assumes "upsert_identity_tx issuer subject email name db = Inr (i, db')"
  defines "db1 \<equiv> upsert_user issuer subject (trim_space email) (trim_space name) db"
  obtains user role where
    "user_by_subject issuer subject db1 = Some user" "login_role (au_id user) email db1 = Inr role" "validRole role"
    "ad_members db' = (if member_role DefaultWorkspaceID (au_id user) db = None
        then ad_members db @ [\<lparr>mr_workspace = DefaultWorkspaceID, mr_user = au_id user, mr_role = role\<rparr>] else ad_members db)"
    "ad_invites db' = (if member_role DefaultWorkspaceID (au_id user) db = None \<and> role \<noteq> ''owner''
        then ad_invites (drop_invites email db) else ad_invites db)"
    "ad_sessions db' = ad_sessions db" "ad_flows db' = ad_flows db" "ad_oauth db' = ad_oauth db"
    "identity_of DefaultWorkspaceID (au_id user) db' = Some i" "ad_users db' = ad_users db1"
proof -
  let ?db1 = db1
  have m: "member_role w u ?db1 = member_role w u db" for w u by (simp add: db1_def member_role_in upsert_user_frame)
  from assms(1) obtain user role db2 where u: "user_by_subject issuer subject ?db1 = Some user"
    and r: "login_role (au_id user) email ?db1 = Inr role" and ins: "insert_member False DefaultWorkspaceID (au_id user) role ?db1 = Inr db2"
    and d: "db' = (if member_role DefaultWorkspaceID (au_id user) db = None \<and> role \<noteq> ''owner'' then drop_invites email db2 else db2)"
    and i: "identity_of DefaultWorkspaceID (au_id user) db' = Some i"
    by (auto simp: upsert_identity_tx_def Let_def rbind_Inr_iff m db1_def [symmetric] split: if_splits)
  note ins2 = insert_member_cases(2) [OF ins, unfolded m]
  show thesis
    by (rule that [OF u r insert_member_cases(1) [OF ins] _ _ _ _ _ i _])
      (auto simp: d ins2 drop_invites_def upsert_user_frame db1_def)
qed

lemma no_members: "member_count w db = 0 \<longleftrightarrow> filter (\<lambda>m. mr_workspace m = w) (ad_members db) = []"
  by (simp add: member_count_def)

lemma login_step: "members_step (ad_members db) (ad_members (snd (UpsertOIDCIdentity issuer subject email name db)))"
proof (cases "trim_space issuer = [] \<or> trim_space subject = []")
  case False
  then have e: "UpsertOIDCIdentity issuer subject email name db
    = transaction (upsert_identity_tx (trim_space issuer) (trim_space subject) email name) db"
    by (simp add: UpsertOIDCIdentity_def Let_def)
  show ?thesis
  proof (cases rule: transaction_cases [of "upsert_identity_tx (trim_space issuer) (trim_space subject) email name" db])
    case (ended i db')
    define db1 where "db1 = upsert_user (trim_space issuer) (trim_space subject) (trim_space email) (trim_space name) db"
    obtain user :: auth_user and role where l: "login_role (au_id user) email db1 = Inr role" "validRole role"
        "ad_members db' = (if member_role DefaultWorkspaceID (au_id user) db = None
          then ad_members db @ [\<lparr>mr_workspace = DefaultWorkspaceID, mr_user = au_id user, mr_role = role\<rparr>] else ad_members db)"
      by (rule login_tx [OF ended(1), folded db1_def]) (rule that)
    have m: "member_role w u db1 = member_role w u db" "member_count w db1 = member_count w db" for w u
      by (simp_all add: db1_def member_role_in member_count_def upsert_user_frame)
    show ?thesis
    proof (cases "member_role DefaultWorkspaceID (au_id user) db")
      case None
      show ?thesis
      proof (cases "member_count DefaultWorkspaceID db = 0")
        case True
        then have "role = ''owner''" using l(1) None by (simp add: login_role_def m)
        with True None l(3) e ended(2) show ?thesis by (simp add: no_members members_step.first)
      next
        case False
        with None l(2,3) e ended(2) show ?thesis
          by (simp add: no_members member_role_in role_in_None members_step.join)
      qed
    qed (use l e ended(2) in \<open>simp add: members_step.stay\<close>)
  qed (use e in \<open>simp add: members_step.stay\<close>)
qed (simp add: UpsertOIDCIdentity_def members_step.stay)

lemma bootstrap_step: "members_step (ad_members db) (ad_members (snd (BootstrapPasswordIdentity c db)))"
proof -
  let ?c = "normalize_credential c"
  show ?thesis
  proof (cases rule: transaction_cases [of "bootstrap_tx ?c" db])
    case (ended x db')
    have "members_step (ad_members db) (ad_members db')"
    proof (cases "HasPasswordIdentity db")
      case True
      with ended(1) show ?thesis by (auto simp: bootstrap_tx_def rbind_Inr_iff members_step.stay)
    next
      case False
      let ?db1 = "upsert_user ''traio:password'' (pc_username ?c) (pc_email ?c) (pc_name ?c) db"
      from ended(1) False obtain u h db2 where cr: "insert_credential u (pc_username ?c) h ?db1 = Inr db2"
        and ins: "insert_member True DefaultWorkspaceID u ''owner'' db2 = Inr db'"
        by (auto simp: bootstrap_tx_def Let_def rbind_Inr_iff split: prod.splits)
      have m: "ad_members db2 = ad_members db" using cr by (auto simp: insert_credential_def upsert_user_frame split: if_splits)
      show ?thesis
      proof (cases "member_role DefaultWorkspaceID u db2")
        case None
        then show ?thesis using insert_member_cases [OF ins] m
          by (cases "filter (\<lambda>m. mr_workspace m = DefaultWorkspaceID) (ad_members db) = []")
            (auto simp: member_role_in role_in_None intro: members_step.first members_step.join)
      next
        case (Some old)
        then show ?thesis using insert_member_cases [OF ins] m
          by (auto simp: member_role_in set_role_members intro: members_step.change)
      qed
    qed
    with ended(2) show ?thesis by (simp add: BootstrapPasswordIdentity_def Let_def members_step.stay)
  qed (simp add: BootstrapPasswordIdentity_def Let_def members_step.stay)
qed

lemma role_step: "members_step (ad_members db) (ad_members (snd (UpdateWorkspaceMemberRole w u role db)))"
proof (cases "validRole role")
  case True
  then show ?thesis
    by (cases "role_in w u (ad_members db)")
      (auto simp: UpdateWorkspaceMemberRole_def transaction_def role_change_check_def from_option_def member_role_in owner_count_def
        set_role_members intro: members_step.stay members_step.change)
qed (simp add: UpdateWorkspaceMemberRole_def members_step.stay)

lemma removal_step: "members_step (ad_members db) (ad_members (snd (DeleteWorkspaceMember w u db)))"
  by (cases "role_in w u (ad_members db)")
    (auto simp: DeleteWorkspaceMember_def transaction_def removal_check_def from_option_def member_role_in owner_count_def
      remove_member_members intro: members_step.stay members_step.leave)

lemma run_auth_members: "members_step (ad_members db) (ad_members (run_auth a db))"
  by (cases a)
    (auto simp: login_step bootstrap_step role_step removal_step migrateAuth_def CreateAuthSession_def TouchAuthSession_def DeleteAuthSession_def
      CreateAuthFlow_def ConsumeAuthFlow_def CreateBrokerOAuthFlow_def ConsumeBrokerOAuthFlow_def InviteWorkspaceMember_def AppendAuditEvent_def
      transaction_def from_option_def Let_def intro: members_step.stay split: sum.splits option.splits)

lemma run_all_members_ok: "members_ok (ad_members db) \<Longrightarrow> members_ok (ad_members (run_all ops db))"
  by (induction ops arbitrary: db) (auto intro: members_ok_step run_auth_members)

lemma run_all_owners:
  "members_ok (ad_members db) \<Longrightarrow> owners w (ad_members db) \<noteq> [] \<Longrightarrow> owners w (ad_members (run_all ops db)) \<noteq> []"
  by (induction ops arbitrary: db) (auto dest: owners_kept [OF run_auth_members] members_ok_step [OF run_auth_members])

lemma empty_members_ok [simp]: "members_ok (ad_members empty_auth)"
  by (simp add: empty_auth_def members_ok_def member_keys_def)

lemma owner_count_pos: "0 < owner_count w db \<longleftrightarrow> owners w (ad_members db) \<noteq> []"
  by (simp add: owner_count_def)

text \<open>C25: A workspace that has members has an owner, in every state that the operations of the store reach from an empty
  database, and no later sequence of operations takes the last owner away.\<close>

theorem workspace_keeps_an_owner:
  assumes "0 < member_count w (run_all ops empty_auth)"
  shows "0 < owner_count w (run_all ops empty_auth) \<and> 0 < owner_count w (run_all later (run_all ops empty_auth))"
proof -
  define db where "db = run_all ops empty_auth"
  have ok: "members_ok (ad_members db)" unfolding db_def by (rule run_all_members_ok) simp
  from assms obtain m where "m \<in> set (ad_members db)" "mr_workspace m = w"
    by (auto simp: member_count_def filter_empty_conv db_def)
  with ok have o: "owners w (ad_members db) \<noteq> []" unfolding members_ok_def by blast
  with run_all_owners [OF ok o] show ?thesis by (simp only: owner_count_pos db_def not_False_eq_True simp_thms)
qed

text \<open>An administrator, an invited member, and the member promoted.\<close>

definition example_ops :: "auth_op list" where
  "example_ops =
     [OpMigrate, OpBootstrap \<lparr>pc_username = ''root'', pc_hash = ''h'', pc_email = [], pc_name = ''Root''\<rparr>,
      OpInvite \<lparr>wi_workspace = 1, wi_email = '' Ann@X.org'', wi_role = ''Admin'', wi_by = 1\<rparr>,
      OpLogin ''iss'' ''ann'' ''ann@x.org'' ''Ann'', OpRole 1 2 ''owner'']"

lemma example_members:
  "ad_members (run_all example_ops empty_auth) =
     [\<lparr>mr_workspace = 1, mr_user = 1, mr_role = ''owner''\<rparr>, \<lparr>mr_workspace = 1, mr_user = 2, mr_role = ''owner''\<rparr>]"
  by code_simp

lemma workspace_keeps_an_owner_witness:
  "0 < owner_count 1 (run_all [OpRemove 1 1, OpRemove 1 2] (run_all example_ops empty_auth))"
  by (rule workspace_keeps_an_owner [THEN conjunct2]) (simp add: member_count_def example_members)

text \<open>The check and the write of a removal in two transactions that overlap, each of which sees both owners: both checks
  pass and no owner is left, where one after the other the second is refused.\<close>

lemma overlapping_removals_leave_no_owner:
  "let db = run_all example_ops empty_auth in
     removal_check 1 1 db = Inr () \<and> removal_check 1 2 db = Inr ()
     \<and> owner_count 1 (remove_member 1 2 (remove_member 1 1 db)) = 0
     \<and> fst (DeleteWorkspaceMember 1 2 (snd (DeleteWorkspaceMember 1 1 db))) = Inl ''workspace must retain an owner''"
  by code_simp

section \<open>Invitations\<close>

lemma found_in: "find P xs = Some x \<Longrightarrow> x \<in> set xs \<and> P x"
  by (metis find_Some_iff nth_mem)

lemma find_snoc: "find P (xs @ [x]) = (case find P xs of Some y \<Rightarrow> Some y | None \<Rightarrow> if P x then Some x else None)"
  by (induction xs) auto

lemma member_role_append:
  assumes "member_role w u db = None" "ad_members db' = ad_members db @ [\<lparr>mr_workspace = w, mr_user = u, mr_role = r\<rparr>]"
  shows "member_role w u db' = Some r"
  using assms by (auto simp: member_role_def find_snoc split: option.splits)

lemma identity_of_Some:
  assumes "identity_of w u db = Some i"
  shows "find_user u db = Some (ai_user i)" "find_workspace w db = Some (ai_workspace i)" "member_role w u db = Some (ai_role i)"
    "au_id (ai_user i) = u" "aw_id (ai_workspace i) = w"
  using assms by (auto simp: identity_of_def find_user_def find_workspace_def dest: found_in split: option.splits)

text \<open>No invitation is for an owner.\<close>

definition invites_ok :: "auth_db \<Rightarrow> bool" where
  "invites_ok db \<longleftrightarrow> (\<forall>i\<in>set (ad_invites db). wi_role i \<noteq> ''owner'' \<and> validRole (wi_role i))"

lemma invites_kept: "set (ad_invites db') \<subseteq> set (ad_invites db) \<Longrightarrow> invites_ok db \<Longrightarrow> invites_ok db'"
  unfolding invites_ok_def by blast

lemma drop_invites_subset: "set (ad_invites (drop_invites email db)) \<subseteq> set (ad_invites db)"
  by (auto simp: drop_invites_def)

lemma login_invites: "set (ad_invites (snd (UpsertOIDCIdentity issuer subject email name db))) \<subseteq> set (ad_invites db)"
proof (cases "trim_space issuer = [] \<or> trim_space subject = []")
  case False
  show ?thesis
  proof (cases rule: transaction_cases [of "upsert_identity_tx (trim_space issuer) (trim_space subject) email name" db])
    case (ended i db')
    from ended(1) have "ad_invites db' = ad_invites (drop_invites email db) \<or> ad_invites db' = ad_invites db"
      by (rule login_tx) (metis (full_types))
    then have "set (ad_invites db') \<subseteq> set (ad_invites db)" using drop_invites_subset [of email db] by auto
    with ended(2) False show ?thesis by (simp add: UpsertOIDCIdentity_def Let_def)
  qed (use False in \<open>simp add: UpsertOIDCIdentity_def Let_def\<close>)
qed (simp add: UpsertOIDCIdentity_def)

text \<open>The tables of invitations, flows and sessions.\<close>

definition pending :: "auth_db \<Rightarrow> workspace_invite list \<times> oauth_flow list \<times> auth_flow list \<times> auth_session list" where
  "pending db = (ad_invites db, ad_oauth db, ad_flows db, ad_sessions db)"

lemma insert_pending:
  "insert_member replace w u role db = Inr db' \<Longrightarrow> pending db' = pending db"
  "insert_credential u n h db = Inr db' \<Longrightarrow> pending db' = pending db"
  "pending (upsert_user i s e n db) = pending db"
  by (auto dest!: insert_member_cases(2) simp: pending_def set_role_def upsert_user_frame) (auto simp: insert_credential_def split: if_splits)

lemma bootstrap_pending: "pending (snd (BootstrapPasswordIdentity c db)) = pending db"
proof -
  let ?c = "normalize_credential c"
  have kept: "pending db' = pending db" if tx: "bootstrap_tx ?c db = Inr (x, db')" for x db'
  proof (cases "HasPasswordIdentity db")
    case True
    with tx show ?thesis by (auto simp: bootstrap_tx_def rbind_Inr_iff)
  next
    case False
    with tx obtain u h db2 where "insert_credential u (pc_username ?c) h (upsert_user ''traio:password'' (pc_username ?c) (pc_email ?c) (pc_name ?c) db) = Inr db2"
      "insert_member True DefaultWorkspaceID u ''owner'' db2 = Inr db'"
      by (auto simp: bootstrap_tx_def Let_def rbind_Inr_iff split: prod.splits)
    then show ?thesis using insert_pending by metis
  qed
  show ?thesis
  proof (cases rule: transaction_cases [of "bootstrap_tx ?c" db])
    case (ended x db')
    from kept [OF ended(1)] ended(2) show ?thesis by (simp add: BootstrapPasswordIdentity_def Let_def)
  qed (simp add: BootstrapPasswordIdentity_def Let_def)
qed

lemmas bootstrap_frame = bootstrap_pending [unfolded pending_def prod.inject, THEN conjunct1]
  bootstrap_pending [unfolded pending_def prod.inject, THEN conjunct2, THEN conjunct1]
  bootstrap_pending [unfolded pending_def prod.inject, THEN conjunct2, THEN conjunct2, THEN conjunct1]

lemma invite_step: "invites_ok db \<Longrightarrow> invites_ok (snd (InviteWorkspaceMember i db))"
  by (auto simp: InviteWorkspaceMember_def invites_ok_def Let_def split: sum.splits)

lemma call_frames:
  "ad_invites (snd (migrateAuth db)) = ad_invites db" "ad_oauth (snd (migrateAuth db)) = ad_oauth db" "ad_flows (snd (migrateAuth db)) = ad_flows db"
  "ad_invites (snd (CreateAuthSession t s db)) = ad_invites db" "ad_oauth (snd (CreateAuthSession t s db)) = ad_oauth db"
  "ad_flows (snd (CreateAuthSession t s db)) = ad_flows db"
  "ad_invites (snd (CreateAuthFlow t f db)) = ad_invites db" "ad_oauth (snd (CreateAuthFlow t f db)) = ad_oauth db"
  "ad_invites (snd (CreateBrokerOAuthFlow t g db)) = ad_invites db" "ad_flows (snd (CreateBrokerOAuthFlow t g db)) = ad_flows db"
  "ad_oauth (snd (InviteWorkspaceMember i db)) = ad_oauth db" "ad_flows (snd (InviteWorkspaceMember i db)) = ad_flows db"
  by (auto simp: migrateAuth_def CreateAuthSession_def CreateAuthFlow_def CreateBrokerOAuthFlow_def InviteWorkspaceMember_def Let_def split: sum.splits)

lemma transaction_frames:
  "ad_invites (snd (ConsumeAuthFlow h now db)) = ad_invites db" "ad_oauth (snd (ConsumeAuthFlow h now db)) = ad_oauth db"
  "ad_invites (snd (ConsumeBrokerOAuthFlow h now db)) = ad_invites db" "ad_flows (snd (ConsumeBrokerOAuthFlow h now db)) = ad_flows db"
  "ad_invites (snd (UpdateWorkspaceMemberRole w u role db)) = ad_invites db" "ad_oauth (snd (UpdateWorkspaceMemberRole w u role db)) = ad_oauth db"
  "ad_flows (snd (UpdateWorkspaceMemberRole w u role db)) = ad_flows db"
  "ad_invites (snd (DeleteWorkspaceMember w u db)) = ad_invites db" "ad_oauth (snd (DeleteWorkspaceMember w u db)) = ad_oauth db"
  "ad_flows (snd (DeleteWorkspaceMember w u db)) = ad_flows db"
  by (auto simp: ConsumeAuthFlow_def ConsumeBrokerOAuthFlow_def UpdateWorkspaceMemberRole_def DeleteWorkspaceMember_def transaction_def
      set_role_def remove_member_def rbind_Inr_iff Let_def split: sum.splits if_splits)

lemma plain_frames:
  "ad_invites (TouchAuthSession h seen db) = ad_invites db" "ad_oauth (TouchAuthSession h seen db) = ad_oauth db" "ad_flows (TouchAuthSession h seen db) = ad_flows db"
  "ad_invites (DeleteAuthSession h db) = ad_invites db" "ad_oauth (DeleteAuthSession h db) = ad_oauth db" "ad_flows (DeleteAuthSession h db) = ad_flows db"
  "ad_invites (AppendAuditEvent e db) = ad_invites db" "ad_oauth (AppendAuditEvent e db) = ad_oauth db" "ad_flows (AppendAuditEvent e db) = ad_flows db"
  by (simp_all add: TouchAuthSession_def DeleteAuthSession_def AppendAuditEvent_def Let_def)

lemmas store_frames = bootstrap_frame call_frames transaction_frames plain_frames

lemma run_auth_invites:
  assumes "invites_ok db"
  shows "invites_ok (run_auth a db)"
proof (cases a)
  case (OpLogin issuer subject email name)
  then show ?thesis using invites_kept [OF login_invites assms] by simp
next
  case (OpInvite i)
  then show ?thesis using invite_step [OF assms] by simp
qed (use assms in \<open>simp_all add: invites_ok_def store_frames\<close>)

lemma run_all_invites: "invites_ok db \<Longrightarrow> invites_ok (run_all ops db)"
  by (induction ops arbitrary: db) (auto intro: run_auth_invites)

text \<open>Somebody who logs in for the first time when the workspace has members becomes a member in the role of an invitation
  to their e-mail address, which is never the owner's; the invitation is gone afterwards and nobody else's role is touched.\<close>

theorem newcomer_gets_the_invited_role:
  assumes "db = run_all ops empty_auth" and login: "UpsertOIDCIdentity issuer subject email name db = (Inr i, db')"
    and "0 < member_count DefaultWorkspaceID db" and new: "member_role DefaultWorkspaceID (au_id (ai_user i)) db = None"
  shows "ai_role i \<noteq> ''owner'' \<and> invited_role email db = Some (ai_role i) \<and> invited_role email db' = None
    \<and> ad_members db' = ad_members db @ [\<lparr>mr_workspace = DefaultWorkspaceID, mr_user = au_id (ai_user i), mr_role = ai_role i\<rparr>]"
proof -
  from login have tx: "upsert_identity_tx (trim_space issuer) (trim_space subject) email name db = Inr (i, db')"
    by (auto simp: UpsertOIDCIdentity_def Let_def transaction_def split: if_splits sum.splits prod.splits)
  define db1 where "db1 = upsert_user (trim_space issuer) (trim_space subject) (trim_space email) (trim_space name) db"
  obtain user :: auth_user and role where l: "login_role (au_id user) email db1 = Inr role"
      "ad_members db' = (if member_role DefaultWorkspaceID (au_id user) db = None
        then ad_members db @ [\<lparr>mr_workspace = DefaultWorkspaceID, mr_user = au_id user, mr_role = role\<rparr>] else ad_members db)"
      "ad_invites db' = (if member_role DefaultWorkspaceID (au_id user) db = None \<and> role \<noteq> ''owner''
        then ad_invites (drop_invites email db) else ad_invites db)"
      "identity_of DefaultWorkspaceID (au_id user) db' = Some i"
    by (rule login_tx [OF tx, folded db1_def]) (rule that)
  note i = identity_of_Some [OF l(4)]
  with new have none: "member_role DefaultWorkspaceID (au_id user) db = None" by simp
  with l(2) have role: "ai_role i = role" using member_role_append i(3) by auto
  have same: "member_role w u db1 = member_role w u db" "member_count w db1 = member_count w db" "invited_role email db1 = invited_role email db" for w u
    by (simp_all add: db1_def member_role_in member_count_def invited_role_def upsert_user_frame)
  from l(1) none assms(3) have inv: "invited_role email db = Some role"
    by (auto simp: login_role_def same split: if_splits)
  have "invites_ok db" unfolding assms(1) by (rule run_all_invites) (simp add: invites_ok_def empty_auth_def)
  with inv have "role \<noteq> ''owner''" by (auto simp: invited_role_def invites_ok_def dest: found_in)
  with l(2,3) none inv role i(4) show ?thesis
    by (auto simp: invited_role_def drop_invites_def find_None_iff)
qed

lemma newcomer_gets_the_invited_role_witness:
  "ai_role (projr (fst (UpsertOIDCIdentity ''iss'' ''ann'' ''ann@x.org'' ''Ann'' (run_all (take 3 example_ops) empty_auth)))) \<noteq> ''owner''"
proof -
  let ?db = "run_all (take 3 example_ops) empty_auth" and ?r = "UpsertOIDCIdentity ''iss'' ''ann'' ''ann@x.org'' ''Ann''"
  have "isl (fst (?r ?db)) = False \<and> 0 < member_count DefaultWorkspaceID ?db
    \<and> member_role DefaultWorkspaceID (au_id (ai_user (projr (fst (?r ?db))))) ?db = None" by code_simp
  then have "?r ?db = (Inr (projr (fst (?r ?db))), snd (?r ?db))" "0 < member_count DefaultWorkspaceID ?db"
    "member_role DefaultWorkspaceID (au_id (ai_user (projr (fst (?r ?db))))) ?db = None" by (simp_all add: prod_eq_iff)
  from newcomer_gets_the_invited_role [OF refl this] show ?thesis by simp
qed

section \<open>States and flows\<close>

lemma login_pending:
  "ad_oauth (snd (UpsertOIDCIdentity issuer subject email name db)) = ad_oauth db"
  "ad_flows (snd (UpsertOIDCIdentity issuer subject email name db)) = ad_flows db"
  "ad_sessions (snd (UpsertOIDCIdentity issuer subject email name db)) = ad_sessions db"
proof -
  have "ad_oauth db' = ad_oauth db \<and> ad_flows db' = ad_flows db \<and> ad_sessions db' = ad_sessions db"
    if "upsert_identity_tx (trim_space issuer) (trim_space subject) email name db = Inr (i, db')" for i db'
    by (rule login_tx [OF that]) simp
  note kept = this
  have "ad_oauth db' = ad_oauth db \<and> ad_flows db' = ad_flows db \<and> ad_sessions db' = ad_sessions db"
    if "db' = snd (UpsertOIDCIdentity issuer subject email name db)" for db'
  proof (cases rule: transaction_cases [of "upsert_identity_tx (trim_space issuer) (trim_space subject) email name" db])
    case (ended i db'')
    from kept [OF ended(1)] ended(2) that show ?thesis by (auto simp: UpsertOIDCIdentity_def Let_def split: if_splits)
  qed (use that in \<open>auto simp: UpsertOIDCIdentity_def Let_def split: if_splits\<close>)
  then show "ad_oauth (snd (UpsertOIDCIdentity issuer subject email name db)) = ad_oauth db"
    "ad_flows (snd (UpsertOIDCIdentity issuer subject email name db)) = ad_flows db"
    "ad_sessions (snd (UpsertOIDCIdentity issuer subject email name db)) = ad_sessions db" by blast+
qed

text \<open>Rows of the two tables of flows come from their own operations only.\<close>

lemma oauth_rows: "f \<in> set (ad_oauth (run_auth a db)) \<Longrightarrow> f \<in> set (ad_oauth db) \<or> (\<exists>t. a = OpConsent t f)"
proof (cases a)
  case (OpConsent t g)
  then show "f \<in> set (ad_oauth (run_auth a db)) \<Longrightarrow> ?thesis"
    by (auto simp: CreateBrokerOAuthFlow_def Let_def split: if_splits sum.splits)
next
  case (OpUseConsent h now)
  then show "f \<in> set (ad_oauth (run_auth a db)) \<Longrightarrow> ?thesis"
    by (auto simp: ConsumeBrokerOAuthFlow_def transaction_def rbind_Inr_iff Let_def split: if_splits sum.splits)
qed (simp_all add: store_frames login_pending)

lemma flow_rows: "f \<in> set (ad_flows (run_auth a db)) \<Longrightarrow> f \<in> set (ad_flows db) \<or> (\<exists>t. a = OpFlow t f)"
proof (cases a)
  case (OpFlow t g)
  then show "f \<in> set (ad_flows (run_auth a db)) \<Longrightarrow> ?thesis"
    by (auto simp: CreateAuthFlow_def Let_def split: if_splits sum.splits)
next
  case (OpUseFlow h now)
  then show "f \<in> set (ad_flows (run_auth a db)) \<Longrightarrow> ?thesis"
    by (auto simp: ConsumeAuthFlow_def transaction_def rbind_Inr_iff Let_def split: if_splits sum.splits)
qed (simp_all add: store_frames login_pending)

lemma oauth_rows_run:
  "f \<in> set (ad_oauth (run_all ops db)) \<Longrightarrow> f \<in> set (ad_oauth db) \<or> (\<exists>t. OpConsent t f \<in> set ops)"
proof (induction ops arbitrary: db)
  case (Cons a ops)
  from Cons.IH [of "run_auth a db"] Cons.prems oauth_rows [of f a db] show ?case by auto
qed simp

lemma flow_rows_run:
  "f \<in> set (ad_flows (run_all ops db)) \<Longrightarrow> f \<in> set (ad_flows db) \<or> (\<exists>t. OpFlow t f \<in> set ops)"
proof (induction ops arbitrary: db)
  case (Cons a ops)
  from Cons.IH [of "run_auth a db"] Cons.prems flow_rows [of f a db] show ?case by auto
qed simp

lemma consume_oauth_Inr:
  assumes "ConsumeBrokerOAuthFlow h now db = (Inr f, db')"
  shows "f \<in> set (ad_oauth db)" "of_state f = h" "now < of_expires f" "db' = db\<lparr>ad_oauth := filter (\<lambda>x. of_state x \<noteq> h) (ad_oauth db)\<rparr>"
proof -
  have "\<exists>f'. find (\<lambda>x. of_state x = h) (ad_oauth db) = Some f' \<and> f' = f \<and> now < of_expires f
    \<and> db' = db\<lparr>ad_oauth := filter (\<lambda>x. of_state x \<noteq> h) (ad_oauth db)\<rparr>"
    using assms by (auto simp: ConsumeBrokerOAuthFlow_def transaction_def rbind_Inr_iff Let_def not_le split: sum.splits if_splits prod.splits)
  then show "f \<in> set (ad_oauth db)" "of_state f = h" "now < of_expires f" "db' = db\<lparr>ad_oauth := filter (\<lambda>x. of_state x \<noteq> h) (ad_oauth db)\<rparr>"
    by (auto dest: found_in)
qed

lemma consume_oauth_unknown: "(\<forall>f\<in>set (ad_oauth db). of_state f \<noteq> h) \<Longrightarrow> ConsumeBrokerOAuthFlow h now db = (Inl ErrNotFound, db)"
proof -
  assume "\<forall>f\<in>set (ad_oauth db). of_state f \<noteq> h"
  then have "find (\<lambda>x. of_state x = h) (ad_oauth db) = None" by (simp add: find_None_iff)
  then show ?thesis by (simp add: ConsumeBrokerOAuthFlow_def transaction_def from_option_def)
qed

lemma consume_flow_Inr:
  assumes "ConsumeAuthFlow h now db = (Inr f, db')"
  shows "f \<in> set (ad_flows db)" "af_state f = h" "now < af_expires f" "db' = db\<lparr>ad_flows := filter (\<lambda>x. af_state x \<noteq> h) (ad_flows db)\<rparr>"
proof -
  have "\<exists>f'. find (\<lambda>x. af_state x = h) (ad_flows db) = Some f' \<and> f' = f \<and> now < af_expires f
    \<and> db' = db\<lparr>ad_flows := filter (\<lambda>x. af_state x \<noteq> h) (ad_flows db)\<rparr>"
    using assms by (auto simp: ConsumeAuthFlow_def transaction_def rbind_Inr_iff Let_def not_le split: sum.splits if_splits prod.splits)
  then show "f \<in> set (ad_flows db)" "af_state f = h" "now < af_expires f" "db' = db\<lparr>ad_flows := filter (\<lambda>x. af_state x \<noteq> h) (ad_flows db)\<rparr>"
    by (auto dest: found_in)
qed

lemma consume_flow_unknown: "(\<forall>f\<in>set (ad_flows db). af_state f \<noteq> h) \<Longrightarrow> ConsumeAuthFlow h now db = (Inl ErrNotFound, db)"
proof -
  assume "\<forall>f\<in>set (ad_flows db). af_state f \<noteq> h"
  then have "find (\<lambda>x. af_state x = h) (ad_flows db) = None" by (simp add: find_None_iff)
  then show ?thesis by (simp add: ConsumeAuthFlow_def transaction_def from_option_def)
qed

lemma then_call_Inr: "then_call m f db = (Inr y, db') \<longleftrightarrow> (\<exists>x db1. m db = (Inr x, db1) \<and> f x db1 = (Inr y, db'))"
  by (auto simp: then_call_def split: sum.splits prod.splits)

lemma pure_call_Inr [simp]: "pure_call r db = (Inr x, db') \<longleftrightarrow> r = Inr x \<and> db' = db"
  by (auto simp: pure_call_def)

lemma fails_as_Inr [simp]: "fails_as p m db = (Inr x, db') \<longleftrightarrow> m db = (Inr x, db')"
  by (auto simp: fails_as_def split: sum.splits prod.splits)

text \<open>C26: A broker's callback is accepted for the connection, the user and the workspace that asked for the consent, before
  it ends, and only once: unless the same state is issued again, no later callback with it succeeds for anybody.\<close>

theorem consent_used_once:
  assumes "ConsumeBrokerOAuth t p raw db = (Inr connection, db')"
    and "\<forall>t f. OpConsent t f \<in> set ops \<longrightarrow> of_state f \<noteq> hashToken (trim_space raw)"
  shows "(\<exists>f\<in>set (ad_oauth db). of_state f = hashToken (trim_space raw) \<and> of_connection f = connection \<and> of_user f = pr_user p
      \<and> of_workspace f = pr_workspace p \<and> rfc3339_nano t < of_expires f)
    \<and> fst (ConsumeBrokerOAuth t' p' raw (run_all ops db')) = Inl ErrNotFound"
proof -
  let ?h = "hashToken (trim_space raw)"
  from assms(1) obtain f where f: "ConsumeBrokerOAuthFlow ?h (rfc3339_nano t) db = (Inr f, db')"
    and ok: "of_workspace f = pr_workspace p" "of_user f = pr_user p" "of_connection f = connection"
    by (auto simp: ConsumeBrokerOAuth_def then_call_Inr split: if_splits)
  note c = consume_oauth_Inr [OF f]
  have "\<forall>g\<in>set (ad_oauth (run_all ops db')). of_state g \<noteq> ?h"
    using oauth_rows_run [of _ ops db'] assms(2) by (auto simp: c(4))
  from consume_oauth_unknown [OF this] have "fst (ConsumeBrokerOAuth t' p' raw (run_all ops db')) = Inl ErrNotFound"
    by (simp add: ConsumeBrokerOAuth_def then_call_def)
  with c ok show ?thesis by blast
qed

text \<open>An OIDC login succeeds only for a flow that was begun here and has not ended, with an ID token obtained with the
  flow's own verifier that carries the flow's nonce and a verified e-mail address; the identity is the one the token
  names. The flow is used up: unless it is begun anew, no later login with its state succeeds.\<close>

theorem login_flow_used_once:
  assumes login: "CompleteLogin sv oc t draw state code db = (Inr r, db')"
    and "\<forall>t f. OpFlow t f \<in> set ops \<longrightarrow> af_state f \<noteq> hashToken (trim_space state)"
  shows "(\<exists>f\<in>set (ad_flows db). af_state f = hashToken (trim_space state) \<and> rfc3339_nano t < af_expires f
      \<and> (\<exists>raw issuer c. oc_exchange oc (trim_space code) (af_verifier f) = Inr (Some raw) \<and> oc_verify oc raw = Inr (issuer, Inr c)
          \<and> ic_nonce c = af_nonce f \<and> ic_verified c \<and> trim_space (ic_email c) \<noteq> []
          \<and> fst (UpsertOIDCIdentity issuer (ic_subject c) (ic_email c) (ic_name c)
               (snd (ConsumeAuthFlow (hashToken (trim_space state)) (rfc3339_nano t) db))) = Inr (lr_identity r)))
    \<and> isl (fst (CompleteLogin sv oc' t' draw' state code' (run_all ops db')))"
proof -
  let ?h = "hashToken (trim_space state)"
  from login obtain f db1 issuer c i db2 where f: "ConsumeAuthFlow ?h (rfc3339_nano t) db = (Inr f, db1)"
    and v: "verified_claims oc (trim_space code) f = Inr (issuer, c)"
    and u: "UpsertOIDCIdentity issuer (ic_subject c) (ic_email c) (ic_name c) db1 = (Inr i, db2)"
    and s: "createLoginSession sv t draw i (safeReturnTo (af_return f)) db2 = (Inr r, db')"
    by (auto simp: CompleteLogin_def Let_def then_call_Inr split: if_splits prod.splits)
  note cf = consume_flow_Inr [OF f]
  from v obtain raw where raw: "oc_exchange oc (trim_space code) (af_verifier f) = Inr (Some raw)" "oc_verify oc raw = Inr (issuer, Inr c)"
    "ic_nonce c = af_nonce f" "ic_verified c" "trim_space (ic_email c) \<noteq> []"
    by (auto simp: verified_claims_def split: sum.splits if_splits option.splits prod.splits)
  from s have i: "lr_identity r = i" and fl: "ad_flows db' = ad_flows db2"
    by (auto simp: createLoginSession_def Let_def then_call_Inr dest!: arg_cong [where f = snd] simp: call_frames)
  have "ad_flows db2 = ad_flows db1" using login_pending(2) [of issuer "ic_subject c" "ic_email c" "ic_name c" db1] u by simp
  then have "\<forall>g\<in>set (ad_flows db'). af_state g \<noteq> ?h" by (simp add: fl cf(4))
  then have "\<forall>g\<in>set (ad_flows (run_all ops db')). af_state g \<noteq> ?h"
    using flow_rows_run [of _ ops db'] assms(2) by blast
  from consume_flow_unknown [OF this] have "isl (fst (CompleteLogin sv oc' t' draw' state code' (run_all ops db')))"
    by (simp add: CompleteLogin_def Let_def pure_call_def then_call_def fails_as_def)
  with cf raw u i f show ?thesis by fastforce
qed

text \<open>A service and a provider that knows one person.\<close>

definition example_config :: auth_config where
  "example_config = default_config \<lparr>ac_mode = ModeOIDC, ac_issuer_url = ''iss'', ac_client_id = ''traio'', ac_redirect_url = ''/cb'',
     ac_scopes = [], ac_session_ttl = 0, ac_flow_ttl = 0, ac_cookie = [], ac_csrf_cookie = [], ac_cookie_secure = True,
     ac_username = [], ac_password = [], ac_email = [], ac_name = []\<rparr>"

definition example_service :: auth_service where
  "example_service = \<lparr>sv_config = example_config, sv_provider = True, sv_scopes = []\<rparr>"

definition example_draw :: "nat \<Rightarrow> string option" where
  "example_draw n = (if n = 0 then Some ''state'' else Some ''nonce'')"

definition example_oidc :: oidc where
  "example_oidc = \<lparr>oc_exchange = (\<lambda>code v. if v = ''verifier'' then Inr (Some code) else Inl ''invalid_grant''),
     oc_verify = (\<lambda>raw. Inr (''iss'', Inr \<lparr>ic_subject = ''ann'', ic_email = ''ann@x.org'', ic_verified = True, ic_name = ''Ann'',
        ic_nonce = base64 url_alphabet ''nonce''\<rparr>)),
     oc_login_url = (\<lambda>s n v. s), oc_verifier = ''verifier''\<rparr>"

definition example_flow :: auth_flow where
  "example_flow = \<lparr>af_state = hashToken ''st'', af_verifier = ''verifier'', af_nonce = base64 url_alphabet ''nonce'', af_return = ''/brokers'',
     af_expires = ''1970-01-01T00:10:00Z''\<rparr>"

definition example_asked :: auth_db where
  "example_asked = (run_all example_ops empty_auth)\<lparr>
     ad_oauth := [\<lparr>of_state = hashToken ''st'', of_connection = 7, of_workspace = 1, of_user = 1, of_expires = ''1970-01-01T00:10:00Z''\<rparr>]\<rparr>"

definition example_begun :: auth_db where
  "example_begun = (run_all example_ops empty_auth)\<lparr>ad_flows := [example_flow]\<rparr>"

definition example_user :: principal where
  "example_user = \<lparr>pr_user = 1, pr_workspace = 1, pr_email = [], pr_name = [], pr_role = ''owner'', pr_source = ModeOIDC\<rparr>"

lemma example_time: "\<not> ''1970-01-01T00:10:00Z'' \<le> rfc3339_nano 1"
  by code_simp

lemma example_texts: "trim_space ''st'' = ''st''" "trim_space ''code'' = ''code''" "trim_space ''ann@x.org'' = ''ann@x.org''"
  by (simp_all add: printable_def)

lemma example_consent: "fst (ConsumeBrokerOAuth 1 example_user ''st'' example_asked) = Inr 7"
  by (simp add: ConsumeBrokerOAuth_def then_call_def ConsumeBrokerOAuthFlow_def transaction_def example_asked_def example_user_def
      example_time example_texts pure_call_def from_option_def)

lemma consent_used_once_witness:
  "fst (ConsumeBrokerOAuth 2 LocalPrincipal ''st'' (snd (ConsumeBrokerOAuth 1 example_user ''st'' example_asked))) = Inl ErrNotFound"
  (is "fst (ConsumeBrokerOAuth _ _ _ (snd ?r)) = _")
proof -
  have "?r = (Inr 7, snd ?r)" using example_consent by (simp add: prod_eq_iff)
  from consent_used_once [OF this, of "[]"] show ?thesis by simp
qed

lemma example_upsert:
  "(case UpsertOIDCIdentity ''iss'' ''ann'' ''ann@x.org'' ''Ann'' ((run_all example_ops empty_auth)\<lparr>ad_flows := []\<rparr>) of
      (Inr i, db) \<Rightarrow> au_id (ai_user i) = 2 \<and> aw_id (ai_workspace i) = 1 \<and> known_parents 1 2 db = Inr () \<and> ad_sessions db = []
    | _ \<Rightarrow> False)"
  by code_simp

lemma example_consumed:
  "ConsumeAuthFlow (hashToken ''st'') (rfc3339_nano 1) example_begun = (Inr example_flow, (run_all example_ops empty_auth)\<lparr>ad_flows := []\<rparr>)"
  by (simp add: ConsumeAuthFlow_def transaction_def example_begun_def example_flow_def example_time from_option_def)

lemma example_identity_claims:
  "verified_claims example_oidc ''code'' example_flow = Inr (''iss'', \<lparr>ic_subject = ''ann'', ic_email = ''ann@x.org'', ic_verified = True,
     ic_name = ''Ann'', ic_nonce = base64 url_alphabet ''nonce''\<rparr>)"
  by (simp add: verified_claims_def example_oidc_def example_flow_def example_texts)

lemma example_login:
  "\<not> isl (fst (CompleteLogin example_service example_oidc 1 example_draw ''st'' ''code'' example_begun))"
proof -
  obtain i db where u: "UpsertOIDCIdentity ''iss'' ''ann'' ''ann@x.org'' ''Ann'' ((run_all example_ops empty_auth)\<lparr>ad_flows := []\<rparr>) = (Inr i, db)"
    and i: "au_id (ai_user i) = 2" "aw_id (ai_workspace i) = 1" "known_parents 1 2 db = Inr ()" "ad_sessions db = []"
    using example_upsert by (auto split: prod.splits sum.splits)
  have "\<not> isl (fst (createLoginSession example_service 1 example_draw i r db))" for r
    using i by (simp add: createLoginSession_def then_call_def pure_call_def fails_as_def randomToken_def example_draw_def CreateAuthSession_def
        known_parents_def Let_def split: if_splits)
  then show ?thesis
    by (simp add: CompleteLogin_def then_call_def fails_as_def pure_call_def example_texts example_consumed example_identity_claims u
        example_service_def example_config_def default_config_def Let_def)
qed

lemma login_flow_used_once_witness:
  "isl (fst (CompleteLogin example_service example_oidc 2 example_draw ''st'' ''code''
     (snd (CompleteLogin example_service example_oidc 1 example_draw ''st'' ''code'' example_begun))))"
  (is "isl (fst (CompleteLogin _ _ _ _ _ _ (snd ?r)))")
proof -
  have "?r = (Inr (projr (fst ?r)), snd ?r)" using example_login by (simp add: prod_eq_iff)
  from login_flow_used_once [OF this, of "[]"] show ?thesis by simp
qed

section \<open>Administrators\<close>

text \<open>Every member is a user: users stay, and a new member has its row.\<close>

definition has_user :: "auth_db \<Rightarrow> int \<Rightarrow> bool" where
  "has_user db u \<longleftrightarrow> u \<in> au_id ` set (ad_users db)"

definition member_users :: "auth_db \<Rightarrow> bool" where
  "member_users db \<longleftrightarrow> (\<forall>m\<in>set (ad_members db). has_user db (mr_user m))"

lemma find_user_None: "find_user u db = None \<longleftrightarrow> \<not> has_user db u"
  by (auto simp: find_user_def has_user_def find_None_iff)

lemma upsert_user_has: "has_user db u \<Longrightarrow> has_user (upsert_user i s e n db) u"
proof -
  have "\<exists>new. map au_id (ad_users (upsert_user i s e n db)) = map au_id (ad_users db) @ new"
  proof (cases "user_by_subject i s db")
    case (Some x)
    then show ?thesis by (auto simp: upsert_user_def intro!: exI [of _ "[]"] map_cong)
  qed (simp add: upsert_user_def)
  then show "has_user db u \<Longrightarrow> ?thesis" unfolding has_user_def image_set by fastforce
qed

lemma users_same: "ad_users db' = ad_users db \<Longrightarrow> has_user db' = has_user db"
  by (auto simp: has_user_def fun_eq_iff)

lemma set_with_role: "m \<in> set (with_role w u role ms) \<Longrightarrow> \<exists>n\<in>set ms. mr_workspace n = mr_workspace m \<and> mr_user n = mr_user m"
  by (auto simp: with_role_def)

lemma login_users:
  assumes "member_users db"
  shows "member_users (snd (UpsertOIDCIdentity issuer subject email name db))"
proof -
  have new: "member_users db'" if tx: "upsert_identity_tx i s email name db = Inr (x, db')" for i s x db'
  proof -
    define db1 where "db1 = upsert_user i s (trim_space email) (trim_space name) db"
    obtain user :: auth_user and role where "ad_members db' = (if member_role DefaultWorkspaceID (au_id user) db = None
          then ad_members db @ [\<lparr>mr_workspace = DefaultWorkspaceID, mr_user = au_id user, mr_role = role\<rparr>] else ad_members db)"
        "identity_of DefaultWorkspaceID (au_id user) db' = Some x" "ad_users db' = ad_users db1"
      by (rule login_tx [OF tx, folded db1_def]) (rule that)
    moreover from this(2) have "has_user db' (au_id user)" using identity_of_Some(1) [of _ _ db'] find_user_None [of _ db'] by force
    moreover have "has_user db' u" if "has_user db u" for u
      using upsert_user_has [OF that] calculation(3) by (simp add: has_user_def db1_def)
    ultimately show ?thesis using assms by (auto simp: member_users_def split: if_splits)
  qed
  show ?thesis
  proof (cases rule: transaction_cases [of "upsert_identity_tx (trim_space issuer) (trim_space subject) email name" db])
    case (ended x db')
    from new [OF ended(1)] ended(2) assms show ?thesis by (simp add: UpsertOIDCIdentity_def Let_def)
  qed (use assms in \<open>simp add: UpsertOIDCIdentity_def Let_def\<close>)
qed

lemma bootstrap_users:
  assumes "member_users db"
  shows "member_users (snd (BootstrapPasswordIdentity c db))"
proof -
  let ?c = "normalize_credential c" and ?u = "upsert_user ''traio:password''"
  have new: "member_users db'" if tx: "bootstrap_tx ?c db = Inr (x, db')" for x db'
  proof (cases "HasPasswordIdentity db")
    case True
    with tx assms show ?thesis by (auto simp: bootstrap_tx_def rbind_Inr_iff)
  next
    case False
    with tx obtain u h db2 where cr: "insert_credential u (pc_username ?c) h (?u (pc_username ?c) (pc_email ?c) (pc_name ?c) db) = Inr db2"
      and ins: "insert_member True DefaultWorkspaceID u ''owner'' db2 = Inr db'"
      by (auto simp: bootstrap_tx_def Let_def rbind_Inr_iff split: prod.splits)
    let ?db1 = "?u (pc_username ?c) (pc_email ?c) (pc_name ?c) db"
    from cr have c2: "ad_users db2 = ad_users ?db1" "ad_members db2 = ad_members db" "has_user ?db1 u"
      by (auto simp: insert_credential_def upsert_user_frame find_user_None split: if_splits)
    have "ad_users db' = ad_users ?db1" using insert_member_cases(2) [OF ins] c2(1) by (auto simp: set_role_def)
    then have u: "has_user db' = has_user ?db1" by (rule users_same)
    have "mr_user m = u \<or> (\<exists>n\<in>set (ad_members db). mr_user n = mr_user m)" if "m \<in> set (ad_members db')" for m
      using that insert_member_cases(2) [OF ins] c2(2)
      by (auto simp: set_role_members dest!: set_with_role split: if_splits)
    with assms u c2(3) upsert_user_has show ?thesis unfolding member_users_def by metis
  qed
  show ?thesis
  proof (cases rule: transaction_cases [of "bootstrap_tx ?c" db])
    case (ended x db')
    from new [OF ended(1)] ended(2) assms show ?thesis by (simp add: BootstrapPasswordIdentity_def Let_def)
  qed (use assms in \<open>simp add: BootstrapPasswordIdentity_def Let_def\<close>)
qed

lemma call_users:
  "ad_users (snd (migrateAuth db)) = ad_users db" "ad_users (snd (CreateAuthSession t s db)) = ad_users db"
  "ad_users (snd (CreateAuthFlow t f db)) = ad_users db" "ad_users (snd (ConsumeAuthFlow h now db)) = ad_users db"
  "ad_users (snd (CreateBrokerOAuthFlow t g db)) = ad_users db" "ad_users (snd (ConsumeBrokerOAuthFlow h now db)) = ad_users db"
  "ad_users (snd (InviteWorkspaceMember i db)) = ad_users db" "ad_users (snd (UpdateWorkspaceMemberRole w u role db)) = ad_users db"
  "ad_users (snd (DeleteWorkspaceMember w u db)) = ad_users db" "ad_users (TouchAuthSession h seen db) = ad_users db"
  "ad_users (DeleteAuthSession h db) = ad_users db" "ad_users (AppendAuditEvent e db) = ad_users db"
  by (auto simp: migrateAuth_def CreateAuthSession_def CreateAuthFlow_def ConsumeAuthFlow_def CreateBrokerOAuthFlow_def ConsumeBrokerOAuthFlow_def
      InviteWorkspaceMember_def UpdateWorkspaceMemberRole_def DeleteWorkspaceMember_def TouchAuthSession_def DeleteAuthSession_def AppendAuditEvent_def
      transaction_def set_role_def remove_member_def rbind_Inr_iff Let_def split: sum.splits if_splits)

lemma members_of_step:
  assumes "members_step ms ms'" "m \<in> set ms'"
  shows "(\<exists>n\<in>set ms. mr_workspace n = mr_workspace m \<and> mr_user n = mr_user m) \<or> (\<exists>w u role. ms' = ms @ [\<lparr>mr_workspace = w, mr_user = u, mr_role = role\<rparr>])"
  using assms by cases (auto dest: set_with_role simp: without_member_def)

lemma call_members:
  "ad_members (snd (migrateAuth db)) = ad_members db" "ad_members (snd (CreateAuthSession t s db)) = ad_members db"
  "ad_members (snd (CreateAuthFlow t f db)) = ad_members db" "ad_members (snd (ConsumeAuthFlow h now db)) = ad_members db"
  "ad_members (snd (CreateBrokerOAuthFlow t g db)) = ad_members db" "ad_members (snd (ConsumeBrokerOAuthFlow h now db)) = ad_members db"
  "ad_members (snd (InviteWorkspaceMember i db)) = ad_members db" "ad_members (TouchAuthSession h seen db) = ad_members db"
  "ad_members (DeleteAuthSession h db) = ad_members db" "ad_members (AppendAuditEvent e db) = ad_members db"
  by (auto simp: migrateAuth_def CreateAuthSession_def CreateAuthFlow_def ConsumeAuthFlow_def CreateBrokerOAuthFlow_def ConsumeBrokerOAuthFlow_def
      InviteWorkspaceMember_def TouchAuthSession_def DeleteAuthSession_def AppendAuditEvent_def transaction_def rbind_Inr_iff Let_def
      split: sum.splits if_splits)

lemma role_members:
  "ad_members (snd (UpdateWorkspaceMemberRole w u role db)) \<in> {ad_members db, with_role w u role (ad_members db)}"
  "ad_members (snd (DeleteWorkspaceMember w u db)) \<in> {ad_members db, without_member w u (ad_members db)}"
  by (auto simp: UpdateWorkspaceMemberRole_def DeleteWorkspaceMember_def transaction_def set_role_members remove_member_members rbind_Inr_iff
      split: sum.splits)

lemma member_users_from:
  assumes "member_users db" "ad_users db' = ad_users db" "\<And>m. m \<in> set (ad_members db') \<Longrightarrow> \<exists>n\<in>set (ad_members db). mr_user n = mr_user m"
  shows "member_users db'"
  unfolding member_users_def
proof
  fix m assume "m \<in> set (ad_members db')"
  with assms(3) obtain n where n: "n \<in> set (ad_members db)" "mr_user n = mr_user m" by blast
  from assms(1) n(1) have "has_user db (mr_user n)" unfolding member_users_def by blast
  then show "has_user db' (mr_user m)" unfolding users_same [OF assms(2)] n(2) .
qed

lemma run_auth_users:
  assumes "member_users db"
  shows "member_users (run_auth a db)"
proof (cases a)
  case (OpRole w u role)
  show ?thesis
    by (rule member_users_from [OF assms]) (use OpRole role_members(1) [of w u role db] set_with_role in \<open>auto simp: call_users, blast\<close>)
next
  case (OpRemove w u)
  show ?thesis
    by (rule member_users_from [OF assms]) (use OpRemove role_members(2) [of w u db] in \<open>auto simp: call_users without_member_def\<close>)
next
  case (OpLogin issuer subject email name)
  with login_users [OF assms] show ?thesis by simp
next
  case (OpBootstrap c)
  with bootstrap_users [OF assms] show ?thesis by simp
qed (use assms in \<open>simp_all add: member_users_def has_user_def call_users call_members\<close>)

lemma run_all_users: "member_users db \<Longrightarrow> member_users (run_all ops db)"
  by (induction ops arbitrary: db) (auto intro: run_auth_users)

text \<open>The handlers' test for an owner is a look at the role of the row.\<close>

lemma listed_members:
  "set (ListMembers w db) = {\<lparr>wm_user = mr_user m, wm_workspace = mr_workspace m, wm_email = au_email u, wm_name = au_name u, wm_role = mr_role m\<rparr>
     | m u. m \<in> set (ad_members db) \<and> mr_workspace m = w \<and> find_user (mr_user m) db = Some u}"
  by (fastforce simp: ListMembers_def ListWorkspaceMembers_def split: option.splits)

lemma workspaceMemberIsOwner_iff:
  assumes ok: "members_ok (ad_members db)" "member_users db"
  shows "workspaceMemberIsOwner w u db \<longleftrightarrow> member_role w u db = Some ''owner''"
proof -
  have d: "distinct (member_keys (ad_members db))" using ok(1) by (simp add: members_ok_def)
  show ?thesis
  proof (cases "find (\<lambda>m. wm_user m = u) (ListMembers w db)")
    case None
    have "member_role w u db = None"
    proof (rule ccontr)
      assume "member_role w u db \<noteq> None"
      then obtain r where "role_in w u (ad_members db) = Some r" by (auto simp: member_role_in)
      then obtain m where m: "m \<in> set (ad_members db)" "mr_workspace m = w" "mr_user m = u" by (rule role_in_Some)
      with ok(2) obtain x where "find_user (mr_user m) db = Some x"
        using find_user_None [of "mr_user m" db] by (auto simp: member_users_def)
      with m have "\<exists>y\<in>set (ListMembers w db). wm_user y = u" unfolding listed_members by force
      with None show False by (auto simp: find_None_iff)
    qed
    with None show ?thesis by (simp add: workspaceMemberIsOwner_def)
  next
    case (Some y)
    from found_in [OF Some] obtain m where m: "m \<in> set (ad_members db)" "mr_workspace m = w" "mr_user m = u" "wm_role y = mr_role m"
      unfolding listed_members by force
    from role_in_unique [OF d m(1)] Some m show ?thesis by (simp add: workspaceMemberIsOwner_def member_role_in)
  qed
qed

lemma owners_without:
  assumes "distinct (member_keys ms)" "role_in w u ms \<noteq> Some ''owner''"
  shows "owners v (without_member w u ms) = owners v ms"
proof -
  have "\<not> (mr_workspace m = w \<and> mr_user m = u)" if "m \<in> set ms" "mr_role m = ''owner''" for m
    using role_in_unique [OF assms(1) that(1)] that(2) assms(2) by auto
  then show ?thesis by (auto simp: without_member_def intro!: filter_cong)
qed

lemma owners_with_role:
  assumes "distinct (member_keys ms)" "role_in w u ms \<noteq> Some ''owner''" "role \<noteq> ''owner''"
  shows "owners v (with_role w u role ms) = owners v ms"
proof -
  let ?f = "\<lambda>m. if mr_workspace m = w \<and> mr_user m = u then m\<lparr>mr_role := role\<rparr> else m"
  have other: "\<not> (mr_workspace m = w \<and> mr_user m = u)" if "m \<in> set ms" "mr_role m = ''owner''" for m
    using role_in_unique [OF assms(1) that(1)] that(2) assms(2) by auto
  have "owners v (map ?f ms) = map ?f (owners v ms)"
    unfolding filter_map
    by (rule arg_cong [where f = "map ?f"], rule filter_cong) (use other assms(3) in \<open>auto split: if_splits\<close>)
  also have "\<dots> = owners v ms" by (rule map_idI) (use other in auto)
  finally show ?thesis by (simp add: with_role_def)
qed

lemma audit_members: "ad_members (Audit e db) = ad_members db"
  by (simp add: Audit_def call_members)

text \<open>C27: An administrator of a workspace neither removes an owner nor changes an owner's role, and appoints none, as long as
  the role they send is spelled \<open>owner\<close> or is none of its other spellings.\<close>

theorem admin_leaves_owners_alone:
  assumes "db = run_all ops empty_auth" and p: "cx_principal cx = Some p" "pr_role p = ''admin''"
    and role: "role = ''owner'' \<or> to_lower (trim_space role) \<noteq> ''owner''"
  shows "owners w (ad_members (snd (deleteWorkspaceMemberHandler rq uid cx db))) = owners w (ad_members db)
    \<and> owners w (ad_members (snd (updateWorkspaceMemberRole rq uid (Some role) cx db))) = owners w (ad_members db)"
proof
  have ok: "members_ok (ad_members db)" unfolding assms(1) by (rule run_all_members_ok) simp
  have us: "member_users db" unfolding assms(1) by (rule run_all_users) (simp add: member_users_def empty_auth_def)
  from ok have d: "distinct (member_keys (ad_members db))" by (simp add: members_ok_def)
  note test = workspaceMemberIsOwner_iff [OF ok us]
  have cp: "current_principal cx = p" by (simp add: current_principal_def p)
  show "owners w (ad_members (snd (deleteWorkspaceMemberHandler rq uid cx db))) = owners w (ad_members db)"
  proof (cases "user_param uid")
    case (Some u)
    show ?thesis
    proof (cases "u = pr_user p \<or> workspaceMemberIsOwner (pr_workspace p) u db")
      case False
      then have "role_in (pr_workspace p) u (ad_members db) \<noteq> Some ''owner''" by (simp add: test member_role_in)
      from owners_without [OF d this] role_members(2) [of "pr_workspace p" u db] False Some
      show ?thesis
        by (auto simp: deleteWorkspaceMemberHandler_def cp Let_def audit_members DeleteMember_def split: sum.splits prod.splits)
    qed (simp add: deleteWorkspaceMemberHandler_def cp Let_def Some p)
  qed (simp add: deleteWorkspaceMemberHandler_def cp)
  show "owners w (ad_members (snd (updateWorkspaceMemberRole rq uid (Some role) cx db))) = owners w (ad_members db)"
  proof (cases "user_param uid")
    case (Some u)
    show ?thesis
    proof (cases "role = ''owner'' \<or> u = pr_user p \<or> workspaceMemberIsOwner (pr_workspace p) u db")
      case False
      then have "role_in (pr_workspace p) u (ad_members db) \<noteq> Some ''owner''" by (simp add: test member_role_in)
      from owners_with_role [OF d this] role False role_members(1) [of "pr_workspace p" u "to_lower (trim_space role)" db] Some
      show ?thesis
        by (auto simp: updateWorkspaceMemberRole_def cp Let_def audit_members UpdateMemberRole_def split: sum.splits prod.splits)
    qed (simp add: updateWorkspaceMemberRole_def cp Let_def Some p)
  qed (simp add: updateWorkspaceMemberRole_def cp)
qed

text \<open>An administrator, and a viewer whom they may not appoint owner, but do when the role is spelled with a capital letter.\<close>

definition example_staff :: auth_db where
  "example_staff = run_all (take 4 example_ops @ [OpInvite \<lparr>wi_workspace = 1, wi_email = ''bob@x.org'', wi_role = ''viewer'', wi_by = 1\<rparr>,
     OpLogin ''iss'' ''bob'' ''bob@x.org'' ''Bob'']) empty_auth"

definition example_admin :: http_context where
  "example_admin = \<lparr>cx_principal = Some \<lparr>pr_user = 2, pr_workspace = 1, pr_email = [], pr_name = [], pr_role = ''admin'', pr_source = ModeOIDC\<rparr>,
     cx_sessions = True, cx_csrf = []\<rparr>"

definition example_put :: http_request where
  "example_put = \<lparr>rq_method = ''PUT'', rq_host = ''localhost'', rq_route = ''/api/v1/workspace/members/:user_id'', rq_headers = [],
     rq_cookies = [], rq_remote = ''127.0.0.1:1'', rq_client = ''127.0.0.1''\<rparr>"

lemma admin_leaves_owners_alone_witness:
  "owners 1 (ad_members (snd (updateWorkspaceMemberRole example_put ''3'' (Some ''owner'') example_admin example_staff))) = owners 1 (ad_members example_staff)"
  by (rule admin_leaves_owners_alone [where p = "the (cx_principal example_admin)", THEN conjunct2, OF example_staff_def])
    (simp_all add: example_admin_def)

lemma example_staff_rows:
  "example_staff =
     \<lparr>ad_users = [\<lparr>au_id = 1, au_email = [], au_name = ''Root'', au_issuer = ''traio:password'', au_subject = ''root''\<rparr>,
        \<lparr>au_id = 2, au_email = ''ann@x.org'', au_name = ''Ann'', au_issuer = ''iss'', au_subject = ''ann''\<rparr>,
        \<lparr>au_id = 3, au_email = ''bob@x.org'', au_name = ''Bob'', au_issuer = ''iss'', au_subject = ''bob''\<rparr>],
      ad_credentials = [\<lparr>cd_user = 1, cd_username = ''root'', cd_hash = ''h''\<rparr>],
      ad_workspaces = [\<lparr>aw_id = 1, aw_name = ''Traio'', aw_slug = ''default''\<rparr>],
      ad_members = [\<lparr>mr_workspace = 1, mr_user = 1, mr_role = ''owner''\<rparr>, \<lparr>mr_workspace = 1, mr_user = 2, mr_role = ''admin''\<rparr>,
        \<lparr>mr_workspace = 1, mr_user = 3, mr_role = ''viewer''\<rparr>],
      ad_invites = [], ad_sessions = [], ad_flows = [], ad_oauth = [], ad_audits = [], ad_next = 4\<rparr>"
  by code_simp

lemma admin_appoints_an_owner:
  "(case updateWorkspaceMemberRole example_put ''3'' (Some ''Owner'') example_admin example_staff of
      (r, db) \<Rightarrow> rs_status r = 204 \<and> member_role 1 3 db = Some ''owner'')
   \<and> rs_status (fst (updateWorkspaceMemberRole example_put ''3'' (Some ''owner'') example_admin example_staff)) = 403"
  unfolding example_staff_rows by code_simp

section \<open>Requests\<close>

lemma guarded_routes:
  "list_all (\<lambda>(m, path, q). unsafeMethod m \<longrightarrow> (case q of None \<Rightarrow> False | Some q \<Rightarrow> q \<noteq> PermissionView)) (v1_routes @ member_routes)"
  by code_simp

lemma Allows_view: "Allows r q \<Longrightarrow> Allows r PermissionView"
  by (auto simp: Allows_def split: if_splits)

text \<open>What a change request must bring: a session of a member whose role has the permission, and the session's CSRF token
  both as a cookie and as a header.\<close>

definition may_act :: "auth_service \<Rightarrow> instant \<Rightarrow> http_request \<Rightarrow> string \<Rightarrow> auth_db \<Rightarrow> bool" where
  "may_act sv t rq permission db \<longleftrightarrow>
     (case fst (Authenticate sv t (cookie rq (ac_cookie (sv_config sv))) db) of
        Inl _ \<Rightarrow> False
      | Inr (p, s) \<Rightarrow> Allows (pr_role p) permission \<and> header rq ''X-CSRF-Token'' \<noteq> []
          \<and> header rq ''X-CSRF-Token'' = cookie rq (ac_csrf_cookie (sv_config sv)) \<and> ValidateCSRF s (header rq ''X-CSRF-Token''))"

text \<open>The tables that say who has access.\<close>

definition access :: "auth_db \<Rightarrow> auth_user list \<times> credential_row list \<times> auth_workspace list \<times> member_row list \<times> workspace_invite list
    \<times> auth_flow list \<times> oauth_flow list" where
  "access db = (ad_users db, ad_credentials db, ad_workspaces db, ad_members db, ad_invites db, ad_flows db, ad_oauth db)"

lemma access_frames:
  "access (Audit e db) = access db" "access (TouchAuthSession h seen db) = access db" "access (DeleteAuthSession h db) = access db"
  by (simp_all add: access_def Audit_def AppendAuditEvent_def TouchAuthSession_def DeleteAuthSession_def Let_def)

lemma Authenticate_access: "access (snd (Authenticate sv t raw db)) = access db"
  by (auto simp: Authenticate_def Let_def access_frames split: sum.splits prod.splits)

lemma session_refused:
  assumes "unsafeMethod (rq_method rq)"
  shows "access (snd (sessionMiddleware sv hosts t rq db)) = access db"
    and "fst (sessionMiddleware sv hosts t rq db) = Inl r \<Longrightarrow> 400 \<le> rs_status r"
    and "fst (sessionMiddleware sv hosts t rq db) = Inr cx \<Longrightarrow>
      \<exists>p s. fst (Authenticate sv t (cookie rq (ac_cookie (sv_config sv))) db) = Inr (p, s) \<and> cx_principal cx = Some p \<and> cx_sessions cx
        \<and> header rq ''X-CSRF-Token'' \<noteq> [] \<and> header rq ''X-CSRF-Token'' = cookie rq (ac_csrf_cookie (sv_config sv))
        \<and> ValidateCSRF s (header rq ''X-CSRF-Token'')"
proof -
  let ?a = "Authenticate sv t (cookie rq (ac_cookie (sv_config sv))) db"
  obtain x db' where a: "?a = (x, db')" by (cases ?a)
  from Authenticate_access [of sv t "cookie rq (ac_cookie (sv_config sv))" db] have acc: "access db' = access db" by (simp add: a)
  have m: "rq_method rq \<noteq> ''OPTIONS''" using assms by (simp add: unsafeMethod_def)
  show "access (snd (sessionMiddleware sv hosts t rq db)) = access db"
    by (simp add: sessionMiddleware_def Let_def a acc access_frames split: sum.splits prod.splits)
  show "fst (sessionMiddleware sv hosts t rq db) = Inl r \<Longrightarrow> 400 \<le> rs_status r"
    by (auto simp: sessionMiddleware_def Let_def a m response_def clearAuthCookies_def split: sum.splits prod.splits if_splits)
  show "fst (sessionMiddleware sv hosts t rq db) = Inr cx \<Longrightarrow>
      \<exists>p s. fst ?a = Inr (p, s) \<and> cx_principal cx = Some p \<and> cx_sessions cx
        \<and> header rq ''X-CSRF-Token'' \<noteq> [] \<and> header rq ''X-CSRF-Token'' = cookie rq (ac_csrf_cookie (sv_config sv))
        \<and> ValidateCSRF s (header rq ''X-CSRF-Token'')"
    using assms by (auto simp: sessionMiddleware_def Let_def a m split: sum.splits prod.splits if_splits)
qed

lemma permission_refused:
  assumes "cx_principal cx = Some p" "\<not> Allows (pr_role p) permission"
  shows "requirePermission permission rq h cx db = requirePermission permission rq h' cx db"
    "access (snd (requirePermission permission rq h cx db)) = access db" "rs_status (fst (requirePermission permission rq h cx db)) = 403"
  using assms by (simp_all add: requirePermission_def access_frames response_def)

text \<open>C28: When the service runs with sessions, every route that changes something carries a permission of its own, and without
  a session of a member whose current role has it, or without the session's CSRF token in both places, the request is
  answered with an error that does not depend on the handler, and nothing about access changes.\<close>

theorem unauthorised_change_has_no_effect:
  assumes route: "(rq_method rq, path, permission) \<in> set (api_routes deps)" "unsafeMethod (rq_method rq)"
    and sv: "dp_auth deps = Some sv" "UsesSessions sv"
  shows "\<exists>q. permission = Some q \<and> q \<noteq> PermissionView \<and> (\<not> may_act sv t rq q db \<longrightarrow>
      serve_api deps t rq permission h db = serve_api deps t rq permission h' db
      \<and> 400 \<le> rs_status (fst (serve_api deps t rq permission h db)) \<and> access (snd (serve_api deps t rq permission h db)) = access db)"
proof -
  from guarded_routes have all: "\<forall>(m, path, q)\<in>set (v1_routes @ member_routes). unsafeMethod m \<longrightarrow> (case q of None \<Rightarrow> False | Some q \<Rightarrow> q \<noteq> PermissionView)"
    unfolding list_all_iff .
  from route(1) have "(rq_method rq, path, permission) \<in> set (v1_routes @ member_routes)" by (auto simp: api_routes_def split: if_splits)
  from bspec [OF all this] route(2) obtain q where q: "permission = Some q" "q \<noteq> PermissionView" by (auto split: option.splits)
  have mid: "authenticationMiddleware deps t rq db = sessionMiddleware sv (dp_hosts deps) t rq db"
    using sv by (auto simp: authenticationMiddleware_def UsesSessions_def)
  note refused = session_refused [OF route(2), of sv "dp_hosts deps" t db]
  have "serve_api deps t rq permission h db = serve_api deps t rq permission h' db
      \<and> 400 \<le> rs_status (fst (serve_api deps t rq permission h db)) \<and> access (snd (serve_api deps t rq permission h db)) = access db"
    if no: "\<not> may_act sv t rq q db"
  proof (cases "sessionMiddleware sv (dp_hosts deps) t rq db")
    case (Pair x db')
    show ?thesis
    proof (cases x)
      case (Inl r)
      with refused(1,2) Pair mid show ?thesis by (simp add: serve_api_def)
    next
      case (Inr cx)
      from refused(3) [of cx] Pair Inr obtain p s where p: "fst (Authenticate sv t (cookie rq (ac_cookie (sv_config sv))) db) = Inr (p, s)"
        "cx_principal cx = Some p" "header rq ''X-CSRF-Token'' \<noteq> []" "header rq ''X-CSRF-Token'' = cookie rq (ac_csrf_cookie (sv_config sv))"
        "ValidateCSRF s (header rq ''X-CSRF-Token'')" by auto
      with no have na: "\<not> Allows (pr_role p) q" by (simp add: may_act_def)
      note pr = permission_refused [OF p(2) na]
      have acc: "access db' = access db" using refused(1) Pair by simp
      show ?thesis
      proof (cases "Allows (pr_role p) PermissionView")
        case True
        have view: "requirePermission PermissionView rq (requirePermission q rq g) cx db' = requirePermission q rq g cx db'" for g
          using p(2) True by (simp add: requirePermission_def split: prod.splits)
        show ?thesis using pr(1) [of rq h db' h'] pr(2,3) [of rq h db'] acc
          by (auto simp: serve_api_def mid Pair Inr q(1) view split: prod.splits)
      next
        case False
        note pv = permission_refused [OF p(2) False]
        show ?thesis
          using pv(1) [of rq "requirePermission q rq h" db' "requirePermission q rq h'"] pv(2,3) [of rq "requirePermission q rq h" db'] acc
          by (auto simp: serve_api_def mid Pair Inr q(1) split: prod.splits)
      qed
    qed
  qed
  with q show ?thesis by blast
qed

definition example_deps :: api_deps where
  "example_deps = \<lparr>dp_auth = Some example_service, dp_token = [], dp_hosts = []\<rparr>"

lemma unauthorised_change_has_no_effect_witness:
  "access (snd (serve_api example_deps 0 (example_put\<lparr>rq_method := ''DELETE''\<rparr>) (Some PermissionMembers)
     (deleteWorkspaceMemberHandler example_put ''3'') example_staff)) = access example_staff"
proof -
  let ?rq = "example_put\<lparr>rq_method := ''DELETE''\<rparr>"
  have r: "(rq_method ?rq, ''/workspace/members/:user_id'', Some PermissionMembers) \<in> set (api_routes example_deps)"
    by (simp add: api_routes_def example_deps_def member_routes_def)
  have sv: "unsafeMethod (rq_method ?rq)" "dp_auth example_deps = Some example_service" "UsesSessions example_service"
    by (simp_all add: unsafeMethod_def example_deps_def UsesSessions_def example_service_def example_config_def default_config_def Let_def)
  have "\<not> may_act example_service 0 ?rq q example_staff" for q
    by (simp add: may_act_def cookie_def example_put_def Authenticate_def)
  with unauthorised_change_has_no_effect [OF r sv] show ?thesis by blast
qed

end
