(* ===== verification/Login_Facts.thy ===== *)
theory Login_Facts
  imports Auth_Facts
begin

text \<open>
  Sessions over time, stored passwords, the address to return to and the limiter of failed logins: the round trip of a
  time stamp, then that a token is good from its login to its end, for the role its member has when it is used.
\<close>

section \<open>The round trip of a time stamp\<close>

lemma get_two_digits: "length ds = 2 \<Longrightarrow> all_digits ds \<Longrightarrow> get_digits fixed (ds @ s) = Some (int (digits_value ds), s)"
  by (cases ds; cases "tl ds") auto

abbreviation strip_zeros :: "string \<Rightarrow> string" where
  "strip_zeros ds \<equiv> rev (dropWhile (\<lambda>c. c = CHR ''0'') (rev ds))"

lemma leading_zeros: "replicate (length (takeWhile (\<lambda>c. c = z) xs)) z @ dropWhile (\<lambda>c. c = z) xs = xs"
  by (induction xs) auto

lemma stripped: "strip_zeros ds @ replicate (length (takeWhile (\<lambda>c. c = CHR ''0'') (rev ds))) (CHR ''0'') = ds"
  using arg_cong [OF leading_zeros [of "CHR ''0''" "rev ds"], of rev] by (simp only: rev_append rev_replicate rev_rev_ident)

lemma fraction_read:
  assumes "all_digits ds" "length ds = 9"
  shows "get_fraction ((if strip_zeros ds = [] then [] else ''.'' @ strip_zeros ds) @ ''Z'') = (int (digits_value ds), ''Z'')"
proof -
  define fd k where "fd = strip_zeros ds" "k = length (takeWhile (\<lambda>c. c = CHR ''0'') (rev ds))"
  note fd = stripped [of ds, folded fd_k_def, symmetric]
  have k: "length fd + k = 9" using assms(2) arg_cong [OF fd, of length] by simp
  have v: "digits_value ds = digits_value fd * 10 ^ k" using digits_value_zeros [of fd k] arg_cong [OF fd, of digits_value] by simp
  have dg: "all_digits fd" using assms(1) arg_cong [OF fd, of "list_all is_digit"] by simp
  show ?thesis unfolding fd_k_def(1) [symmetric]
  proof (cases fd)
    case Nil
    with v show "get_fraction ((if fd = [] then [] else ''.'' @ fd) @ ''Z'') = (int (digits_value ds), ''Z'')" by simp
  next
    case (Cons a f)
    have "takeWhile is_digit (fd @ ''Z'') = fd" using dg by (simp add: list_all_iff is_digit_def)
    moreover have "9 - length fd = k" "length fd \<le> 9" using k by linarith+
    ultimately show "get_fraction ((if fd = [] then [] else ''.'' @ fd) @ ''Z'') = (int (digits_value ds), ''Z'')"
      using Cons dg v by (simp add: Let_def)
  qed
qed

lemma two_digits:
  "0 \<le> a \<Longrightarrow> a < 100 \<Longrightarrow> length (pad_int 2 a) = 2 \<and> all_digits (pad_int 2 a) \<and> int (digits_value (pad_int 2 a)) = a"
  using pad2 [of a] by simp

lemma stamp_parts:
  assumes "four_digit d" "0 \<le> h" "h < 24" "0 \<le> m" "m < 60" "0 \<le> x" "x < 60" "get_fraction F = (ns, ''Z'')"
  shows "parse_rfc3339 (format_date d @ ''T'' @ pad_int 2 h @ '':'' @ pad_int 2 m @ '':'' @ pad_int 2 x @ F)
    = Some (day_start d + (h * 3600 + m * 60 + x) * ns_per_second + ns)"
proof -
  have len: "length (format_date d) = 10" by (rule format_date_length [OF assms(1)])
  have two: "length (pad_int 2 h) = 2" "all_digits (pad_int 2 h)" "int (digits_value (pad_int 2 h)) = h"
    "length (pad_int 2 m) = 2" "all_digits (pad_int 2 m)" "int (digits_value (pad_int 2 m)) = m"
    "length (pad_int 2 x) = 2" "all_digits (pad_int 2 x)" "int (digits_value (pad_int 2 x)) = x"
    using two_digits [of h] two_digits [of m] two_digits [of x] assms(2-7) by simp_all
  have z: "get_zone ''Z'' = Some (0, [])" by (simp add: get_zone_def)
  show ?thesis
    using two assms(2-8) by (simp add: parse_rfc3339_def len parse_format_date [OF assms(1)] get_two_digits z)
qed

lemma nano_roundtrip:
  assumes "four_digit (day_of t)"
  shows "parse_rfc3339 (rfc3339_nano t) = Some t"
proof -
  define q where "q = (t mod ns_per_day) div ns_per_second"
  define ds where "ds = pad 9 (nat (t mod ns_per_second))"
  define F where "F = (if strip_zeros ds = [] then [] else ''.'' @ strip_zeros ds) @ ''Z''"
  define h m x where "h = q div 3600" "m = q div 60 mod 60" "x = q mod 60"
  note P = second_parts [of t, folded q_def, folded h_m_x_def]
  have n: "0 \<le> t mod ns_per_second" "t mod ns_per_second < ns_per_second" by (simp_all add: ns_per_second_def)
  then have "nat (t mod ns_per_second) < 10 ^ 9" by (simp add: ns_per_second_def)
  note pf = pad_facts [OF zero_less_numeral this, folded ds_def]
  have fr: "get_fraction F = (t mod ns_per_second, ''Z'')"
    unfolding F_def fraction_read [OF pf(2,1)] using pf(3) n(1) by simp
  have stamp: "rfc3339_nano t = format_date (day_of t) @ ''T'' @ pad_int 2 h @ '':'' @ pad_int 2 m @ '':'' @ pad_int 2 x @ F"
    by (simp add: rfc3339_nano_def second_text_def q_def [symmetric] h_m_x_def [symmetric] ds_def F_def Let_def)
  have "day_start (day_of t) + (h * 3600 + m * 60 + x) * ns_per_second + t mod ns_per_second
      = second_of t * ns_per_second + t mod ns_per_second"
    unfolding P(1) by (simp add: day_start_def ns_per_day_def algebra_simps)
  also have "\<dots> = t" by (simp add: second_of_def)
  finally show ?thesis unfolding stamp stamp_parts [OF assms P(2-7) fr] by simp
qed

section \<open>Hashes and tokens\<close>

lemma hex_chars: "list_all (\<lambda>d. lower_hex (hex_char d)) [0..<16]"
  by code_simp

lemma sha_text_hex: "list_all lower_hex (sha_text w)" "length (sha_text w) = 8"
proof -
  have "lower_hex (hex_char (n mod 16))" for n
  proof -
    have "n mod 16 \<in> set [0..<16]" by simp
    with hex_chars show ?thesis unfolding list_all_iff by blast
  qed
  then show "list_all lower_hex (sha_text w)" by (simp add: sha_text_def list_all_iff)
  show "length (sha_text w) = 8" by (simp add: sha_text_def)
qed

lemma hash_hex: "list_all lower_hex (hashToken x)" "even (length (hashToken x))"
proof -
  have "list_all lower_hex (concat (map sha_text ws)) \<and> even (length (concat (map sha_text ws)))" for ws
    by (induction ws) (auto simp: sha_text_hex)
  then show "list_all lower_hex (hashToken x)" "even (length (hashToken x))" by (simp_all add: hashToken_def sha256_def)
qed

lemma ValidateCSRF_iff: "as_csrf s = hashToken c \<Longrightarrow> ValidateCSRF s x \<longleftrightarrow> hashToken x = hashToken c"
  using unhex_Some [OF hash_hex, of c] unhex_Some [OF hash_hex, of x] unhex_inject [OF hash_hex(1) hash_hex(1) hash_hex(2) hash_hex(2), of c x]
  by (auto simp: ValidateCSRF_def)

lemma url_alphabet_printable: "list_all printable url_alphabet"
  by code_simp

lemma token_text:
  assumes "randomToken raw = Inr token" "raw \<noteq> Some []"
  shows "trim_space token = token" "token \<noteq> []"
proof -
  from assms obtain bytes where b: "bytes \<noteq> []" "token = base64 url_alphabet bytes" by (auto simp: randomToken_def split: option.splits)
  have "url_alphabet ! x \<in> set url_alphabet" if "x \<in> set (sextets bytes)" for x
    using sextets_small [OF that] alphabets(2) by (simp add: alphabet64_def)
  then have "list_all printable token"
    using url_alphabet_printable by (auto simp: b(2) base64_sextets list_all_iff)
  then show "trim_space token = token" by (rule trim_space_printable)
  show "token \<noteq> []" using b by (cases bytes rule: sextets.cases) auto
qed

section \<open>The life of a session\<close>

lemma known_parents_sessions [simp]: "known_parents w u (db\<lparr>ad_sessions := x\<rparr>) = known_parents w u db"
  by (simp add: known_parents_def)

text \<open>C29: The token of a login is accepted exactly until the login's end, for the member, the workspace and the role that the
  tables have when it is used; the CSRF token that goes with it is the one whose hash the session holds.\<close>

theorem login_session_lifetime:
  assumes login: "createLoginSession sv t draw i return_to db = (Inr r, db')"
    and who: "identity_of (aw_id (ai_workspace i)) (au_id (ai_user i)) db = Some i"
    and bytes: "draw 0 \<noteq> Some []" and range: "four_digit (day_of (t + ac_session_ttl (sv_config sv)))"
  shows "\<exists>s\<in>set (ad_sessions db'). lr_expires r = t + ac_session_ttl (sv_config sv)
    \<and> (\<forall>t'. fst (Authenticate sv t' (lr_session r) db') =
        (if t' < lr_expires r
         then Inr (\<lparr>pr_user = au_id (ai_user i), pr_workspace = aw_id (ai_workspace i), pr_email = au_email (ai_user i),
           pr_name = au_name (ai_user i), pr_role = ai_role i, pr_source = Mode sv\<rparr>, s)
         else Inl ErrNotFound))
    \<and> (\<forall>x. ValidateCSRF s x \<longleftrightarrow> hashToken x = hashToken (lr_csrf r))"
proof -
  let ?e = "t + ac_session_ttl (sv_config sv)"
  from login obtain token csrf where tk: "randomToken (draw 0) = Inr token" "randomToken (draw 1) = Inr csrf"
    and r: "r = \<lparr>lr_identity = i, lr_session = token, lr_csrf = csrf, lr_expires = ?e, lr_return = safeReturnTo return_to\<rparr>"
    and c: "CreateAuthSession t \<lparr>as_token = hashToken token, as_csrf = hashToken csrf, as_user = au_id (ai_user i), as_workspace = aw_id (ai_workspace i),
         as_expires = rfc3339_nano ?e, as_seen = rfc3339_nano t\<rparr> db = (Inr (), db')"
    by (auto simp: createLoginSession_def Let_def then_call_Inr)
  define s where "s = \<lparr>as_token = hashToken token, as_csrf = hashToken csrf, as_user = au_id (ai_user i), as_workspace = aw_id (ai_workspace i),
         as_expires = rfc3339_nano ?e, as_seen = rfc3339_nano t\<rparr>"
  define old where "old = filter (\<lambda>x. \<not> as_expires x \<le> rfc3339_nano t) (ad_sessions db)"
  note c = c [folded s_def]
  from c have db': "db' = db\<lparr>ad_sessions := old @ [s]\<rparr>" and fresh: "\<forall>x\<in>set old. as_token x \<noteq> as_token s"
    by (auto simp: CreateAuthSession_def Let_def old_def [symmetric] split: if_splits sum.splits)
  from fresh have "find (\<lambda>x. as_token x = as_token s) old = None" by (simp add: find_None_iff)
  then have found: "find (\<lambda>x. as_token x = hashToken token) (old @ [s]) = Some s" by (simp add: find_snoc s_def)
  have get: "GetAuthSession (hashToken token) db' = Inr (i, s)"
    using who by (simp add: GetAuthSession_def db' found) (simp add: s_def)
  note tt = token_text [OF tk(1) bytes]
  have "fst (Authenticate sv t' token db') =
        (if t' < ?e then Inr (\<lparr>pr_user = au_id (ai_user i), pr_workspace = aw_id (ai_workspace i), pr_email = au_email (ai_user i),
           pr_name = au_name (ai_user i), pr_role = ai_role i, pr_source = Mode sv\<rparr>, s) else Inl ErrNotFound)" for t'
    by (simp add: Authenticate_def tt get nano_roundtrip [OF range] s_def Let_def)
  moreover have "ValidateCSRF s x \<longleftrightarrow> hashToken x = hashToken csrf" for x by (rule ValidateCSRF_iff) (simp add: s_def)
  moreover have "s \<in> set (ad_sessions db')" by (simp add: db')
  ultimately show ?thesis by (intro bexI [of _ s]) (simp_all add: r)
qed

lemma example_session:
  "\<exists>i r db'. createLoginSession example_service 0 example_draw i ''/'' example_staff = (Inr r, db')
     \<and> identity_of (aw_id (ai_workspace i)) (au_id (ai_user i)) example_staff = Some i"
proof -
  define i :: auth_identity where "i = \<lparr>ai_user = \<lparr>au_id = 2, au_email = ''ann@x.org'', au_name = ''Ann'', au_issuer = ''iss'', au_subject = ''ann''\<rparr>,
     ai_workspace = \<lparr>aw_id = 1, aw_name = ''Traio'', aw_slug = ''default''\<rparr>, ai_role = ''admin''\<rparr>"
  have who: "identity_of (aw_id (ai_workspace i)) (au_id (ai_user i)) example_staff = Some i"
    unfolding example_staff_rows i_def by code_simp
  have kp: "known_parents (aw_id (ai_workspace i)) (au_id (ai_user i)) example_staff = Inr ()"
    using identity_of_Some(1,2) [OF who] by (simp add: known_parents_def)
  have none: "ad_sessions example_staff = []" by (simp add: example_staff_rows)
  have "\<not> isl (fst (createLoginSession example_service 0 example_draw i ''/'' example_staff))"
    by (simp add: createLoginSession_def then_call_def pure_call_def fails_as_def randomToken_def example_draw_def CreateAuthSession_def
        Let_def kp none)
  moreover obtain x db' where "createLoginSession example_service 0 example_draw i ''/'' example_staff = (x, db')" by fastforce
  ultimately show ?thesis using who by (cases x) auto
qed

lemma example_end: "four_digit (day_of (0 + ac_session_ttl (sv_config example_service)))"
  by code_simp

lemma login_session_lifetime_witness:
  "\<exists>(r :: login_result) db'. fst (Authenticate example_service 1 (lr_session r) db') \<noteq> Inl ErrNotFound \<and> lr_expires r = 43200000000000"
proof -
  obtain i r db' where "createLoginSession example_service 0 example_draw i ''/'' example_staff = (Inr r, db')"
    "identity_of (aw_id (ai_workspace i)) (au_id (ai_user i)) example_staff = Some i" using example_session by blast
  moreover have "example_draw 0 \<noteq> Some []" by (simp add: example_draw_def)
  ultimately obtain s where s: "lr_expires r = 0 + ac_session_ttl (sv_config example_service)"
    "fst (Authenticate example_service 1 (lr_session r) db') = (if 1 < lr_expires r
       then Inr (\<lparr>pr_user = au_id (ai_user i), pr_workspace = aw_id (ai_workspace i), pr_email = au_email (ai_user i),
           pr_name = au_name (ai_user i), pr_role = ai_role i, pr_source = Mode example_service\<rparr>, s) else Inl ErrNotFound)"
    using login_session_lifetime [OF _ _ _ example_end] by blast
  have "0 + ac_session_ttl (sv_config example_service) = 43200000000000" by code_simp
  with s(1) have e: "lr_expires r = 43200000000000" by simp
  with s(2) have "fst (Authenticate example_service 1 (lr_session r) db') \<noteq> Inl ErrNotFound" by simp
  with e show ?thesis by blast
qed

lemma role_after_change: "role_in w u ms = Some r \<Longrightarrow> role_in w u (with_role w u role ms) = Some role"
  by (induction ms) (auto simp: role_in_def with_role_def split: if_splits)

abbreviation principal_for :: "auth_service \<Rightarrow> auth_identity \<Rightarrow> principal" where
  "principal_for sv i \<equiv> \<lparr>pr_user = au_id (ai_user i), pr_workspace = aw_id (ai_workspace i), pr_email = au_email (ai_user i),
     pr_name = au_name (ai_user i), pr_role = ai_role i, pr_source = Mode sv\<rparr>"

lemma GetAuthSession_Inr:
  "GetAuthSession h db = Inr (i, s) \<longleftrightarrow>
     find (\<lambda>x. as_token x = h) (ad_sessions db) = Some s \<and> identity_of (as_workspace s) (as_user s) db = Some i"
  by (auto simp: GetAuthSession_def split: option.splits)

lemma Authenticate_Inr:
  "fst (Authenticate sv t raw db) = Inr (p, s) \<longleftrightarrow> trim_space raw \<noteq> [] \<and>
     (\<exists>i e. GetAuthSession (hashToken raw) db = Inr (i, s) \<and> parse_rfc3339 (as_expires s) = Some e \<and> t < e \<and> p = principal_for sv i)"
  by (cases "GetAuthSession (hashToken raw) db") (auto simp: Authenticate_def Let_def split: if_splits)

text \<open>C30: A session speaks for its user only as long as the user is a member: what authenticates is a session that has not
  ended, with the role of the membership at that moment. A change of role holds from the next request on, and after a
  logout, or once the member is removed, no request is authenticated by it.\<close>

theorem session_follows_membership:
  assumes "fst (Authenticate sv t raw db) = Inr (p, s)"
  shows "s \<in> set (ad_sessions db) \<and> as_token s = hashToken raw \<and> (\<exists>e. parse_rfc3339 (as_expires s) = Some e \<and> t < e)
    \<and> pr_user p = as_user s \<and> pr_workspace p = as_workspace s \<and> member_role (pr_workspace p) (pr_user p) db = Some (pr_role p)
    \<and> fst (Authenticate sv t raw (set_role (pr_workspace p) (pr_user p) role db)) = Inr (p\<lparr>pr_role := role\<rparr>, s)
    \<and> fst (Authenticate sv t' raw (Logout raw db)) = Inl ErrNotFound
    \<and> (\<forall>p' s'. fst (Authenticate sv t' raw' (remove_member (pr_workspace p) (pr_user p) db)) = Inr (p', s') \<longrightarrow>
         (pr_workspace p', pr_user p') \<noteq> (pr_workspace p, pr_user p))"
proof -
  from assms obtain i e where g: "GetAuthSession (hashToken raw) db = Inr (i, s)" and p: "p = principal_for sv i"
    and e: "parse_rfc3339 (as_expires s) = Some e" "t < e" "trim_space raw \<noteq> []" unfolding Authenticate_Inr by blast
  note f = g [unfolded GetAuthSession_Inr]
  note ii = identity_of_Some [OF conjunct2 [OF f]]
  let ?db = "set_role (pr_workspace p) (pr_user p) role db"
  have "member_role (as_workspace s) (as_user s) ?db = Some role"
    using ii by (simp add: p member_role_in set_role_members role_after_change)
  then have "identity_of (as_workspace s) (as_user s) ?db = Some (i\<lparr>ai_role := role\<rparr>)"
    using ii(1,2) by (simp add: identity_of_def find_user_def find_workspace_def set_role_members)
  then have "GetAuthSession (hashToken raw) ?db = Inr (i\<lparr>ai_role := role\<rparr>, s)"
    using f by (simp add: GetAuthSession_Inr set_role_members)
  with e have "fst (Authenticate sv t raw ?db) = Inr (p\<lparr>pr_role := role\<rparr>, s)" unfolding Authenticate_Inr p by fastforce
  moreover have "fst (Authenticate sv t' raw (Logout raw db)) = Inl ErrNotFound"
  proof -
    have "raw \<noteq> []" using e(3) by auto
    then have "find (\<lambda>x. as_token x = hashToken raw) (ad_sessions (Logout raw db)) = None"
      by (auto simp: Logout_def DeleteAuthSession_def find_None_iff)
    then show ?thesis using e(3) by (simp add: Authenticate_def GetAuthSession_def)
  qed
  moreover have "(pr_workspace p', pr_user p') \<noteq> (pr_workspace p, pr_user p)"
    if "fst (Authenticate sv t' raw' (remove_member (pr_workspace p) (pr_user p) db)) = Inr (p', s')" for p' s'
  proof -
    from that obtain i' where g': "GetAuthSession (hashToken raw') (remove_member (pr_workspace p) (pr_user p) db) = Inr (i', s')"
      "p' = principal_for sv i'" unfolding Authenticate_Inr by blast
    note f' = g'(1) [unfolded GetAuthSession_Inr]
    from identity_of_Some [OF conjunct2 [OF f']] have "pr_workspace p' = as_workspace s'" "pr_user p' = as_user s'" by (simp_all add: g'(2))
    moreover from found_in [OF conjunct1 [OF f']] have "(as_workspace s', as_user s') \<noteq> (pr_workspace p, pr_user p)"
      by (auto simp: remove_member_def)
    ultimately show ?thesis by simp
  qed
  moreover from found_in [OF conjunct1 [OF f]] have "s \<in> set (ad_sessions db)" "as_token s = hashToken raw" by simp_all
  ultimately show ?thesis using e ii by (simp add: p)
qed

lemma session_follows_membership_witness:
  "\<exists>raw db. fst (Authenticate example_service 0 raw (Logout raw db)) = Inl ErrNotFound \<and> (\<exists>p s. fst (Authenticate example_service 0 raw db) = Inr (p, s))"
proof -
  obtain i r db' where "createLoginSession example_service 0 example_draw i ''/'' example_staff = (Inr r, db')"
    "identity_of (aw_id (ai_workspace i)) (au_id (ai_user i)) example_staff = Some i" using example_session by blast
  moreover have "example_draw 0 \<noteq> Some []" by (simp add: example_draw_def)
  ultimately obtain s where s: "lr_expires r = 0 + ac_session_ttl (sv_config example_service)"
    "fst (Authenticate example_service 0 (lr_session r) db') = (if 0 < lr_expires r then Inr (principal_for example_service i, s) else Inl ErrNotFound)"
    using login_session_lifetime [OF _ _ _ example_end] by blast
  have "0 + ac_session_ttl (sv_config example_service) = 43200000000000" by code_simp
  with s have a: "fst (Authenticate example_service 0 (lr_session r) db') = Inr (principal_for example_service i, s)" by simp
  from session_follows_membership [OF a] show ?thesis using a by blast
qed

section \<open>The address to return to\<close>

lemma set_tl_drop: "set (tl (drop n s)) \<subseteq> set s"
  by (metis drop_Suc set_drop_subset tl_drop)

lemma cut_subset: "cut d s = (a, b) \<Longrightarrow> set a \<subseteq> set s \<and> (\<forall>r. b = Some r \<longrightarrow> set r \<subseteq> set s)"
  using set_tl_drop [of _ s] by (auto simp: cut_def Let_def dest: set_takeWhileD split: if_splits)

lemma get_scheme_subset:
  assumes "get_scheme s = Some (a, r)"
  shows "set r \<subseteq> set s"
proof -
  from assms have "r = s \<or> (\<exists>n. r = tl (drop n s))" by (auto simp: get_scheme_def Let_def split: if_splits)
  with set_tl_drop [of _ s] show ?thesis by auto
qed

text \<open>A reference that is parsed is one without a scheme whose parts are parts of the text, or nothing of it is kept.\<close>

lemma reference_parts:
  assumes "url_of_reference s = Some u"
  shows "\<not> list_ex control_byte s \<and> (url_raw_path u = [] \<and> url_query u = []
    \<or> (\<exists>h rest q f. relative_url h rest q f = Some u \<and> set rest \<subseteq> set s \<and> set q \<subseteq> set s))"
proof -
  have n: "\<not> list_ex control_byte s" using assms by (auto simp: url_of_reference_def split: if_splits)
  show ?thesis
  proof (cases "s = ''*''")
    case True
    with assms n show ?thesis by (auto simp: url_of_reference_def split: if_splits)
  next
    case False
    with assms n obtain scheme rest where g: "get_scheme s = Some (scheme, rest)" by (auto simp: url_of_reference_def split: option.splits)
    obtain path tail where c: "cut (CHR ''?'') rest = (path, tail)" by fastforce
    define q where "q = (case tail of None \<Rightarrow> [] | Some q \<Rightarrow> q)"
    have sub: "set path \<subseteq> set s" "set q \<subseteq> set s"
      using get_scheme_subset [OF g] cut_subset [OF c] by (auto simp: q_def split: option.splits)
    note u = assms [unfolded url_of_reference_def g c Let_def option.case prod.case, folded q_def]
    show ?thesis
    proof (cases "scheme = []")
      case True
      from u n False True consider "relative_url [] path q (tail = Some []) = Some u"
        | h k where "relative_url h (drop k path) q (tail = Some []) = Some u"
        by (auto split: if_splits option.splits)
      then show ?thesis using n sub by cases (blast, meson order.trans set_drop_subset)
    next
      case False
      with u n \<open>s \<noteq> ''*''\<close> show ?thesis by auto
    qed
  qed
qed

lemma reference_bytes:
  assumes "url_of_reference s = Some u"
  shows "\<forall>c\<in>set (url_raw_path u) \<union> set (url_query u). \<not> control_byte c"
proof -
  from reference_parts [OF assms] have n: "\<forall>c\<in>set s. \<not> control_byte c" by (simp add: list_ex_iff)
  have "set (url_raw_path u) \<subseteq> set rest \<and> url_query u = q" if "relative_url h rest q f = Some u" for h rest q f
    using that by (auto simp: relative_url_def split: if_splits)
  with reference_parts [OF assms] have "set (url_raw_path u) \<union> set (url_query u) \<subseteq> set s" by fastforce
  with n show ?thesis by blast
qed

lemma escaped_bytes: "c \<in> set (escape_path p) \<Longrightarrow> \<not> control_byte c"
proof -
  have p: "\<not> control_byte c" if "path_char c" for c
    using that by (auto simp: path_char_def unreserved_def control_byte_def Let_def)
  have "upper_hex (n mod 16) \<in> set ''0123456789ABCDEF''" for n
  proof -
    have "list_all (\<lambda>d. upper_hex d \<in> set ''0123456789ABCDEF'') [0..<16]" by code_simp
    moreover have "n mod 16 \<in> set [0..<16]" by simp
    ultimately show ?thesis unfolding list_all_iff by blast
  qed
  note h = this
  have "upper_hex (of_char d div 16) \<in> set ''0123456789ABCDEF''" for d :: char
    using h [of "of_char d div 16"] byte_parts(2) [of d] by simp
  note h16 = this
  have plain: "list_all (\<lambda>c. \<not> control_byte c) (CHR ''%'' # ''0123456789ABCDEF'')" by code_simp
  have "\<not> control_byte c" if "c \<in> set (percent d)" for c d
  proof -
    from that have "c \<in> set (CHR ''%'' # ''0123456789ABCDEF'')"
      using h16 [of d] h [of "of_char d"] by (metis list.set_intros(1,2) percent_def set_ConsD empty_iff list.set(1))
    with plain show ?thesis unfolding list_all_iff by blast
  qed
  with p show "c \<in> set (escape_path p) \<Longrightarrow> ?thesis" by (auto simp: escape_path_def split: if_splits)
qed

text \<open>C31: The address to which a login returns is on this site: a path that begins with one slash and no second slash or
  backslash after it, or a relative name that begins with an escape; it holds no control byte, so no header can be
  ended with it.\<close>

theorem return_target_stays_here:
  "(\<exists>r. safeReturnTo v = CHR ''/'' # r \<and> (r = [] \<or> hd r \<notin> {CHR ''/'', CHR 0x5C}) \<or> safeReturnTo v = CHR ''%'' # r)
   \<and> (\<forall>c\<in>set (safeReturnTo v). \<not> control_byte c)"
proof (cases "safeReturnTo v = ''/''")
  case True
  then show ?thesis by (simp add: control_byte_def)
next
  case False
  then obtain u where u: "url_parse (trim_space v) = Some u" and p: "prefix ''/'' (url_path u)" "\<not> prefix ''//'' (url_path u)"
    and r: "safeReturnTo v = request_uri u"
    by (auto simp: safeReturnTo_def split: option.splits if_splits)
  from u obtain s where s: "url_of_reference s = Some u" by (auto simp: url_parse_def split: prod.splits option.splits if_splits)
  from p obtain q where q: "url_path u = CHR ''/'' # q" "\<not> prefix ''/'' q" by (cases "url_path u") auto
  note shape = escaped_path_shape [OF q]
  then have ne: "escaped_path u \<noteq> []" by auto
  with request_uri_extends [of u] obtain t where t: "request_uri u = escaped_path u @ t" "t = [] \<or> hd t = CHR ''?''" by auto
  have "\<exists>r. request_uri u = CHR ''/'' # r \<and> (r = [] \<or> hd r \<notin> {CHR ''/'', CHR 0x5C}) \<or> request_uri u = CHR ''%'' # r"
    using shape
  proof (elim exE disjE conjE)
    fix r assume "escaped_path u = CHR ''/'' # r" "r = []"
    with t show ?thesis by auto
  next
    fix r assume "escaped_path u = CHR ''/'' # r" "hd r \<notin> {CHR ''/'', CHR 0x5C}"
    with t show ?thesis by (cases r) auto
  next
    fix r :: string assume "hd (escaped_path u) = CHR ''%''"
    with t ne show ?thesis by (cases "escaped_path u") auto
  qed
  moreover have "\<forall>c\<in>set (request_uri u). \<not> control_byte c"
  proof -
    have e: "\<forall>c\<in>set (escaped_path u). \<not> control_byte c"
      using reference_bytes [OF s] escaped_bytes by (auto simp: escaped_path_def control_byte_def)
    have "set (request_uri u) \<subseteq> set (escaped_path u) \<union> {CHR ''/'', CHR ''?''} \<union> set (url_query u)"
      by (auto simp: request_uri_def Let_def)
    moreover have "\<not> control_byte (CHR ''/'')" "\<not> control_byte (CHR ''?'')" by (simp_all add: control_byte_def)
    ultimately show ?thesis using e reference_bytes [OF s] by blast
  qed
  ultimately show ?thesis by (simp add: r)
qed

theorem return_target_stays_here_witness:
  "safeReturnTo ''/orders?a=1'' = ''/orders?a=1'' \<and> safeReturnTo ''//evil'' = ''/''
   \<and> list_all (\<lambda>c. \<not> control_byte c) (safeReturnTo ''/orders?a=1'')"
proof (intro conjI)
  show "safeReturnTo ''/orders?a=1'' = ''/orders?a=1''" "safeReturnTo ''//evil'' = ''/''" by code_simp+
  show "list_all (\<lambda>c. \<not> control_byte c) (safeReturnTo ''/orders?a=1'')"
    using return_target_stays_here [of "''/orders?a=1''"] unfolding list_all_iff by (rule conjunct2)
qed

section \<open>Stored passwords\<close>

lemma nat_str_split: "nat_str n = hd (nat_str n) # tl (nat_str n)" "is_digit (hd (nat_str n))"
  using nat_str_digits [of n] nat_str_nonempty [of n] by (cases "nat_str n", auto)+

lemma scan_spaces_digit:
  assumes "is_digit (hd s)" "s \<noteq> []"
  shows "scan_spaces s = s"
  unfolding scan_spaces_def
proof (rule trim_front_id)
  fix p assume p: "p \<in> set (filter (\<lambda>r. r \<noteq> [CHR 0x0A]) space_runes)" "p \<noteq> []"
  then have "p \<in> set space_runes" by simp
  with space_runes_not_printable p(2) have "\<not> printable (hd p)" unfolding list_all_iff by auto
  moreover have "printable (hd s)" using assms(1) by (rule digit_printable)
  ultimately show "\<not> prefix p s" using p(2) assms(2) by (cases p; cases s) auto
qed

lemma scan_number:
  assumes "r = [] \<or> \<not> is_digit (hd r)"
  shows "scan_digits (nat_str n @ r) = Some (n, r)" "scan_spaces (nat_str n @ r) = nat_str n @ r"
proof -
  have t: "takeWhile is_digit r = []" using assms by (cases r) auto
  have "takeWhile is_digit (nat_str n @ r) = nat_str n"
    using nat_str_digits [of n] t by (simp add: takeWhile_append2 list_all_iff)
  then show "scan_digits (nat_str n @ r) = Some (n, r)" by (simp add: scan_digits_def Let_def)
  show "scan_spaces (nat_str n @ r) = nat_str n @ r"
    by (rule scan_spaces_digit) (use nat_str_split [of n] in \<open>auto simp: hd_append\<close>)
qed

lemma scan_uint_number: "n < 2 ^ w \<Longrightarrow> r = [] \<or> \<not> is_digit (hd r) \<Longrightarrow> scan_uint w (nat_str n @ r) = Some (n, r)"
  by (simp add: scan_uint_def scan_number)

lemma scan_version: "scan_int64 (nat_str argon_version) = Some (int argon_version, [])"
  by code_simp

lemma scan_text_append: "scan_text w (w @ s) = Some s"
  by (simp add: scan_text_def)

lemma scan_costs_text:
  assumes "m < 2 ^ 32" "i < 2 ^ 32" "p < 2 ^ 8"
  shows "scan_costs (''m='' @ nat_str m @ '',t='' @ nat_str i @ '',p='' @ nat_str p) = Some (m, i, p)"
proof -
  have "scan_uint 8 (nat_str p) = Some (p, [])" using scan_uint_number [OF assms(3), of "[]"] by simp
  moreover have "scan_uint 32 (nat_str i @ '',p='' @ nat_str p) = Some (i, '',p='' @ nat_str p)"
    by (rule scan_uint_number [OF assms(2)]) (simp add: is_digit_def)
  moreover have "scan_uint 32 (nat_str m @ '',t='' @ nat_str i @ '',p='' @ nat_str p) = Some (m, '',t='' @ nat_str i @ '',p='' @ nat_str p)"
    by (rule scan_uint_number [OF assms(1)]) (simp add: is_digit_def)
  ultimately show ?thesis by (simp add: scan_costs_def scan_text_append del: append.simps)
qed

lemma no_dollar: "CHR ''$'' \<notin> set (base64 std_alphabet s)" "CHR ''$'' \<notin> set (nat_str n)"
proof -
  have "std_alphabet ! x \<noteq> CHR ''$''" if "x \<in> set (sextets s)" for x
  proof -
    have "std_alphabet ! x \<in> set std_alphabet" using sextets_small [OF that] alphabets(1) by (simp add: alphabet64_def)
    moreover have "CHR ''$'' \<notin> set std_alphabet" by code_simp
    ultimately show ?thesis by metis
  qed
  then show "CHR ''$'' \<notin> set (base64 std_alphabet s)" unfolding base64_sextets set_map by fastforce
  show "CHR ''$'' \<notin> set (nat_str n)" using nat_str_digits [of n] by (auto simp: list_all_iff is_digit_def)
qed

lemma encoded_parts:
  "split_on (CHR ''$'') (encodePassword argon pw salt m i p) =
     [[], ''argon2id'', ''v='' @ nat_str argon_version, ''m='' @ nat_str m @ '',t='' @ nat_str i @ '',p='' @ nat_str p,
      base64 std_alphabet salt, base64 std_alphabet (argon pw salt i m p passwordKeyLength)]"
proof -
  let ?d = "CHR ''$''"
  have e: "encodePassword argon pw salt m i p = [] @ ?d # ''argon2id'' @ ?d # (''v='' @ nat_str argon_version) @ ?d #
      (''m='' @ nat_str m @ '',t='' @ nat_str i @ '',p='' @ nat_str p) @ ?d # base64 std_alphabet salt @ ?d #
      base64 std_alphabet (argon pw salt i m p passwordKeyLength)"
    by (simp add: encodePassword_def)
  show ?thesis unfolding e
    by (subst split_on_append, (simp add: no_dollar; fail))+ (simp add: split_on_no_sep no_dollar)
qed

text \<open>C32: A stored password hash, read back, accepts exactly the passwords from which the same key is derived: the hash written
  for a password, with costs and a salt within the bounds that are checked, accepts that password.\<close>

theorem stored_password_roundtrip:
  assumes "8 * 1024 \<le> m" "m \<le> 256 * 1024" "1 \<le> i" "i \<le> 10" "1 \<le> p" "p \<le> 8" "8 \<le> length salt" "length salt \<le> 64"
    and "length (argon pw salt i m p passwordKeyLength) = passwordKeyLength"
  shows "verifyPassword argon (encodePassword argon pw salt m i p) x
    \<longleftrightarrow> argon x salt i m p passwordKeyLength = argon pw salt i m p passwordKeyLength"
proof -
  have "scan_costs (''m='' @ nat_str m @ '',t='' @ nat_str i @ '',p='' @ nat_str p) = Some (m, i, p)"
    using assms(1-6) by (intro scan_costs_text) auto
  moreover have "Option.bind (scan_text ''v='' (''v='' @ nat_str argon_version)) scan_int64 = Some (int argon_version, [])"
    by (simp only: scan_text_append Option.bind.simps scan_version)
  ultimately show ?thesis
    using assms unfolding verifyPassword_def encoded_parts Let_def
    by (simp add: unbase64_base64 [OF alphabets(1)] passwordKeyLength_def del: append.simps)
qed

text \<open>A stand-in for the key derivation, of the right length.\<close>

definition example_argon :: argon2 where
  "example_argon pw salt i m p n = take n (pw @ replicate n (CHR ''x''))"

lemma stored_password_roundtrip_witness:
  "verifyPassword example_argon (encodePassword example_argon ''secret'' ''0123456789abcdef'' 65536 3 2) ''secret''"
  by (subst stored_password_roundtrip) (simp_all add: example_argon_def passwordKeyLength_def)

section \<open>The limiter of failed logins\<close>

lemma map_of_filter_values:
  "distinct (map fst l) \<Longrightarrow> map_of (filter (\<lambda>(_, v). P v) l) k = (case map_of l k of None \<Rightarrow> None | Some v \<Rightarrow> if P v then Some v else None)"
proof (induction l)
  case (Cons x l)
  obtain a b where x: "x = (a, b)" by (cases x)
  from Cons.prems have "map_of l a = None" by (auto simp: x map_of_eq_None_iff)
  with Cons show ?case by (auto simp: x split: option.splits)
qed simp

abbreviation login_window :: int where "login_window \<equiv> 300 * ns_per_second"

lemma window_positive: "0 < login_window"
  by (simp add: ns_per_second_def)

text \<open>The attempts of a peer that still count at a time.\<close>

definition current :: "instant \<Rightarrow> string \<Rightarrow> limiter \<Rightarrow> login_attempt option" where
  "current t k l = (case map_of l k of None \<Rightarrow> None | Some a \<Rightarrow> if t < la_end a then Some a else None)"

lemma allowed_current: "fst (allowed t k l) \<longleftrightarrow> (case current t k l of None \<Rightarrow> True | Some a \<Rightarrow> la_count a < 5)"
  by (auto simp: allowed_def current_def split: option.splits)

lemma failed_distinct: "distinct (map fst l) \<Longrightarrow> distinct (map fst (failed t k l))"
  by (auto simp: failed_def Let_def distinct_update distinct_map_filter)

lemma failed_current:
  assumes "distinct (map fst l)" "u \<le> t"
  shows "current u k (failed u k l) = Some (case current u k l of None \<Rightarrow> \<lparr>la_count = 1, la_end = u + login_window\<rparr>
      | Some a \<Rightarrow> a\<lparr>la_count := la_count a + 1\<rparr>)"
    and "k' \<noteq> k \<Longrightarrow> current t k' (failed u k l) = current t k' l"
proof -
  define a where "a = (case current u k l of None \<Rightarrow> \<lparr>la_count = 0, la_end = u + login_window\<rparr> | Some a \<Rightarrow> a)"
  define m where "m = AList.update k (a\<lparr>la_count := la_count a + 1\<rparr>) l"
  have f: "failed u k l = (if length m > 2048 then filter (\<lambda>(_, v). u < la_end v) m else m)"
    by (auto simp: failed_def Let_def m_def a_def current_def split: option.splits)
  have d: "distinct (map fst m)" by (simp add: m_def assms(1) distinct_update)
  have e: "u < la_end a" using window_positive by (auto simp: a_def current_def split: option.splits)
  show "current u k (failed u k l) = Some (case current u k l of None \<Rightarrow> \<lparr>la_count = 1, la_end = u + login_window\<rparr>
      | Some a \<Rightarrow> a\<lparr>la_count := la_count a + 1\<rparr>)"
  proof -
    have "map_of m k = Some (a\<lparr>la_count := la_count a + 1\<rparr>)" by (simp add: m_def)
    then have "current u k (failed u k l) = Some (a\<lparr>la_count := la_count a + 1\<rparr>)"
      using e by (simp add: current_def f map_of_filter_values [OF d])
    then show ?thesis by (simp add: a_def split: option.splits)
  qed
  assume "k' \<noteq> k"
  then have "map_of m k' = map_of l k'" by (simp add: m_def)
  then have "map_of (failed u k l) k' = map_of l k' \<or> map_of (failed u k l) k' = None \<and> (\<forall>v. map_of l k' = Some v \<longrightarrow> la_end v \<le> u)"
    by (auto simp: f map_of_filter_values [OF d] split: option.splits)
  then show "current t k' (failed u k l) = current t k' l"
    using assms(2) by (elim disjE) (cases "map_of l k'"; auto simp: current_def)+
qed

lemma current_later: "current u k l = Some a \<Longrightarrow> u \<le> t \<Longrightarrow> current t k l = (if t < la_end a then Some a else None)"
  by (auto simp: current_def split: option.splits if_splits)

fun ascending :: "instant list \<Rightarrow> bool" where
  "ascending (a # b # ts) \<longleftrightarrow> a \<le> b \<and> ascending (b # ts)"
| "ascending _ \<longleftrightarrow> True"

lemma ascending_bounds: "ascending (y # ys @ [t]) \<Longrightarrow> y \<le> t"
proof (induction ys arbitrary: y)
  case (Cons a ys)
  from Cons.prems have "y \<le> a" "ascending (a # ys @ [t])" by simp_all
  with Cons.IH [of a] show ?case by simp
qed simp

lemma failures_counted:
  assumes "ascending (u # ts @ [t])" "\<forall>x\<in>set ts. x < e" "distinct (map fst l)" "current u k l = Some \<lparr>la_count = n, la_end = e\<rparr>"
  shows "current t k (fold (\<lambda>x. failed x k) ts l) = (if t < e then Some \<lparr>la_count = n + int (length ts), la_end = e\<rparr> else None)
    \<and> (k' \<noteq> k \<longrightarrow> current t k' (fold (\<lambda>x. failed x k) ts l) = current t k' l)"
  using assms
proof (induction ts arbitrary: u l n)
  case Nil
  then show ?case using current_later by auto
next
  case (Cons x ts)
  have le: "u \<le> x" "x \<le> t" using Cons.prems(1) ascending_bounds [of x ts t] by simp_all
  have c: "current x k l = Some \<lparr>la_count = n, la_end = e\<rparr>" using current_later [OF Cons.prems(4) le(1)] Cons.prems(2) by simp
  have "current x k (failed x k l) = Some \<lparr>la_count = n + 1, la_end = e\<rparr>" using failed_current(1) [OF Cons.prems(3) order.refl, of x k] c by simp
  from Cons.IH [OF _ _ failed_distinct [OF Cons.prems(3)] this] Cons.prems(1,2) failed_current(2) [OF Cons.prems(3) le(2)]
  show ?case by (auto simp: algebra_simps)
qed

text \<open>Five failed logins of a peer within five minutes of the first lock it out until those five minutes are over, fewer do
  not, and afterwards it may try again; nobody else is affected.\<close>

theorem five_failures_lock_out:
  assumes "distinct (map fst l)" "current t0 k l = None" "ascending (t0 # ts @ [t])" "\<forall>u\<in>set ts. u < t0 + login_window"
  shows "(fst (allowed t k (fold (\<lambda>u. failed u k) (t0 # ts) l)) \<longleftrightarrow> t0 + login_window \<le> t \<or> length ts < 4)
    \<and> (k' \<noteq> k \<longrightarrow> fst (allowed t k' (fold (\<lambda>u. failed u k) (t0 # ts) l)) = fst (allowed t k' l))"
proof -
  have le: "t0 \<le> t" by (rule ascending_bounds [OF assms(3)])
  have "current t0 k (failed t0 k l) = Some \<lparr>la_count = 1, la_end = t0 + login_window\<rparr>"
    using failed_current(1) [OF assms(1) order.refl, of t0 k] assms(2) by simp
  from failures_counted [OF assms(3,4) failed_distinct [OF assms(1)] this, of k'] failed_current(2) [OF assms(1) le, of k' k]
  show ?thesis by (auto simp: allowed_current)
qed

lemma five_failures_lock_out_witness:
  "\<not> fst (allowed 9 ''10.0.0.1'' (fold (\<lambda>u. failed u ''10.0.0.1'') (0 # [1, 2, 3, 4]) []))"
  using five_failures_lock_out [of "[]" 0 "''10.0.0.1''" "[1, 2, 3, 4]" 9] by (simp add: current_def ns_per_second_def)

end
