(* ===== verification/Spec2Isabelle.thy ===== *)
theory Spec2Isabelle
  imports Performance Alpaca Ibkr_Orders Review_Facts Reconcile_Facts Login_Facts
begin

text \<open>
  traio: account history, performance, orders and access of a brokerage companion.

  The program. traio is a Go server. It connects to brokers (IBKR, Alpaca, Schwab), stores what they report about
  accounts, derives a ledger of account activities from it, computes daily performance from the ledger, transmits
  orders, and serves all of it over HTTP to the members of a workspace. The parts call each other in this direction:

    \<^item> the API (\<open>internal/api\<close>) authenticates a request (\<open>internal/auth\<close> over \<open>store/auth.go\<close>) and calls a service;
    \<^item> the history service (\<open>internal/history\<close>) puts jobs into a queue in the database (\<open>store/activity_jobs.go\<close>);
      a worker leases a job, fetches raw records, and normalises them into the ledger (\<open>store/activity_records.go\<close>),
      resolving instruments on the way (\<open>store/instruments.go\<close>) and marking performance to be rebuilt;
    \<^item> the performance service (\<open>internal/performance\<close>) reads the ledger and the market data and runs the daily
      calculator; amounts are exact decimals in text (\<open>internal/activity/decimal.go\<close>);
    \<^item> the trading service (\<open>internal/broker\<close>) validates an order, asks the adapter of the account for a preview, and
      lets a submission through a session gate that allows one transmission for one client order id.

  Where it is modelled. Every definition carries the name of the function, type or table it translates; records have the
  fields of the structs, tables are lists of rows in insertion order, a transaction that fails leaves the tables as they
  were, errors are values of a sum type with the texts of the code. One theory models one part:

    \<^item> \<open>Prelude\<close>: Go strings as byte strings, \<open>strings\<close> and \<open>strconv\<close>, the result type and its combinators; \<open>Calendar\<close>:
      civil dates and \<open>time.Parse\<close>/\<open>Format\<close>; \<open>Wire\<close>: 64-bit integers, floats and JSON values that cross the boundary;
      \<open>Json\<close>: \<open>json.Valid\<close>, \<open>json.Compact\<close>; \<open>Sha\<close>: SHA-256; \<open>Web\<close>: base64, hexadecimal text, URLs, hosts.
    \<^item> \<open>Decimal\<close> (\<open>activity/decimal.go\<close>) and \<open>Activity\<close> (\<open>activity/types.go\<close>, \<open>validation.go\<close>, \<open>snapshots.go\<close>): the records of
      an account, their validation and the comparison of a ledger with the balances a broker reports.
    \<^item> \<open>Calculator\<close> (\<open>performance/calculator.go\<close>) and \<open>Performance\<close> (\<open>performance/service.go\<close>, \<open>market_data.go\<close>).
    \<^item> \<open>Trading\<close> (\<open>broker/trading.go\<close>, \<open>order_session.go\<close>, \<open>order_workflow.go\<close>), \<open>Alpaca\<close> (\<open>broker/alpaca\<close>) and \<open>Ibkr_Orders\<close>
      (\<open>broker/ibkr\<close>): the gate, the service and two adapters. What a broker answers is a function argument.
    \<^item> \<open>History_Jobs\<close> (\<open>store/activity_jobs.go\<close>), \<open>History_Schedule\<close> (\<open>history/service.go\<close>, \<open>scheduler.go\<close>), \<open>Instruments\<close>
      (\<open>store/instruments.go\<close>), \<open>History_Ledger\<close> and \<open>Ledger_Facts\<close> (\<open>store/activity_records.go\<close>), \<open>History_Review\<close> and
      \<open>Review_Facts\<close> (\<open>store/activity_resolution.go\<close>, \<open>ResolveHistoryIssue\<close>), \<open>History_Reconcile\<close> and \<open>Reconcile_Facts\<close>
      (\<open>store/activity_reconciliation.go\<close>).
    \<^item> \<open>Auth_Store\<close> (\<open>store/auth.go\<close>), \<open>Auth\<close> (\<open>internal/auth\<close>), \<open>Auth_Api\<close> (\<open>api/auth.go\<close>, the route table of
      \<open>api/router.go\<close>), \<open>Auth_Facts\<close> and \<open>Login_Facts\<close>.

  What is shown.

    \<^item> Decimals and activities: addition, subtraction and multiplication are exact or refused, never rounded; cash
      effects are the exact sums per currency; a validated activity is well formed and validation is idempotent; the
      reconciliation verdict is equality of the stated and the derived amounts.
    \<^item> Performance: each point of the calculation equals the valuation of the book that the ledger has on that day;
      replaying a day equals replaying the ledger up to it; a return exists only with all its evidence and the returns
      compound; what is missing is reported; the coverage of a range is decided exactly.
    \<^item> Orders: in every history of calls, with every behaviour of the broker, at most one transmission is made for a client
      order id; both adapters are instances of the locale \<open>order_client\<close> in which this is derived, and a well-behaved
      broker gets the order.
    \<^item> History: at most one live job for a source and connection, a superseded worker can write nothing, the job of a
      stopped worker is claimable again; windows partition a range; under every sequence of records and decisions the ledger is append-only and consistent,
      a record is booked once, a decision is made once and no later record undoes it,
      revisions are replaced for a stated reason, records with a common identity are one activity, and the rebuild mark
      is never after a changed leg; the verdict of a reconciliation is exact and a mismatch leaves an issue.
    \<^item> Access: a workspace keeps an owner, a session is valid from login to its end and for the current role of a member,
      secrets of a login are used once, a change without permission has no effect, the return target stays on the site,
      five failures lock an address out.

  Bounds and fuel. Loops of the code are structural recursions or \<open>function\<close>s with a proved measure; there is no fuel
  whose exhaustion a theorem would hide, except in \<open>Json\<close>, where the fuel is the length of the text and each step reads a
  byte. Integers are of unlimited size where the code cannot overflow, 64-bit ranges are checked where text is
  parsed (\<open>Wire\<close>), SHA-256 works on 32-bit words.

  Concurrency. A statement or transaction is one step; the operations of several goroutines and processes are arbitrary
  sequences of steps with a clock that does not run backwards. SQLite serialises write transactions; for PostgreSQL see
  \<open>Auth_Facts.overlapping_removals_leave_no_owner\<close>, which shows what happens without a lock on the counted rows.

  Not modelled.
    \<^item> Processes, configuration, secrets from outside, runtime files and locks, goroutines, HTTP transport and encoding
      of answers, websockets: effects of the operating system and of packages outside the repository.
    \<^item> The broker clients that translate the answers of one service into rows (Schwab, Alpaca history and market data,
      the IBKR gateway and Flex files), market data providers and their caches: the models take what they hand over.
    \<^item> Display data: portfolio snapshots and account projections, sums of floating point numbers for the screen.
    \<^item> Performance: the runs' progress rows, goroutines and cancellation; history service: the import handlers.
\<close>
end
